(* ===== verification/Prelude.thy ===== *)
theory Prelude
  imports Main "HOL-Library.Word" "HOL-Library.AList" "HOL-Library.List_Lexorder" "HOL-Library.Char_ord"
begin

text \<open>
  Shared vocabulary of the TRINCI core development: the machine integers of the Rust sources,
  byte strings, the \<open>?\<close> operator on results, the MessagePack value tree that the serde derives
  produce, and the generic facts on lists, association lists and words that the component
  theories use.

  A Rust \<open>String\<close> is its UTF-8 byte sequence, so it is a HOL \<open>string\<close> (a \<open>char\<close> is one byte)
  and \<open>len()\<close> is \<open>length\<close>.
\<close>

section \<open>Types\<close>

type_synonym u8 = "8 word"
type_synonym u16 = "16 word"
type_synonym i32 = "32 word"
type_synonym u32 = "32 word"
type_synonym u64 = "64 word"
type_synonym bytes = "u8 list"

text \<open>
  The data model of MessagePack: what \<open>rmp_serde::to_vec\<close> receives from a derived
  \<open>Serialize\<close> implementation. Structures are arrays without field names, an internally tagged
  enum puts its tag first, \<open>serde_bytes\<close> fields are binary strings, \<open>None\<close> is nil and
  \<open>Some x\<close> is \<open>x\<close>.
\<close>

datatype mp_value =
    MpNil
  | MpBool bool
  | MpUInt nat
  | MpStr string
  | MpBin bytes
  | MpArr "mp_value list"
  | MpMap "(string \<times> mp_value) list"

definition mp_u64 :: "u64 \<Rightarrow> mp_value" where
  "mp_u64 w = MpUInt (unat w)"

definition mp_u32 :: "u32 \<Rightarrow> mp_value" where
  "mp_u32 w = MpUInt (unat w)"

definition mp_option :: "('a \<Rightarrow> mp_value) \<Rightarrow> 'a option \<Rightarrow> mp_value" where
  "mp_option f x = (case x of None \<Rightarrow> MpNil | Some v \<Rightarrow> f v)"

text \<open>The largest \<open>u64\<close>, used by the sources as the height of ``the last block''.\<close>

definition u64_max :: u64 where
  "u64_max = 18446744073709551615"

text \<open>\<open>str::as_bytes\<close>.\<close>

definition str_bytes :: "string \<Rightarrow> bytes" where
  "str_bytes s = map of_char s"

text \<open>Rust's \<open>?\<close>: an error ends the computation, a value is passed on.\<close>

definition try_bind :: "'e + 'a \<Rightarrow> ('a \<Rightarrow> 'e + 'b) \<Rightarrow> 'e + 'b" where
  "try_bind r f = (case r of Inl e \<Rightarrow> Inl e | Inr x \<Rightarrow> f x)"

text \<open>\<open>BTreeMap\<close>: the entries in key order. \<open>get\<close> is \<open>map_of\<close>, \<open>iter().next_back()\<close> is the last
  entry.\<close>

fun bt_insert :: "'k::linorder \<Rightarrow> 'v \<Rightarrow> ('k \<times> 'v) list \<Rightarrow> ('k \<times> 'v) list" where
  "bt_insert k v [] = [(k, v)]"
| "bt_insert k v (e # m) =
     (if fst e < k then e # bt_insert k v m
      else if fst e = k then (k, v) # m
      else (k, v) # e # m)"

definition bt_remove :: "'k \<Rightarrow> ('k \<times> 'v) list \<Rightarrow> ('k \<times> 'v) list" where
  "bt_remove k m = filter (\<lambda>e. fst e \<noteq> k) m"

definition bt_last :: "('k \<times> 'v) list \<Rightarrow> ('k \<times> 'v) option" where
  "bt_last m = (if m = [] then None else Some (last m))"

definition bt_wf :: "('k::linorder \<times> 'v) list \<Rightarrow> bool" where
  "bt_wf m = sorted_wrt (<) (map fst m)"

text \<open>\<open>slice::chunks\<close>: a list cut into pieces of \<open>n\<close>, the last one possibly shorter.\<close>

fun chunks :: "nat \<Rightarrow> 'a list \<Rightarrow> 'a list list" where
  "chunks n [] = []"
| "chunks n (x # xs) = (if n = 0 then [] else take n (x # xs) # chunks n (drop n (x # xs)))"

section \<open>Collections\<close>

named_theorems frame_simps \<open>fields an operation leaves alone\<close>
named_theorems inv_intros \<open>operations that keep an invariant\<close>

section \<open>Results\<close>

lemma try_bind_simps [simp]:
  "try_bind (Inl e) f = Inl e"
  "try_bind (Inr x) f = f x"
  by (simp_all add: try_bind_def)

lemma try_bind_Inr_iff: "try_bind r f = Inr y \<longleftrightarrow> (\<exists>x. r = Inr x \<and> f x = Inr y)"
  by (cases r) auto

lemma try_bind_Inl_iff: "try_bind r f = Inl e \<longleftrightarrow> r = Inl e \<or> (\<exists>x. r = Inr x \<and> f x = Inl e)"
  by (cases r) auto

section \<open>Words\<close>

lemma unat_u64_max: "unat u64_max = 2 ^ 64 - 1"
  by (simp add: u64_max_def)

lemma u64_minus_1: "(- 1 :: u64) = u64_max"
  by (simp add: u64_max_def)

lemma unat_Suc_u64: "w \<noteq> u64_max \<Longrightarrow> unat (w + 1) = Suc (unat w)"
proof -
  assume "w \<noteq> u64_max"
  then have "w + 1 \<noteq> 0"
    by (metis add_diff_cancel_right' diff_0 u64_minus_1)
  then show ?thesis by (metis Suc_eq_plus1 add.commute unatSuc)
qed

lemma mp_u64_inj [simp]: "mp_u64 a = mp_u64 b \<longleftrightarrow> a = b"
  by (simp add: mp_u64_def word_unat_eq_iff)

lemma mp_u32_inj [simp]: "mp_u32 a = mp_u32 b \<longleftrightarrow> a = b"
  by (simp add: mp_u32_def word_unat_eq_iff)

section \<open>Ordered maps\<close>

lemma map_of_bt_insert [simp]: "map_of (bt_insert k v m) = (map_of m)(k \<mapsto> v)"
  by (induction m) (auto simp: fun_eq_iff)

lemma map_of_bt_remove [simp]: "map_of (bt_remove k m) = (map_of m)(k := None)"
  by (induction m) (auto simp: bt_remove_def fun_eq_iff)

lemma keys_bt_insert [simp]: "fst ` set (bt_insert k v m) = insert k (fst ` set m)"
  by (induction m) auto

lemma bt_wf_Nil [simp]: "bt_wf []"
  by (simp add: bt_wf_def)

lemma bt_wf_Cons: "bt_wf (e # m) \<longleftrightarrow> (\<forall>k \<in> fst ` set m. fst e < k) \<and> bt_wf m"
  by (auto simp: bt_wf_def)

lemma bt_wf_insert [simp]: "bt_wf m \<Longrightarrow> bt_wf (bt_insert k v m)"
  by (induction m) (auto simp: bt_wf_Cons not_less less_le dest: less_trans)

lemma bt_wf_remove [simp]: "bt_wf m \<Longrightarrow> bt_wf (bt_remove k m)"
  by (auto simp: bt_wf_def bt_remove_def sorted_wrt_map sorted_wrt_filter)

lemma bt_insert_above: "\<forall>j \<in> fst ` set m. j < k \<Longrightarrow> bt_insert k v m = m @ [(k, v)]"
  by (induction m) auto

lemma bt_last_append [simp]: "bt_last (m @ [e]) = Some e"
  by (simp add: bt_last_def)

lemma bt_last_None [simp]: "bt_last m = None \<longleftrightarrow> m = []"
  by (simp add: bt_last_def)

lemma bt_last_max:
  assumes "bt_wf m" and "bt_last m = Some (k, v)" and "j \<in> fst ` set m"
  shows "j \<le> k"
proof -
  from assms(2) obtain m' where m: "m = m' @ [(k, v)]"
    by (metis append_butlast_last_id bt_last_def option.distinct(1) option.inject)
  from assms(1,3) show ?thesis unfolding m bt_wf_def by (auto simp: sorted_wrt_append)
qed

section \<open>Lists and association lists\<close>

lemma alist_update_not_Nil [simp]: "AList.update k v xs \<noteq> []"
  by (cases xs) auto

lemma set_alist_update: "set (AList.update k v m) \<subseteq> insert (k, v) (set m)"
  by (induction m) (auto split: if_splits)

lemma alist_delete_Nil_iff: "AList.delete k xs = [] \<longleftrightarrow> set (map fst xs) \<subseteq> {k}"
  by (induction xs) (auto simp: AList.delete_eq)

lemma map_eq_imp_eq:
  "map f xs = map f ys \<Longrightarrow> (\<And>x y. x \<in> set xs \<Longrightarrow> y \<in> set ys \<Longrightarrow> f x = f y \<Longrightarrow> x = y) \<Longrightarrow> xs = ys"
proof (induction xs arbitrary: ys)
  case (Cons x xs)
  then show ?case by (cases ys) auto
qed simp

lemma map_fst_filter_subset: "set (map fst (filter P xs)) \<subseteq> set (map fst xs)"
  by auto

lemma list_all_map_upd: "list_all (\<lambda>h. m h \<noteq> None) hs \<Longrightarrow> list_all (\<lambda>h. (m(k \<mapsto> v)) h \<noteq> None) hs"
  by (auto simp: list_all_iff)

lemma concat_chunks: "n > 0 \<Longrightarrow> concat (chunks n xs) = xs"
  by (induction n xs rule: chunks.induct) (simp_all flip: append_Cons)

lemma chunks_bounds: "hs \<in> set (chunks n xs) \<Longrightarrow> hs \<noteq> [] \<and> length hs \<le> n"
  by (induction n xs rule: chunks.induct) (auto split: if_splits)

section \<open>Numbers as text\<close>

text \<open>\<open>Display\<close> of an unsigned number.\<close>

fun decimal :: "nat \<Rightarrow> string" where
  "decimal n = (if n < 10 then [char_of (48 + n)] else decimal (n div 10) @ [char_of (48 + n mod 10)])"

declare decimal.simps [simp del]

end
