(* ===== verification/Errors.thy ===== *)
theory Errors
  imports Prelude
begin

text \<open>
  \<^verbatim>\<open>src/error.rs\<close>: the error kinds, their strings, the \<open>Error\<close> structure with its optional
  source, and the serialization of both. A boxed \<open>dyn std::error::Error\<close> source is the text it
  displays; this is all the sources read of it.
\<close>

section \<open>Definitions\<close>

datatype error_kind =
    MalformedData
  | BadNetwork
  | InvalidSignature
  | DuplicatedUnconfirmedTx
  | DuplicatedConfirmedTx
  | TooLargeTx
  | DatabaseFault
  | WasmMachineFault
  | SmartContractFault
  | ResourceNotFound
  | InvalidContract
  | NotImplemented
  | Tpm2Error
  | WrongTxType
  | BrokenIntegrity
  | FuelError
  | Other

text \<open>The strings of \<open>error_kind_str\<close> with the \<open>Display\<close> match.\<close>

fun error_kind_str :: "error_kind \<Rightarrow> string" where
  "error_kind_str MalformedData = ''malformed data''"
| "error_kind_str BadNetwork = ''bad network''"
| "error_kind_str InvalidSignature = ''invalid signature''"
| "error_kind_str DuplicatedUnconfirmedTx = ''duplicated unconfirmed transaction''"
| "error_kind_str DuplicatedConfirmedTx = ''duplicated confirmed transaction''"
| "error_kind_str ResourceNotFound = ''resource not found''"
| "error_kind_str DatabaseFault = ''database fault''"
| "error_kind_str WasmMachineFault = ''wasm machine fault''"
| "error_kind_str SmartContractFault = ''smart contract fault''"
| "error_kind_str NotImplemented = ''not implemented''"
| "error_kind_str Tpm2Error = ''tpm interaction error''"
| "error_kind_str WrongTxType = ''this tx type is not implemented or malformed''"
| "error_kind_str BrokenIntegrity = ''the integrity of the node tx is invalid''"
| "error_kind_str FuelError = ''burning fuel error''"
| "error_kind_str Other = ''other''"
| "error_kind_str InvalidContract = ''invalid contract hash''"
| "error_kind_str TooLargeTx = ''transaction too large''"

text \<open>\<open>impl Serialize for ErrorKind\<close>: the kind travels as its string.\<close>

definition error_kind_serialize :: "error_kind \<Rightarrow> mp_value" where
  "error_kind_serialize k = MpStr (error_kind_str k)"

text \<open>\<open>impl Deserialize for ErrorKind\<close>: the match over the string, in the order of the code.\<close>

definition error_kind_of_str :: "string \<Rightarrow> error_kind" where
  "error_kind_of_str s =
     (if s = ''malformed data'' then MalformedData
      else if s = ''bad network'' then BadNetwork
      else if s = ''invalid signature'' then InvalidSignature
      else if s = ''duplicated unconfirmed transaction'' then DuplicatedUnconfirmedTx
      else if s = ''duplicated confirmed transaction'' then DuplicatedConfirmedTx
      else if s = ''resource not found'' then ResourceNotFound
      else if s = ''database fault'' then DatabaseFault
      else if s = ''wasm machine fault'' then WasmMachineFault
      else if s = ''smart contract fault'' then SmartContractFault
      else if s = ''not implemented'' then NotImplemented
      else if s = ''tpm interaction error'' then Tpm2Error
      else if s = ''this tx type is not implemented or malformed'' then WrongTxType
      else if s = ''the integrity of the node tx is invalid'' then BrokenIntegrity
      else Other)"

fun error_kind_deserialize :: "mp_value \<Rightarrow> error_kind option" where
  "error_kind_deserialize (MpStr s) = Some (error_kind_of_str s)"
| "error_kind_deserialize _ = None"

record error =
  err_kind :: error_kind
  err_source :: "string option"

type_synonym 'a result = "error + 'a"

definition error_new :: "error_kind \<Rightarrow> error" where
  "error_new k = \<lparr>err_kind = k, err_source = None\<rparr>"

definition error_new_ext :: "error_kind \<Rightarrow> string \<Rightarrow> error" where
  "error_new_ext k s = \<lparr>err_kind = k, err_source = Some s\<rparr>"

text \<open>\<open>source_se\<close> and \<open>source_de\<close>: a missing source is nil; anything that is no string reads as
  no source.\<close>

definition source_se :: "string option \<Rightarrow> mp_value" where
  "source_se s = (case s of Some b \<Rightarrow> MpStr b | None \<Rightarrow> MpNil)"

fun source_de :: "mp_value \<Rightarrow> string option" where
  "source_de (MpStr s) = Some s"
| "source_de _ = None"

definition error_serialize :: "error \<Rightarrow> mp_value" where
  "error_serialize e = MpArr [error_kind_serialize (err_kind e), source_se (err_source e)]"

fun error_deserialize :: "mp_value \<Rightarrow> error option" where
  "error_deserialize (MpArr [k, s]) =
     map_option (\<lambda>kind. \<lparr>err_kind = kind, err_source = source_de s\<rparr>) (error_kind_deserialize k)"
| "error_deserialize _ = None"

text \<open>\<open>impl Clone for Error\<close> drops the source.\<close>

definition error_clone :: "error \<Rightarrow> error" where
  "error_clone e = \<lparr>err_kind = err_kind e, err_source = None\<rparr>"

text \<open>\<open>impl Display for Error\<close>.\<close>

definition error_to_string :: "error \<Rightarrow> string" where
  "error_to_string e = error_kind_str (err_kind e)"

definition MAX_ERROR_SOURCE_STRING_LENGTH :: nat where
  "MAX_ERROR_SOURCE_STRING_LENGTH = 128"

text \<open>\<open>to_string_full\<close>. The slice \<open>&detail[..max_len]\<close> panics (\<open>None\<close>) when \<open>max_len\<close> is not a
  character boundary of the UTF-8 text: \<open>str::is_char_boundary\<close> holds at the end of the text and
  where the byte is no continuation byte (\<open>0x80\<close> to \<open>0xBF\<close>).\<close>

definition is_char_boundary :: "string \<Rightarrow> nat \<Rightarrow> bool" where
  "is_char_boundary s i \<longleftrightarrow>
     i = 0 \<or> i = length s \<or>
     (i < length s \<and> \<not> ((of_char (s ! i) :: nat) \<ge> 128 \<and> (of_char (s ! i) :: nat) < 192))"

definition error_to_string_full :: "error \<Rightarrow> string option" where
  "error_to_string_full e =
     (case err_source e of
        None \<Rightarrow> Some (error_to_string e)
      | Some source \<Rightarrow>
          let detail = '': '' @ source;
              max_len = min (length detail) MAX_ERROR_SOURCE_STRING_LENGTH
          in if is_char_boundary detail max_len
             then Some (error_to_string e @ take max_len detail)
             else None)"

text \<open>\<open>impl PartialEq for Error\<close>.\<close>

definition error_eq :: "error \<Rightarrow> error \<Rightarrow> bool" where
  "error_eq a b =
     (if err_kind a \<noteq> err_kind b then False
      else if err_source a = None \<and> err_source b = None then True
      else if err_source a \<noteq> None \<and> err_source b \<noteq> None then err_source a = err_source b
      else False)"

section \<open>Properties\<close>

lemma error_kind_str_inj: "error_kind_str a = error_kind_str b \<Longrightarrow> a = b"
  by (cases a; cases b) simp_all

definition wire_kinds :: "error_kind set" where
  "wire_kinds = UNIV - {TooLargeTx, InvalidContract, FuelError}"

lemma error_kind_of_str_inverse:
  "error_kind_of_str (error_kind_str k) = (if k \<in> wire_kinds then k else Other)"
  by (cases k) (simp_all add: error_kind_of_str_def wire_kinds_def)

text \<open>Serializing an error and reading it back gives the kind and the source unchanged,
  except for the three kinds that the deserializer's match omits (\<open>TooLargeTx\<close>,
  \<open>InvalidContract\<close>, \<open>FuelError\<close>), which come back as \<open>Other\<close>.\<close>

theorem error_roundtrip:
  "error_deserialize (error_serialize e) =
     Some (if err_kind e \<in> {TooLargeTx, InvalidContract, FuelError}
           then e\<lparr>err_kind := Other\<rparr> else e)"
proof -
  have "source_de (source_se s) = s" for s
    by (cases s) (simp_all add: source_se_def)
  then show ?thesis
    by (cases e)
       (simp add: error_serialize_def error_kind_serialize_def error_kind_of_str_inverse wire_kinds_def)
qed

lemma length_error_kind_str: "length (error_kind_str k) \<le> 44"
  by (cases k) simp_all

text \<open>An ASCII source never makes the slice panic.\<close>

lemma ascii_char_boundary:
  assumes "list_all (\<lambda>c. (of_char c :: nat) < 128) s" and "i \<le> length s"
  shows "is_char_boundary s i"
proof (cases "i = length s")
  case False
  with assms have "(of_char (s ! i) :: nat) < 128" by (simp add: list_all_length)
  with False assms(2) show ?thesis by (simp add: is_char_boundary_def)
qed (simp add: is_char_boundary_def)

text \<open>\<open>to_string_full\<close> returns at most 172 bytes and starts with the kind string, whatever
  the length of the source; on an ASCII source it always returns.\<close>

theorem error_to_string_full_bounded:
  assumes "list_all (\<lambda>c. (of_char c :: nat) < 128) (case err_source e of None \<Rightarrow> [] | Some s \<Rightarrow> s)"
  shows "\<exists>s. error_to_string_full e = Some s \<and> length s \<le> 172 \<and>
           take (length (error_to_string e)) s = error_to_string e"
proof (cases "err_source e")
  case None
  then show ?thesis
    using length_error_kind_str [of "err_kind e"]
    by (simp add: error_to_string_full_def error_to_string_def)
next
  case (Some src)
  let ?d = "'': '' @ src"
  have "list_all (\<lambda>c. (of_char c :: nat) < 128) ?d" using assms Some by simp
  then have "is_char_boundary ?d (min (length ?d) MAX_ERROR_SOURCE_STRING_LENGTH)"
    by (rule ascii_char_boundary) simp
  then show ?thesis
    using Some length_error_kind_str [of "err_kind e"]
    by (simp add: error_to_string_full_def error_to_string_def Let_def MAX_ERROR_SOURCE_STRING_LENGTH_def)
qed

theorem error_to_string_full_bounded_witness:
  "\<exists>s. error_to_string_full (error_new_ext DatabaseFault ''oh no!'') = Some s \<and> length s \<le> 172 \<and>
     take (length (error_to_string (error_new_ext DatabaseFault ''oh no!''))) s =
     error_to_string (error_new_ext DatabaseFault ''oh no!'')"
  by (rule error_to_string_full_bounded) (simp add: error_new_ext_def)

text \<open>The panic is real: a source whose byte 126 is the second byte of a two-byte character.\<close>

lemma error_to_string_full_panics:
  "error_to_string_full (error_new_ext Other (replicate 125 (CHR ''a'') @ [CHR 0xC3, CHR 0xA9])) = None"
  by (simp add: error_to_string_full_def error_new_ext_def Let_def MAX_ERROR_SOURCE_STRING_LENGTH_def
        is_char_boundary_def nth_append nth_Cons')

lemma error_eq_iff: "error_eq a b \<longleftrightarrow> a = b"
  by (cases a; cases b) (auto simp: error_eq_def)

end
