(* ===== verification/Channel.thy ===== *)
theory Channel
  imports Prelude
begin

text \<open>
  The receiver's polling loop with a timeout, \<open>Receiver::recv_timeout\<close> of \<^verbatim>\<open>src/channel.rs\<close>. The
  channel itself is async-std's; \<open>poll k\<close> is what its \<open>try_recv\<close> answers at the \<open>k\<close>-th attempt.
  Durations are in nanoseconds.
\<close>

datatype channel_error = SendError | RecvError | RecvTimeout

definition channel_error_str :: "channel_error \<Rightarrow> string" where
  "channel_error_str e =
     (case e of SendError \<Rightarrow> ''channel send error'' | RecvError \<Rightarrow> ''channel recv error''
      | RecvTimeout \<Rightarrow> ''channel recv timeout'')"

datatype 'a try_recv = Received 'a | Empty | Closed

definition sleep_time :: nat where "sleep_time = 100 * 1000 * 1000"

text \<open>The loop from its \<open>k\<close>-th attempt on; the second result counts the attempts made.\<close>

function recv_timeout :: "(nat \<Rightarrow> 'a try_recv) \<Rightarrow> nat \<Rightarrow> nat \<Rightarrow> (channel_error + 'a) \<times> nat" where
  "recv_timeout poll k timeout =
     (case poll k of
        Received res \<Rightarrow> (Inr res, Suc k)
      | Empty \<Rightarrow>
          if timeout > 0 then recv_timeout poll (Suc k) (timeout - sleep_time)
          else (Inl RecvTimeout, Suc k)
      | Closed \<Rightarrow> (Inl RecvError, Suc k))"
  by pat_completeness auto
termination by (relation "measure (\<lambda>(_, _, t). t)") (auto simp: sleep_time_def)

declare recv_timeout.simps [simp del]

text \<open>The number of sleeps that fit: \<open>timeout\<close> over \<open>sleep_time\<close>, rounded up.\<close>

definition sleeps :: "nat \<Rightarrow> nat" where
  "sleeps timeout = (timeout + (sleep_time - 1)) div sleep_time"

lemma sleeps_0 [simp]: "sleeps 0 = 0"
  by (simp add: sleeps_def sleep_time_def)

lemma sleeps_step: "t > 0 \<Longrightarrow> sleeps t = Suc (sleeps (t - sleep_time))"
proof (cases "t \<ge> sleep_time")
  case True
  then have "t + (sleep_time - 1) = (t - sleep_time + (sleep_time - 1)) + sleep_time" by simp
  moreover have "sleep_time \<noteq> 0" by (simp add: sleep_time_def)
  ultimately show ?thesis unfolding sleeps_def
    using div_add_self2 [of sleep_time "t - sleep_time + (sleep_time - 1)"] by (simp only: Suc_eq_plus1 not_False_eq_True simp_thms)
next
  case False
  assume "t > 0"
  with False show ?thesis by (simp add: sleeps_def sleep_time_def div_nat_eqI)
qed

text \<open>Receiving with a timeout ends: the channel is polled at most once more than the number of
  100 ms sleeps the timeout amounts to (rounded up). The answer is that of the first attempt that did
  not find the channel empty, an error if the channel was closed, and a timeout exactly when every one
  of those attempts found it empty.
\<close>

theorem recv_timeout_result:
  "(case recv_timeout poll k timeout of (r, n) \<Rightarrow>
      k < n \<and> n \<le> Suc (k + sleeps timeout) \<and> (\<forall>i. k \<le> i \<and> Suc i < n \<longrightarrow> poll i = Empty) \<and>
      (case r of
         Inr res \<Rightarrow> poll (n - 1) = Received res
       | Inl RecvTimeout \<Rightarrow> poll (n - 1) = Empty \<and> n = Suc (k + sleeps timeout)
       | Inl RecvError \<Rightarrow> poll (n - 1) = Closed
       | Inl SendError \<Rightarrow> False))"
proof (induction poll k timeout rule: recv_timeout.induct)
  case (1 poll k timeout)
  show ?case
  proof (cases "poll k = Empty \<and> timeout > 0")
    case True
    obtain r n where rn: "recv_timeout poll (Suc k) (timeout - sleep_time) = (r, n)" by force
    with True have eq: "recv_timeout poll k timeout = (r, n)" by (simp add: recv_timeout.simps [of poll k])
    from 1 True rn have IH: "Suc k < n \<and> n \<le> Suc (Suc k + sleeps (timeout - sleep_time)) \<and>
      (\<forall>i. Suc k \<le> i \<and> Suc i < n \<longrightarrow> poll i = Empty) \<and>
      (case r of Inr res \<Rightarrow> poll (n - 1) = Received res
       | Inl RecvTimeout \<Rightarrow> poll (n - 1) = Empty \<and> n = Suc (Suc k + sleeps (timeout - sleep_time))
       | Inl RecvError \<Rightarrow> poll (n - 1) = Closed | Inl SendError \<Rightarrow> False)" by simp
    have "poll i = Empty" if "k \<le> i" "Suc i < n" for i
      using IH True that by (cases "i = k") auto
    with IH eq True show ?thesis
      by (auto simp: sleeps_step split: sum.splits channel_error.splits)
  next
    case False
    then show ?thesis by (subst recv_timeout.simps) (auto split: try_recv.splits)
  qed
qed

theorem recv_timeout_result_witness:
  "recv_timeout (\<lambda>i. if i < 2 then Empty else Received (7 :: nat)) 0 (250 * 1000 * 1000) = (Inr 7, 3)"
proof -
  let ?poll = "\<lambda>i. if i < 2 then Empty else Received (7 :: nat)"
  obtain r n where rn: "recv_timeout ?poll 0 (250 * 1000 * 1000) = (r, n)" by force
  have "(case (r, n) of (r, n) \<Rightarrow>
      0 < n \<and> n \<le> Suc (0 + sleeps (250 * 1000 * 1000)) \<and>
      (\<forall>i. 0 \<le> i \<and> Suc i < n \<longrightarrow> ?poll i = Empty) \<and>
      (case r of
         Inr res \<Rightarrow> ?poll (n - 1) = Received res
       | Inl RecvTimeout \<Rightarrow> ?poll (n - 1) = Empty \<and> n = Suc (0 + sleeps (250 * 1000 * 1000))
       | Inl RecvError \<Rightarrow> ?poll (n - 1) = Closed
       | Inl SendError \<Rightarrow> False))"
    unfolding rn [symmetric] by (rule recv_timeout_result)
  then have n: "0 < n" "n \<le> 4" and e: "\<forall>i. Suc i < n \<longrightarrow> i < 2"
    and r: "case r of Inr res \<Rightarrow> ?poll (n - 1) = Received res
       | Inl RecvTimeout \<Rightarrow> n - 1 < 2 \<and> n = 4 | Inl RecvError \<Rightarrow> False | Inl SendError \<Rightarrow> False"
    by (auto simp: sleeps_def sleep_time_def split: sum.splits channel_error.splits if_splits)
  from e have "n \<le> 3" by (metis One_nat_def Suc_1 Suc_leI lessI not_less numeral_3_eq_3)
  with n r rn show ?thesis by (auto split: sum.splits channel_error.splits if_splits)
qed

end
