(* ===== verification/Requests.thy ===== *)
theory Requests
  imports Channel "HOL-Library.Monad_Syntax"
begin

text \<open>
  The channels of \<^verbatim>\<open>src/channel.rs\<close>: a simple channel wraps one of async-std's bounded channels, and a
  confirmed channel carries requests, each with the sender of a response channel made for it. async-std's
  channel is the argument \<open>A\<close>, with its documented behaviour as the locale \<open>async_channel\<close>; \<open>None\<close> is a
  future that is not ready (a full channel, or an open one with nothing to receive). All clones of a sender
  or receiver share their channel, so a channel is a position in the list of response channels of the
  state, or the one request channel. Closing by dropping the last sender or receiver is Rust's \<open>Drop\<close>,
  not an operation of this file.
\<close>

section \<open>The channels of async-std\<close>

record ('q, 'a) async_ops =
  as_bounded :: "nat \<Rightarrow> 'q"
  as_send :: "'a \<Rightarrow> 'q \<Rightarrow> ('q \<times> bool) option"
  as_recv :: "'q \<Rightarrow> ('q \<times> 'a option) option"
  as_try_recv :: "'q \<Rightarrow> 'q \<times> 'a try_recv"
  as_close :: "'q \<Rightarrow> 'q \<times> bool"
  as_is_closed :: "'q \<Rightarrow> bool"
  as_poll_next :: "'q \<Rightarrow> ('q \<times> 'a option) option"

text \<open>What it is documented to be: a bounded queue that a close stops filling, not draining.\<close>

record 'a chan =
  cn_items :: "'a list"
  cn_cap :: nat
  cn_closed :: bool

definition chan_new :: "nat \<Rightarrow> 'a chan" where
  "chan_new cap = \<lparr>cn_items = [], cn_cap = cap, cn_closed = False\<rparr>"

definition chan_send :: "'a \<Rightarrow> 'a chan \<Rightarrow> ('a chan \<times> bool) option" where
  "chan_send a q =
     (if cn_closed q then Some (q, False)
      else if length (cn_items q) < cn_cap q then Some (q\<lparr>cn_items := cn_items q @ [a]\<rparr>, True)
      else None)"

definition chan_recv :: "'a chan \<Rightarrow> ('a chan \<times> 'a option) option" where
  "chan_recv q =
     (case cn_items q of
        a # as \<Rightarrow> Some (q\<lparr>cn_items := as\<rparr>, Some a)
      | [] \<Rightarrow> if cn_closed q then Some (q, None) else None)"

definition chan_try_recv :: "'a chan \<Rightarrow> 'a chan \<times> 'a try_recv" where
  "chan_try_recv q =
     (case chan_recv q of
        Some (q', Some a) \<Rightarrow> (q', Received a)
      | Some (q', None) \<Rightarrow> (q', Closed)
      | None \<Rightarrow> (q, Empty))"

definition chan_close :: "'a chan \<Rightarrow> 'a chan \<times> bool" where
  "chan_close q = (q\<lparr>cn_closed := True\<rparr>, \<not> cn_closed q)"

locale async_channel =
  fixes A :: "('q, 'a) async_ops" and absq :: "'q \<Rightarrow> 'a chan"
  assumes bounded: "absq (as_bounded A n) = chan_new n"
    and send: "map_option (apfst absq) (as_send A a q) = chan_send a (absq q)"
    and recv: "map_option (apfst absq) (as_recv A q) = chan_recv (absq q)"
    and try_recv: "apfst absq (as_try_recv A q) = chan_try_recv (absq q)"
    and close: "apfst absq (as_close A q) = chan_close (absq q)"
    and is_closed: "as_is_closed A q = cn_closed (absq q)"
    and poll_next: "map_option (apfst absq) (as_poll_next A q) = chan_recv (absq q)"
begin

lemma send_open:
  assumes "\<not> cn_closed (absq q)" and "length (cn_items (absq q)) < cn_cap (absq q)"
  obtains q' where "as_send A a q = Some (q', True)"
    "absq q' = (absq q)\<lparr>cn_items := cn_items (absq q) @ [a]\<rparr>"
  using assms send [of a q] that by (auto simp: chan_send_def apfst_def map_prod_def split: prod.splits)

lemma recv_item:
  assumes "cn_items (absq q) = a # as"
  obtains q' where "as_recv A q = Some (q', Some a)" "absq q' = (absq q)\<lparr>cn_items := as\<rparr>"
  using assms recv [of q] that by (auto simp: chan_recv_def apfst_def map_prod_def split: prod.splits)

text \<open>After a close, every send fails and what was sent before can still be received.\<close>

lemma close_effect:
  assumes "as_close A q = (q', b)"
  shows "b = (\<not> as_is_closed A q) \<and> as_is_closed A q' \<and>
    (\<forall>a. \<exists>q''. as_send A a q' = Some (q'', False) \<and> absq q'' = absq q') \<and> cn_items (absq q') = cn_items (absq q)"
proof -
  from close [of q] assms have c: "absq q' = (absq q)\<lparr>cn_closed := True\<rparr>" "b = (\<not> cn_closed (absq q))"
    by (simp_all add: chan_close_def)
  have "\<exists>q''. as_send A a q' = Some (q'', False) \<and> absq q'' = absq q'" for a
    using send [of a q'] c by (auto simp: chan_send_def)
  with c show ?thesis by (simp add: is_closed)
qed

end

definition list_chan :: "('a chan, 'a) async_ops" where
  "list_chan =
     \<lparr>as_bounded = chan_new, as_send = chan_send, as_recv = chan_recv, as_try_recv = chan_try_recv,
      as_close = chan_close, as_is_closed = cn_closed, as_poll_next = chan_recv\<rparr>"

interpretation list_chan: async_channel list_chan "\<lambda>q. q"
  by unfold_locales (simp_all add: list_chan_def map_option.id [unfolded id_def] apfst_def map_prod_def option.map_id0 case_prod_beta)

section \<open>Senders and receivers\<close>

definition CHANNEL_BOUND :: nat where "CHANNEL_BOUND = 1000"

record ('qq, 'qr) channels =
  cs_requests :: 'qq
  cs_responses :: "'qr list"

definition set_response :: "nat \<Rightarrow> 'qr \<Rightarrow> ('qq, 'qr) channels \<Rightarrow> ('qq, 'qr) channels" where
  "set_response i q w = w\<lparr>cs_responses := (cs_responses w)[i := q]\<rparr>"

text \<open>The sender and the receiver of a new channel.\<close>

definition simple_channel ::
    "('qr, 'res) async_ops \<Rightarrow> ('qq, 'qr) channels \<Rightarrow> ('qq, 'qr) channels \<times> nat \<times> nat" where
  "simple_channel R w =
     (let i = length (cs_responses w)
      in (w\<lparr>cs_responses := cs_responses w @ [as_bounded R CHANNEL_BOUND]\<rparr>, i, i))"

text \<open>The synchronous variants block on the same futures.\<close>

definition sender_send ::
    "('qr, 'res) async_ops \<Rightarrow> nat \<Rightarrow> 'res \<Rightarrow> ('qq, 'qr) channels \<Rightarrow>
     (('qq, 'qr) channels \<times> (channel_error + unit)) option" where
  "sender_send R i response w = do {
     (q, ok) \<leftarrow> as_send R response (cs_responses w ! i);
     Some (set_response i q w, if ok then Inr () else Inl SendError)
   }"

definition sender_close :: "('qr, 'res) async_ops \<Rightarrow> nat \<Rightarrow> ('qq, 'qr) channels \<Rightarrow> ('qq, 'qr) channels \<times> bool" where
  "sender_close R i w = apfst (\<lambda>q. set_response i q w) (as_close R (cs_responses w ! i))"

definition sender_is_closed :: "('qr, 'res) async_ops \<Rightarrow> nat \<Rightarrow> ('qq, 'qr) channels \<Rightarrow> bool" where
  "sender_is_closed R i w = as_is_closed R (cs_responses w ! i)"

definition receiver_recv ::
    "('qr, 'res) async_ops \<Rightarrow> nat \<Rightarrow> ('qq, 'qr) channels \<Rightarrow>
     (('qq, 'qr) channels \<times> (channel_error + 'res)) option" where
  "receiver_recv R i w = do {
     (q, res) \<leftarrow> as_recv R (cs_responses w ! i);
     Some (set_response i q w, case res of Some r \<Rightarrow> Inr r | None \<Rightarrow> Inl RecvError)
   }"

definition receiver_close :: "('qr, 'res) async_ops \<Rightarrow> nat \<Rightarrow> ('qq, 'qr) channels \<Rightarrow> ('qq, 'qr) channels \<times> bool" where
  "receiver_close R i w = apfst (\<lambda>q. set_response i q w) (as_close R (cs_responses w ! i))"

definition receiver_is_closed :: "('qr, 'res) async_ops \<Rightarrow> nat \<Rightarrow> ('qq, 'qr) channels \<Rightarrow> bool" where
  "receiver_is_closed R i w = as_is_closed R (cs_responses w ! i)"

text \<open>The stream of a receiver: pending, an item, or the end.\<close>

definition receiver_poll_next ::
    "('qr, 'res) async_ops \<Rightarrow> nat \<Rightarrow> ('qq, 'qr) channels \<Rightarrow> (('qq, 'qr) channels \<times> 'res option) option" where
  "receiver_poll_next R i w = map_option (apfst (\<lambda>q. set_response i q w)) (as_poll_next R (cs_responses w ! i))"

section \<open>Requests\<close>

definition confirmed_channel :: "('qq, 'req \<times> nat) async_ops \<Rightarrow> ('qq, 'qr) channels" where
  "confirmed_channel Q = \<lparr>cs_requests = as_bounded Q CHANNEL_BOUND, cs_responses = []\<rparr>"

definition request_send ::
    "('qq, 'req \<times> nat) async_ops \<Rightarrow> ('qr, 'res) async_ops \<Rightarrow> 'req \<Rightarrow> ('qq, 'qr) channels \<Rightarrow>
     (('qq, 'qr) channels \<times> (channel_error + nat)) option" where
  "request_send Q R request w =
     (case simple_channel R w of (w1, response_sender, response_receiver) \<Rightarrow> do {
        (q, ok) \<leftarrow> as_send Q (request, response_sender) (cs_requests w1);
        Some (w1\<lparr>cs_requests := q\<rparr>, if ok then Inr response_receiver else Inl SendError)
      })"

definition request_sender_close :: "('qq, 'req \<times> nat) async_ops \<Rightarrow> ('qq, 'qr) channels \<Rightarrow> ('qq, 'qr) channels \<times> bool" where
  "request_sender_close Q w = apfst (\<lambda>q. w\<lparr>cs_requests := q\<rparr>) (as_close Q (cs_requests w))"

definition request_sender_is_closed :: "('qq, 'req \<times> nat) async_ops \<Rightarrow> ('qq, 'qr) channels \<Rightarrow> bool" where
  "request_sender_is_closed Q w = as_is_closed Q (cs_requests w)"

definition request_recv ::
    "('qq, 'req \<times> nat) async_ops \<Rightarrow> ('qq, 'qr) channels \<Rightarrow>
     (('qq, 'qr) channels \<times> (channel_error + 'req \<times> nat)) option" where
  "request_recv Q w = do {
     (q, res) \<leftarrow> as_recv Q (cs_requests w);
     Some (w\<lparr>cs_requests := q\<rparr>, case res of Some r \<Rightarrow> Inr r | None \<Rightarrow> Inl RecvError)
   }"

text \<open>The same loop as \<open>recv_timeout\<close> of \<open>Channel\<close>, over the request channel.\<close>

definition request_recv_timeout :: "(nat \<Rightarrow> ('req \<times> nat) try_recv) \<Rightarrow> nat \<Rightarrow> channel_error + 'req \<times> nat" where
  "request_recv_timeout poll timeout = fst (recv_timeout poll 0 timeout)"

definition request_receiver_close :: "('qq, 'req \<times> nat) async_ops \<Rightarrow> ('qq, 'qr) channels \<Rightarrow> ('qq, 'qr) channels \<times> bool" where
  "request_receiver_close Q w = apfst (\<lambda>q. w\<lparr>cs_requests := q\<rparr>) (as_close Q (cs_requests w))"

definition request_receiver_is_closed :: "('qq, 'req \<times> nat) async_ops \<Rightarrow> ('qq, 'qr) channels \<Rightarrow> bool" where
  "request_receiver_is_closed Q w = as_is_closed Q (cs_requests w)"

definition request_poll_next ::
    "('qq, 'req \<times> nat) async_ops \<Rightarrow> ('qq, 'qr) channels \<Rightarrow> (('qq, 'qr) channels \<times> ('req \<times> nat) option) option" where
  "request_poll_next Q w = map_option (apfst (\<lambda>q. w\<lparr>cs_requests := q\<rparr>)) (as_poll_next Q (cs_requests w))"

section \<open>Asking and answering\<close>

text \<open>Clients that send a number of requests, and a server that takes as many from the channel and
  answers each with \<open>f\<close> of it.\<close>

fun ask_all ::
    "('qq, 'req \<times> nat) async_ops \<Rightarrow> ('qr, 'res) async_ops \<Rightarrow> 'req list \<Rightarrow> ('qq, 'qr) channels \<Rightarrow>
     (('qq, 'qr) channels \<times> (channel_error + nat) list) option" where
  "ask_all Q R [] w = Some (w, [])"
| "ask_all Q R (r # rs) w = do {
     (w1, res) \<leftarrow> request_send Q R r w;
     (w2, ress) \<leftarrow> ask_all Q R rs w1;
     Some (w2, res # ress)
   }"

fun answer_all ::
    "('qq, 'req \<times> nat) async_ops \<Rightarrow> ('qr, 'res) async_ops \<Rightarrow> ('req \<Rightarrow> 'res) \<Rightarrow> nat \<Rightarrow> ('qq, 'qr) channels \<Rightarrow>
     ('qq, 'qr) channels option" where
  "answer_all Q R f 0 w = Some w"
| "answer_all Q R f (Suc n) w = do {
     (w1, req) \<leftarrow> request_recv Q w;
     (case req of
        Inl _ \<Rightarrow> Some w1
      | Inr (request, chan) \<Rightarrow> do {
          (w2, _) \<leftarrow> sender_send R chan (f request) w1;
          answer_all Q R f n w2
        })
   }"

text \<open>Two channels of async-std: one for the requests, one kind for the responses.\<close>

locale request_channels = rq: async_channel Q absq + rs: async_channel R absr
  for Q :: "('qq, 'req \<times> nat) async_ops" and absq :: "'qq \<Rightarrow> ('req \<times> nat) chan"
    and R :: "('qr, 'res) async_ops" and absr :: "'qr \<Rightarrow> 'res chan"
begin

lemma request_send_ok:
  assumes "\<not> cn_closed (absq (cs_requests w))" and "length (cn_items (absq (cs_requests w))) < cn_cap (absq (cs_requests w))"
  obtains w' where "request_send Q R r w = Some (w', Inr (length (cs_responses w)))"
    "absq (cs_requests w') = (absq (cs_requests w))\<lparr>cn_items := cn_items (absq (cs_requests w)) @ [(r, length (cs_responses w))]\<rparr>"
    "map absr (cs_responses w') = map absr (cs_responses w) @ [chan_new CHANNEL_BOUND]"
proof -
  obtain q where "as_send Q (r, length (cs_responses w)) (cs_requests w) = Some (q, True)"
    "absq q = (absq (cs_requests w))\<lparr>cn_items := cn_items (absq (cs_requests w)) @ [(r, length (cs_responses w))]\<rparr>"
    by (rule rq.send_open [OF assms])
  with that show thesis by (simp add: request_send_def simple_channel_def Let_def rs.bounded)
qed

lemma ask_all_ok:
  assumes "\<not> cn_closed (absq (cs_requests w))"
    and "length (cn_items (absq (cs_requests w))) + length rs \<le> cn_cap (absq (cs_requests w))"
  shows "\<exists>w'. ask_all Q R rs w = Some (w', map Inr [length (cs_responses w) ..< length (cs_responses w) + length rs]) \<and>
    absq (cs_requests w') = (absq (cs_requests w))\<lparr>cn_items := cn_items (absq (cs_requests w)) @
      zip rs [length (cs_responses w) ..< length (cs_responses w) + length rs]\<rparr> \<and>
    map absr (cs_responses w') = map absr (cs_responses w) @ replicate (length rs) (chan_new CHANNEL_BOUND)"
  using assms
proof (induction rs arbitrary: w)
  case (Cons r rs)
  obtain w1 where w1: "request_send Q R r w = Some (w1, Inr (length (cs_responses w)))"
    "absq (cs_requests w1) = (absq (cs_requests w))\<lparr>cn_items := cn_items (absq (cs_requests w)) @ [(r, length (cs_responses w))]\<rparr>"
    "map absr (cs_responses w1) = map absr (cs_responses w) @ [chan_new CHANNEL_BOUND]"
    by (rule request_send_ok [of w r]) (use Cons.prems in auto)
  from arg_cong [OF w1(3), of length] have n: "length (cs_responses w1) = Suc (length (cs_responses w))" by simp
  from Cons.IH [of w1] Cons.prems obtain w2 where w2:
    "ask_all Q R rs w1 = Some (w2, map Inr [Suc (length (cs_responses w)) ..< Suc (length (cs_responses w)) + length rs])"
    "absq (cs_requests w2) = (absq (cs_requests w))\<lparr>cn_items := cn_items (absq (cs_requests w)) @ [(r, length (cs_responses w))] @
      zip rs [Suc (length (cs_responses w)) ..< Suc (length (cs_responses w)) + length rs]\<rparr>"
    "map absr (cs_responses w2) = map absr (cs_responses w) @ [chan_new CHANNEL_BOUND] @ replicate (length rs) (chan_new CHANNEL_BOUND)"
    by (auto simp: n w1(2,3))
  have u: "[length (cs_responses w) ..< length (cs_responses w) + length (r # rs)] =
    length (cs_responses w) # [Suc (length (cs_responses w)) ..< Suc (length (cs_responses w)) + length rs]"
    by (simp add: upt_rec)
  from w1 w2 show ?case unfolding u by (simp del: upt_Suc)
qed simp

lemma answer_all_ok:
  assumes "cn_items (absq (cs_requests w)) = zip rs is @ rest" and "length rs = length is" and "distinct is"
    and "\<forall>i \<in> set is. i < length (cs_responses w) \<and> absr (cs_responses w ! i) = chan_new CHANNEL_BOUND"
  shows "\<exists>w'. answer_all Q R f (length rs) w = Some w' \<and> length (cs_responses w') = length (cs_responses w) \<and>
    cn_items (absq (cs_requests w')) = rest \<and>
    (\<forall>k < length is. absr (cs_responses w' ! (is ! k)) = (chan_new CHANNEL_BOUND)\<lparr>cn_items := [f (rs ! k)]\<rparr>) \<and>
    (\<forall>i. i \<notin> set is \<longrightarrow> cs_responses w' ! i = cs_responses w ! i)"
  using assms
proof (induction rs arbitrary: w "is")
  case (Cons r rs)
  then obtain i js where i: "is = i # js" by (cases "is") auto
  obtain q where q: "as_recv Q (cs_requests w) = Some (q, Some (r, i))"
    "absq q = (absq (cs_requests w))\<lparr>cn_items := zip rs js @ rest\<rparr>"
    by (rule rq.recv_item [of "cs_requests w" "(r, i)" "zip rs js @ rest"]) (use Cons.prems i in auto)
  have "absr (cs_responses w ! i) = chan_new CHANNEL_BOUND" "i < length (cs_responses w)" using Cons.prems i by auto
  then obtain p where p: "as_send R (f r) (cs_responses w ! i) = Some (p, True)"
    "absr p = (chan_new CHANNEL_BOUND)\<lparr>cn_items := [f r]\<rparr>"
    by (auto simp: chan_new_def CHANNEL_BOUND_def intro: rs.send_open [of "cs_responses w ! i" "f r"])
  let ?w = "set_response i p (w\<lparr>cs_requests := q\<rparr>)"
  have len: "length (cs_responses ?w) = length (cs_responses w)" by (simp add: set_response_def)
  have "\<exists>w'. answer_all Q R f (length rs) ?w = Some w' \<and> length (cs_responses w') = length (cs_responses ?w) \<and>
    cn_items (absq (cs_requests w')) = rest \<and>
    (\<forall>k < length js. absr (cs_responses w' ! (js ! k)) = (chan_new CHANNEL_BOUND)\<lparr>cn_items := [f (rs ! k)]\<rparr>) \<and>
    (\<forall>i. i \<notin> set js \<longrightarrow> cs_responses w' ! i = cs_responses ?w ! i)"
    using Cons.prems i q by (intro Cons.IH) (auto simp: set_response_def nth_list_update)
  then obtain w' where w': "answer_all Q R f (length rs) ?w = Some w'" "length (cs_responses w') = length (cs_responses w)"
    "cn_items (absq (cs_requests w')) = rest"
    "\<forall>k < length js. absr (cs_responses w' ! (js ! k)) = (chan_new CHANNEL_BOUND)\<lparr>cn_items := [f (rs ! k)]\<rparr>"
    "\<forall>i. i \<notin> set js \<longrightarrow> cs_responses w' ! i = cs_responses ?w ! i" unfolding len by blast
  have at: "cs_responses w' ! i = p"
    using w'(5) Cons.prems i \<open>i < length (cs_responses w)\<close> by (simp add: set_response_def)
  have "answer_all Q R f (length (r # rs)) w = Some w'"
    using q p w'(1) by (simp add: request_recv_def sender_send_def)
  moreover have "absr (cs_responses w' ! (is ! k)) = (chan_new CHANNEL_BOUND)\<lparr>cn_items := [f ((r # rs) ! k)]\<rparr>"
    if "k < length is" for k
    using that w'(4) p(2) at i by (cases k) auto
  moreover have "cs_responses w' ! j = cs_responses w ! j" if "j \<notin> set is" for j
    using that w'(5) i by (simp add: set_response_def)
  ultimately show ?case using w'(2,3) by blast
qed auto

lemma receiver_recv_one:
  assumes "absr (cs_responses w ! i) = (chan_new n)\<lparr>cn_items := [a]\<rparr>" and "i < length (cs_responses w)"
  shows "\<exists>w'. receiver_recv R i w = Some (w', Inr a) \<and> receiver_recv R i w' = None"
proof -
  obtain q where q: "as_recv R (cs_responses w ! i) = Some (q, Some a)" "absr q = chan_new n"
    by (rule rs.recv_item [of "cs_responses w ! i" a "[]"]) (use assms(1) in \<open>auto simp: chan_new_def\<close>)
  have "as_recv R q = None" using rs.recv [of q] q(2) by (simp add: chan_recv_def chan_new_def)
  with q assms(2) show ?thesis by (simp add: receiver_recv_def set_response_def)
qed

text \<open>A full request channel makes the sender wait; a closed one refuses it.\<close>

lemma request_send_waits:
  assumes "\<not> cn_closed (absq (cs_requests w))" and "length (cn_items (absq (cs_requests w))) \<ge> cn_cap (absq (cs_requests w))"
  shows "request_send Q R r w = None"
  using rq.send [of "(r, length (cs_responses w))" "cs_requests w"] assms
  by (simp add: request_send_def simple_channel_def Let_def chan_send_def)

lemma request_send_closed:
  assumes "request_sender_close Q w = (w', b)"
  shows "\<exists>w''. request_send Q R r w' = Some (w'', Inl SendError)"
proof -
  obtain q where q: "as_close Q (cs_requests w) = (q, b)" "w' = w\<lparr>cs_requests := q\<rparr>"
    using assms by (cases "as_close Q (cs_requests w)") (auto simp: request_sender_close_def)
  from rq.close_effect [OF q(1)] obtain q' where "as_send Q (r, length (cs_responses w)) q = Some (q', False)" by blast
  with q(2) show ?thesis by (simp add: request_send_def simple_channel_def Let_def)
qed

end

interpretation list_requests: request_channels list_chan "\<lambda>q. q" list_chan "\<lambda>q. q"
  by unfold_locales

text \<open>C28. Every answer reaches the one who asked. Let up to 1000 requests be sent through a confirmed
  channel and a server take them one by one and answer each on the sender it came with: no send waits or
  fails, every requester has a receiver of its own, and what it receives there is the answer to its own
  request, once.
\<close>

theorem responses_reach_requesters:
  assumes "async_channel Q absq" and "async_channel R absr" and "length reqs \<le> CHANNEL_BOUND"
  shows "\<exists>w1 ids w2. ask_all Q R reqs (confirmed_channel Q) = Some (w1, map Inr ids) \<and>
    distinct ids \<and> length ids = length reqs \<and> answer_all Q R f (length reqs) w1 = Some w2 \<and>
    (\<forall>k < length reqs. \<exists>w3. receiver_recv R (ids ! k) w2 = Some (w3, Inr (f (reqs ! k))) \<and>
       receiver_recv R (ids ! k) w3 = None)"
proof -
  have rc: "request_channels Q absq R absr" using assms(1,2) by (rule request_channels.intro)
  let ?w0 = "confirmed_channel Q" and ?ids = "[0 ..< length reqs]"
  have w0: "absq (cs_requests ?w0) = chan_new CHANNEL_BOUND" "cs_responses ?w0 = []"
    by (simp_all add: confirmed_channel_def async_channel.bounded [OF assms(1)])
  from request_channels.ask_all_ok [OF rc, of ?w0 reqs] assms(3)
  obtain w1 where w1: "ask_all Q R reqs ?w0 = Some (w1, map Inr ?ids)"
    "cn_items (absq (cs_requests w1)) = zip reqs ?ids @ []"
    "map absr (cs_responses w1) = replicate (length reqs) (chan_new CHANNEL_BOUND)"
    by (auto simp: w0 chan_new_def)
  from arg_cong [OF w1(3), of length] have len: "length (cs_responses w1) = length reqs" by simp
  have "absr (cs_responses w1 ! i) = chan_new CHANNEL_BOUND" if "i < length reqs" for i
    using arg_cong [OF w1(3), of "\<lambda>l. l ! i"] that len by simp
  then have "\<forall>i \<in> set ?ids. i < length (cs_responses w1) \<and> absr (cs_responses w1 ! i) = chan_new CHANNEL_BOUND"
    using len by simp
  from request_channels.answer_all_ok [OF rc w1(2) _ _ this, of f] len
  obtain w2 where w2: "answer_all Q R f (length reqs) w1 = Some w2" "length (cs_responses w2) = length reqs"
    "\<forall>k < length reqs. absr (cs_responses w2 ! k) = (chan_new CHANNEL_BOUND)\<lparr>cn_items := [f (reqs ! k)]\<rparr>"
    by auto
  have "\<exists>w3. receiver_recv R (?ids ! k) w2 = Some (w3, Inr (f (reqs ! k))) \<and> receiver_recv R (?ids ! k) w3 = None"
    if "k < length reqs" for k
    using request_channels.receiver_recv_one [OF rc, of w2 k] w2(2,3) that by simp
  with w1(1) w2(1) show ?thesis by (intro exI [of _ w1] exI [of _ ?ids] exI [of _ w2]) auto
qed

theorem responses_reach_requesters_witness:
  "\<exists>w1 ids w2 w3. ask_all list_chan list_chan [3, 4 :: nat] (confirmed_channel list_chan) = Some (w1, map Inr ids) \<and>
    answer_all list_chan list_chan (\<lambda>n. n * 3) 2 w1 = Some w2 \<and>
    receiver_recv list_chan (ids ! 1) w2 = Some (w3, Inr 12)"
proof -
  have "length [3, 4 :: nat] \<le> CHANNEL_BOUND" by (simp add: CHANNEL_BOUND_def)
  from responses_reach_requesters [OF list_chan.async_channel_axioms list_chan.async_channel_axioms this, of "\<lambda>n. n * 3"]
  obtain w1 ids w2 where 1: "ask_all list_chan list_chan [3, 4 :: nat] (confirmed_channel list_chan) = Some (w1, map Inr ids)"
    "answer_all list_chan list_chan (\<lambda>n. n * 3) (length [3, 4 :: nat]) w1 = Some w2"
    and r: "\<forall>k < length [3, 4 :: nat]. \<exists>w3. receiver_recv list_chan (ids ! k) w2 = Some (w3, Inr ([3, 4] ! k * 3)) \<and>
      receiver_recv list_chan (ids ! k) w3 = None"
    by blast
  from r [rule_format, of 1] obtain w3 where "receiver_recv list_chan (ids ! 1) w2 = Some (w3, Inr 12)" by auto
  moreover have "length [3, 4 :: nat] = 2" by simp
  ultimately show ?thesis using 1 by metis
qed

end
