(* ===== verification/Crypto.thy ===== *)
theory Crypto
  imports Errors
begin

text \<open>
  \<^verbatim>\<open>src/crypto/hash.rs\<close>, \<^verbatim>\<open>src/crypto/sign.rs\<close> and the account identifiers of
  \<^verbatim>\<open>src/crypto/ecdsa.rs\<close> and \<^verbatim>\<open>src/crypto/ed25519.rs\<close>.

  The cryptographic primitives come from other crates (ring, ed25519-dalek, bs58, hex), as does
  the MessagePack writer (rmp-serde) and the Merkle roots (merkledb); they are the fields of
  the record \<open>env\<close>, an argument of every definition that reaches them. Their types carry what the
  code relies on without checking: a SHA-256 digest is 32 bytes (\<open>nat \<Rightarrow> u8\<close>, read at 0 to 31),
  and writing a value tree of known size into a vector cannot fail.
\<close>

section \<open>Environment\<close>

datatype curve_id = Secp256R1 | Secp384R1

datatype hash_algorithm = Identity | Sha256

datatype hash = Hash (hash_arr: bytes)

record env =
  e_rmp :: "mp_value \<Rightarrow> bytes"                                      \<comment> \<open>\<open>rmp_serde::to_vec\<close>\<close>
  e_sha256 :: "bytes \<Rightarrow> nat \<Rightarrow> u8"                                  \<comment> \<open>\<open>ring::digest::SHA256\<close>\<close>
  e_b58 :: "bytes \<Rightarrow> string"                                        \<comment> \<open>\<open>bs58::encode\<close>\<close>
  e_hex :: "bytes \<Rightarrow> string"                                        \<comment> \<open>\<open>hex::encode\<close>\<close>
  e_unhex :: "string \<Rightarrow> bytes option"                               \<comment> \<open>\<open>hex::decode\<close>\<close>
  e_ecdsa_verify :: "curve_id \<Rightarrow> bytes \<Rightarrow> bytes \<Rightarrow> bytes \<Rightarrow> bool"
  e_ed25519_verify :: "bytes \<Rightarrow> bytes \<Rightarrow> bytes \<Rightarrow> bool"
  e_ecdsa_sign :: "curve_id \<Rightarrow> bytes \<Rightarrow> bytes \<Rightarrow> string + bytes"
  e_ed25519_sign :: "bytes \<Rightarrow> bytes \<Rightarrow> bytes"
  e_map_root :: "(string \<Rightarrow> bytes option) \<Rightarrow> nat \<Rightarrow> u8"              \<comment> \<open>\<open>ProofMapIndex::object_hash\<close>\<close>
  e_list_root :: "hash list \<Rightarrow> nat \<Rightarrow> u8"                           \<comment> \<open>\<open>ProofListIndex::object_hash\<close>\<close>
  e_de_consume_fuel :: "bytes \<Rightarrow> (bool \<times> u64) option"              \<comment> \<open>\<open>rmp_deserialize\<close> of \<open>ConsumeFuelReturns\<close>\<close>
  e_debug :: bool                                                  \<comment> \<open>\<open>log::max_level() >= Debug\<close>\<close>

text \<open>A concrete environment, on which the witnesses evaluate: a prefix-style value encoding, a
  digest that keeps the first 32 bytes, and signatures that are the signed bytes.\<close>

fun demo_rmp :: "mp_value \<Rightarrow> bytes" and demo_rmps :: "mp_value list \<Rightarrow> bytes" where
  "demo_rmp MpNil = [0xc0]"
| "demo_rmp (MpBool b) = [if b then 0xc3 else 0xc2]"
| "demo_rmp (MpUInt n) = [of_nat n]"
| "demo_rmp (MpStr s) = of_nat (length s) # str_bytes s"
| "demo_rmp (MpBin b) = of_nat (length b) # b"
| "demo_rmp (MpArr vs) = of_nat (length vs) # demo_rmps vs"
| "demo_rmp (MpMap kvs) = [0x80]"
| "demo_rmps [] = []"
| "demo_rmps (v # vs) = demo_rmp v @ demo_rmps vs"

definition demo_env :: env where
  "demo_env =
     \<lparr>e_rmp = demo_rmp,
      e_sha256 = (\<lambda>d i. if i < length d then d ! i else 0),
      e_b58 = (\<lambda>bs. map (\<lambda>b. char_of (unat b)) bs),
      e_hex = (\<lambda>bs. map (\<lambda>b. char_of (unat b)) bs),
      e_unhex = (\<lambda>s. Some (str_bytes s)),
      e_ecdsa_verify = (\<lambda>_ _ data sig. data = sig),
      e_ed25519_verify = (\<lambda>_ data sig. data = sig),
      e_ecdsa_sign = (\<lambda>_ _ data. Inr data),
      e_ed25519_sign = (\<lambda>_ data. data),
      e_map_root = (\<lambda>m i. (case m [] of None \<Rightarrow> 0 | Some bs \<Rightarrow> of_nat (length bs))),
      e_list_root = (\<lambda>hs i. of_nat (length hs)),
      e_de_consume_fuel = (\<lambda>bs. case bs of [s, u] \<Rightarrow> Some (s \<noteq> 0, ucast u) | _ \<Rightarrow> None),
      e_debug = True\<rparr>"

definition digest_bytes :: "(nat \<Rightarrow> u8) \<Rightarrow> bytes" where
  "digest_bytes d = map d [0..<32]"

section \<open>Multihash values\<close>

definition MULTIHASH_TYPE_IDENTITY :: u8 where "MULTIHASH_TYPE_IDENTITY = 0x00"
definition MULTIHASH_TYPE_SHA256 :: u8 where "MULTIHASH_TYPE_SHA256 = 0x12"
definition MULTIHASH_VALUE_LEN_MAX :: nat where "MULTIHASH_VALUE_LEN_MAX = 36"
definition MULTIHASH_BYTES_LEN_MAX :: nat where
  "MULTIHASH_BYTES_LEN_MAX = 2 + MULTIHASH_VALUE_LEN_MAX"

definition hash_default :: hash where
  "hash_default = Hash (replicate MULTIHASH_BYTES_LEN_MAX 0)"

text \<open>\<open>copy_from_slice\<close> into the zeroed array at offset 2.\<close>

definition hash_pack :: "u8 \<Rightarrow> bytes \<Rightarrow> hash" where
  "hash_pack tag bs =
     Hash (tag # of_nat (length bs) # bs @ replicate (MULTIHASH_VALUE_LEN_MAX - length bs) 0)"

definition hash_new :: "hash_algorithm \<Rightarrow> bytes \<Rightarrow> hash result" where
  "hash_new alg bs =
     (if length bs > MULTIHASH_VALUE_LEN_MAX then Inl (error_new MalformedData)
      else case alg of
        Identity \<Rightarrow> Inr (hash_pack MULTIHASH_TYPE_IDENTITY bs)
      | Sha256 \<Rightarrow>
          if length bs > 32 then Inl (error_new MalformedData)
          else Inr (hash_pack MULTIHASH_TYPE_SHA256 bs))"

definition hash_from_bytes :: "bytes \<Rightarrow> hash result" where
  "hash_from_bytes bs =
     (if length bs < 2 then Inl (error_new MalformedData)
      else if unat (bs ! 1) \<noteq> length bs - 2 then Inl (error_new MalformedData)
      else if bs ! 0 = MULTIHASH_TYPE_IDENTITY then hash_new Identity (drop 2 bs)
      else if bs ! 0 = MULTIHASH_TYPE_SHA256 then hash_new Sha256 (drop 2 bs)
      else Inl (error_new MalformedData))"

definition hash_size_inner :: "hash \<Rightarrow> nat" where
  "hash_size_inner h = unat (hash_arr h ! 1)"

definition hash_size :: "hash \<Rightarrow> nat" where
  "hash_size h = 2 + hash_size_inner h"

definition hash_as_bytes :: "hash \<Rightarrow> bytes" where
  "hash_as_bytes h = take (hash_size h) (hash_arr h)"

text \<open>\<open>hash_algorithm\<close> panics (\<open>None\<close>) on any other tag.\<close>

definition hash_algorithm_of :: "hash \<Rightarrow> hash_algorithm option" where
  "hash_algorithm_of h =
     (if hash_arr h ! 0 = MULTIHASH_TYPE_IDENTITY then Some Identity
      else if hash_arr h ! 0 = MULTIHASH_TYPE_SHA256 then Some Sha256
      else None)"

definition hash_value :: "hash \<Rightarrow> bytes" where
  "hash_value h = drop 2 (hash_arr h)"

text \<open>\<open>from_data\<close>: the \<open>unwrap\<close> panics (\<open>None\<close>) when \<open>new\<close> fails.\<close>

definition hash_from_data :: "env \<Rightarrow> hash_algorithm \<Rightarrow> bytes \<Rightarrow> hash option" where
  "hash_from_data E alg data =
     (case hash_new alg (case alg of Sha256 \<Rightarrow> digest_bytes (e_sha256 E data) | Identity \<Rightarrow> data) of
        Inl _ \<Rightarrow> None
      | Inr h \<Rightarrow> Some h)"

definition hash_from_hex :: "env \<Rightarrow> string \<Rightarrow> hash result" where
  "hash_from_hex E s =
     (case e_unhex E s of Some buf \<Rightarrow> hash_from_bytes buf | None \<Rightarrow> Inl (error_new MalformedData))"

definition mp_hash :: "hash \<Rightarrow> mp_value" where
  "mp_hash h = MpBin (hash_as_bytes h)"

text \<open>\<open>From<MerkleDbHash>\<close> and \<open>Hashable::primary_hash\<close>: SHA-256, which \<open>new\<close> always accepts
  (lemma \<open>hash_from_data_Sha256\<close>).\<close>

definition hash_of_digest :: "(nat \<Rightarrow> u8) \<Rightarrow> hash" where
  "hash_of_digest d = hash_pack MULTIHASH_TYPE_SHA256 (digest_bytes d)"

definition primary_hash :: "env \<Rightarrow> mp_value \<Rightarrow> hash" where
  "primary_hash E v = hash_of_digest (e_sha256 E (e_rmp E v))"

text \<open>The values the constructors build: a known tag, a length within the bound of its algorithm,
  zero padding.\<close>

definition wf_hash :: "hash \<Rightarrow> bool" where
  "wf_hash h \<longleftrightarrow>
     length (hash_arr h) = MULTIHASH_BYTES_LEN_MAX \<and>
     (hash_arr h ! 0 = MULTIHASH_TYPE_IDENTITY \<and> hash_size_inner h \<le> MULTIHASH_VALUE_LEN_MAX \<or>
      hash_arr h ! 0 = MULTIHASH_TYPE_SHA256 \<and> hash_size_inner h \<le> 32) \<and>
     drop (hash_size h) (hash_arr h) = replicate (MULTIHASH_VALUE_LEN_MAX - hash_size_inner h) 0"

section \<open>Keys\<close>

datatype public_key = Ecdsa curve_id bytes | Ed25519 bytes

datatype key_pair = KpEcdsa curve_id bytes bytes | KpEd25519 bytes bytes

definition pk_verify :: "env \<Rightarrow> public_key \<Rightarrow> bytes \<Rightarrow> bytes \<Rightarrow> bool" where
  "pk_verify E pk data sig =
     (case pk of
        Ecdsa curve value \<Rightarrow> e_ecdsa_verify E curve value data sig
      | Ed25519 pb \<Rightarrow> e_ed25519_verify E pb data sig)"

text \<open>\<open>KeyPair::sign\<close>: ring's failure becomes \<open>ErrorKind::Other\<close>.\<close>

definition kp_sign :: "env \<Rightarrow> key_pair \<Rightarrow> bytes \<Rightarrow> bytes result" where
  "kp_sign E kp data =
     (case kp of
        KpEcdsa curve priv _ \<Rightarrow>
          (case e_ecdsa_sign E curve priv data of
             Inl err \<Rightarrow> Inl (error_new_ext Other err) | Inr sig \<Rightarrow> Inr sig)
      | KpEd25519 priv _ \<Rightarrow> Inr (e_ed25519_sign E priv data))"

definition kp_public_key :: "key_pair \<Rightarrow> public_key" where
  "kp_public_key kp =
     (case kp of KpEcdsa curve _ public \<Rightarrow> Ecdsa curve public | KpEd25519 _ public \<Rightarrow> Ed25519 public)"

definition get_curve_oid :: "curve_id \<Rightarrow> bytes" where
  "get_curve_oid c =
     (case c of
        Secp256R1 \<Rightarrow> [0x06, 0x08, 0x2A, 0x86, 0x48, 0xCE, 0x3D, 0x03, 0x01, 0x07]
      | Secp384R1 \<Rightarrow> [0x06, 0x05, 0x2b, 0x81, 0x04, 0x00, 0x22])"

text \<open>The two in-place writes \<open>res[3] = ..\<close> and \<open>res[1] = ..\<close> are list updates.\<close>

definition add_asn1_x509_header :: "curve_id \<Rightarrow> bytes \<Rightarrow> bytes" where
  "add_asn1_x509_header c key_bytes =
     (let res = [0x30, 0x00, 0x30, 0x00];
          ec_oid = [0x06, 0x07, 0x2a, 0x86, 0x48, 0xce, 0x3d, 0x02, 0x01];
          curve_oid = get_curve_oid c;
          oids_len = length ec_oid + length curve_oid;
          res = res @ ec_oid @ curve_oid;
          res = res[3 := of_nat oids_len];
          res = res @ [0x03, of_nat (length key_bytes + 1), 0x00];
          res = res @ key_bytes
      in res[1 := of_nat (length res - 2)])"

definition ecdsa_protobuf_header :: "bytes \<Rightarrow> bytes" where
  "ecdsa_protobuf_header buf = [0x08, 0x03, 0x12, of_nat (length buf)] @ buf"

definition ed25519_protobuf_header :: "bytes \<Rightarrow> bytes" where
  "ed25519_protobuf_header buf = [0x08, 0x01, 0x12, of_nat (length buf)] @ buf"

text \<open>\<open>PublicKey::to_account_id\<close>; \<open>None\<close> is the panic of \<open>Hash::from_data\<close> with the identity
  algorithm on more than 36 bytes.\<close>

definition to_account_id_checked :: "env \<Rightarrow> public_key \<Rightarrow> string option" where
  "to_account_id_checked E pk =
     map_option (\<lambda>h. e_b58 E (hash_as_bytes h))
       (case pk of
          Ecdsa curve value \<Rightarrow>
            hash_from_data E Sha256 (ecdsa_protobuf_header (add_asn1_x509_header curve value))
        | Ed25519 pb \<Rightarrow> hash_from_data E Identity (ed25519_protobuf_header pb))"

text \<open>An Ed25519 key is 32 bytes by construction (\<open>ed25519_dalek::PublicKey\<close>), for which the
  identifier always exists (\<open>to_account_id_total\<close>); the callers below use this total form.\<close>

definition to_account_id :: "env \<Rightarrow> public_key \<Rightarrow> string" where
  "to_account_id E pk = (case to_account_id_checked E pk of Some s \<Rightarrow> s | None \<Rightarrow> [])"

definition wf_public_key :: "public_key \<Rightarrow> bool" where
  "wf_public_key pk = (case pk of Ecdsa _ _ \<Rightarrow> True | Ed25519 pb \<Rightarrow> length pb = 32)"

definition curve_name :: "curve_id \<Rightarrow> string" where
  "curve_name c = (case c of Secp256R1 \<Rightarrow> ''secp256r1'' | Secp384R1 \<Rightarrow> ''secp384r1'')"

definition mp_public_key :: "public_key \<Rightarrow> mp_value" where
  "mp_public_key pk =
     (case pk of
        Ecdsa curve value \<Rightarrow> MpArr [MpStr ''ecdsa'', MpStr (curve_name curve), MpBin value]
      | Ed25519 pb \<Rightarrow> MpArr [MpStr ''ed25519'', MpBin pb])"

section \<open>Lemmas on multihash values\<close>

lemmas multihash_defs =
  MULTIHASH_TYPE_IDENTITY_def MULTIHASH_TYPE_SHA256_def MULTIHASH_VALUE_LEN_MAX_def
  MULTIHASH_BYTES_LEN_MAX_def

lemma length_digest_bytes [simp]: "length (digest_bytes d) = 32"
  by (simp add: digest_bytes_def)

lemma hash_arr_pack [simp]:
  "hash_arr (hash_pack t bs) = t # of_nat (length bs) # bs @ replicate (36 - length bs) 0"
  by (simp add: hash_pack_def multihash_defs)

lemma hash_size_inner_pack [simp]: "length bs \<le> 36 \<Longrightarrow> hash_size_inner (hash_pack t bs) = length bs"
  by (simp add: hash_size_inner_def unat_of_nat take_bit_nat_def)

lemma hash_as_bytes_pack [simp]:
  "length bs \<le> 36 \<Longrightarrow> hash_as_bytes (hash_pack t bs) = t # of_nat (length bs) # bs"
  by (simp add: hash_as_bytes_def hash_size_def)

lemma wf_hash_pack:
  "length bs \<le> 36 \<Longrightarrow> t = MULTIHASH_TYPE_IDENTITY \<or> t = MULTIHASH_TYPE_SHA256 \<and> length bs \<le> 32 \<Longrightarrow>
   wf_hash (hash_pack t bs)"
  by (auto simp: wf_hash_def hash_size_def multihash_defs)

lemma hash_new_wf: "hash_new alg bs = Inr h \<Longrightarrow> wf_hash h"
  by (cases alg) (auto simp: hash_new_def multihash_defs intro!: wf_hash_pack split: if_splits)

lemma wf_hash_of_digest [simp]: "wf_hash (hash_of_digest d)"
  by (simp add: hash_of_digest_def wf_hash_pack)

lemma wf_primary_hash [simp]: "wf_hash (primary_hash E v)"
  by (simp add: primary_hash_def)

lemma hash_default_pack: "hash_default = hash_pack MULTIHASH_TYPE_IDENTITY []"
  by (simp add: hash_default_def hash_pack_def multihash_defs numeral_eq_Suc)

lemma wf_hash_default [simp]: "wf_hash hash_default"
  by (simp add: hash_default_pack wf_hash_pack)

lemma hash_from_data_Sha256: "hash_from_data E Sha256 d = Some (hash_of_digest (e_sha256 E d))"
  by (simp add: hash_from_data_def hash_new_def hash_of_digest_def MULTIHASH_VALUE_LEN_MAX_def)

text \<open>A well-formed hash is a packed one.\<close>

lemma wf_hash_cases:
  assumes "wf_hash h"
  obtains t bs where "h = hash_pack t bs" and "length bs = hash_size_inner h" and "length bs \<le> 36"
    and "t = MULTIHASH_TYPE_IDENTITY \<or> t = MULTIHASH_TYPE_SHA256 \<and> length bs \<le> 32"
proof -
  obtain arr where h: "h = Hash arr" by (cases h)
  from assms h have len: "length arr = 38" by (simp add: wf_hash_def multihash_defs)
  then obtain a b rest where arr: "arr = a # b # rest" and r: "length rest = 36"
    by (cases arr; cases "tl arr") auto
  let ?n = "unat b" and ?bs = "take (unat b) rest"
  from assms h arr have n: "?n \<le> 36"
    and tag: "a = MULTIHASH_TYPE_IDENTITY \<or> a = MULTIHASH_TYPE_SHA256 \<and> ?n \<le> 32"
    and pad: "drop ?n rest = replicate (36 - ?n) 0"
    by (auto simp: wf_hash_def hash_size_def hash_size_inner_def multihash_defs)
  have "rest = ?bs @ replicate (36 - length ?bs) 0"
    using pad r n by (metis append_take_drop_id length_take min.absorb2)
  then have "h = hash_pack a ?bs"
    using h arr r n by (simp add: hash_pack_def MULTIHASH_VALUE_LEN_MAX_def)
  with n r tag h arr show ?thesis
    by (intro that [of a ?bs]) (auto simp: hash_size_inner_def)
qed

lemma hash_from_bytes_pack:
  assumes "length bs \<le> 36" and "t = MULTIHASH_TYPE_IDENTITY \<or> t = MULTIHASH_TYPE_SHA256 \<and> length bs \<le> 32"
  shows "hash_from_bytes (t # of_nat (length bs) # bs) = Inr (hash_pack t bs)"
  using assms
  by (auto simp: hash_from_bytes_def hash_new_def multihash_defs unat_of_nat take_bit_nat_def)

lemma hash_from_bytes_InrD:
  assumes "hash_from_bytes bs = Inr h"
  shows "hash_as_bytes h = bs \<and> wf_hash h"
proof -
  from assms have len: "2 \<le> length bs" and n: "unat (bs ! 1) = length bs - 2"
    by (auto simp: hash_from_bytes_def split: if_splits)
  then have bs: "bs = bs ! 0 # bs ! 1 # drop 2 bs"
    by (cases bs; cases "tl bs") auto
  have b1: "of_nat (length (drop 2 bs)) = bs ! 1"
    unfolding length_drop n [symmetric] by simp
  from assms len n show ?thesis
    using bs b1
    by (auto simp: hash_from_bytes_def hash_new_def multihash_defs intro!: wf_hash_pack
        split: if_splits)
qed

text \<open>Multihash bytes round-trip: every well-formed hash is read back from its bytes, and
  whatever \<open>from_bytes\<close> accepts is well formed and prints back to the same bytes.\<close>

theorem hash_roundtrip:
  "(wf_hash h \<longrightarrow> hash_from_bytes (hash_as_bytes h) = Inr h) \<and>
   (\<forall>bs. hash_from_bytes bs = Inr h \<longrightarrow> hash_as_bytes h = bs \<and> wf_hash h)"
proof -
  have "hash_from_bytes (hash_as_bytes h) = Inr h" if "wf_hash h"
    using that by (rule wf_hash_cases) (simp add: hash_from_bytes_pack)
  then show ?thesis using hash_from_bytes_InrD by blast
qed

theorem hash_roundtrip_witness:
  "wf_hash hash_default \<and> hash_from_bytes (hash_as_bytes hash_default) = Inr hash_default"
  using hash_roundtrip [of hash_default] by simp

lemma hash_as_bytes_inj: "wf_hash a \<Longrightarrow> wf_hash b \<Longrightarrow> hash_as_bytes a = hash_as_bytes b \<Longrightarrow> a = b"
  by (erule wf_hash_cases, erule wf_hash_cases) simp

section \<open>Account identifiers\<close>

text \<open>The account identifier of a key never panics: with its four header bytes a 32-byte
  Ed25519 key is exactly the 36 bytes an identity multihash can hold, and the identifier is the
  base58 text of that multihash.\<close>

theorem to_account_id_total:
  assumes "wf_public_key pk"
  shows "to_account_id_checked E pk = Some (to_account_id E pk) \<and>
         (\<forall>pb. pk = Ed25519 pb \<longrightarrow>
            to_account_id E pk = e_b58 E (0 # 36 # [0x08, 0x01, 0x12, 32] @ pb))"
  using assms
  by (cases pk)
     (simp_all add: to_account_id_def to_account_id_checked_def hash_from_data_Sha256 wf_public_key_def
        hash_from_data_def hash_new_def ed25519_protobuf_header_def multihash_defs)

theorem to_account_id_total_witness:
  "to_account_id_checked demo_env (Ed25519 (replicate 32 7)) =
     Some (to_account_id demo_env (Ed25519 (replicate 32 7)))"
  using to_account_id_total [of "Ed25519 (replicate 32 7)" demo_env] by (simp add: wf_public_key_def)

end
