(* ===== verification/Schema.thy ===== *)
theory Schema
  imports Crypto "HOL-Library.Countable"
begin

text \<open>
  \<^verbatim>\<open>src/base/schema.rs\<close>: transactions, receipts, blocks and accounts, with the derived
  serialization of each (the serde attributes of the structures: field order, tags, byte
  strings) and the operations on them. Field selectors carry a prefix, since Isabelle's record
  fields are global.
\<close>

section \<open>Data\<close>

record transaction_data_v1 =
  td_account :: string
  td_fuel_limit :: u64
  td_nonce :: bytes
  td_network :: string
  td_contract :: "hash option"
  td_method :: string
  td_caller :: public_key
  td_args :: bytes

text \<open>\<open>TransactionDataBulkNodeV1\<close> repeats the fields of \<open>TransactionDataV1\<close> and adds
  \<open>depends_on\<close> as its last field.\<close>

record transaction_data_bulk_node_v1 = transaction_data_v1 +
  td_depends_on :: hash

record empty_transaction_data_v1 =
  et_fuel_limit :: u64
  et_nonce :: bytes
  et_network :: string
  et_caller :: public_key

datatype transaction_data =
    V1 transaction_data_v1
  | BulkNodeV1 transaction_data_bulk_node_v1
  | BulkRootV1 transaction_data_v1
  | BulkV1 bulk_transactions
  | BulkEmpyRoot empty_transaction_data_v1
and bulk_transactions =
    BulkTransactions (bulk_root: unsigned_transaction) (bulk_nodes: "signed_transaction list option")
and unsigned_transaction = UnsignedTransaction (ut_data: transaction_data)
and signed_transaction = SignedTransaction (st_data: transaction_data) (st_signature: bytes)

record bulk_transaction =
  bt_data :: transaction_data
  bt_signature :: bytes

datatype transaction = UnitTransaction signed_transaction | BulkTransaction bulk_transaction

record smart_contract_event =
  ev_event_tx :: hash
  ev_emitter_account :: string
  ev_emitter_smart_contract :: hash
  ev_event_name :: string
  ev_event_data :: bytes

record receipt =
  rx_height :: u64
  rx_index :: u32
  rx_burned_fuel :: u64
  rx_success :: bool
  rx_returns :: bytes
  rx_events :: "smart_contract_event list option"

record block_data =
  bd_validator :: "public_key option"
  bd_height :: u64
  bd_size :: u32
  bd_prev_hash :: hash
  bd_txs_hash :: hash
  bd_rxs_hash :: hash
  bd_state_hash :: hash
  bd_timestamp :: u64

record block =
  blk_data :: block_data
  blk_signature :: bytes

record account =
  ac_id :: string
  ac_assets :: "(string \<times> bytes) list"
  ac_contract :: "hash option"
  ac_data_hash :: "hash option"

definition FUEL_LIMIT :: u64 where "FUEL_LIMIT = 1000"

section \<open>Serialization\<close>

definition v1_fields :: "('r) transaction_data_v1_scheme \<Rightarrow> mp_value list" where
  "v1_fields d =
     [MpStr (td_account d), mp_u64 (td_fuel_limit d), MpBin (td_nonce d), MpStr (td_network d),
      mp_option mp_hash (td_contract d), MpStr (td_method d), mp_public_key (td_caller d),
      MpBin (td_args d)]"

definition bulk_node_fields :: "transaction_data_bulk_node_v1 \<Rightarrow> mp_value list" where
  "bulk_node_fields d = v1_fields d @ [mp_hash (td_depends_on d)]"

definition empty_fields :: "empty_transaction_data_v1 \<Rightarrow> mp_value list" where
  "empty_fields d =
     [mp_u64 (et_fuel_limit d), MpBin (et_nonce d), MpStr (et_network d), mp_public_key (et_caller d)]"

definition schema_v1 :: string where
  "schema_v1 = ''d8af8f563f25eb065651ccdd05b9726fd27ff9dc40e3b9c8b4d2c55fa9819f36''"
definition schema_bulk_node :: string where
  "schema_bulk_node = ''097e5f552c79d4f64e15f853ad19d013973343aea557d5c1482d9cef71915db8''"
definition schema_bulk_root :: string where
  "schema_bulk_root = ''0bccf5dce4f25036de1ef091ea9e862fa348e6de82ef16fbcfc84c1f1314b86e''"
definition schema_bulk :: string where
  "schema_bulk = ''0ec3469e3509682d7599797a9d1c5cdf56b2d9bd435f853a3b999cbb717e0337''"
definition schema_empty_root :: string where
  "schema_empty_root = ''f76bce109213ee2204e218f000b7c67770812e4b26f4dba90c532a10865968ff''"

fun mp_transaction_data :: "transaction_data \<Rightarrow> mp_value"
  and mp_bulk_transactions :: "bulk_transactions \<Rightarrow> mp_value"
  and mp_unsigned_transaction :: "unsigned_transaction \<Rightarrow> mp_value"
  and mp_signed_transaction :: "signed_transaction \<Rightarrow> mp_value"
  and mp_signed_transactions :: "signed_transaction list \<Rightarrow> mp_value list" where
  "mp_transaction_data (V1 d) = MpArr (MpStr schema_v1 # v1_fields d)"
| "mp_transaction_data (BulkNodeV1 d) = MpArr (MpStr schema_bulk_node # bulk_node_fields d)"
| "mp_transaction_data (BulkRootV1 d) = MpArr (MpStr schema_bulk_root # v1_fields d)"
| "mp_transaction_data (BulkV1 b) = MpArr [MpStr schema_bulk, mp_bulk_transactions b]"
| "mp_transaction_data (BulkEmpyRoot d) = MpArr (MpStr schema_empty_root # empty_fields d)"
| "mp_bulk_transactions (BulkTransactions root None) = MpArr [mp_unsigned_transaction root, MpNil]"
| "mp_bulk_transactions (BulkTransactions root (Some nodes)) =
     MpArr [mp_unsigned_transaction root, MpArr (mp_signed_transactions nodes)]"
| "mp_unsigned_transaction (UnsignedTransaction d) = MpArr [mp_transaction_data d]"
| "mp_signed_transaction (SignedTransaction d sig) = MpArr [mp_transaction_data d, MpBin sig]"
| "mp_signed_transactions [] = []"
| "mp_signed_transactions (t # ts) = mp_signed_transaction t # mp_signed_transactions ts"

text \<open>The inner structures without the enum's tag, as \<open>TransactionDataV1::serialize\<close> and its
  two siblings write them.\<close>

definition mp_v1_struct :: "transaction_data_v1 \<Rightarrow> mp_value" where
  "mp_v1_struct d = MpArr (v1_fields d)"

definition mp_bulk_node_struct :: "transaction_data_bulk_node_v1 \<Rightarrow> mp_value" where
  "mp_bulk_node_struct d = MpArr (bulk_node_fields d)"

definition mp_bulk_struct :: "bulk_transactions \<Rightarrow> mp_value" where
  "mp_bulk_struct b = MpArr [mp_bulk_transactions b]"

definition mp_transaction :: "transaction \<Rightarrow> mp_value" where
  "mp_transaction tx =
     (case tx of
        UnitTransaction t \<Rightarrow>
          MpArr [MpStr ''unit_tx'', mp_transaction_data (st_data t), MpBin (st_signature t)]
      | BulkTransaction t \<Rightarrow>
          MpArr [MpStr ''bulk_tx'', mp_transaction_data (bt_data t), MpBin (bt_signature t)])"

definition mp_event :: "smart_contract_event \<Rightarrow> mp_value" where
  "mp_event e =
     MpArr [mp_hash (ev_event_tx e), MpStr (ev_emitter_account e), mp_hash (ev_emitter_smart_contract e),
            MpStr (ev_event_name e), MpBin (ev_event_data e)]"

text \<open>\<open>skip_serializing_if = "Option::is_none"\<close>: a receipt without events has five fields.\<close>

definition mp_receipt :: "receipt \<Rightarrow> mp_value" where
  "mp_receipt r =
     MpArr ([mp_u64 (rx_height r), mp_u32 (rx_index r), mp_u64 (rx_burned_fuel r),
             MpBool (rx_success r), MpBin (rx_returns r)] @
            (case rx_events r of None \<Rightarrow> [] | Some es \<Rightarrow> [MpArr (map mp_event es)]))"

definition mp_block_data :: "block_data \<Rightarrow> mp_value" where
  "mp_block_data b =
     MpArr [mp_option mp_public_key (bd_validator b), mp_u64 (bd_height b), mp_u32 (bd_size b),
            mp_hash (bd_prev_hash b), mp_hash (bd_txs_hash b), mp_hash (bd_rxs_hash b),
            mp_hash (bd_state_hash b), mp_u64 (bd_timestamp b)]"

definition mp_block :: "block \<Rightarrow> mp_value" where
  "mp_block b = MpArr [mp_block_data (blk_data b), MpBin (blk_signature b)]"

definition mp_account :: "account \<Rightarrow> mp_value" where
  "mp_account a =
     MpArr [MpStr (ac_id a), MpMap (map (\<lambda>(k, v). (k, MpBin v)) (ac_assets a)),
            mp_option mp_hash (ac_contract a), mp_option mp_hash (ac_data_hash a)]"

section \<open>Accessors of \<open>TransactionData\<close>\<close>

fun get_caller :: "transaction_data \<Rightarrow> public_key" where
  "get_caller (V1 d) = td_caller d"
| "get_caller (BulkNodeV1 d) = td_caller d"
| "get_caller (BulkRootV1 d) = td_caller d"
| "get_caller (BulkV1 (BulkTransactions (UnsignedTransaction root) _)) = get_caller root"
| "get_caller (BulkEmpyRoot d) = et_caller d"

fun get_network :: "transaction_data \<Rightarrow> string" where
  "get_network (V1 d) = td_network d"
| "get_network (BulkNodeV1 d) = td_network d"
| "get_network (BulkRootV1 d) = td_network d"
| "get_network (BulkV1 (BulkTransactions (UnsignedTransaction root) _)) = get_network root"
| "get_network (BulkEmpyRoot d) = et_network d"

fun get_account :: "transaction_data \<Rightarrow> string" where
  "get_account (V1 d) = td_account d"
| "get_account (BulkNodeV1 d) = td_account d"
| "get_account (BulkRootV1 d) = td_account d"
| "get_account (BulkV1 (BulkTransactions (UnsignedTransaction root) _)) = get_account root"
| "get_account (BulkEmpyRoot d) = []"

fun get_method :: "transaction_data \<Rightarrow> string" where
  "get_method (V1 d) = td_method d"
| "get_method (BulkNodeV1 d) = td_method d"
| "get_method (BulkRootV1 d) = td_method d"
| "get_method (BulkV1 (BulkTransactions (UnsignedTransaction root) _)) = get_method root"
| "get_method (BulkEmpyRoot d) = []"

fun get_args :: "transaction_data \<Rightarrow> bytes" where
  "get_args (V1 d) = td_args d"
| "get_args (BulkNodeV1 d) = td_args d"
| "get_args (BulkRootV1 d) = td_args d"
| "get_args (BulkV1 (BulkTransactions (UnsignedTransaction root) _)) = get_args root"
| "get_args (BulkEmpyRoot d) = []"

fun get_fuel_limit :: "transaction_data \<Rightarrow> u64" where
  "get_fuel_limit (V1 d) = td_fuel_limit d"
| "get_fuel_limit (BulkV1 (BulkTransactions (UnsignedTransaction root) _)) =
     (case root of
        BulkRootV1 d \<Rightarrow> td_fuel_limit d
      | BulkEmpyRoot d \<Rightarrow> et_fuel_limit d
      | _ \<Rightarrow> 0)"
| "get_fuel_limit _ = 0"

fun get_contract :: "transaction_data \<Rightarrow> hash option" where
  "get_contract (V1 d) = td_contract d"
| "get_contract (BulkNodeV1 d) = td_contract d"
| "get_contract (BulkRootV1 d) = td_contract d"
| "get_contract (BulkV1 (BulkTransactions (UnsignedTransaction root) _)) = get_contract root"
| "get_contract (BulkEmpyRoot d) = None"

fun get_dependency :: "transaction_data \<Rightarrow> hash result" where
  "get_dependency (BulkNodeV1 d) = Inr (td_depends_on d)"
| "get_dependency _ =
     Inl (error_new_ext NotImplemented ''verify method not implemented for this tx data type'')"

fun set_contract :: "hash option \<Rightarrow> transaction_data \<Rightarrow> transaction_data" where
  "set_contract c (V1 d) = V1 (d\<lparr>td_contract := c\<rparr>)"
| "set_contract c (BulkNodeV1 d) = BulkNodeV1 (d\<lparr>td_contract := c\<rparr>)"
| "set_contract c (BulkRootV1 d) = BulkRootV1 (d\<lparr>td_contract := c\<rparr>)"
| "set_contract c (BulkV1 (BulkTransactions (UnsignedTransaction root) nodes)) =
     BulkV1 (BulkTransactions (UnsignedTransaction (set_contract c root)) nodes)"
| "set_contract c (BulkEmpyRoot d) = BulkEmpyRoot d"

fun set_account :: "string \<Rightarrow> transaction_data \<Rightarrow> transaction_data" where
  "set_account a (V1 d) = V1 (d\<lparr>td_account := a\<rparr>)"
| "set_account a (BulkNodeV1 d) = BulkNodeV1 (d\<lparr>td_account := a\<rparr>)"
| "set_account a (BulkRootV1 d) = BulkRootV1 (d\<lparr>td_account := a\<rparr>)"
| "set_account a (BulkV1 (BulkTransactions (UnsignedTransaction root) nodes)) =
     BulkV1 (BulkTransactions (UnsignedTransaction (set_account a root)) nodes)"
| "set_account a (BulkEmpyRoot d) = BulkEmpyRoot d"

fun set_nonce :: "bytes \<Rightarrow> transaction_data \<Rightarrow> transaction_data" where
  "set_nonce n (V1 d) = V1 (d\<lparr>td_nonce := n\<rparr>)"
| "set_nonce n (BulkNodeV1 d) = BulkNodeV1 (d\<lparr>td_nonce := n\<rparr>)"
| "set_nonce n (BulkRootV1 d) = BulkRootV1 (d\<lparr>td_nonce := n\<rparr>)"
| "set_nonce n (BulkV1 (BulkTransactions (UnsignedTransaction root) nodes)) =
     BulkV1 (BulkTransactions (UnsignedTransaction (set_nonce n root)) nodes)"
| "set_nonce n (BulkEmpyRoot d) = BulkEmpyRoot (d\<lparr>et_nonce := n\<rparr>)"

section \<open>Signatures and integrity\<close>

definition data_hash :: "env \<Rightarrow> transaction_data \<Rightarrow> hash" where
  "data_hash E d = primary_hash E (mp_transaction_data d)"

definition v1_sign :: "env \<Rightarrow> transaction_data_v1 \<Rightarrow> key_pair \<Rightarrow> bytes result" where
  "v1_sign E d kp = kp_sign E kp (e_rmp E (mp_v1_struct d))"

definition v1_verify :: "env \<Rightarrow> transaction_data_v1 \<Rightarrow> public_key \<Rightarrow> bytes \<Rightarrow> unit result" where
  "v1_verify E d pk sig =
     (if pk_verify E pk (e_rmp E (mp_v1_struct d)) sig then Inr ()
      else Inl (error_new InvalidSignature))"

definition v1_check_integrity :: "transaction_data_v1 \<Rightarrow> unit result" where
  "v1_check_integrity d =
     (if td_account d \<noteq> [] \<and> td_nonce d \<noteq> [] \<and> td_network d \<noteq> [] \<and> td_method d \<noteq> []
      then Inr () else Inl (error_new BrokenIntegrity))"

definition bulk_node_sign :: "env \<Rightarrow> transaction_data_bulk_node_v1 \<Rightarrow> key_pair \<Rightarrow> bytes result" where
  "bulk_node_sign E d kp = kp_sign E kp (e_rmp E (mp_bulk_node_struct d))"

definition bulk_node_verify ::
  "env \<Rightarrow> transaction_data_bulk_node_v1 \<Rightarrow> public_key \<Rightarrow> bytes \<Rightarrow> unit result" where
  "bulk_node_verify E d pk sig =
     (if pk_verify E pk (e_rmp E (mp_bulk_node_struct d)) sig then Inr ()
      else Inl (error_new InvalidSignature))"

definition bulk_sign :: "env \<Rightarrow> bulk_transactions \<Rightarrow> key_pair \<Rightarrow> bytes result" where
  "bulk_sign E b kp = kp_sign E kp (e_rmp E (mp_bulk_struct b))"

text \<open>The loop of \<open>TransactionDataBulkV1::verify\<close> over the nodes.\<close>

fun verify_nodes :: "env \<Rightarrow> signed_transaction list \<Rightarrow> unit result" where
  "verify_nodes E [] = Inr ()"
| "verify_nodes E (node # nodes) =
     (case st_data node of
        BulkNodeV1 d \<Rightarrow>
          try_bind (bulk_node_verify E d (td_caller d) (st_signature node)) (\<lambda>_. verify_nodes E nodes)
      | _ \<Rightarrow> Inl (error_new WrongTxType))"

definition bulk_verify :: "env \<Rightarrow> bulk_transactions \<Rightarrow> public_key \<Rightarrow> bytes \<Rightarrow> unit result" where
  "bulk_verify E b pk sig =
     (if pk_verify E pk (e_rmp E (mp_bulk_struct b)) sig
      then (case bulk_nodes b of Some nodes \<Rightarrow> verify_nodes E nodes | None \<Rightarrow> Inr ())
      else Inl (error_new InvalidSignature))"

text \<open>The loop of \<open>TransactionDataBulkV1::check_integrity\<close>.\<close>

fun check_nodes :: "hash \<Rightarrow> string \<Rightarrow> signed_transaction list \<Rightarrow> unit result" where
  "check_nodes root_hash network [] = Inr ()"
| "check_nodes root_hash network (node # nodes) =
     (case get_dependency (st_data node) of
        Inl error \<Rightarrow> Inl error
      | Inr dep_hash \<Rightarrow>
          if dep_hash \<noteq> root_hash
          then Inl (error_new_ext BrokenIntegrity ''The node has incoherent dependency'')
          else if get_network (st_data node) \<noteq> network
          then Inl (error_new_ext BrokenIntegrity ''The node has incoherent network'')
          else check_nodes root_hash network nodes)"

definition bulk_check_integrity :: "env \<Rightarrow> bulk_transactions \<Rightarrow> unit result" where
  "bulk_check_integrity E b =
     (let root = ut_data (bulk_root b); root_hash = data_hash E root; network = get_network root
      in case bulk_nodes b of
           Some nodes \<Rightarrow>
             if nodes = [] then Inl (error_new_ext BrokenIntegrity ''The bulk has no nodes'')
             else check_nodes root_hash network nodes
         | None \<Rightarrow> Inl (error_new_ext BrokenIntegrity ''The bulk has no nodes''))"

definition data_sign :: "env \<Rightarrow> transaction_data \<Rightarrow> key_pair \<Rightarrow> bytes result" where
  "data_sign E d kp =
     (case d of
        V1 t \<Rightarrow> v1_sign E t kp
      | BulkNodeV1 t \<Rightarrow> bulk_node_sign E t kp
      | BulkV1 t \<Rightarrow> bulk_sign E t kp
      | _ \<Rightarrow> Inl (error_new_ext NotImplemented ''signature method not implemented for this tx data type''))"

definition data_verify :: "env \<Rightarrow> transaction_data \<Rightarrow> public_key \<Rightarrow> bytes \<Rightarrow> unit result" where
  "data_verify E d pk sig =
     (case d of
        V1 t \<Rightarrow> v1_verify E t pk sig
      | BulkNodeV1 t \<Rightarrow> bulk_node_verify E t pk sig
      | BulkV1 t \<Rightarrow> bulk_verify E t pk sig
      | _ \<Rightarrow> Inl (error_new_ext NotImplemented ''verify method not implemented for this tx data type''))"

definition data_check_integrity :: "env \<Rightarrow> transaction_data \<Rightarrow> unit result" where
  "data_check_integrity E d =
     (case d of
        BulkV1 t \<Rightarrow> bulk_check_integrity E t
      | V1 t \<Rightarrow> v1_check_integrity t
      | _ \<Rightarrow> Inl (error_new_ext NotImplemented ''verify method not implemented for this tx data type''))"

section \<open>Operations of \<open>Transaction\<close>\<close>

definition tx_data :: "transaction \<Rightarrow> transaction_data" where
  "tx_data tx = (case tx of UnitTransaction t \<Rightarrow> st_data t | BulkTransaction t \<Rightarrow> bt_data t)"

definition tx_sign :: "env \<Rightarrow> transaction \<Rightarrow> key_pair \<Rightarrow> bytes result" where
  "tx_sign E tx kp =
     (case tx of
        UnitTransaction t \<Rightarrow> kp_sign E kp (e_rmp E (mp_transaction_data (st_data t)))
      | BulkTransaction t \<Rightarrow> kp_sign E kp (e_rmp E (mp_transaction_data (bt_data t))))"

definition tx_verify :: "env \<Rightarrow> transaction \<Rightarrow> public_key \<Rightarrow> bytes \<Rightarrow> unit result" where
  "tx_verify E tx pk sig =
     (case tx of
        UnitTransaction t \<Rightarrow>
          if pk_verify E pk (e_rmp E (mp_transaction_data (st_data t))) sig then Inr ()
          else Inl (error_new InvalidSignature)
      | BulkTransaction t \<Rightarrow>
          if pk_verify E pk (e_rmp E (mp_transaction_data (bt_data t))) sig then Inr ()
          else Inl (error_new InvalidSignature))"

definition tx_check_integrity :: "env \<Rightarrow> transaction \<Rightarrow> unit result" where
  "tx_check_integrity E tx = data_check_integrity E (tx_data tx)"

definition tx_get_caller :: "transaction \<Rightarrow> public_key" where
  "tx_get_caller tx = get_caller (tx_data tx)"

definition tx_get_network :: "transaction \<Rightarrow> string" where
  "tx_get_network tx = get_network (tx_data tx)"

definition tx_get_account :: "transaction \<Rightarrow> string" where
  "tx_get_account tx = get_account (tx_data tx)"

definition tx_get_method :: "transaction \<Rightarrow> string" where
  "tx_get_method tx = get_method (tx_data tx)"

definition tx_get_args :: "transaction \<Rightarrow> bytes" where
  "tx_get_args tx = get_args (tx_data tx)"

definition tx_get_contract :: "transaction \<Rightarrow> hash option" where
  "tx_get_contract tx = get_contract (tx_data tx)"

definition tx_get_dependency :: "transaction \<Rightarrow> hash result" where
  "tx_get_dependency tx = get_dependency (tx_data tx)"

definition tx_get_signature :: "transaction \<Rightarrow> bytes" where
  "tx_get_signature tx = (case tx of UnitTransaction t \<Rightarrow> st_signature t | BulkTransaction t \<Rightarrow> bt_signature t)"

definition tx_get_primary_hash :: "env \<Rightarrow> transaction \<Rightarrow> hash" where
  "tx_get_primary_hash E tx = data_hash E (tx_data tx)"

definition tx_get_fuel_limit :: "transaction \<Rightarrow> u64" where
  "tx_get_fuel_limit tx = get_fuel_limit (tx_data tx)"

section \<open>Accounts and blocks\<close>

definition account_new :: "string \<Rightarrow> hash option \<Rightarrow> account" where
  "account_new i c = \<lparr>ac_id = i, ac_assets = [], ac_contract = c, ac_data_hash = None\<rparr>"

definition account_load_asset :: "account \<Rightarrow> string \<Rightarrow> bytes" where
  "account_load_asset a asset = (case map_of (ac_assets a) asset of None \<Rightarrow> [] | Some v \<Rightarrow> v)"

definition account_store_asset :: "account \<Rightarrow> string \<Rightarrow> bytes \<Rightarrow> account" where
  "account_store_asset a asset v = a\<lparr>ac_assets := bt_insert asset v (ac_assets a)\<rparr>"

definition account_remove_asset :: "account \<Rightarrow> string \<Rightarrow> account" where
  "account_remove_asset a asset = a\<lparr>ac_assets := bt_remove asset (ac_assets a)\<rparr>"

definition block_hash :: "env \<Rightarrow> block \<Rightarrow> hash" where
  "block_hash E b = primary_hash E (mp_block_data (blk_data b))"

section \<open>Integrity of bulk transactions\<close>

text \<open>What \<open>check_integrity\<close> demands of one node.\<close>

definition coherent_node :: "hash \<Rightarrow> string \<Rightarrow> signed_transaction \<Rightarrow> bool" where
  "coherent_node root_hash network node =
     (case st_data node of
        BulkNodeV1 d \<Rightarrow> td_depends_on d = root_hash \<and> td_network d = network
      | _ \<Rightarrow> False)"

lemma check_nodes_iff: "check_nodes h n nodes = Inr () \<longleftrightarrow> list_all (coherent_node h n) nodes"
proof (induction nodes)
  case (Cons node nodes)
  then show ?case by (cases "st_data node") (auto simp: coherent_node_def)
qed simp

text \<open>C32. A bulk transaction passes the integrity check exactly when it has at least one node and
  every node is a \<open>BulkNodeV1\<close> (so never a bulk itself) that depends on the hash of the root and
  names the root's network; otherwise the check is an error.\<close>

theorem bulk_check_integrity_iff:
  "bulk_check_integrity E b = Inr () \<longleftrightarrow>
     (\<exists>node nodes. bulk_nodes b = Some (node # nodes) \<and>
        list_all (coherent_node (data_hash E (ut_data (bulk_root b))) (get_network (ut_data (bulk_root b))))
          (node # nodes))"
proof (cases "bulk_nodes b")
  case (Some nodes)
  then show ?thesis
    by (cases nodes) (auto simp: bulk_check_integrity_def Let_def check_nodes_iff simp del: check_nodes.simps)
qed (simp add: bulk_check_integrity_def)

section \<open>Signing and verifying\<close>

text \<open>What the code relies on in the signature crates: a produced signature verifies.\<close>

definition sound_keypair :: "env \<Rightarrow> key_pair \<Rightarrow> bool" where
  "sound_keypair E kp \<longleftrightarrow>
     (\<forall>data sig. kp_sign E kp data = Inr sig \<longrightarrow> pk_verify E (kp_public_key kp) data sig)"

lemma sound_keypairD: "sound_keypair E kp \<Longrightarrow> kp_sign E kp data = Inr sig \<Longrightarrow> pk_verify E (kp_public_key kp) data sig"
  by (simp add: sound_keypair_def)

lemma sound_keypair_demo: "sound_keypair demo_env kp"
  by (cases kp) (auto simp: sound_keypair_def kp_sign_def pk_verify_def kp_public_key_def demo_env_def)

lemma verify_nodes_iff:
  "verify_nodes E nodes = Inr () \<longleftrightarrow>
     list_all (\<lambda>n. \<exists>d. st_data n = BulkNodeV1 d \<and> bulk_node_verify E d (td_caller d) (st_signature n) = Inr ()) nodes"
proof (induction nodes)
  case (Cons node nodes)
  then show ?case by (cases "st_data node") (auto simp: try_bind_Inr_iff)
qed simp

text \<open>Signing transaction data and verifying the result with the matching public key succeeds:
  outright for unit transactions and bulk nodes, and for a bulk exactly when each of its nodes is a
  \<open>BulkNodeV1\<close> whose own signature verifies under its own caller.\<close>

theorem data_sign_verify:
  assumes "sound_keypair E kp" and "data_sign E d kp = Inr sig"
  shows "data_verify E d (kp_public_key kp) sig = Inr () \<longleftrightarrow>
           (case d of
              BulkV1 b \<Rightarrow>
                list_all (\<lambda>n. \<exists>t. st_data n = BulkNodeV1 t \<and>
                                 bulk_node_verify E t (td_caller t) (st_signature n) = Inr ())
                  (case bulk_nodes b of None \<Rightarrow> [] | Some nodes \<Rightarrow> nodes)
            | _ \<Rightarrow> True)"
proof -
  note s = sound_keypairD [OF assms(1)]
  show ?thesis
  proof (cases d)
    case (BulkV1 b)
    with assms(2) s show ?thesis
      by (cases "bulk_nodes b")
         (simp_all add: data_sign_def data_verify_def bulk_sign_def bulk_verify_def verify_nodes_iff)
  qed (use assms(2) s in \<open>simp_all add: data_sign_def data_verify_def v1_sign_def v1_verify_def
        bulk_node_sign_def bulk_node_verify_def\<close>)
qed

definition demo_v1 :: transaction_data_v1 where
  "demo_v1 = \<lparr>td_account = ''acc'', td_fuel_limit = 1000, td_nonce = [1], td_network = ''skynet'',
     td_contract = None, td_method = ''terminate'', td_caller = Ed25519 (replicate 32 7), td_args = []\<rparr>"

theorem data_sign_verify_witness:
  "data_verify demo_env (V1 demo_v1) (kp_public_key (KpEd25519 [1] (replicate 32 7)))
     (e_rmp demo_env (mp_v1_struct demo_v1)) = Inr ()"
proof -
  have "data_sign demo_env (V1 demo_v1) (KpEd25519 [1] (replicate 32 7)) =
      Inr (e_rmp demo_env (mp_v1_struct demo_v1))"
    by (simp add: data_sign_def v1_sign_def kp_sign_def demo_env_def)
  from data_sign_verify [OF sound_keypair_demo this] show ?thesis by simp
qed

section \<open>Serialization is injective\<close>

fun wf_data :: "transaction_data \<Rightarrow> bool"
  and wf_bulk :: "bulk_transactions \<Rightarrow> bool"
  and wf_unsigned :: "unsigned_transaction \<Rightarrow> bool"
  and wf_signed :: "signed_transaction \<Rightarrow> bool" where
  "wf_data (V1 d) = pred_option wf_hash (td_contract d)"
| "wf_data (BulkNodeV1 d) = (pred_option wf_hash (td_contract d) \<and> wf_hash (td_depends_on d))"
| "wf_data (BulkRootV1 d) = pred_option wf_hash (td_contract d)"
| "wf_data (BulkV1 b) = wf_bulk b"
| "wf_data (BulkEmpyRoot d) = True"
| "wf_bulk (BulkTransactions root nodes) =
     (wf_unsigned root \<and> (case nodes of None \<Rightarrow> True | Some ns \<Rightarrow> list_all wf_signed ns))"
| "wf_unsigned (UnsignedTransaction d) = wf_data d"
| "wf_signed (SignedTransaction d sig) = wf_data d"

lemma mp_hash_inj: "wf_hash a \<Longrightarrow> wf_hash b \<Longrightarrow> mp_hash a = mp_hash b \<longleftrightarrow> a = b"
  by (auto simp: mp_hash_def dest: hash_as_bytes_inj)

lemma mp_option_hash_inj:
  "pred_option wf_hash a \<Longrightarrow> pred_option wf_hash b \<Longrightarrow>
   mp_option mp_hash a = mp_option mp_hash b \<longleftrightarrow> a = b"
  by (cases a; cases b) (auto simp: mp_option_def mp_hash_def dest: hash_as_bytes_inj)

lemma mp_public_key_inj [simp]: "mp_public_key a = mp_public_key b \<longleftrightarrow> a = b"
  by (cases a; cases b) (auto simp: mp_public_key_def curve_name_def split: curve_id.splits)

lemma v1_fields_inj:
  fixes a b :: "'r transaction_data_v1_scheme"
  assumes "pred_option wf_hash (td_contract a)" "pred_option wf_hash (td_contract b)"
    and "v1_fields a = v1_fields b"
  shows "transaction_data_v1.truncate a = transaction_data_v1.truncate b"
  using assms by (simp add: v1_fields_def mp_option_hash_inj transaction_data_v1.truncate_def)

lemma length_v1_fields [simp]: "length (v1_fields d) = 8"
  by (simp add: v1_fields_def)

lemma bulk_node_fields_inj:
  assumes "pred_option wf_hash (td_contract a)" "pred_option wf_hash (td_contract b)"
    and "wf_hash (td_depends_on a)" "wf_hash (td_depends_on b)"
    and "bulk_node_fields a = bulk_node_fields b"
  shows "a = b"
  using assms
  by (cases a; cases b) (auto simp: bulk_node_fields_def v1_fields_def mp_option_hash_inj mp_hash_inj)

lemma v1_fields_inj':
  "pred_option wf_hash (td_contract a) \<Longrightarrow> pred_option wf_hash (td_contract b) \<Longrightarrow>
   v1_fields a = v1_fields b \<Longrightarrow> a = (b :: transaction_data_v1)"
  by (cases a; cases b) (auto simp: v1_fields_def mp_option_hash_inj)

lemma empty_fields_inj: "empty_fields a = empty_fields b \<Longrightarrow> a = b"
  by (cases a; cases b) (auto simp: empty_fields_def)

lemmas schema_tags =
  schema_v1_def schema_bulk_node_def schema_bulk_root_def schema_bulk_def schema_empty_root_def

lemma schema_tags_distinct [simp]:
  "distinct [schema_v1, schema_bulk_node, schema_bulk_root, schema_bulk, schema_empty_root]"
  by (simp add: schema_tags)

lemma mp_signed_transactions_map: "mp_signed_transactions ts = map mp_signed_transaction ts"
  by (induction ts) simp_all

lemma mp_transaction_data_inj:
  "wf_data a \<Longrightarrow> wf_data a' \<Longrightarrow> mp_transaction_data a = mp_transaction_data a' \<Longrightarrow> a = a'"
  "wf_bulk b \<Longrightarrow> wf_bulk b' \<Longrightarrow> mp_bulk_transactions b = mp_bulk_transactions b' \<Longrightarrow> b = b'"
  "wf_unsigned u \<Longrightarrow> wf_unsigned u' \<Longrightarrow> mp_unsigned_transaction u = mp_unsigned_transaction u' \<Longrightarrow> u = u'"
  "wf_signed s \<Longrightarrow> wf_signed s' \<Longrightarrow> mp_signed_transaction s = mp_signed_transaction s' \<Longrightarrow> s = s'"
proof (induction a and b and u and s arbitrary: a' and b' and u' and s')
  case (V1 d)
  then show ?case using schema_tags_distinct by (cases a') (auto dest: v1_fields_inj')
next
  case (BulkNodeV1 d)
  then show ?case using schema_tags_distinct by (cases a') (auto dest: bulk_node_fields_inj)
next
  case (BulkRootV1 d)
  then show ?case using schema_tags_distinct by (cases a') (auto dest: v1_fields_inj')
next
  case (BulkV1 b)
  then show ?case using schema_tags_distinct by (cases a') auto
next
  case (BulkEmpyRoot d)
  then show ?case using schema_tags_distinct by (cases a') (auto dest: empty_fields_inj)
next
  case (BulkTransactions root nodes)
  obtain root' nodes' where b': "b' = BulkTransactions root' nodes'" by (cases b')
  have "nodes = nodes'"
  proof (cases nodes; cases nodes')
    fix ns ns' assume n: "nodes = Some ns" "nodes' = Some ns'"
    with BulkTransactions.prems b' have m: "map mp_signed_transaction ns = map mp_signed_transaction ns'"
      and w: "list_all wf_signed ns" "list_all wf_signed ns'"
      by (simp_all add: mp_signed_transactions_map)
    from m have "ns = ns'"
      by (rule map_eq_imp_eq)
         (use w BulkTransactions.IH(2) n in \<open>auto simp: list_all_iff\<close>)
    with n show ?thesis by simp
  qed (use BulkTransactions.prems b' in auto)
  moreover have "root = root'"
    using BulkTransactions.prems BulkTransactions.IH(1) b' by (cases nodes; cases nodes') auto
  ultimately show ?case using b' by simp
next
  case (UnsignedTransaction d)
  then show ?case by (cases u') auto
next
  case (SignedTransaction d sig)
  then show ?case by (cases s') auto
qed

text \<open>C33. The identifier of a transaction binds its content: if two well-formed payloads have the
  same primary hash then they are equal, or their two serializations are a SHA-256 collision. The
  only assumption on the MessagePack writer is that it does not map two values to the same bytes.\<close>

theorem primary_hash_binds_data:
  assumes "inj (e_rmp E)" and "wf_data (tx_data a)" and "wf_data (tx_data b)"
    and "tx_get_primary_hash E a = tx_get_primary_hash E b"
  shows "tx_data a = tx_data b \<or>
         (let x = e_rmp E (mp_transaction_data (tx_data a)); y = e_rmp E (mp_transaction_data (tx_data b))
          in x \<noteq> y \<and> digest_bytes (e_sha256 E x) = digest_bytes (e_sha256 E y))"
proof (cases "tx_data a = tx_data b")
  case False
  then have "mp_transaction_data (tx_data a) \<noteq> mp_transaction_data (tx_data b)"
    using assms(2,3) mp_transaction_data_inj(1) by blast
  then have "e_rmp E (mp_transaction_data (tx_data a)) \<noteq> e_rmp E (mp_transaction_data (tx_data b))"
    using assms(1) by (meson inj_eq)
  moreover from assms(4)
  have "digest_bytes (e_sha256 E (e_rmp E (mp_transaction_data (tx_data a)))) =
        digest_bytes (e_sha256 E (e_rmp E (mp_transaction_data (tx_data b))))"
    by (simp add: tx_get_primary_hash_def data_hash_def primary_hash_def hash_of_digest_def hash_pack_def)
  ultimately show ?thesis by (simp add: Let_def)
qed simp

instance mp_value :: countable
  by countable_datatype

definition unary_env :: env where
  "unary_env = demo_env\<lparr>e_rmp := (\<lambda>v. replicate (to_nat v) 0)\<rparr>"

lemma inj_unary_env: "inj (e_rmp unary_env)"
  by (auto simp: unary_env_def inj_def dest: arg_cong [of _ _ length])

theorem primary_hash_binds_data_witness:
  "let a = UnitTransaction (SignedTransaction (V1 demo_v1) [1]);
       b = UnitTransaction (SignedTransaction (V1 demo_v1) [2])
   in tx_get_primary_hash unary_env a = tx_get_primary_hash unary_env b \<and> tx_data a = tx_data b"
proof -
  let ?a = "UnitTransaction (SignedTransaction (V1 demo_v1) [1])"
  let ?b = "UnitTransaction (SignedTransaction (V1 demo_v1) [2])"
  have "tx_data ?a = tx_data ?b \<or>
      (let x = e_rmp unary_env (mp_transaction_data (tx_data ?a));
           y = e_rmp unary_env (mp_transaction_data (tx_data ?b))
       in x \<noteq> y \<and> digest_bytes (e_sha256 unary_env x) = digest_bytes (e_sha256 unary_env y))"
    by (rule primary_hash_binds_data [OF inj_unary_env])
       (simp_all add: tx_data_def demo_v1_def tx_get_primary_hash_def)
  then show ?thesis by (simp add: tx_data_def tx_get_primary_hash_def)
qed

section \<open>Assets\<close>

text \<open>The assets of an account behave as a map from asset names to balances: a stored value is
  the one loaded, other assets keep theirs, a removed asset loads as the empty balance, and the
  ordered representation stays ordered.\<close>

theorem account_assets_map:
  "account_load_asset (account_store_asset a k v) k' = (if k' = k then v else account_load_asset a k') \<and>
   account_load_asset (account_remove_asset a k) k' = (if k' = k then [] else account_load_asset a k') \<and>
   account_load_asset (account_new i c) k' = [] \<and>
   (bt_wf (ac_assets a) \<longrightarrow>
      bt_wf (ac_assets (account_store_asset a k v)) \<and> bt_wf (ac_assets (account_remove_asset a k)))"
  by (auto simp: account_load_asset_def account_store_asset_def account_remove_asset_def account_new_def)

theorem account_assets_map_witness:
  "bt_wf (ac_assets (account_new ''a'' None)) \<and>
   bt_wf (ac_assets (account_store_asset (account_new ''a'' None) ''sky'' [3]))"
  using account_assets_map [of "account_new ''a'' None" "''sky''" "[3]" "''sky''" "''a''" None]
  by (simp add: account_new_def)

end
