(* ===== verification/Db.thy ===== *)
theory Db
  imports Schema
begin

text \<open>
  The database: the traits \<open>Db\<close> and \<open>DbFork\<close> of \<^verbatim>\<open>src/db/mod.rs\<close> and their implementation on
  merkledb, \<^verbatim>\<open>src/db/rocks.rs\<close>.

  \<open>store\<close> is what the named indexes of \<^verbatim>\<open>rocks.rs\<close> hold, one field per index. A trait is a record
  of its methods (\<open>db_ops\<close>), as a generic parameter \<open>D: Db\<close> is passed to the code that uses it, and
  the locale \<open>db_contract\<close> is what the traits promise: every method acts on a fork the way a pure
  function acts on its abstraction \<open>fork_abs\<close> (contents, last checkpoint, contents it was forked
  from). merkledb itself is the parameter \<open>merkledb\<close>; the locale \<open>merkledb_api\<close> states its documented
  behaviour, and \<open>rocks_ops\<close> is shown to satisfy \<open>db_contract\<close> on top of it.
\<close>

section \<open>Contents of the indexes\<close>

record store =
  st_accounts :: "string \<Rightarrow> account option"
  st_account_data :: "string \<Rightarrow> string \<Rightarrow> bytes option"
  st_config :: "string \<Rightarrow> bytes option"
  st_internal :: "string \<Rightarrow> bytes option"
  st_transactions :: "hash \<Rightarrow> transaction option"
  st_receipts :: "hash \<Rightarrow> receipt option"
  st_transactions_hash :: "u64 \<Rightarrow> hash list"
  st_receipts_hash :: "u64 \<Rightarrow> hash list"
  st_blocks :: "block list"

definition store_empty :: store where
  "store_empty =
     \<lparr>st_accounts = (\<lambda>_. None), st_account_data = (\<lambda>_ _. None), st_config = (\<lambda>_. None),
      st_internal = (\<lambda>_. None), st_transactions = (\<lambda>_. None), st_receipts = (\<lambda>_. None),
      st_transactions_hash = (\<lambda>_. []), st_receipts_hash = (\<lambda>_. []), st_blocks = []\<rparr>"

definition st_store_account :: "account \<Rightarrow> store \<Rightarrow> store" where
  "st_store_account a s = s\<lparr>st_accounts := (st_accounts s)(ac_id a \<mapsto> a)\<rparr>"

definition st_put_account_data :: "string \<Rightarrow> string \<Rightarrow> bytes option \<Rightarrow> store \<Rightarrow> store" where
  "st_put_account_data aid k v s =
     s\<lparr>st_account_data := (st_account_data s)(aid := (st_account_data s aid)(k := v))\<rparr>"

definition st_store_data :: "string \<Rightarrow> bytes \<Rightarrow> store \<Rightarrow> store" where
  "st_store_data k v s = s\<lparr>st_internal := (st_internal s)(k \<mapsto> v)\<rparr>"

definition st_store_transaction :: "hash \<Rightarrow> transaction \<Rightarrow> store \<Rightarrow> store" where
  "st_store_transaction h tx s = s\<lparr>st_transactions := (st_transactions s)(h \<mapsto> tx)\<rparr>"

definition st_store_receipt :: "hash \<Rightarrow> receipt \<Rightarrow> store \<Rightarrow> store" where
  "st_store_receipt h r s = s\<lparr>st_receipts := (st_receipts s)(h \<mapsto> r)\<rparr>"

definition st_store_block :: "block \<Rightarrow> store \<Rightarrow> store" where
  "st_store_block b s = s\<lparr>st_blocks := st_blocks s @ [b]\<rparr>"

definition st_store_transactions_hashes :: "u64 \<Rightarrow> hash list \<Rightarrow> store \<Rightarrow> store" where
  "st_store_transactions_hashes ht hs s =
     s\<lparr>st_transactions_hash := (st_transactions_hash s)(ht := st_transactions_hash s ht @ hs)\<rparr>"

definition st_store_receipts_hashes :: "u64 \<Rightarrow> hash list \<Rightarrow> store \<Rightarrow> store" where
  "st_store_receipts_hashes ht hs s =
     s\<lparr>st_receipts_hash := (st_receipts_hash s)(ht := st_receipts_hash s ht @ hs)\<rparr>"

definition st_store_configuration :: "string \<Rightarrow> bytes \<Rightarrow> store \<Rightarrow> store" where
  "st_store_configuration aid c s = s\<lparr>st_config := (st_config s)(aid \<mapsto> c)\<rparr>"

text \<open>\<open>u64::MAX\<close> selects the last block.\<close>

definition st_load_block :: "u64 \<Rightarrow> store \<Rightarrow> block option" where
  "st_load_block ht s =
     (if ht = u64_max then (if st_blocks s = [] then None else Some (last (st_blocks s)))
      else if unat ht < length (st_blocks s) then Some (st_blocks s ! unat ht)
      else None)"

definition st_load_transactions_hashes :: "u64 \<Rightarrow> store \<Rightarrow> hash list option" where
  "st_load_transactions_hashes ht s =
     (if st_transactions_hash s ht = [] then None else Some (st_transactions_hash s ht))"

text \<open>The accounts index hashes the serialized accounts (\<open>BinaryValue::to_bytes\<close>).\<close>

definition st_state_hash :: "env \<Rightarrow> string \<Rightarrow> store \<Rightarrow> hash" where
  "st_state_hash E aid s =
     hash_of_digest
       (if aid \<noteq> [] then e_map_root E (st_account_data s aid)
        else e_map_root E (\<lambda>k. map_option (\<lambda>a. e_rmp E (mp_account a)) (st_accounts s k)))"

section \<open>The traits\<close>

record ('d, 'f) db_ops =
  db_load_account :: "'d \<Rightarrow> string \<Rightarrow> account option"
  db_load_account_keys :: "'d \<Rightarrow> string \<Rightarrow> string list"
  db_load_account_data :: "'d \<Rightarrow> string \<Rightarrow> string \<Rightarrow> bytes option"
  db_load_data :: "'d \<Rightarrow> string \<Rightarrow> bytes option"
  db_contains_transaction :: "'d \<Rightarrow> hash \<Rightarrow> bool"
  db_load_transaction :: "'d \<Rightarrow> hash \<Rightarrow> transaction option"
  db_load_receipt :: "'d \<Rightarrow> hash \<Rightarrow> receipt option"
  db_load_block :: "'d \<Rightarrow> u64 \<Rightarrow> block option"
  db_load_transactions_hashes :: "'d \<Rightarrow> u64 \<Rightarrow> hash list option"
  db_fork_create :: "'d \<Rightarrow> 'f"
  db_fork_merge :: "'d \<Rightarrow> 'f \<Rightarrow> 'd result"
  db_load_configuration :: "'d \<Rightarrow> string \<Rightarrow> bytes option"
  fk_state_hash :: "'f \<Rightarrow> string \<Rightarrow> hash"
  fk_load_account :: "'f \<Rightarrow> string \<Rightarrow> account option"
  fk_store_account :: "'f \<Rightarrow> account \<Rightarrow> 'f"
  fk_load_account_data :: "'f \<Rightarrow> string \<Rightarrow> string \<Rightarrow> bytes option"
  fk_store_account_data :: "'f \<Rightarrow> string \<Rightarrow> string \<Rightarrow> bytes \<Rightarrow> 'f"
  fk_load_data :: "'f \<Rightarrow> string \<Rightarrow> bytes option"
  fk_store_data :: "'f \<Rightarrow> string \<Rightarrow> bytes \<Rightarrow> 'f"
  fk_remove_account_data :: "'f \<Rightarrow> string \<Rightarrow> string \<Rightarrow> 'f"
  fk_load_account_keys :: "'f \<Rightarrow> string \<Rightarrow> string list"
  fk_store_transaction :: "'f \<Rightarrow> hash \<Rightarrow> transaction \<Rightarrow> 'f"
  fk_store_receipt :: "'f \<Rightarrow> hash \<Rightarrow> receipt \<Rightarrow> 'f"
  fk_store_block :: "'f \<Rightarrow> block \<Rightarrow> 'f"
  fk_store_transactions_hashes :: "'f \<Rightarrow> u64 \<Rightarrow> hash list \<Rightarrow> 'f \<times> hash"
  fk_store_receipts_hashes :: "'f \<Rightarrow> u64 \<Rightarrow> hash list \<Rightarrow> 'f \<times> hash"
  fk_flush :: "'f \<Rightarrow> 'f"
  fk_rollback :: "'f \<Rightarrow> 'f"
  fk_store_configuration :: "'f \<Rightarrow> string \<Rightarrow> bytes \<Rightarrow> 'f"

section \<open>merkledb, a parameter\<close>

text \<open>\<open>md_write\<close> is the effect on a fork of one index update, \<open>md_view\<close> what the indexes read from it;
  \<open>md_keys\<close> is the order in which \<open>ProofMapIndex::keys\<close> enumerates; \<open>md_merge\<close> is \<open>into_patch\<close>
  followed by \<open>Database::merge\<close>.\<close>

record ('b, 'f) merkledb =
  md_snapshot :: "'b \<Rightarrow> store"
  md_fork :: "'b \<Rightarrow> 'f"
  md_view :: "'f \<Rightarrow> store"
  md_write :: "(store \<Rightarrow> store) \<Rightarrow> 'f \<Rightarrow> 'f"
  md_flush :: "'f \<Rightarrow> 'f"
  md_rollback :: "'f \<Rightarrow> 'f"
  md_merge :: "'b \<Rightarrow> 'f \<Rightarrow> string + 'b"
  md_keys :: "(string \<Rightarrow> bytes option) \<Rightarrow> string list"

section \<open>\<open>RocksDb\<close> and \<open>RocksDbFork\<close>\<close>

record 'b rocks_db =
  rd_backend :: 'b
  rd_snap :: store

definition rocks_new :: "('b, 'f) merkledb \<Rightarrow> 'b \<Rightarrow> 'b rocks_db" where
  "rocks_new M backend = \<lparr>rd_backend = backend, rd_snap = md_snapshot M backend\<rparr>"

definition rocks_load_account_keys :: "('b, 'f) merkledb \<Rightarrow> 'b rocks_db \<Rightarrow> string \<Rightarrow> string list" where
  "rocks_load_account_keys M db aid = md_keys M (st_account_data (rd_snap db) aid)"

definition rocks_contains_transaction :: "'b rocks_db \<Rightarrow> hash \<Rightarrow> bool" where
  "rocks_contains_transaction db h \<longleftrightarrow> st_transactions (rd_snap db) h \<noteq> None"

definition rocks_load_block :: "'b rocks_db \<Rightarrow> u64 \<Rightarrow> block option" where
  "rocks_load_block db ht = st_load_block ht (rd_snap db)"

definition rocks_load_transactions_hashes :: "'b rocks_db \<Rightarrow> u64 \<Rightarrow> hash list option" where
  "rocks_load_transactions_hashes db ht = st_load_transactions_hashes ht (rd_snap db)"

definition rocks_fork_create :: "('b, 'f) merkledb \<Rightarrow> 'b rocks_db \<Rightarrow> 'f" where
  "rocks_fork_create M db = md_fork M (rd_backend db)"

text \<open>The snapshot is taken again only after a successful merge.\<close>

definition rocks_fork_merge :: "('b, 'f) merkledb \<Rightarrow> 'b rocks_db \<Rightarrow> 'f \<Rightarrow> 'b rocks_db result" where
  "rocks_fork_merge M db f =
     (case md_merge M (rd_backend db) f of
        Inl err \<Rightarrow> Inl (error_new_ext DatabaseFault err)
      | Inr b \<Rightarrow> Inr (db\<lparr>rd_backend := b, rd_snap := md_snapshot M b\<rparr>))"

definition fork_state_hash :: "env \<Rightarrow> ('b, 'f) merkledb \<Rightarrow> 'f \<Rightarrow> string \<Rightarrow> hash" where
  "fork_state_hash E M f aid = st_state_hash E aid (md_view M f)"

definition fork_store_account :: "('b, 'f) merkledb \<Rightarrow> 'f \<Rightarrow> account \<Rightarrow> 'f" where
  "fork_store_account M f a = md_write M (st_store_account a) f"

definition fork_store_account_data :: "('b, 'f) merkledb \<Rightarrow> 'f \<Rightarrow> string \<Rightarrow> string \<Rightarrow> bytes \<Rightarrow> 'f" where
  "fork_store_account_data M f aid k data = md_write M (st_put_account_data aid k (Some data)) f"

definition fork_remove_account_data :: "('b, 'f) merkledb \<Rightarrow> 'f \<Rightarrow> string \<Rightarrow> string \<Rightarrow> 'f" where
  "fork_remove_account_data M f aid k = md_write M (st_put_account_data aid k None) f"

definition fork_store_data :: "('b, 'f) merkledb \<Rightarrow> 'f \<Rightarrow> string \<Rightarrow> bytes \<Rightarrow> 'f" where
  "fork_store_data M f k data = md_write M (st_store_data k data) f"

definition fork_load_account_keys :: "('b, 'f) merkledb \<Rightarrow> 'f \<Rightarrow> string \<Rightarrow> string list" where
  "fork_load_account_keys M f aid = md_keys M (st_account_data (md_view M f) aid)"

definition fork_store_transaction :: "('b, 'f) merkledb \<Rightarrow> 'f \<Rightarrow> hash \<Rightarrow> transaction \<Rightarrow> 'f" where
  "fork_store_transaction M f h tx = md_write M (st_store_transaction h tx) f"

definition fork_store_receipt :: "('b, 'f) merkledb \<Rightarrow> 'f \<Rightarrow> hash \<Rightarrow> receipt \<Rightarrow> 'f" where
  "fork_store_receipt M f h r = md_write M (st_store_receipt h r) f"

definition fork_store_block :: "('b, 'f) merkledb \<Rightarrow> 'f \<Rightarrow> block \<Rightarrow> 'f" where
  "fork_store_block M f b = md_write M (st_store_block b) f"

text \<open>Both push onto what the list of this height already holds and return the root of the whole.\<close>

definition fork_store_transactions_hashes ::
    "env \<Rightarrow> ('b, 'f) merkledb \<Rightarrow> 'f \<Rightarrow> u64 \<Rightarrow> hash list \<Rightarrow> 'f \<times> hash" where
  "fork_store_transactions_hashes E M f ht hs =
     (let f' = md_write M (st_store_transactions_hashes ht hs) f
      in (f', hash_of_digest (e_list_root E (st_transactions_hash (md_view M f') ht))))"

definition fork_store_receipts_hashes ::
    "env \<Rightarrow> ('b, 'f) merkledb \<Rightarrow> 'f \<Rightarrow> u64 \<Rightarrow> hash list \<Rightarrow> 'f \<times> hash" where
  "fork_store_receipts_hashes E M f ht hs =
     (let f' = md_write M (st_store_receipts_hashes ht hs) f
      in (f', hash_of_digest (e_list_root E (st_receipts_hash (md_view M f') ht))))"

definition fork_store_configuration :: "('b, 'f) merkledb \<Rightarrow> 'f \<Rightarrow> string \<Rightarrow> bytes \<Rightarrow> 'f" where
  "fork_store_configuration M f aid c = md_write M (st_store_configuration aid c) f"

definition rocks_ops :: "env \<Rightarrow> ('b, 'f) merkledb \<Rightarrow> ('b rocks_db, 'f) db_ops" where
  "rocks_ops E M =
     \<lparr>db_load_account = (\<lambda>db. st_accounts (rd_snap db)),
      db_load_account_keys = rocks_load_account_keys M,
      db_load_account_data = (\<lambda>db. st_account_data (rd_snap db)),
      db_load_data = (\<lambda>db. st_internal (rd_snap db)),
      db_contains_transaction = rocks_contains_transaction,
      db_load_transaction = (\<lambda>db. st_transactions (rd_snap db)),
      db_load_receipt = (\<lambda>db. st_receipts (rd_snap db)),
      db_load_block = rocks_load_block,
      db_load_transactions_hashes = rocks_load_transactions_hashes,
      db_fork_create = rocks_fork_create M,
      db_fork_merge = rocks_fork_merge M,
      db_load_configuration = (\<lambda>db. st_config (rd_snap db)),
      fk_state_hash = fork_state_hash E M,
      fk_load_account = (\<lambda>f. st_accounts (md_view M f)),
      fk_store_account = fork_store_account M,
      fk_load_account_data = (\<lambda>f. st_account_data (md_view M f)),
      fk_store_account_data = fork_store_account_data M,
      fk_load_data = (\<lambda>f. st_internal (md_view M f)),
      fk_store_data = fork_store_data M,
      fk_remove_account_data = fork_remove_account_data M,
      fk_load_account_keys = fork_load_account_keys M,
      fk_store_transaction = fork_store_transaction M,
      fk_store_receipt = fork_store_receipt M,
      fk_store_block = fork_store_block M,
      fk_store_transactions_hashes = fork_store_transactions_hashes E M,
      fk_store_receipts_hashes = fork_store_receipts_hashes E M,
      fk_flush = md_flush M,
      fk_rollback = md_rollback M,
      fk_store_configuration = fork_store_configuration M\<rparr>"

text \<open>The snapshot a \<open>RocksDb\<close> reads from is the one of its backend.\<close>

definition rocks_inv :: "('b, 'f) merkledb \<Rightarrow> 'b rocks_db \<Rightarrow> bool" where
  "rocks_inv M db \<longleftrightarrow> rd_snap db = md_snapshot M (rd_backend db)"

section \<open>Abstract forks\<close>

record fork_abs =
  fa_base :: store      \<comment> \<open>contents the fork was created from\<close>
  fa_ckpt :: store      \<comment> \<open>contents at the last \<open>flush\<close>\<close>
  fa_view :: store      \<comment> \<open>contents now\<close>

definition fa_new :: "store \<Rightarrow> fork_abs" where
  "fa_new s = \<lparr>fa_base = s, fa_ckpt = s, fa_view = s\<rparr>"

definition fa_write :: "(store \<Rightarrow> store) \<Rightarrow> fork_abs \<Rightarrow> fork_abs" where
  "fa_write g a = a\<lparr>fa_view := g (fa_view a)\<rparr>"

definition fa_flush :: "fork_abs \<Rightarrow> fork_abs" where
  "fa_flush a = a\<lparr>fa_ckpt := fa_view a\<rparr>"

definition fa_rollback :: "fork_abs \<Rightarrow> fork_abs" where
  "fa_rollback a = a\<lparr>fa_view := fa_ckpt a\<rparr>"

text \<open>An in-memory merkledb, on which the witnesses evaluate.\<close>

definition mem_merkledb :: "(store, fork_abs) merkledb" where
  "mem_merkledb =
     \<lparr>md_snapshot = (\<lambda>b. b), md_fork = fa_new, md_view = fa_view, md_write = fa_write,
      md_flush = fa_flush, md_rollback = fa_rollback, md_merge = (\<lambda>_ f. Inr (fa_view f)),
      md_keys = (\<lambda>m. sorted_list_of_set (dom m))\<rparr>"

text \<open>The updates a client of \<open>DbFork\<close> can ask for, as data, and their two readings: through the
  trait and on the abstraction.\<close>

datatype fork_op =
    FStoreAccount account
  | FStoreAccountData string string bytes
  | FRemoveAccountData string string
  | FStoreData string bytes
  | FStoreTransaction hash transaction
  | FStoreReceipt hash receipt
  | FStoreBlock block
  | FStoreTransactionsHashes u64 "hash list"
  | FStoreReceiptsHashes u64 "hash list"
  | FStoreConfiguration string bytes
  | FFlush
  | FRollback

fun fork_op_run :: "('d, 'f) db_ops \<Rightarrow> fork_op \<Rightarrow> 'f \<Rightarrow> 'f" where
  "fork_op_run D (FStoreAccount a) f = fk_store_account D f a"
| "fork_op_run D (FStoreAccountData aid k v) f = fk_store_account_data D f aid k v"
| "fork_op_run D (FRemoveAccountData aid k) f = fk_remove_account_data D f aid k"
| "fork_op_run D (FStoreData k v) f = fk_store_data D f k v"
| "fork_op_run D (FStoreTransaction h tx) f = fk_store_transaction D f h tx"
| "fork_op_run D (FStoreReceipt h r) f = fk_store_receipt D f h r"
| "fork_op_run D (FStoreBlock b) f = fk_store_block D f b"
| "fork_op_run D (FStoreTransactionsHashes ht hs) f = fst (fk_store_transactions_hashes D f ht hs)"
| "fork_op_run D (FStoreReceiptsHashes ht hs) f = fst (fk_store_receipts_hashes D f ht hs)"
| "fork_op_run D (FStoreConfiguration aid c) f = fk_store_configuration D f aid c"
| "fork_op_run D FFlush f = fk_flush D f"
| "fork_op_run D FRollback f = fk_rollback D f"

fun fork_op_write :: "fork_op \<Rightarrow> store \<Rightarrow> store" where
  "fork_op_write (FStoreAccount a) = st_store_account a"
| "fork_op_write (FStoreAccountData aid k v) = st_put_account_data aid k (Some v)"
| "fork_op_write (FRemoveAccountData aid k) = st_put_account_data aid k None"
| "fork_op_write (FStoreData k v) = st_store_data k v"
| "fork_op_write (FStoreTransaction h tx) = st_store_transaction h tx"
| "fork_op_write (FStoreReceipt h r) = st_store_receipt h r"
| "fork_op_write (FStoreBlock b) = st_store_block b"
| "fork_op_write (FStoreTransactionsHashes ht hs) = st_store_transactions_hashes ht hs"
| "fork_op_write (FStoreReceiptsHashes ht hs) = st_store_receipts_hashes ht hs"
| "fork_op_write (FStoreConfiguration aid c) = st_store_configuration aid c"
| "fork_op_write FFlush = (\<lambda>s. s)"
| "fork_op_write FRollback = (\<lambda>s. s)"

definition fork_op_spec :: "fork_op \<Rightarrow> fork_abs \<Rightarrow> fork_abs" where
  "fork_op_spec p a =
     (case p of FFlush \<Rightarrow> fa_flush a | FRollback \<Rightarrow> fa_rollback a | _ \<Rightarrow> fa_write (fork_op_write p) a)"

definition fork_run :: "('d, 'f) db_ops \<Rightarrow> fork_op list \<Rightarrow> 'f \<Rightarrow> 'f" where
  "fork_run D ps f = fold (fork_op_run D) ps f"

definition fork_spec :: "fork_op list \<Rightarrow> fork_abs \<Rightarrow> fork_abs" where
  "fork_spec ps a = fold fork_op_spec ps a"

section \<open>Contracts\<close>

lemma rocks_ops_simps [simp]:
  "db_load_account (rocks_ops E M) = (\<lambda>db. st_accounts (rd_snap db))"
  "db_load_account_keys (rocks_ops E M) = rocks_load_account_keys M"
  "db_load_account_data (rocks_ops E M) = (\<lambda>db. st_account_data (rd_snap db))"
  "db_load_data (rocks_ops E M) = (\<lambda>db. st_internal (rd_snap db))"
  "db_contains_transaction (rocks_ops E M) = rocks_contains_transaction"
  "db_load_transaction (rocks_ops E M) = (\<lambda>db. st_transactions (rd_snap db))"
  "db_load_receipt (rocks_ops E M) = (\<lambda>db. st_receipts (rd_snap db))"
  "db_load_block (rocks_ops E M) = rocks_load_block"
  "db_load_transactions_hashes (rocks_ops E M) = rocks_load_transactions_hashes"
  "db_fork_create (rocks_ops E M) = rocks_fork_create M"
  "db_fork_merge (rocks_ops E M) = rocks_fork_merge M"
  "db_load_configuration (rocks_ops E M) = (\<lambda>db. st_config (rd_snap db))"
  "fk_state_hash (rocks_ops E M) = fork_state_hash E M"
  "fk_load_account (rocks_ops E M) = (\<lambda>f. st_accounts (md_view M f))"
  "fk_store_account (rocks_ops E M) = fork_store_account M"
  "fk_load_account_data (rocks_ops E M) = (\<lambda>f. st_account_data (md_view M f))"
  "fk_store_account_data (rocks_ops E M) = fork_store_account_data M"
  "fk_load_data (rocks_ops E M) = (\<lambda>f. st_internal (md_view M f))"
  "fk_store_data (rocks_ops E M) = fork_store_data M"
  "fk_remove_account_data (rocks_ops E M) = fork_remove_account_data M"
  "fk_load_account_keys (rocks_ops E M) = fork_load_account_keys M"
  "fk_store_transaction (rocks_ops E M) = fork_store_transaction M"
  "fk_store_receipt (rocks_ops E M) = fork_store_receipt M"
  "fk_store_block (rocks_ops E M) = fork_store_block M"
  "fk_store_transactions_hashes (rocks_ops E M) = fork_store_transactions_hashes E M"
  "fk_store_receipts_hashes (rocks_ops E M) = fork_store_receipts_hashes E M"
  "fk_flush (rocks_ops E M) = md_flush M"
  "fk_rollback (rocks_ops E M) = md_rollback M"
  "fk_store_configuration (rocks_ops E M) = fork_store_configuration M"
  by (simp_all add: rocks_ops_def)

lemma fa_simps [simp]:
  "fa_base (fa_new s) = s" "fa_ckpt (fa_new s) = s" "fa_view (fa_new s) = s"
  "fa_base (fa_write g a) = fa_base a" "fa_ckpt (fa_write g a) = fa_ckpt a"
  "fa_view (fa_write g a) = g (fa_view a)"
  "fa_base (fa_flush a) = fa_base a" "fa_ckpt (fa_flush a) = fa_view a" "fa_view (fa_flush a) = fa_view a"
  "fa_base (fa_rollback a) = fa_base a" "fa_ckpt (fa_rollback a) = fa_ckpt a"
  "fa_view (fa_rollback a) = fa_ckpt a"
  by (simp_all add: fa_new_def fa_write_def fa_flush_def fa_rollback_def)

lemma fork_op_spec_simps [simp]:
  "fork_op_spec (FStoreAccount a) x = fa_write (fork_op_write (FStoreAccount a)) x"
  "fork_op_spec (FStoreAccountData aid k v) x = fa_write (fork_op_write (FStoreAccountData aid k v)) x"
  "fork_op_spec (FRemoveAccountData aid k) x = fa_write (fork_op_write (FRemoveAccountData aid k)) x"
  "fork_op_spec (FStoreData k v) x = fa_write (fork_op_write (FStoreData k v)) x"
  "fork_op_spec (FStoreTransaction h tx) x = fa_write (fork_op_write (FStoreTransaction h tx)) x"
  "fork_op_spec (FStoreReceipt h r) x = fa_write (fork_op_write (FStoreReceipt h r)) x"
  "fork_op_spec (FStoreBlock b) x = fa_write (fork_op_write (FStoreBlock b)) x"
  "fork_op_spec (FStoreTransactionsHashes ht hs) x = fa_write (fork_op_write (FStoreTransactionsHashes ht hs)) x"
  "fork_op_spec (FStoreReceiptsHashes ht hs) x = fa_write (fork_op_write (FStoreReceiptsHashes ht hs)) x"
  "fork_op_spec (FStoreConfiguration aid c) x = fa_write (fork_op_write (FStoreConfiguration aid c)) x"
  "fork_op_spec FFlush x = fa_flush x"
  "fork_op_spec FRollback x = fa_rollback x"
  by (simp_all add: fork_op_spec_def)

locale merkledb_api =
  fixes M :: "('b, 'f) merkledb" and absf :: "'f \<Rightarrow> fork_abs"
  assumes fork_abs: "absf (md_fork M b) = fa_new (md_snapshot M b)"
    and view_abs: "md_view M f = fa_view (absf f)"
    and write_abs: "absf (md_write M g f) = fa_write g (absf f)"
    and flush_abs: "absf (md_flush M f) = fa_flush (absf f)"
    and rollback_abs: "absf (md_rollback M f) = fa_rollback (absf f)"
    and merge_abs: "fa_base (absf f) = md_snapshot M b \<Longrightarrow> md_merge M b f = Inr b' \<Longrightarrow>
      md_snapshot M b' = fa_view (absf f)"
    and keys_abs: "finite (dom m) \<Longrightarrow> distinct (md_keys M m) \<and> set (md_keys M m) = dom m"

locale db_contract =
  fixes E :: env and D :: "('d, 'f) db_ops"
    and snap :: "'d \<Rightarrow> store" and absf :: "'f \<Rightarrow> fork_abs" and inv :: "'d \<Rightarrow> bool"
  assumes load_account: "db_load_account D d = st_accounts (snap d)"
    and load_account_data: "db_load_account_data D d = st_account_data (snap d)"
    and load_account_keys: "finite (dom (st_account_data (snap d) aid)) \<Longrightarrow>
      set (db_load_account_keys D d aid) = dom (st_account_data (snap d) aid)"
    and load_data: "db_load_data D d = st_internal (snap d)"
    and contains_transaction: "db_contains_transaction D d h \<longleftrightarrow> st_transactions (snap d) h \<noteq> None"
    and load_transaction: "db_load_transaction D d = st_transactions (snap d)"
    and load_receipt: "db_load_receipt D d = st_receipts (snap d)"
    and load_block: "db_load_block D d ht = st_load_block ht (snap d)"
    and load_transactions_hashes:
      "db_load_transactions_hashes D d ht = st_load_transactions_hashes ht (snap d)"
    and load_configuration: "db_load_configuration D d = st_config (snap d)"
    and fork_create: "inv d \<Longrightarrow> absf (db_fork_create D d) = fa_new (snap d)"
    and fork_merge: "inv d \<Longrightarrow> fa_base (absf f) = snap d \<Longrightarrow> db_fork_merge D d f = Inr d' \<Longrightarrow>
      snap d' = fa_view (absf f) \<and> inv d'"
    and f_state_hash: "fk_state_hash D f aid = st_state_hash E aid (fa_view (absf f))"
    and f_load_account: "fk_load_account D f = st_accounts (fa_view (absf f))"
    and f_load_account_data: "fk_load_account_data D f = st_account_data (fa_view (absf f))"
    and f_load_account_keys: "finite (dom (st_account_data (fa_view (absf f)) aid)) \<Longrightarrow>
      set (fk_load_account_keys D f aid) = dom (st_account_data (fa_view (absf f)) aid)"
    and f_load_data: "fk_load_data D f = st_internal (fa_view (absf f))"
    and f_run_op: "absf (fork_op_run D p f) = fork_op_spec p (absf f)"
    and f_transactions_root: "snd (fk_store_transactions_hashes D f ht hs) =
      hash_of_digest (e_list_root E (st_transactions_hash (fa_view (absf f)) ht @ hs))"
    and f_receipts_root: "snd (fk_store_receipts_hashes D f ht hs) =
      hash_of_digest (e_list_root E (st_receipts_hash (fa_view (absf f)) ht @ hs))"
begin

lemmas abs_ops [simp] =
  f_run_op [of "FStoreAccount a" for a, simplified]
  f_run_op [of "FStoreAccountData aid k v" for aid k v, simplified]
  f_run_op [of "FRemoveAccountData aid k" for aid k, simplified]
  f_run_op [of "FStoreData k v" for k v, simplified]
  f_run_op [of "FStoreTransaction h tx" for h tx, simplified]
  f_run_op [of "FStoreReceipt h r" for h r, simplified]
  f_run_op [of "FStoreBlock b" for b, simplified]
  f_run_op [of "FStoreTransactionsHashes ht hs" for ht hs, simplified]
  f_run_op [of "FStoreReceiptsHashes ht hs" for ht hs, simplified]
  f_run_op [of "FStoreConfiguration aid c" for aid c, simplified]
  f_run_op [of FFlush, simplified]
  f_run_op [of FRollback, simplified]

lemma run_abs: "absf (fork_run D ps f) = fork_spec ps (absf f)"
  by (induction ps arbitrary: f) (simp_all add: fork_run_def fork_spec_def f_run_op)

end

lemma fa_base_op [simp]: "fa_base (fork_op_spec p a) = fa_base a"
  by (cases p) (simp_all add: fork_op_spec_def fa_write_def fa_flush_def fa_rollback_def)

lemma fa_base_spec [simp]: "fa_base (fork_spec ps a) = fa_base a"
  by (induction ps arbitrary: a) (simp_all add: fork_spec_def)

lemma fork_spec_Nil [simp]: "fork_spec [] a = a"
  by (simp add: fork_spec_def)

lemma fork_spec_append [simp]: "fork_spec (ps @ qs) a = fork_spec qs (fork_spec ps a)"
  by (simp add: fork_spec_def)

lemma fork_spec_Cons [simp]: "fork_spec (p # ps) a = fork_spec ps (fork_op_spec p a)"
  by (simp add: fork_spec_def)

sublocale merkledb_api \<subseteq> rocks: db_contract E "rocks_ops E M" rd_snap absf "rocks_inv M" for E
proof
  fix f p
  show "absf (fork_op_run (rocks_ops E M) p f) = fork_op_spec p (absf f)"
    by (cases p) (simp_all add: fork_op_spec_def fork_store_account_def
        fork_store_account_data_def fork_remove_account_data_def fork_store_data_def
        fork_store_transaction_def fork_store_receipt_def fork_store_block_def
        fork_store_transactions_hashes_def fork_store_receipts_hashes_def
        fork_store_configuration_def Let_def write_abs flush_abs rollback_abs)
next
  fix d d' :: "'b rocks_db" and f
  assume inv: "rocks_inv M d" and base: "fa_base (absf f) = rd_snap d"
    and merge: "db_fork_merge (rocks_ops E M) d f = Inr d'"
  from merge obtain b where b: "md_merge M (rd_backend d) f = Inr b"
    and d': "d' = d\<lparr>rd_backend := b, rd_snap := md_snapshot M b\<rparr>"
    by (auto simp: rocks_fork_merge_def split: sum.splits)
  from base inv have "fa_base (absf f) = md_snapshot M (rd_backend d)" by (simp add: rocks_inv_def)
  from merge_abs [OF this b] show "rd_snap d' = fa_view (absf f) \<and> rocks_inv M d'"
    by (simp add: d' rocks_inv_def)
qed (simp_all add: rocks_load_account_keys_def rocks_contains_transaction_def
      rocks_load_block_def rocks_load_transactions_hashes_def rocks_fork_create_def rocks_inv_def
      fork_state_hash_def fork_load_account_keys_def fork_store_transactions_hashes_def
      fork_store_receipts_hashes_def Let_def view_abs fork_abs write_abs fa_write_def
      st_store_transactions_hashes_def st_store_receipts_hashes_def keys_abs)

context merkledb_api
begin

lemma rocks_contract: "db_contract E (rocks_ops E M) rd_snap absf (rocks_inv M)"
  by (rule rocks.db_contract_axioms)

end

interpretation mem: merkledb_api mem_merkledb "\<lambda>f. f"
  by unfold_locales (auto simp: mem_merkledb_def finite_dom_map_of)

section \<open>Properties\<close>

text \<open>C31. Committing a fork. Whatever sequence of updates, checkpoints and rollbacks a client applies to
  a fork of a \<open>RocksDb\<close>, a successful \<open>fork_merge\<close> leaves in the database exactly the contents
  obtained by running the same sequence on the abstract fork (named indexes as maps and lists, one
  checkpoint), and the snapshot read by later loads is again that of the backend. merkledb is assumed
  to behave as \<open>merkledb_api\<close> says.
\<close>

theorem fork_commit_refines:
  assumes "merkledb_api M absf" and "rocks_inv M db"
    and "rocks_fork_merge M db (fork_run (rocks_ops E M) ps (rocks_fork_create M db)) = Inr db'"
  shows "rd_snap db' = fa_view (fork_spec ps (fa_new (rd_snap db))) \<and> rocks_inv M db'"
proof -
  from assms(1) have contract: "db_contract E (rocks_ops E M) rd_snap absf (rocks_inv M)"
    by (rule merkledb_api.rocks_contract)
  let ?f = "fork_run (rocks_ops E M) ps (rocks_fork_create M db)"
  have "absf (rocks_fork_create M db) = fa_new (rd_snap db)"
    using db_contract.fork_create [OF contract assms(2)] by simp
  then have run: "absf ?f = fork_spec ps (fa_new (rd_snap db))"
    by (simp add: db_contract.run_abs [OF contract])
  then have "fa_base (absf ?f) = rd_snap db" by (simp add: fa_new_def)
  moreover have "db_fork_merge (rocks_ops E M) db ?f = Inr db'"
    using assms(3) by simp
  ultimately show ?thesis using db_contract.fork_merge [OF contract assms(2)] run by metis
qed

definition demo_account :: account where
  "demo_account = \<lparr>ac_id = ''alice'', ac_assets = [], ac_contract = None, ac_data_hash = None\<rparr>"

theorem fork_commit_refines_witness:
  "\<exists>db'. rocks_fork_merge mem_merkledb (rocks_new mem_merkledb store_empty)
     (fork_run (rocks_ops demo_env mem_merkledb)
       [FStoreAccount demo_account, FFlush, FStoreData ''k'' [1], FRollback]
       (rocks_fork_create mem_merkledb (rocks_new mem_merkledb store_empty))) = Inr db' \<and>
     rd_snap db' = fa_view (fork_spec
       [FStoreAccount demo_account, FFlush, FStoreData ''k'' [1], FRollback]
       (fa_new store_empty)) \<and>
     st_accounts (rd_snap db') ''alice'' = Some demo_account \<and>
     st_internal (rd_snap db') ''k'' = None"
proof -
  let ?ps = "[FStoreAccount demo_account, FFlush, FStoreData ''k'' [1], FRollback]"
  let ?db = "rocks_new mem_merkledb store_empty"
  obtain db' where m: "rocks_fork_merge mem_merkledb ?db
      (fork_run (rocks_ops demo_env mem_merkledb) ?ps (rocks_fork_create mem_merkledb ?db)) = Inr db'"
    by (simp add: rocks_fork_merge_def mem_merkledb_def)
  have "rocks_inv mem_merkledb ?db" by (simp add: rocks_inv_def rocks_new_def)
  from fork_commit_refines [OF mem.merkledb_api_axioms this m]
  have "rd_snap db' = fa_view (fork_spec ?ps (fa_new store_empty))"
    by (simp add: rocks_new_def mem_merkledb_def)
  with m show ?thesis
    by (simp add: fork_op_spec_def fa_write_def fa_flush_def fa_rollback_def fa_new_def
        st_store_account_def demo_account_def store_empty_def)
qed

text \<open>Blocks. After \<open>store_block\<close> and a successful merge, the new block is the one \<open>load_block\<close>
  returns both for \<open>u64::MAX\<close> (``the last block'') and for the next height, and every block that was
  there is still returned at its height.
\<close>

theorem stored_block_is_last:
  assumes "merkledb_api M absf" and "rocks_inv M db"
    and "length (st_blocks (rd_snap db)) < 2 ^ 64 - 1"
    and "rocks_fork_merge M db (fork_store_block M (rocks_fork_create M db) b) = Inr db'"
  shows "rocks_load_block db' u64_max = Some b \<and>
    rocks_load_block db' (of_nat (length (st_blocks (rd_snap db)))) = Some b \<and>
    (\<forall>ht. unat ht < length (st_blocks (rd_snap db)) \<longrightarrow>
          rocks_load_block db' ht = rocks_load_block db ht)"
proof -
  from assms(1) have contract: "db_contract demo_env (rocks_ops demo_env M) rd_snap absf (rocks_inv M)"
    by (rule merkledb_api.rocks_contract)
  let ?f = "fork_store_block M (rocks_fork_create M db) b"
  have f: "absf ?f = fa_write (st_store_block b) (fa_new (rd_snap db))"
    using db_contract.fork_create [OF contract assms(2)]
    by (simp add: fork_store_block_def merkledb_api.write_abs [OF assms(1)])
  then have base: "fa_base (absf ?f) = rd_snap db" by (simp add: fa_write_def fa_new_def)
  have merge: "db_fork_merge (rocks_ops demo_env M) db ?f = Inr db'"
    using assms(4) by simp
  have snap: "rd_snap db' = st_store_block b (rd_snap db)"
    using db_contract.fork_merge [OF contract assms(2) base merge] f
    by (simp add: fa_write_def fa_new_def)
  let ?n = "length (st_blocks (rd_snap db))"
  have n: "unat (of_nat ?n :: u64) = ?n"
    using assms(3) by (simp add: unat_of_nat)
  then have "(of_nat ?n :: u64) \<noteq> u64_max" using assms(3) unat_u64_max by auto
  moreover have "ht \<noteq> u64_max" if "unat ht < ?n" for ht
    using that assms(3) unat_u64_max by auto
  ultimately show ?thesis
    by (auto simp: rocks_load_block_def st_load_block_def snap st_store_block_def n nth_append)
qed

definition demo_block :: block where
  "demo_block =
     \<lparr>blk_data = \<lparr>bd_validator = None, bd_height = 0, bd_size = 0, bd_prev_hash = hash_default,
        bd_txs_hash = hash_default, bd_rxs_hash = hash_default, bd_state_hash = hash_default,
        bd_timestamp = 7\<rparr>,
      blk_signature = [1, 2]\<rparr>"

theorem stored_block_is_last_witness:
  "\<exists>db'. rocks_fork_merge mem_merkledb (rocks_new mem_merkledb store_empty)
     (fork_store_block mem_merkledb
       (rocks_fork_create mem_merkledb (rocks_new mem_merkledb store_empty)) demo_block) = Inr db' \<and>
     rocks_load_block db' u64_max = Some demo_block \<and> rocks_load_block db' 0 = Some demo_block"
proof -
  let ?db = "rocks_new mem_merkledb store_empty"
  obtain db' where m: "rocks_fork_merge mem_merkledb ?db
      (fork_store_block mem_merkledb (rocks_fork_create mem_merkledb ?db) demo_block) = Inr db'"
    by (simp add: rocks_fork_merge_def mem_merkledb_def)
  have s: "st_blocks (rd_snap ?db) = []"
    by (simp add: rocks_new_def mem_merkledb_def store_empty_def)
  have "rocks_inv mem_merkledb ?db" by (simp add: rocks_inv_def rocks_new_def)
  from stored_block_is_last [OF mem.merkledb_api_axioms this _ m] s m show ?thesis by auto
qed

end
