(* ===== verification/Drand.thy ===== *)
theory Drand
  imports Crypto
begin

text \<open>
  \<^verbatim>\<open>src/crypto/drand.rs\<close>: the seed mixed from the network name, a nonce, the hashes of the last block
  and the previous number, and the generator handed to smart contracts. \<open>pcg s\<close> stands for
  \<open>Pcg32::seed_from_u64(s).next_u64()\<close> (rand_pcg); the generator is created anew from the seed before
  each number, so its state is that seed. \<open>None\<close> is a panic.
\<close>

unbundle bit_operations_syntax

section \<open>Definitions\<close>

record seed_source =
  ss_nw_name :: bytes
  ss_nonce :: bytes
  ss_prev_hash :: hash
  ss_txs_hash :: hash
  ss_rxs_hash :: hash
  ss_previous_seed :: u64

definition seed_source_new :: "string \<Rightarrow> bytes \<Rightarrow> hash \<Rightarrow> hash \<Rightarrow> hash \<Rightarrow> seed_source" where
  "seed_source_new nw nonce prev txs rxs =
     \<lparr>ss_nw_name = str_bytes nw, ss_nonce = nonce, ss_prev_hash = prev, ss_txs_hash = txs,
      ss_rxs_hash = rxs, ss_previous_seed = 0\<rparr>"

text \<open>\<open>vec![0; size]\<close> with a prefix copied in, and \<open>zip\<close> followed by the exclusive or.\<close>

definition pad_to :: "nat \<Rightarrow> bytes \<Rightarrow> bytes" where
  "pad_to n bs = bs @ replicate (n - length bs) 0"

definition xor_bytes :: "bytes \<Rightarrow> bytes \<Rightarrow> bytes" where
  "xor_bytes xs ys = map2 (XOR) xs ys"

definition to_be_bytes :: "u64 \<Rightarrow> bytes" where
  "to_be_bytes w = map (\<lambda>i. ucast (drop_bit (8 * (7 - i)) w)) [0..<8]"

definition be_step :: "u64 \<Rightarrow> u8 \<Rightarrow> u64" where
  "be_step acc b = (push_bit 8 acc) OR (ucast b)"

text \<open>\<open>try_into().unwrap()\<close> to an array of 8 bytes, then \<open>from_be_bytes\<close>.\<close>

definition from_be_bytes :: "bytes \<Rightarrow> u64 option" where
  "from_be_bytes bs = (if length bs = 8 then Some (foldl be_step 0 bs) else None)"

definition seed_parts :: "seed_source \<Rightarrow> bytes list" where
  "seed_parts s =
     [ss_nw_name s, ss_nonce s, hash_as_bytes (ss_prev_hash s), hash_as_bytes (ss_txs_hash s),
      hash_as_bytes (ss_rxs_hash s)]"

text \<open>The parts, zero-padded to the longest, xor-ed from left to right.\<close>

definition seed_xor :: "seed_source \<Rightarrow> bytes" where
  "seed_xor s =
     (let size = Max (set (map length (seed_parts s)));
          parts = map (pad_to size) (seed_parts s)
      in foldl xor_bytes (hd parts) (tl parts))"

definition seed_fold :: "bytes \<Rightarrow> bytes" where
  "seed_fold bs =
     (let reminder = length bs mod 8;
          bs' = (if reminder > 0 then bs @ replicate (8 - reminder) 0 else bs)
      in foldl xor_bytes (replicate 8 0) (chunks 8 bs'))"

definition get_seed :: "seed_source \<Rightarrow> u64 option" where
  "get_seed s =
     from_be_bytes (xor_bytes (seed_fold (seed_xor s)) (to_be_bytes (ss_previous_seed s)))"

record drand =
  dr_drng :: u64
  dr_seed :: seed_source

definition drand_new :: "seed_source \<Rightarrow> drand option" where
  "drand_new seed = map_option (\<lambda>s. \<lparr>dr_drng = s, dr_seed = seed\<rparr>) (get_seed seed)"

definition update_seed :: "u64 \<Rightarrow> drand \<Rightarrow> drand" where
  "update_seed n d = d\<lparr>dr_seed := (dr_seed d)\<lparr>ss_previous_seed := n\<rparr>\<rparr>"

text \<open>\<open>rand_number % (max + 1)\<close>: for \<open>u64::MAX\<close> the addition overflows, and the remainder by the
  wrapped value 0 panics as well.\<close>

definition drand_rand :: "(u64 \<Rightarrow> u64) \<Rightarrow> drand \<Rightarrow> u64 \<Rightarrow> (u64 \<times> drand) option" where
  "drand_rand pcg d mx =
     (let rand_number = pcg (dr_drng d); d1 = update_seed rand_number d
      in case get_seed (dr_seed d1) of
           None \<Rightarrow> None
         | Some s \<Rightarrow>
             if mx + 1 = 0 then None
             else Some (rand_number mod (mx + 1), d1\<lparr>dr_drng := s\<rparr>))"

section \<open>Byte order\<close>

lemma bit_be_fold:
  "n < 64 \<Longrightarrow> 8 * length bs \<le> 64 \<Longrightarrow> bit (foldl be_step acc bs) n =
     (if n < 8 * length bs then bit (bs ! (length bs - 1 - n div 8)) (n mod 8)
      else bit acc (n - 8 * length bs))"
proof (induction bs arbitrary: n rule: rev_induct)
  case (snoc b bs)
  have step: "bit (foldl be_step acc (bs @ [b])) n =
      (if n < 8 then bit b n else bit (foldl be_step acc bs) (n - 8))"
    using snoc.prems by (auto simp: be_step_def bit_simps dest: bit_imp_le_length)
  show ?case
  proof (cases "n < 8")
    case True
    then show ?thesis unfolding step by (simp add: nth_append)
  next
    case False
    then have "(n - 8) div 8 = n div 8 - 1" and "(n - 8) mod 8 = n mod 8" and "1 \<le> n div 8"
      by (simp_all add: le_div_geq le_mod_geq)
    moreover have "length bs - n div 8 < length bs" if "n < 8 + 8 * length bs"
      using False that by (simp add: Suc_le_eq div_greater_zero_iff)
    ultimately show ?thesis
      unfolding step using False snoc.IH [of "n - 8"] snoc.prems by (auto simp: nth_append)
  qed
qed simp

lemma length_to_be [simp]: "length (to_be_bytes w) = 8"
  by (simp add: to_be_bytes_def)

lemma length_xor_bytes [simp]: "length (xor_bytes xs ys) = min (length xs) (length ys)"
  by (simp add: xor_bytes_def)

lemma from_be_to_be: "foldl be_step 0 (to_be_bytes w) = w"
proof (rule bit_word_eqI)
  fix n
  assume "n < LENGTH(64)"
  then have n: "n < 64" by simp
  then have "n div 8 < 8" by (simp add: less_mult_imp_div_less)
  then have "7 - (7 - n div 8) = n div 8" by simp
  with n show "bit (foldl be_step 0 (to_be_bytes w)) n = bit w n"
    by (simp add: bit_be_fold, simp add: to_be_bytes_def bit_simps nth_map)
qed

lemma from_be_xor:
  assumes "length xs = 8" "length ys = 8"
  shows "foldl be_step 0 (xor_bytes xs ys) = foldl be_step 0 xs XOR foldl be_step 0 ys"
proof (rule bit_word_eqI)
  fix n
  assume "n < LENGTH(64)"
  then have n: "n < 64" by simp
  then have "7 - n div 8 < 8" by simp
  with n assms show "bit (foldl be_step 0 (xor_bytes xs ys)) n =
      bit (foldl be_step 0 xs XOR foldl be_step 0 ys) n"
    by (simp add: bit_be_fold bit_simps, simp add: xor_bytes_def bit_simps)
qed

lemma length_chunk: "8 dvd length bs \<Longrightarrow> c \<in> set (chunks 8 bs) \<Longrightarrow> length c = 8"
proof (induction "8 :: nat" bs rule: chunks.induct)
  case (2 x xs)
  from 2(2) have "8 \<le> length (x # xs)" by (auto dest: dvd_imp_le)
  moreover from this 2(2) have "8 dvd length (drop 8 (x # xs))" by (metis dvd_diff_nat dvd_refl length_drop)
  ultimately show ?case using 2 by auto
qed simp

lemma length_foldl_xor:
  "length acc = 8 \<Longrightarrow> \<forall>c \<in> set cs. length c = 8 \<Longrightarrow> length (foldl xor_bytes acc cs) = 8"
  by (induction cs arbitrary: acc) auto

lemma pad_8: "(n + 8 - n mod 8) mod 8 = (0 :: nat)"
  by presburger

lemma length_seed_fold [simp]: "length (seed_fold bs) = 8"
proof -
  let ?bs = "if length bs mod 8 > 0 then bs @ replicate (8 - length bs mod 8) 0 else bs"
  have "8 dvd length ?bs"
    by (cases "length bs mod 8 > 0") (simp_all add: dvd_eq_mod_eq_0 pad_8)
  then have "\<forall>c \<in> set (chunks 8 ?bs). length c = 8" by (intro ballI) (rule length_chunk)
  then show ?thesis unfolding seed_fold_def Let_def by (rule length_foldl_xor [rotated]) simp
qed

lemma get_seed_total: "\<exists>w. get_seed s = Some w"
  by (simp add: get_seed_def from_be_bytes_def)

section \<open>Properties\<close>

text \<open>The seed. \<open>get_seed\<close> never panics: whatever the lengths of the parts, the folded value has the 8
  bytes that \<open>from_be_bytes\<close> needs. The previous number enters by exclusive or: the seed is the one the
  other parts give, xor the previous number.
\<close>

theorem get_seed_xor:
  "\<exists>base. get_seed (s\<lparr>ss_previous_seed := 0\<rparr>) = Some base \<and> get_seed s = Some (base XOR ss_previous_seed s)"
proof -
  have "seed_xor (s\<lparr>ss_previous_seed := 0\<rparr>) = seed_xor s"
    by (simp add: seed_xor_def seed_parts_def)
  then show ?thesis
    by (simp add: get_seed_def from_be_bytes_def from_be_xor from_be_to_be)
qed

text \<open>C40. Numbers for smart contracts. \<open>rand max\<close> returns a number not above \<open>max\<close>, remembers the raw number
  in the shared seed source and restarts the generator from the new seed; it panics exactly when
  \<open>max\<close> is \<open>u64::MAX\<close>, although every number is then in range.
\<close>

theorem drand_rand_bounded:
  "(drand_rand pcg d mx = None \<longleftrightarrow> mx = u64_max) \<and>
   (\<forall>n d'. drand_rand pcg d mx = Some (n, d') \<longrightarrow>
      n \<le> mx \<and> ss_previous_seed (dr_seed d') = pcg (dr_drng d) \<and>
      Some (dr_drng d') = get_seed (dr_seed d'))"
proof -
  let ?d = "update_seed (pcg (dr_drng d)) d"
  obtain s where s: "get_seed (dr_seed ?d) = Some s" using get_seed_total by blast
  have wrap: "mx + 1 = 0 \<longleftrightarrow> mx = u64_max"
    by (metis add.commute add_eq_0_iff u64_minus_1 minus_minus)
  have "pcg (dr_drng d) mod (mx + 1) \<le> mx" if "mx + 1 \<noteq> 0"
    by (metis inc_le not_less that word_mod_less_divisor word_gt_0)
  with s show ?thesis by (auto simp: drand_rand_def Let_def wrap update_seed_def)
qed

theorem drand_rand_bounded_witness:
  "drand_rand (\<lambda>_. 12) \<lparr>dr_drng = 0, dr_seed = seed_source_new [] [] hash_default hash_default hash_default\<rparr>
     u64_max = None"
  using drand_rand_bounded [of "\<lambda>_. 12"
      "\<lparr>dr_drng = 0, dr_seed = seed_source_new [] [] hash_default hash_default hash_default\<rparr>" u64_max]
  by simp

end
