(* ===== verification/Wm.thy ===== *)
theory Wm
  imports Db Drand
begin

text \<open>
  The interface of the smart contract machine, \<^verbatim>\<open>src/wm/mod.rs\<close>: the trait \<open>Wm\<close> as a record of its
  methods and, as the locale \<open>wm_contract\<close>, what the executor relies on. A call mutates the machine, the
  database fork it is given and the shared seed source; \<open>mach\<close> is that state. \<open>None\<close> is a panic.
\<close>

section \<open>Definitions\<close>

record ctx_args =
  cx_origin :: string
  cx_owner :: string
  cx_caller :: string

record check_hash_args =
  ch_account :: string
  ch_current_hash :: "hash option"
  ch_new_hash :: "hash option"

record call_args =
  ca_depth :: u16
  ca_network :: string
  ca_origin :: string
  ca_owner :: string
  ca_caller :: string
  ca_contract :: hash
  ca_method :: string
  ca_args :: bytes
  ca_initial_fuel :: u64
  ca_block_timestamp :: u64

record ('w, 'f) mach =
  mc_wm :: 'w
  mc_fork :: 'f
  mc_seed :: seed_source

type_synonym ('w, 'f, 'r) wm_result =
  "(('w, 'f) mach \<times> smart_contract_event list \<times> u64 \<times> 'r result) option"

record ('w, 'f) wm_ops =
  wm_call :: "call_args \<Rightarrow> smart_contract_event list \<Rightarrow> ('w, 'f) mach \<Rightarrow> ('w, 'f, bytes) wm_result"
  wm_callable_call ::
    "call_args \<Rightarrow> smart_contract_event list \<Rightarrow> ('w, 'f) mach \<Rightarrow> ('w, 'f, i32) wm_result"
  wm_app_hash_check ::
    "hash option \<Rightarrow> ctx_args \<Rightarrow> u64 \<Rightarrow> ('w, 'f) mach \<Rightarrow> (('w, 'f) mach \<times> hash result) option"
  wm_contract_updatable ::
    "check_hash_args \<Rightarrow> ctx_args \<Rightarrow> u64 \<Rightarrow> ('w, 'f) mach \<Rightarrow> (('w, 'f) mach \<times> bool) option"

definition SERVICE_ACCOUNT_ID :: string where "SERVICE_ACCOUNT_ID = ''TRINCI''"

definition MAX_FUEL :: u64 where "MAX_FUEL = 1000000000"

definition get_fuel_consumed_for_error :: u64 where
  "get_fuel_consumed_for_error = FUEL_LIMIT"

section \<open>What a machine may do to a fork\<close>

text \<open>Contracts reach accounts and their data; never blocks, transactions, receipts, checkpoints.\<close>

fun contract_op :: "fork_op \<Rightarrow> bool" where
  "contract_op (FStoreAccount _) = True"
| "contract_op (FStoreAccountData _ _ _) = True"
| "contract_op (FRemoveAccountData _ _) = True"
| "contract_op _ = False"

definition accounts_step :: "fork_abs \<Rightarrow> fork_abs \<Rightarrow> bool" where
  "accounts_step a a' \<longleftrightarrow> (\<exists>ps. list_all contract_op ps \<and> a' = fork_spec ps a)"

text \<open>The part of the contents that is not account state.\<close>

definition ledger :: "store \<Rightarrow> store" where
  "ledger s = s\<lparr>st_accounts := (\<lambda>_. None), st_account_data := (\<lambda>_ _. None)\<rparr>"

locale wm_contract = db_contract E D snap absf inv
  for E :: env and D :: "('d, 'f) db_ops" and snap absf inv +
  fixes W :: "('w, 'f) wm_ops"
  assumes call_frame: "wm_call W a evs m = Some (m', evs', fuel, r) \<Longrightarrow>
      accounts_step (absf (mc_fork m)) (absf (mc_fork m'))"
    and app_hash_frame: "wm_app_hash_check W c cx ts m = Some (m', r') \<Longrightarrow>
      accounts_step (absf (mc_fork m)) (absf (mc_fork m'))"

lemma accounts_step_refl [simp]: "accounts_step a a"
  unfolding accounts_step_def by (rule exI [of _ "[]"]) simp

lemma accounts_step_trans: "accounts_step a b \<Longrightarrow> accounts_step b c \<Longrightarrow> accounts_step a c"
  unfolding accounts_step_def
proof (elim exE conjE)
  fix ps qs
  assume "list_all contract_op ps" "list_all contract_op qs" "b = fork_spec ps a" "c = fork_spec qs b"
  then show "\<exists>ps. list_all contract_op ps \<and> c = fork_spec ps a"
    by (intro exI [of _ "ps @ qs"]) simp
qed

lemma accounts_step_op: "contract_op p \<Longrightarrow> accounts_step a (fork_op_spec p a)"
  unfolding accounts_step_def by (rule exI [of _ "[p]"]) simp

lemmas accounts_step_writes [simp] =
  accounts_step_op [of "FStoreAccount x" for x, simplified]
  accounts_step_op [of "FStoreAccountData aid k v" for aid k v, simplified]
  accounts_step_op [of "FRemoveAccountData aid k" for aid k, simplified]

lemma contract_op_frame:
  "contract_op p \<Longrightarrow> fa_ckpt (fork_op_spec p a) = fa_ckpt a \<and>
     ledger (fa_view (fork_op_spec p a)) = ledger (fa_view a)"
  by (cases p) (simp_all add: fork_op_spec_def fa_write_def ledger_def st_store_account_def
      st_put_account_data_def)

lemma accounts_step_frame:
  assumes "accounts_step a a'"
  shows "fa_base a' = fa_base a \<and> fa_ckpt a' = fa_ckpt a \<and> ledger (fa_view a') = ledger (fa_view a)"
proof -
  from assms obtain ps where ps: "list_all contract_op ps" and a': "a' = fork_spec ps a"
    by (auto simp: accounts_step_def)
  from ps have "fa_ckpt (fork_spec ps a) = fa_ckpt a \<and> ledger (fa_view (fork_spec ps a)) = ledger (fa_view a)"
    by (induction ps arbitrary: a) (simp_all add: contract_op_frame)
  then show ?thesis by (simp add: a')
qed

end
