(* ===== verification/Message.thy ===== *)
theory Message
  imports Schema
begin

text \<open>
  \<^verbatim>\<open>src/blockchain/message.rs\<close>: the messages exchanged with the blockchain service, and their derived
  serialization. The enum is internally tagged: a variant is an array starting with its tag. Such an
  enum can carry a structure in a newtype variant but not a tuple, a string or an integer; serde
  refuses those when it serializes, so the four variants that hold one have no encoding (\<open>None\<close>).
\<close>

datatype message =
    Exception error
  | Subscribe string u8
  | Unsubscribe string u8
  | PutTransactionRequest bool transaction
  | PutTransactionResponse hash
  | GetTransactionRequest hash "string option"
  | GetTransactionResponse transaction "string option"
  | GetReceiptRequest hash
  | GetReceiptResponse receipt
  | GetBlockRequest u64 bool "string option"
  | GetBlockResponse block "hash list option" "string option"
  | GetAccountRequest string "string list"
  | GetAccountResponse account "bytes option list"
  | GetCoreStatsRequest
  | GetCoreStatsResponse hash nat "block option"
  | GetContractEvent smart_contract_event
  | GetNetworkIdRequest
  | GetNetworkIdResponse string
  | GetSeedRequest
  | GetSeedRespone u64
  | GetP2pIdRequest
  | GetP2pIdResponse string
  | AlignBlockInfo string block
  | ExecReadOnlyTransaction string string bytes string "hash option" u64 string
  | Ack
  | Stop
  | Packed bytes

datatype multi_message = Simple message | Sequence "message list"

text \<open>A \<open>Vec<u8>\<close> without \<open>serde_bytes\<close> is an array of integers.\<close>

definition mp_vec_u8 :: "bytes \<Rightarrow> mp_value" where
  "mp_vec_u8 bs = MpArr (map (\<lambda>b. MpUInt (unat b)) bs)"

definition mp_u8 :: "u8 \<Rightarrow> mp_value" where
  "mp_u8 b = MpUInt (unat b)"

definition mp_hashes :: "hash list \<Rightarrow> mp_value" where
  "mp_hashes hs = MpArr (map mp_hash hs)"

definition mp_message :: "message \<Rightarrow> mp_value option" where
  "mp_message m =
     (case m of
        Exception e \<Rightarrow>
          Some (MpArr [MpStr ''0'', error_kind_serialize (err_kind e), source_se (err_source e)])
      | Subscribe i ev \<Rightarrow> Some (MpArr [MpStr ''1'', MpStr i, mp_u8 ev])
      | Unsubscribe i ev \<Rightarrow> Some (MpArr [MpStr ''2'', MpStr i, mp_u8 ev])
      | PutTransactionRequest confirm tx \<Rightarrow>
          Some (MpArr [MpStr ''3'', MpBool confirm, mp_transaction tx])
      | PutTransactionResponse h \<Rightarrow> Some (MpArr [MpStr ''4'', mp_hash h])
      | GetTransactionRequest h dest \<Rightarrow>
          Some (MpArr [MpStr ''5'', mp_hash h, mp_option MpStr dest])
      | GetTransactionResponse tx origin \<Rightarrow>
          Some (MpArr [MpStr ''6'', mp_transaction tx, mp_option MpStr origin])
      | GetReceiptRequest h \<Rightarrow> Some (MpArr [MpStr ''7'', mp_hash h])
      | GetReceiptResponse rx \<Rightarrow> Some (MpArr [MpStr ''8'', mp_receipt rx])
      | GetBlockRequest ht txs dest \<Rightarrow>
          Some (MpArr [MpStr ''9'', mp_u64 ht, MpBool txs, mp_option MpStr dest])
      | GetBlockResponse b txs origin \<Rightarrow>
          Some (MpArr [MpStr ''10'', mp_block b, mp_option mp_hashes txs, mp_option MpStr origin])
      | GetAccountRequest i data \<Rightarrow> Some (MpArr [MpStr ''11'', MpStr i, MpArr (map MpStr data)])
      | GetAccountResponse acc data \<Rightarrow>
          Some (MpArr [MpStr ''12'', mp_account acc, MpArr (map (mp_option mp_vec_u8) data)])
      | GetCoreStatsRequest \<Rightarrow> Some (MpArr [MpStr ''13''])
      | GetCoreStatsResponse _ _ _ \<Rightarrow> None
      | GetContractEvent ev \<Rightarrow> Some (MpArr [MpStr ''15'', mp_event ev])
      | GetNetworkIdRequest \<Rightarrow> Some (MpArr [MpStr ''16''])
      | GetNetworkIdResponse _ \<Rightarrow> None
      | GetSeedRequest \<Rightarrow> Some (MpArr [MpStr ''18''])
      | GetSeedRespone _ \<Rightarrow> None
      | GetP2pIdRequest \<Rightarrow> Some (MpArr [MpStr ''20''])
      | GetP2pIdResponse _ \<Rightarrow> None
      | AlignBlockInfo peer b \<Rightarrow> Some (MpArr [MpStr ''22'', MpStr peer, mp_block b])
      | ExecReadOnlyTransaction target mthd args origin contract max_fuel network \<Rightarrow>
          Some (MpArr [MpStr ''23'', MpStr target, MpStr mthd, mp_vec_u8 args, MpStr origin,
            mp_option mp_hash contract, mp_u64 max_fuel, MpStr network])
      | Ack \<Rightarrow> Some (MpArr [MpStr ''253''])
      | Stop \<Rightarrow> Some (MpArr [MpStr ''254''])
      | Packed buf \<Rightarrow> Some (MpArr [MpStr ''255'', MpBin buf]))"

text \<open>The encodings of a list of messages; one refusal refuses the whole.\<close>

fun mp_messages :: "message list \<Rightarrow> mp_value list option" where
  "mp_messages [] = Some []"
| "mp_messages (m # ms) =
     (case mp_message m of
        None \<Rightarrow> None
      | Some v \<Rightarrow> (case mp_messages ms of None \<Rightarrow> None | Some vs \<Rightarrow> Some (v # vs)))"

definition mp_multi_message :: "multi_message \<Rightarrow> mp_value option" where
  "mp_multi_message mm =
     (case mm of
        Simple m \<Rightarrow> mp_message m
      | Sequence ms \<Rightarrow> map_option MpArr (mp_messages ms))"

text \<open>\<open>rmp_serialize(..).unwrap_or_default()\<close>.\<close>

definition rmp_or_default :: "env \<Rightarrow> mp_value option \<Rightarrow> bytes" where
  "rmp_or_default E v = (case v of None \<Rightarrow> [] | Some v \<Rightarrow> e_rmp E v)"

section \<open>Lemmas\<close>

lemma mp_messages_None: "mp_messages ms = None \<longleftrightarrow> (\<exists>m \<in> set ms. mp_message m = None)"
  by (induction ms) (auto split: option.splits)

end
