(* ===== verification/PubSub.thy ===== *)
theory PubSub
  imports Message
begin

text \<open>
  \<^verbatim>\<open>src/blockchain/pubsub.rs\<close>: subscriptions to blockchain events. An \<open>Event\<close> is a \<open>u8\<close> of flags; the
  two nested hash maps are association lists. A response channel is a number; whether its receiver
  has been closed is the argument \<open>closed\<close>. \<open>publish\<close> returns the messages handed to the channels;
  the tasks that send them run concurrently, so the order of that list means nothing.
\<close>

unbundle bit_operations_syntax

section \<open>Definitions\<close>

definition EV_TRANSACTION :: u8 where "EV_TRANSACTION = 1"
definition EV_BLOCK :: u8 where "EV_BLOCK = 2"
definition EV_GOSSIP_REQUEST :: u8 where "EV_GOSSIP_REQUEST = 4"
definition EV_CONTRACT_EVENTS :: u8 where "EV_CONTRACT_EVENTS = 8"
definition EV_UNICAST_REQUEST :: u8 where "EV_UNICAST_REQUEST = 16"
definition EV_BLOCK_EXEC :: u8 where "EV_BLOCK_EXEC = 32"

definition EVENTS_NUM :: nat where "EVENTS_NUM = 6"

text \<open>\<open>Event::from_bits\<close>: no bit outside the declared flags.\<close>

definition event_from_bits :: "u8 \<Rightarrow> u8 option" where
  "event_from_bits b = (if b AND NOT 0x3f = 0 then Some b else None)"

record subscriber_info =
  si_pack_level :: nat
  si_chan :: nat

record pubsub =
  ps_events_sub :: "(u8 \<times> (string \<times> subscriber_info) list) list"

definition pubsub_new :: pubsub where
  "pubsub_new = \<lparr>ps_events_sub = []\<rparr>"

definition has_subscribers :: "pubsub \<Rightarrow> u8 \<Rightarrow> bool" where
  "has_subscribers p event =
     (case map_of (ps_events_sub p) event of Some subs \<Rightarrow> subs \<noteq> [] | None \<Rightarrow> False)"

definition subscribe_one :: "string \<Rightarrow> subscriber_info \<Rightarrow> u8 \<Rightarrow> pubsub \<Rightarrow> pubsub" where
  "subscribe_one i info event p =
     (case map_of (ps_events_sub p) event of
        Some subs \<Rightarrow> p\<lparr>ps_events_sub := AList.update event (AList.update i info subs) (ps_events_sub p)\<rparr>
      | None \<Rightarrow> p\<lparr>ps_events_sub := AList.update event [(i, info)] (ps_events_sub p)\<rparr>)"

text \<open>\<open>1 << i\<close>.\<close>

definition event_flag :: "nat \<Rightarrow> u8" where
  "event_flag n = push_bit n 1"

text \<open>The body of \<open>for i in 0..EVENTS_NUM\<close>, shared by \<open>subscribe\<close> and \<open>unsubscribe\<close>.\<close>

definition on_event :: "u8 \<Rightarrow> (u8 \<Rightarrow> pubsub \<Rightarrow> pubsub) \<Rightarrow> nat \<Rightarrow> pubsub \<Rightarrow> pubsub" where
  "on_event events act n p =
     (case event_from_bits (event_flag n AND events) of
        Some event \<Rightarrow> if event = 0 then p else act event p
      | None \<Rightarrow> p)"

definition subscribe :: "pubsub \<Rightarrow> string \<Rightarrow> u8 \<Rightarrow> nat \<Rightarrow> nat \<Rightarrow> pubsub" where
  "subscribe p i events pack_level chan =
     fold (on_event events (subscribe_one i \<lparr>si_pack_level = pack_level, si_chan = chan\<rparr>))
       [0..<EVENTS_NUM] p"

definition unsubscribe_one :: "string \<Rightarrow> u8 \<Rightarrow> pubsub \<Rightarrow> pubsub" where
  "unsubscribe_one i event p =
     (case map_of (ps_events_sub p) event of
        Some subs \<Rightarrow>
          (let subs' = AList.delete i subs
           in p\<lparr>ps_events_sub :=
                  (if subs' = [] then AList.delete event (ps_events_sub p)
                   else AList.update event subs' (ps_events_sub p))\<rparr>)
      | None \<Rightarrow> p)"

definition unsubscribe :: "pubsub \<Rightarrow> string \<Rightarrow> u8 \<Rightarrow> pubsub" where
  "unsubscribe p i events = fold (on_event events (unsubscribe_one i)) [0..<EVENTS_NUM] p"

text \<open>The sending task: \<open>while pack_level > 0\<close> wraps the message once more.\<close>

fun pack_message :: "env \<Rightarrow> nat \<Rightarrow> message \<Rightarrow> message" where
  "pack_message E 0 msg = msg"
| "pack_message E (Suc n) msg = pack_message E n (Packed (rmp_or_default E (mp_message msg)))"

definition publish ::
    "env \<Rightarrow> (nat \<Rightarrow> bool) \<Rightarrow> pubsub \<Rightarrow> u8 \<Rightarrow> message \<Rightarrow> pubsub \<times> (nat \<times> message) list" where
  "publish E closed p event msg =
     (case map_of (ps_events_sub p) event of
        None \<Rightarrow> (p, [])
      | Some subs \<Rightarrow>
          (let closed_chans = map fst (filter (\<lambda>(_, info). closed (si_chan info)) subs);
               sent = map (\<lambda>(_, info). (si_chan info, pack_message E (si_pack_level info) msg))
                        (filter (\<lambda>(_, info). \<not> closed (si_chan info)) subs);
               subs' = fold AList.delete closed_chans subs
           in (p\<lparr>ps_events_sub :=
                   (if subs' = [] then AList.delete event (ps_events_sub p)
                    else AList.update event subs' (ps_events_sub p))\<rparr>,
               sent)))"

section \<open>Abstraction and invariant\<close>

text \<open>Who is subscribed to an event, and the absence of empty entries and repeated keys.\<close>

definition ps_subs :: "pubsub \<Rightarrow> u8 \<Rightarrow> string \<Rightarrow> subscriber_info option" where
  "ps_subs p event =
     (case map_of (ps_events_sub p) event of None \<Rightarrow> (\<lambda>_. None) | Some subs \<Rightarrow> map_of subs)"

definition ps_inv :: "pubsub \<Rightarrow> bool" where
  "ps_inv p \<longleftrightarrow>
     distinct (map fst (ps_events_sub p)) \<and>
     (\<forall>(event, subs) \<in> set (ps_events_sub p). subs \<noteq> [] \<and> distinct (map fst subs))"

locale subscriptions =
  fixes subs :: "'p \<Rightarrow> u8 \<Rightarrow> string \<Rightarrow> subscriber_info option" and inv :: "'p \<Rightarrow> bool"
    and sub_one :: "string \<Rightarrow> subscriber_info \<Rightarrow> u8 \<Rightarrow> 'p \<Rightarrow> 'p"
    and unsub_one :: "string \<Rightarrow> u8 \<Rightarrow> 'p \<Rightarrow> 'p"
    and has :: "'p \<Rightarrow> u8 \<Rightarrow> bool"
  assumes sub_one: "inv p \<Longrightarrow> inv (sub_one i info e p) \<and>
      subs (sub_one i info e p) = (subs p)(e := (subs p e)(i \<mapsto> info))"
    and unsub_one: "inv p \<Longrightarrow> inv (unsub_one i e p) \<and>
      subs (unsub_one i e p) = (subs p)(e := (subs p e)(i := None))"
    and has: "inv p \<Longrightarrow> has p e \<longleftrightarrow> (\<exists>i. subs p e i \<noteq> None)"
begin

text \<open>Folding one update over a set of events updates exactly those events.\<close>

lemma fold_sub:
  "inv p \<Longrightarrow> inv (fold (\<lambda>e. sub_one i info e) es p) \<and>
   subs (fold (\<lambda>e. sub_one i info e) es p) =
     (\<lambda>e. if e \<in> set es then (subs p e)(i \<mapsto> info) else subs p e)"
proof (induction es arbitrary: p)
  case (Cons e es)
  with sub_one [of p i info e] show ?case by (auto simp: fun_eq_iff)
qed simp

lemma fold_unsub:
  "inv p \<Longrightarrow> inv (fold (\<lambda>e. unsub_one i e) es p) \<and>
   subs (fold (\<lambda>e. unsub_one i e) es p) =
     (\<lambda>e. if e \<in> set es then (subs p e)(i := None) else subs p e)"
proof (induction es arbitrary: p)
  case (Cons e es)
  with unsub_one [of p i e] show ?case by (auto simp: fun_eq_iff)
qed simp

lemma has_after_sub: "inv p \<Longrightarrow> has (sub_one i info e p) e"
  by (auto simp: has sub_one)

end

lemma set_alist_delete: "set (AList.delete k m) \<subseteq> set m"
  by (auto simp: AList.delete_eq)

lemma ps_inv_update:
  "ps_inv p \<Longrightarrow> s \<noteq> [] \<Longrightarrow> distinct (map fst s) \<Longrightarrow>
   ps_inv (p\<lparr>ps_events_sub := AList.update e s (ps_events_sub p)\<rparr>)"
  using set_alist_update [of e s "ps_events_sub p"]
  by (auto simp: ps_inv_def distinct_update dest!: subsetD)

lemma ps_inv_delete:
  "ps_inv p \<Longrightarrow> ps_inv (p\<lparr>ps_events_sub := AList.delete e (ps_events_sub p)\<rparr>)"
  using set_alist_delete [of e "ps_events_sub p"]
  by (auto simp: ps_inv_def distinct_delete dest!: subsetD)

lemma ps_inv_subs: "ps_inv p \<Longrightarrow> map_of (ps_events_sub p) e = Some s \<Longrightarrow> s \<noteq> [] \<and> distinct (map fst s)"
  by (auto simp: ps_inv_def dest!: map_of_SomeD)

lemma map_of_all_None: "(\<forall>k. map_of s k = None) \<longleftrightarrow> s = []"
  by (cases s) (auto simp: map_of_eq_None_iff)

text \<open>Writing back a reduced set of subscribers, or dropping the event when none is left.\<close>

lemma ps_write_back:
  assumes "ps_inv p" and "distinct (map fst s)"
    and "q = p\<lparr>ps_events_sub :=
      (if s = [] then AList.delete e (ps_events_sub p) else AList.update e s (ps_events_sub p))\<rparr>"
  shows "ps_inv q \<and> ps_subs q = (ps_subs p)(e := map_of s)"
proof (cases "s = []")
  case True
  with assms ps_inv_delete show ?thesis by (auto simp: ps_subs_def fun_eq_iff delete_conv')
next
  case False
  with assms ps_inv_update show ?thesis by (auto simp: ps_subs_def fun_eq_iff update_conv')
qed

interpretation ps: subscriptions ps_subs ps_inv subscribe_one unsubscribe_one has_subscribers
proof
  fix p i info e
  assume inv: "ps_inv p"
  show "ps_inv (subscribe_one i info e p) \<and>
      ps_subs (subscribe_one i info e p) = (ps_subs p)(e := (ps_subs p e)(i \<mapsto> info))"
  proof (cases "map_of (ps_events_sub p) e")
    case None
    then show ?thesis using inv
      by (auto simp: subscribe_one_def ps_inv_update ps_subs_def fun_eq_iff update_conv')
  next
    case (Some s)
    with ps_inv_subs [OF inv Some] inv show ?thesis
      by (auto simp: subscribe_one_def ps_inv_update distinct_update ps_subs_def fun_eq_iff update_conv')
  qed
next
  fix p i e
  assume inv: "ps_inv p"
  show "ps_inv (unsubscribe_one i e p) \<and>
      ps_subs (unsubscribe_one i e p) = (ps_subs p)(e := (ps_subs p e)(i := None))"
  proof (cases "map_of (ps_events_sub p) e")
    case None
    then show ?thesis using inv by (auto simp: unsubscribe_one_def ps_subs_def fun_eq_iff)
  next
    case (Some s)
    with ps_inv_subs [OF inv Some] have "distinct (map fst (AList.delete i s))"
      by (simp add: distinct_delete)
    from ps_write_back [OF inv this refl, of e] Some show ?thesis
      by (simp add: unsubscribe_one_def Let_def ps_subs_def delete_conv')
  qed
next
  fix p e
  assume inv: "ps_inv p"
  show "has_subscribers p e \<longleftrightarrow> (\<exists>i. ps_subs p e i \<noteq> None)"
  proof (cases "map_of (ps_events_sub p) e")
    case (Some s)
    with map_of_all_None [of s] show ?thesis by (auto simp: has_subscribers_def ps_subs_def)
  qed (simp add: has_subscribers_def ps_subs_def)
qed

section \<open>The loops over the flags\<close>

definition events_of :: "u8 \<Rightarrow> u8 list" where
  "events_of events = filter (\<lambda>e. e \<noteq> 0) (map (\<lambda>n. event_flag n AND events) [0..<EVENTS_NUM])"

lemma and_push_bit: "(event_flag n AND events :: u8) = (if bit events n then event_flag n else 0)"
  unfolding event_flag_def by (rule bit_word_eqI) (auto simp: bit_simps)

lemma EVENTS_NUM_cases: "n < EVENTS_NUM \<Longrightarrow> n \<in> {0, 1, 2, 3, 4, 5}"
  by (auto simp: EVENTS_NUM_def)

lemma flag_nonzero: "n < EVENTS_NUM \<Longrightarrow> event_flag n \<noteq> 0"
  by (drule EVENTS_NUM_cases) (auto simp: event_flag_def)

lemma flag_inj: "n < EVENTS_NUM \<Longrightarrow> m < EVENTS_NUM \<Longrightarrow> event_flag n = event_flag m \<longleftrightarrow> n = m"
  by (drule EVENTS_NUM_cases, drule EVENTS_NUM_cases) (auto simp: event_flag_def)

lemma event_from_bits_flag:
  assumes "n < EVENTS_NUM"
  shows "event_from_bits (event_flag n AND events) = Some (event_flag n AND events)"
proof -
  from EVENTS_NUM_cases [OF assms] have "event_flag n AND NOT 0x3f = 0" by (auto simp: event_flag_def)
  then have "(event_flag n AND events) AND NOT 0x3f = 0"
    by (metis and.assoc and.commute and_zero_eq)
  then show ?thesis by (simp add: event_from_bits_def)
qed

lemma fold_on_event:
  "set ns \<subseteq> {..<EVENTS_NUM} \<Longrightarrow> fold (on_event events act) ns p =
     fold act (filter (\<lambda>e. e \<noteq> 0) (map (\<lambda>n. event_flag n AND events) ns)) p"
  by (induction ns arbitrary: p) (auto simp: on_event_def event_from_bits_flag)

lemma subscribe_fold:
  "subscribe p i events l c = fold (subscribe_one i \<lparr>si_pack_level = l, si_chan = c\<rparr>) (events_of events) p"
  unfolding subscribe_def events_of_def by (rule fold_on_event) auto

lemma unsubscribe_fold: "unsubscribe p i events = fold (unsubscribe_one i) (events_of events) p"
  unfolding unsubscribe_def events_of_def by (rule fold_on_event) auto

lemma flag_in_events_of: "n < EVENTS_NUM \<Longrightarrow> event_flag n \<in> set (events_of events) \<longleftrightarrow> bit events n"
  using flag_nonzero flag_inj
  by (auto simp: events_of_def and_push_bit image_iff split: if_splits)

section \<open>Properties\<close>

text \<open>Subscriptions. \<open>subscribe\<close> and \<open>unsubscribe\<close> keep the two-level map free of empty entries and
  repeated keys, so \<open>has_subscribers\<close> tells whether somebody is subscribed; for each of the six events
  they add (replace) or remove exactly the given subscriber where its flag is set in the argument, and
  leave the subscribers of the other events alone.
\<close>

theorem subscriptions_by_flag:
  assumes "ps_inv p" and "n < EVENTS_NUM"
  shows "ps_inv (subscribe p i events l c) \<and> ps_inv (unsubscribe p i events) \<and>
    (has_subscribers p (event_flag n) \<longleftrightarrow> (\<exists>j. ps_subs p (event_flag n) j \<noteq> None)) \<and>
    ps_subs (subscribe p i events l c) (event_flag n) =
      (if bit events n then (ps_subs p (event_flag n))(i \<mapsto> \<lparr>si_pack_level = l, si_chan = c\<rparr>)
       else ps_subs p (event_flag n)) \<and>
    ps_subs (unsubscribe p i events) (event_flag n) =
      (if bit events n then (ps_subs p (event_flag n))(i := None) else ps_subs p (event_flag n))"
  using ps.fold_sub [OF assms(1), of i "\<lparr>si_pack_level = l, si_chan = c\<rparr>" "events_of events"]
    ps.fold_unsub [OF assms(1), of i "events_of events"] ps.has [OF assms(1)]
  by (simp add: subscribe_fold unsubscribe_fold flag_in_events_of [OF assms(2)])

theorem subscriptions_by_flag_witness:
  "ps_subs (subscribe pubsub_new ''john'' 3 0 7) 2 ''john'' = Some \<lparr>si_pack_level = 0, si_chan = 7\<rparr> \<and>
   ps_subs (subscribe pubsub_new ''john'' 1 0 7) 2 ''john'' = None"
proof -
  have inv: "ps_inv pubsub_new" and n: "1 < EVENTS_NUM"
    by (simp_all add: ps_inv_def pubsub_new_def EVENTS_NUM_def)
  have "bit (3 :: u8) 1" and "\<not> bit (1 :: u8) 1" by (simp_all add: bit_1_iff)
  with subscriptions_by_flag [OF inv n, of "''john''" 3 0 7]
    subscriptions_by_flag [OF inv n, of "''john''" 1 0 7]
  show ?thesis by (simp add: ps_subs_def pubsub_new_def event_flag_def)
qed

lemma map_of_filter_value:
  "distinct (map fst s) \<Longrightarrow> map_of (filter (\<lambda>(_, info). \<not> closed (si_chan info)) s) i =
     (case map_of s i of None \<Rightarrow> None
      | Some info \<Rightarrow> if closed (si_chan info) then None else Some info)"
proof (induction s)
  case (Cons e s)
  then have "map_of s (fst e) = None" by (simp add: map_of_eq_None_iff)
  with Cons show ?case by (cases e) (auto split: option.splits)
qed simp

lemma fold_alist_delete:
  "fold AList.delete ks m = filter (\<lambda>e. fst e \<notin> set ks) m"
  by (induction ks arbitrary: m) (auto simp: AList.delete_eq filter_filter intro!: filter_cong)

text \<open>C37. Publishing. Each subscriber of the event whose channel is still open is sent the message exactly
  once, wrapped as many times as its pack level says; the subscribers whose channel is closed are
  dropped, those of every other event stay, and the invariant is kept.
\<close>

theorem publish_delivers:
  assumes "ps_inv p" and "publish E closed p event msg = (p', sent)"
  shows "ps_inv p' \<and>
    ps_subs p' = (ps_subs p)(event := (\<lambda>i. case ps_subs p event i of
        None \<Rightarrow> None | Some info \<Rightarrow> if closed (si_chan info) then None else Some info)) \<and>
    (\<exists>ids. distinct ids \<and> set ids = {i. \<exists>info. ps_subs p' event i = Some info} \<and>
       sent = map (\<lambda>i. let info = the (ps_subs p' event i)
                       in (si_chan info, pack_message E (si_pack_level info) msg)) ids)"
proof (cases "map_of (ps_events_sub p) event")
  case None
  with assms show ?thesis by (auto simp: publish_def ps_subs_def fun_eq_iff)
next
  case (Some s)
  let ?open = "filter (\<lambda>(_, info). \<not> closed (si_chan info)) s"
  have dist: "distinct (map fst s)" using ps_inv_subs [OF assms(1) Some] by simp
  have "fold AList.delete (map fst (filter (\<lambda>(_, info). closed (si_chan info)) s)) s = ?open"
    unfolding fold_alist_delete using eq_key_imp_eq_value [OF dist]
    by (intro filter_cong) (fastforce simp: image_iff)+
  with assms(2) Some have p': "p' = p\<lparr>ps_events_sub := (if ?open = []
        then AList.delete event (ps_events_sub p) else AList.update event ?open (ps_events_sub p))\<rparr>"
    and sent: "sent = map (\<lambda>(_, info). (si_chan info, pack_message E (si_pack_level info) msg)) ?open"
    by (auto simp: publish_def Let_def)
  have disto: "distinct (map fst ?open)" using dist by (rule distinct_map_filter)
  from ps_write_back [OF assms(1) this p']
  have inv: "ps_inv p'" and subs: "ps_subs p' = (ps_subs p)(event := map_of ?open)" by simp_all
  have "map_of ?open i = (case map_of s i of None \<Rightarrow> None
      | Some info \<Rightarrow> if closed (si_chan info) then None else Some info)" for i
    using dist by (rule map_of_filter_value)
  with Some have upd: "map_of ?open = (\<lambda>i. case ps_subs p event i of None \<Rightarrow> None
      | Some info \<Rightarrow> if closed (si_chan info) then None else Some info)"
    by (auto simp: ps_subs_def)
  have ids: "set (map fst ?open) = {i. \<exists>info. ps_subs p' event i = Some info}"
    using subs by (simp only: fun_upd_same map_of_eq_Some_iff [OF disto]) force
  have out: "sent = map (\<lambda>i. let info = the (ps_subs p' event i)
      in (si_chan info, pack_message E (si_pack_level info) msg)) (map fst ?open)"
    using subs disto by (auto simp: sent Let_def)
  show ?thesis
    by (intro conjI exI [of _ "map fst ?open"] inv disto ids out) (simp only: subs upd)
qed

theorem publish_delivers_witness:
  "publish demo_env (\<lambda>c. c = 8) (subscribe (subscribe pubsub_new ''a'' 2 0 7) ''b'' 2 0 8) 2 Ack =
     (\<lparr>ps_events_sub = [(2, [(''a'', \<lparr>si_pack_level = 0, si_chan = 7\<rparr>)])]\<rparr>, [(7, Ack)]) \<and>
   ps_inv \<lparr>ps_events_sub = [(2, [(''a'', \<lparr>si_pack_level = 0, si_chan = 7\<rparr>)])]\<rparr>"
proof -
  let ?p = "subscribe (subscribe pubsub_new ''a'' 2 0 7) ''b'' 2 0 8"
  have 1: "events_of 2 = [2]"
    by (simp add: events_of_def EVENTS_NUM_def event_flag_def upt_rec)
  have p: "?p = \<lparr>ps_events_sub = [(2, [(''a'', \<lparr>si_pack_level = 0, si_chan = 7\<rparr>),
      (''b'', \<lparr>si_pack_level = 0, si_chan = 8\<rparr>)])]\<rparr>"
    by (simp add: subscribe_fold 1 subscribe_one_def pubsub_new_def)
  then have "publish demo_env (\<lambda>c. c = 8) ?p 2 Ack =
     (\<lparr>ps_events_sub = [(2, [(''a'', \<lparr>si_pack_level = 0, si_chan = 7\<rparr>)])]\<rparr>, [(7, Ack)])"
    by (simp add: publish_def Let_def)
  moreover have "ps_inv ?p" by (simp add: p ps_inv_def)
  ultimately show ?thesis using publish_delivers by blast
qed

end
