(* ===== verification/QueueSet.thy ===== *)
theory QueueSet
  imports Prelude
begin

text \<open>
  \<^verbatim>\<open>src/base/queue_set.rs\<close>: a first-in first-out queue that refuses duplicates, kept as a hash
  set for the membership test and a deque for the order. The locale \<open>fifo_set\<close> is its contract:
  the queue is a list without repetitions, and every operation is described on that list.
\<close>

section \<open>Definitions\<close>

record 'a queue_set =
  qs_set :: "'a set"
  qs_fifo :: "'a list"

definition qs_new :: "'a queue_set" where
  "qs_new = \<lparr>qs_set = {}, qs_fifo = []\<rparr>"

definition qs_len :: "'a queue_set \<Rightarrow> nat" where
  "qs_len q = length (qs_fifo q)"

definition qs_is_empty :: "'a queue_set \<Rightarrow> bool" where
  "qs_is_empty q = (qs_len q = 0)"

definition qs_contains :: "'a queue_set \<Rightarrow> 'a \<Rightarrow> bool" where
  "qs_contains q v = (v \<in> qs_set q)"

text \<open>\<open>HashSet::insert\<close> tells whether the value was new.\<close>

definition qs_push :: "'a queue_set \<Rightarrow> 'a \<Rightarrow> 'a queue_set \<times> bool" where
  "qs_push q v =
     (if v \<notin> qs_set q
      then (q\<lparr>qs_set := insert v (qs_set q), qs_fifo := qs_fifo q @ [v]\<rparr>, True)
      else (q, False))"

definition qs_pop :: "'a queue_set \<Rightarrow> 'a queue_set \<times> 'a option" where
  "qs_pop q =
     (case qs_fifo q of
        [] \<Rightarrow> (q, None)
      | v # vs \<Rightarrow> (q\<lparr>qs_fifo := vs, qs_set := qs_set q - {v}\<rparr>, Some v))"

text \<open>The loop of \<open>remove\<close>: scan with an index, remove the element at the first match, stop.\<close>

fun qs_scan :: "'a \<Rightarrow> nat \<Rightarrow> 'a list \<Rightarrow> nat option" where
  "qs_scan val i [] = None"
| "qs_scan val i (v # vs) = (if v = val then Some i else qs_scan val (Suc i) vs)"

definition deque_remove :: "nat \<Rightarrow> 'a list \<Rightarrow> 'a list" where
  "deque_remove i xs = take i xs @ drop (Suc i) xs"

definition qs_remove :: "'a queue_set \<Rightarrow> 'a \<Rightarrow> 'a queue_set \<times> bool" where
  "qs_remove q val =
     (let res = (val \<in> qs_set q); q' = q\<lparr>qs_set := qs_set q - {val}\<rparr>
      in if res
         then (case qs_scan val 0 (qs_fifo q) of
                 None \<Rightarrow> (q', res)
               | Some i \<Rightarrow> (q'\<lparr>qs_fifo := deque_remove i (qs_fifo q)\<rparr>, res))
         else (q', res))"

definition qs_inv :: "'a queue_set \<Rightarrow> bool" where
  "qs_inv q \<longleftrightarrow> distinct (qs_fifo q) \<and> qs_set q = set (qs_fifo q)"

section \<open>The contract\<close>

locale fifo_set =
  fixes empty :: 'q
    and push :: "'q \<Rightarrow> 'a \<Rightarrow> 'q \<times> bool"
    and pop :: "'q \<Rightarrow> 'q \<times> 'a option"
    and remove :: "'q \<Rightarrow> 'a \<Rightarrow> 'q \<times> bool"
    and contains :: "'q \<Rightarrow> 'a \<Rightarrow> bool"
    and len :: "'q \<Rightarrow> nat"
    and elems :: "'q \<Rightarrow> 'a list"
    and invar :: "'q \<Rightarrow> bool"
  assumes empty_spec: "invar empty \<and> elems empty = []"
    and push_spec: "invar q \<Longrightarrow> push q v = (q', b) \<Longrightarrow>
       invar q' \<and> b = (v \<notin> set (elems q)) \<and>
       elems q' = (if v \<in> set (elems q) then elems q else elems q @ [v])"
    and pop_spec: "invar q \<Longrightarrow> pop q = (q', r) \<Longrightarrow>
       invar q' \<and> elems q' = tl (elems q) \<and>
       r = (case elems q of [] \<Rightarrow> None | x # _ \<Rightarrow> Some x)"
    and remove_spec: "invar q \<Longrightarrow> remove q v = (q', b) \<Longrightarrow>
       invar q' \<and> b = (v \<in> set (elems q)) \<and> elems q' = remove1 v (elems q)"
    and contains_spec: "invar q \<Longrightarrow> contains q v = (v \<in> set (elems q))"
    and len_spec: "invar q \<Longrightarrow> len q = length (elems q)"
    and distinct_spec: "invar q \<Longrightarrow> distinct (elems q)"
begin

lemma push_contains: "invar q \<Longrightarrow> contains (fst (push q v)) v"
  using push_spec [of q v] contains_spec by (cases "push q v") force

lemma push_idem: "invar q \<Longrightarrow> snd (push (fst (push q v)) v) = False"
proof -
  assume q: "invar q"
  obtain q1 b1 where 1: "push q v = (q1, b1)" by (cases "push q v")
  obtain q2 b2 where 2: "push q1 v = (q2, b2)" by (cases "push q1 v")
  from push_spec [OF q 1] have "invar q1" and "v \<in> set (elems q1)" by (auto split: if_splits)
  with push_spec [OF this(1) 2] 1 2 show ?thesis by simp
qed

lemma remove_not_contains: "invar q \<Longrightarrow> \<not> contains (fst (remove q v)) v"
proof -
  assume q: "invar q"
  obtain q1 b where 1: "remove q v = (q1, b)" by (cases "remove q v")
  from remove_spec [OF q 1] distinct_spec [OF q] show ?thesis
    using 1 by (simp add: contains_spec)
qed

lemma push_pop_empty: "invar q \<Longrightarrow> elems q = [] \<Longrightarrow> snd (pop (fst (push q v))) = Some v"
proof -
  assume q: "invar q" and e: "elems q = []"
  obtain q1 b where 1: "push q v = (q1, b)" by (cases "push q v")
  obtain q2 r where 2: "pop q1 = (q2, r)" by (cases "pop q1")
  from push_spec [OF q 1] e have q1: "invar q1" and "elems q1 = [v]" by simp_all
  with pop_spec [OF q1 2] 1 2 show ?thesis by simp
qed

text \<open>Pushing a list of values appends the new ones in order, once each.\<close>

lemma push_all:
  "invar q \<Longrightarrow>
   invar (fold (\<lambda>v q. fst (push q v)) vs q) \<and>
   elems (fold (\<lambda>v q. fst (push q v)) vs q) =
     elems q @ filter (\<lambda>v. v \<notin> set (elems q)) (rev (remdups (rev vs)))"
proof (induction vs rule: rev_induct)
  case Nil
  then show ?case by simp
next
  case (snoc v vs)
  let ?q = "fold (\<lambda>v q. fst (push q v)) vs q"
  obtain q1 b where 1: "push ?q v = (q1, b)" by (cases "push ?q v")
  from snoc have q: "invar ?q"
    and e: "elems ?q = elems q @ filter (\<lambda>v. v \<notin> set (elems q)) (rev (remdups (rev vs)))"
    by blast+
  from push_spec [OF q 1] show ?case using 1 e by (auto simp: filter_empty_conv)
qed

end

section \<open>The queue keeps its contract\<close>

lemma qs_scan_None: "qs_scan v i xs = None \<longleftrightarrow> v \<notin> set xs"
  by (induction xs arbitrary: i) auto

lemma qs_scan_remove1:
  "qs_scan v i xs = Some j \<Longrightarrow> i \<le> j \<and> take (j - i) xs @ drop (Suc (j - i)) xs = remove1 v xs"
proof (induction xs arbitrary: i)
  case Nil
  then show ?case by simp
next
  case (Cons x xs)
  show ?case
  proof (cases "x = v")
    case False
    with Cons have *: "Suc i \<le> j" "take (j - Suc i) xs @ drop (Suc (j - Suc i)) xs = remove1 v xs"
      by auto
    then have "j - i = Suc (j - Suc i)" by simp
    with * False show ?thesis by simp
  qed (use Cons in simp)
qed

lemma qs_remove_fifo: "qs_inv q \<Longrightarrow> qs_fifo (fst (qs_remove q v)) = remove1 v (qs_fifo q)"
  using qs_scan_remove1 [of v 0 "qs_fifo q"]
  by (auto simp: qs_remove_def qs_inv_def Let_def deque_remove_def qs_scan_None remove1_idem
      split: option.splits)

interpretation qs: fifo_set qs_new qs_push qs_pop qs_remove qs_contains qs_len qs_fifo qs_inv
proof unfold_locales
  fix q q' :: "'a queue_set" and v b
  assume q: "qs_inv q" and r: "qs_remove q v = (q', b)"
  from r have "qs_fifo q' = remove1 v (qs_fifo q)" and "qs_set q' = qs_set q - {v}"
    and "b = (v \<in> qs_set q)"
    using qs_remove_fifo [OF q, of v] by (auto simp: qs_remove_def Let_def split: if_splits option.splits)
  with q show "qs_inv q' \<and> b = (v \<in> set (qs_fifo q)) \<and> qs_fifo q' = remove1 v (qs_fifo q)"
    by (auto simp: qs_inv_def)
qed (auto simp: qs_new_def qs_push_def qs_pop_def qs_inv_def qs_contains_def qs_len_def
      split: if_splits list.splits)

lemma qs_new_simps [simp]: "qs_inv qs_new" "qs_fifo qs_new = []" "qs_set qs_new = {}"
  by (simp_all add: qs_new_def qs_inv_def)

text \<open>Every operation of the queue keeps the set equal to the elements of the deque and the
  deque free of repetitions.\<close>

theorem queue_set_invariant:
  assumes "qs_inv q"
  shows "qs_inv (fst (qs_push q v)) \<and> qs_inv (fst (qs_pop q)) \<and> qs_inv (fst (qs_remove q v))"
  using qs.push_spec [OF assms prod.collapse [symmetric]] qs.pop_spec [OF assms prod.collapse [symmetric]]
    qs.remove_spec [OF assms prod.collapse [symmetric]] by blast

theorem queue_set_invariant_witness:
  "qs_inv (qs_new :: nat queue_set) \<and> qs_inv (fst (qs_push (qs_new :: nat queue_set) 1))"
  using queue_set_invariant [of "qs_new :: nat queue_set" 1] by simp

text \<open>First in, first out: pushing values onto an empty queue and popping one returns the
  first of them and leaves the others, in arrival order and without repetitions; the removal loop
  of the code deletes exactly the named value and keeps the order of the rest.\<close>

theorem queue_set_fifo:
  "qs_fifo (fold (\<lambda>v q. fst (qs_push q v)) vs qs_new) = rev (remdups (rev vs)) \<and>
   qs_pop (fold (\<lambda>v q. fst (qs_push q v)) vs qs_new) =
     (let q = fold (\<lambda>v q. fst (qs_push q v)) vs qs_new
      in case rev (remdups (rev vs)) of
           [] \<Rightarrow> (q, None)
         | x # xs \<Rightarrow> (\<lparr>qs_set = set xs, qs_fifo = xs\<rparr>, Some x)) \<and>
   (\<forall>v. qs_fifo (fst (qs_remove (fold (\<lambda>v q. fst (qs_push q v)) vs qs_new) v)) =
          filter (\<lambda>x. x \<noteq> v) (rev (remdups (rev vs))))"
proof -
  let ?q = "fold (\<lambda>v q. fst (qs_push q v)) vs qs_new"
  have inv: "qs_inv ?q" and fifo: "qs_fifo ?q = rev (remdups (rev vs))"
    using qs.push_all [of qs_new vs] by auto
  have set: "qs_set ?q = set vs" using inv fifo by (simp add: qs_inv_def)
  have pop: "qs_pop ?q = (case rev (remdups (rev vs)) of
      [] \<Rightarrow> (?q, None) | x # xs \<Rightarrow> (\<lparr>qs_set = set xs, qs_fifo = xs\<rparr>, Some x))"
  proof (cases "rev (remdups (rev vs))")
    case (Cons x xs)
    have "distinct (x # xs)" and "set vs = insert x (set xs)"
      using Cons by (metis distinct_remdups distinct_rev, metis list.simps(15) set_remdups set_rev)
    then have "set vs - {x} = set xs" by auto
    with Cons fifo set show ?thesis by (cases ?q) (simp add: qs_pop_def)
  qed (simp add: qs_pop_def fifo)
  have rem: "qs_fifo (fst (qs_remove ?q v)) = filter (\<lambda>x. x \<noteq> v) (rev (remdups (rev vs)))" for v
    using qs_remove_fifo [OF inv, of v] fifo by (simp add: distinct_remove1_removeAll removeAll_filter_not_eq eq_commute)
  show ?thesis using fifo pop rem by (simp add: Let_def)
qed

end
