(* ===== verification/Pool.thy ===== *)
theory Pool
  imports QueueSet Schema
begin

text \<open>
  \<^verbatim>\<open>src/blockchain/pool.rs\<close>: the outstanding transactions and blocks shared by the dispatcher, the
  builder, the aligner and the executor, and the invariant they keep. \<open>HashMap<Hash, Option<Transaction>>\<close>
  is a map to an optional payload: a hash may be known before its payload. \<open>BTreeMap<u64, BlockInfo>\<close>
  is an ordered association list.
\<close>

record block_info =
  bi_hash :: "hash option"
  bi_validator :: "public_key option"
  bi_signature :: "bytes option"
  bi_txs_hashes :: "hash list option"
  bi_timestamp :: u64

record pool =
  pl_txs :: "hash \<Rightarrow> transaction option option"
  pl_unconfirmed :: "hash queue_set"
  pl_confirmed :: "(u64 \<times> block_info) list"

definition pool_default :: pool where
  "pool_default = \<lparr>pl_txs = (\<lambda>_. None), pl_unconfirmed = qs_new, pl_confirmed = []\<rparr>"

text \<open>The hashes some confirmed block of the pool names.\<close>

definition confirmed_hashes :: "(u64 \<times> block_info) list \<Rightarrow> hash set" where
  "confirmed_hashes m =
     {h. \<exists>ht bi hs. (ht, bi) \<in> set m \<and> bi_txs_hashes bi = Some hs \<and> h \<in> set hs}"

text \<open>The invariant, given which hashes the database holds (\<open>stored\<close>): the queue and the ordered map
  are well formed; an unconfirmed transaction has its payload and is not in the database; a hash named
  by a confirmed block is not unconfirmed, and is known to the pool or to the database.\<close>

definition pool_inv :: "(hash \<Rightarrow> bool) \<Rightarrow> pool \<Rightarrow> bool" where
  "pool_inv stored p \<longleftrightarrow>
     qs_inv (pl_unconfirmed p) \<and> bt_wf (pl_confirmed p) \<and>
     (\<forall>h \<in> set (qs_fifo (pl_unconfirmed p)). \<not> stored h \<and> (\<exists>tx. pl_txs p h = Some (Some tx))) \<and>
     (\<forall>h \<in> confirmed_hashes (pl_confirmed p).
        h \<notin> set (qs_fifo (pl_unconfirmed p)) \<and> (pl_txs p h \<noteq> None \<or> stored h))"

section \<open>Lemmas\<close>

lemma pool_inv_default: "pool_inv stored pool_default"
  by (simp add: pool_inv_def pool_default_def confirmed_hashes_def)

lemma pool_inv_unconfirmed:
  "pool_inv stored p \<Longrightarrow> h \<in> set (qs_fifo (pl_unconfirmed p)) \<Longrightarrow>
   \<not> stored h \<and> (\<exists>tx. pl_txs p h = Some (Some tx))"
  by (simp add: pool_inv_def)

lemma set_bt_insert: "set (bt_insert k v m) \<subseteq> insert (k, v) (set m)"
  by (induction m) auto

lemma confirmed_hashes_insert:
  "confirmed_hashes (bt_insert k bi m) \<subseteq>
     (case bi_txs_hashes bi of None \<Rightarrow> {} | Some hs \<Rightarrow> set hs) \<union> confirmed_hashes m"
  using set_bt_insert [of k bi m] by (fastforce simp: confirmed_hashes_def)

lemma confirmed_hashes_remove: "confirmed_hashes (bt_remove k m) \<subseteq> confirmed_hashes m"
  by (auto simp: confirmed_hashes_def bt_remove_def)

lemma confirmed_hashes_map_of:
  "map_of m k = Some bi \<Longrightarrow> bi_txs_hashes bi = Some hs \<Longrightarrow> set hs \<subseteq> confirmed_hashes m"
  by (auto simp: confirmed_hashes_def dest!: map_of_SomeD)

end
