(* ===== verification/Executor.thy ===== *)
theory Executor
  imports Wm PubSub Pool "HOL-Library.Monad_Syntax"
begin

text \<open>
  \<^verbatim>\<open>src/blockchain/executor.rs\<close>: confirmed blocks are taken from the pool in height order, their
  transactions executed on a fork of the database, the resulting block checked against what is expected
  of it, and the fork merged. \<open>None\<close> is a panic of the executor. The database and the machine are
  reached through their trait records \<open>D\<close> and \<open>W\<close>; \<open>closed\<close> says which response channels are
  closed; \<open>is_val db i\<close> is the validator closure called while the database is \<open>db\<close>. The optional
  features \<open>indexer\<close> and \<open>rt-monitor\<close> are off.
\<close>

section \<open>State\<close>

record bulk_result =
  br_success :: bool
  br_result :: bytes
  br_fuel_consumed :: u64

record block_values =
  bv_exp_hash :: "hash option"
  bv_signature :: "bytes option"
  bv_validator :: "public_key option"
  bv_timestamp :: u64

record burn_fuel_args =
  ba_account :: string
  ba_fuel_to_burn :: u64
  ba_fuel_limit :: u64

record handle_transaction_returns =
  hr_burn_fuel_args :: burn_fuel_args
  hr_receipt :: receipt

text \<open>\<open>ex_sent\<close> records what has been published.\<close>

record ('d, 'w) executor =
  ex_pool :: pool
  ex_db :: 'd
  ex_wm :: 'w
  ex_pubsub :: pubsub
  ex_keypair :: key_pair
  ex_burn_fuel_method :: string
  ex_seed :: seed_source
  ex_is_validator :: bool
  ex_sent :: "(nat \<times> message) list"

definition executor_new ::
    "pool \<Rightarrow> 'd \<Rightarrow> 'w \<Rightarrow> pubsub \<Rightarrow> key_pair \<Rightarrow> seed_source \<Rightarrow> ('d, 'w) executor" where
  "executor_new pool db wm ps kp seed =
     \<lparr>ex_pool = pool, ex_db = db, ex_wm = wm, ex_pubsub = ps, ex_keypair = kp,
      ex_burn_fuel_method = [], ex_seed = seed, ex_is_validator = False, ex_sent = []\<rparr>"

definition set_burn_fuel_method :: "string \<Rightarrow> ('d, 'w) executor \<Rightarrow> ('d, 'w) executor" where
  "set_burn_fuel_method mthd x = x\<lparr>ex_burn_fuel_method := mthd\<rparr>"

section \<open>Fuel\<close>

definition calculate_burned_fuel :: "u64 \<Rightarrow> u64" where
  "calculate_burned_fuel wm_fuel = (if wm_fuel = 0 then 0 else FUEL_LIMIT)"

definition calculate_internal_fuel_limit :: "u64 \<Rightarrow> u64" where
  "calculate_internal_fuel_limit fuel_limit = MAX_FUEL"

definition burn_call_args :: "env \<Rightarrow> hash \<Rightarrow> string \<Rightarrow> string \<Rightarrow> u64 \<Rightarrow> u64 \<Rightarrow> call_args" where
  "burn_call_args E contract mthd origin fuel ts =
     \<lparr>ca_depth = 0, ca_network = SERVICE_ACCOUNT_ID, ca_origin = SERVICE_ACCOUNT_ID,
      ca_owner = SERVICE_ACCOUNT_ID, ca_caller = SERVICE_ACCOUNT_ID, ca_contract = contract,
      ca_method = mthd,
      ca_args = e_rmp E (MpMap [(''from'', MpStr origin), (''units'', mp_u64 fuel)]),
      ca_initial_fuel = MAX_FUEL, ca_block_timestamp = ts\<rparr>"

text \<open>The service contract's method, called with \<open>origin\<close> and the units; its events are dropped.\<close>

definition call_burn_fuel ::
    "env \<Rightarrow> ('d, 'f) db_ops \<Rightarrow> ('w, 'f) wm_ops \<Rightarrow> string \<Rightarrow> string \<Rightarrow> u64 \<Rightarrow> u64 \<Rightarrow> ('w, 'f) mach \<Rightarrow>
     (('w, 'f) mach \<times> u64 \<times> bytes result) option" where
  "call_burn_fuel E D W mthd origin fuel ts m =
     (case fk_load_account D (mc_fork m) SERVICE_ACCOUNT_ID of
        None \<Rightarrow> Some (m, 0, Inl (error_new_ext Other ''Service not found''))
      | Some acc \<Rightarrow>
          (case ac_contract acc of
             None \<Rightarrow> Some (m, 0, Inl (error_new_ext Other ''Service has no contract''))
           | Some contract \<Rightarrow> do {
               (m', _, consumed, r) \<leftarrow> wm_call W (burn_call_args E contract mthd origin fuel ts) [] m;
               Some (m', consumed, r)
             }))"

definition try_burn_fuel ::
    "env \<Rightarrow> ('d, 'f) db_ops \<Rightarrow> ('w, 'f) wm_ops \<Rightarrow> string \<Rightarrow> burn_fuel_args \<Rightarrow> u64 \<Rightarrow> ('w, 'f) mach \<Rightarrow>
     (('w, 'f) mach \<times> bool \<times> u64) option" where
  "try_burn_fuel E D W mthd ba ts m =
     (if mthd = [] then Some (m, True, 0)
      else do {
        let max_fuel_result = (ba_fuel_to_burn ba \<le> ba_fuel_limit ba);
        let fuel = (if ba_fuel_to_burn ba > ba_fuel_limit ba then ba_fuel_limit ba else ba_fuel_to_burn ba);
        (m', _, result) \<leftarrow> call_burn_fuel E D W mthd (ba_account ba) fuel ts m;
        Some (case result of
                Inl _ \<Rightarrow> (m', False, 0)
              | Inr value \<Rightarrow>
                  (case e_de_consume_fuel E value of
                     None \<Rightarrow> (m', False, 0)
                   | Some (success, units) \<Rightarrow> (m', success \<and> max_fuel_result, units)))
      })"

section \<open>One transaction\<close>

definition tx_ctx_args :: "env \<Rightarrow> transaction_data \<Rightarrow> ctx_args" where
  "tx_ctx_args E d =
     \<lparr>cx_origin = to_account_id E (get_caller d), cx_owner = get_account d,
      cx_caller = to_account_id E (get_caller d)\<rparr>"

definition tx_call_args :: "env \<Rightarrow> transaction_data \<Rightarrow> hash \<Rightarrow> u64 \<Rightarrow> call_args" where
  "tx_call_args E d app_hash ts =
     \<lparr>ca_depth = 0, ca_network = get_network d, ca_origin = to_account_id E (get_caller d),
      ca_owner = get_account d, ca_caller = to_account_id E (get_caller d), ca_contract = app_hash,
      ca_method = get_method d, ca_args = get_args d,
      ca_initial_fuel = calculate_internal_fuel_limit (get_fuel_limit d), ca_block_timestamp = ts\<rparr>"

text \<open>Only the two kinds a contract can cause are reported in full.\<close>

definition failure_message :: "error \<Rightarrow> string option" where
  "failure_message err =
     (case err_kind err of
        SmartContractFault \<Rightarrow> error_to_string_full err
      | ResourceNotFound \<Rightarrow> error_to_string_full err
      | _ \<Rightarrow> Some (error_to_string err))"

definition some_events :: "smart_contract_event list \<Rightarrow> smart_contract_event list option" where
  "some_events evs = (if evs = [] then None else Some evs)"

definition stamp_events :: "hash \<Rightarrow> smart_contract_event list \<Rightarrow> smart_contract_event list" where
  "stamp_events h evs = map (\<lambda>e. e\<lparr>ev_event_tx := h\<rparr>) evs"

text \<open>What is returned when the contract of a transaction cannot be resolved: \<open>FUEL_LIMIT\<close> burned.\<close>

definition refused :: "env \<Rightarrow> transaction_data \<Rightarrow> u64 \<Rightarrow> u32 \<Rightarrow> string \<Rightarrow> handle_transaction_returns" where
  "refused E d height index msg =
     \<lparr>hr_burn_fuel_args =
        \<lparr>ba_account = to_account_id E (get_caller d), ba_fuel_to_burn = get_fuel_consumed_for_error,
         ba_fuel_limit = get_fuel_limit d\<rparr>,
      hr_receipt =
        \<lparr>rx_height = height, rx_index = index, rx_burned_fuel = get_fuel_consumed_for_error,
         rx_success = False, rx_returns = str_bytes msg, rx_events = None\<rparr>\<rparr>"

definition handle_unit_transaction ::
    "env \<Rightarrow> ('d, 'f) db_ops \<Rightarrow> ('w, 'f) wm_ops \<Rightarrow> signed_transaction \<Rightarrow> u64 \<Rightarrow> u32 \<Rightarrow>
     smart_contract_event list \<Rightarrow> u64 \<Rightarrow> ('w, 'f) mach \<Rightarrow>
     (('w, 'f) mach \<times> handle_transaction_returns) option" where
  "handle_unit_transaction E D W tx height index events ts m = do {
     let d = st_data tx;
     (m1, app_hash) \<leftarrow> wm_app_hash_check W (get_contract d) (tx_ctx_args E d) ts m;
     (case app_hash of
        Inr h \<Rightarrow> do {
          (m2, evs, fuel_consumed, result) \<leftarrow> wm_call W (tx_call_args E d h ts) events m1;
          let evs1 = stamp_events (data_hash E d) evs;
          let m3 = (case result of Inl _ \<Rightarrow> m2\<lparr>mc_fork := fk_rollback D (mc_fork m2)\<rparr> | Inr _ \<Rightarrow> m2);
          (success, returns) \<leftarrow>
            (case result of
               Inr value \<Rightarrow> Some (True, value)
             | Inl err \<Rightarrow> map_option (\<lambda>msg. (False, str_bytes msg)) (failure_message err));
          let burned_fuel = calculate_burned_fuel fuel_consumed;
          Some (m3,
            \<lparr>hr_burn_fuel_args =
               \<lparr>ba_account = to_account_id E (get_caller d), ba_fuel_to_burn = burned_fuel,
                ba_fuel_limit = get_fuel_limit d\<rparr>,
             hr_receipt =
               \<lparr>rx_height = height, rx_index = index, rx_burned_fuel = burned_fuel,
                rx_success = success, rx_returns = returns, rx_events = some_events evs1\<rparr>\<rparr>)
        }
      | Inl e \<Rightarrow> do {
          msg \<leftarrow> error_to_string_full e;
          Some (m1, refused E d height index msg)
        })
   }"

section \<open>Bulk transactions\<close>

definition mp_bulk_results :: "(string \<times> bulk_result) list \<Rightarrow> mp_value" where
  "mp_bulk_results rs =
     MpArr (map (\<lambda>(k, r). MpArr [MpStr k, MpArr [MpBool (br_success r), mp_vec_u8 (br_result r),
       mp_u64 (br_fuel_consumed r)]]) rs)"

text \<open>The local variables of the bulk handler.\<close>

record bulk_state =
  bs_results :: "(string \<times> bulk_result) list"
  bs_execution_fail :: bool
  bs_burned_fuel :: u64
  bs_fuel_to_burn :: u64
  bs_events :: "smart_contract_event list"

definition push_result :: "env \<Rightarrow> hash \<Rightarrow> bool \<Rightarrow> bytes \<Rightarrow> u64 \<Rightarrow> bulk_state \<Rightarrow> bulk_state" where
  "push_result E h success result fuel s =
     s\<lparr>bs_results := bs_results s @ [(e_hex E (hash_as_bytes h),
        \<lparr>br_success = success, br_result = result, br_fuel_consumed = fuel\<rparr>)],
       bs_execution_fail := bs_execution_fail s \<or> \<not> success\<rparr>"

definition add_fuel :: "u64 \<Rightarrow> bulk_state \<Rightarrow> bulk_state" where
  "add_fuel fuel s =
     s\<lparr>bs_burned_fuel := bs_burned_fuel s + fuel, bs_fuel_to_burn := bs_fuel_to_burn s + fuel\<rparr>"

text \<open>What follows a call, for the root and for a node: on success the events are stamped and kept, on
  failure the error is reported in full.\<close>

definition bulk_outcome ::
    "env \<Rightarrow> hash \<Rightarrow> smart_contract_event list \<Rightarrow> u64 \<Rightarrow> bytes result \<Rightarrow> bulk_state \<Rightarrow> bulk_state option" where
  "bulk_outcome E h evs fuel result s =
     (case result of
        Inr rcpt \<Rightarrow>
          Some ((push_result E h True rcpt fuel s)\<lparr>bs_events := bs_events s @ stamp_events h evs\<rparr>)
      | Inl err \<Rightarrow> do {
          msg \<leftarrow> error_to_string_full err;
          Some (push_result E h False (str_bytes msg) fuel s)
        })"

text \<open>The loop over the nodes. A failed call ends it; a node whose contract cannot be resolved does not.\<close>

fun exec_nodes ::
    "env \<Rightarrow> ('w, 'f) wm_ops \<Rightarrow> u64 \<Rightarrow> signed_transaction list \<Rightarrow> ('w, 'f) mach \<Rightarrow> bulk_state \<Rightarrow>
     (('w, 'f) mach \<times> bulk_state) option" where
  "exec_nodes E W ts [] m s = Some (m, s)"
| "exec_nodes E W ts (node # nodes) m s = do {
     let d = st_data node;
     (m1, app_hash) \<leftarrow> wm_app_hash_check W (get_contract d) (tx_ctx_args E d) ts m;
     (case app_hash of
        Inr h \<Rightarrow> do {
          (m2, evs, wm_fuel, result) \<leftarrow> wm_call W (tx_call_args E d h ts) [] m1;
          let fuel = calculate_burned_fuel wm_fuel;
          s1 \<leftarrow> bulk_outcome E (data_hash E d) evs fuel result (add_fuel fuel s);
          (case result of Inl _ \<Rightarrow> Some (m2, s1) | Inr _ \<Rightarrow> exec_nodes E W ts nodes m2 s1)
        }
      | Inl e \<Rightarrow> do {
          msg \<leftarrow> error_to_string_full e;
          exec_nodes E W ts nodes m1
            (push_result E (data_hash E d) False (str_bytes msg) get_fuel_consumed_for_error s)
        })
   }"

text \<open>The root: a call, nothing for an empty root, or an early return (\<open>Inl\<close>).\<close>

definition exec_root ::
    "env \<Rightarrow> ('w, 'f) wm_ops \<Rightarrow> transaction_data \<Rightarrow> u64 \<Rightarrow> u32 \<Rightarrow> u64 \<Rightarrow> ('w, 'f) mach \<Rightarrow>
     (('w, 'f) mach \<times>
      (handle_transaction_returns + smart_contract_event list \<times> u64 \<times> bytes result)) option" where
  "exec_root E W root height index ts m =
     (case root of
        BulkRootV1 d \<Rightarrow> do {
          (m1, app_hash) \<leftarrow> wm_app_hash_check W (td_contract d) (tx_ctx_args E root) ts m;
          (case app_hash of
             Inl e \<Rightarrow> do {
               msg \<leftarrow> error_to_string_full e;
               let r = refused E root height index msg;
               Some (m1, Inl (r\<lparr>hr_burn_fuel_args := (hr_burn_fuel_args r)\<lparr>ba_fuel_limit := td_fuel_limit d\<rparr>\<rparr>))
             }
           | Inr h \<Rightarrow> do {
               (m2, evs, fuel, result) \<leftarrow> wm_call W (tx_call_args E root h ts) [] m1;
               Some (m2, Inr (evs, fuel, result))
             })
        }
      | BulkEmpyRoot _ \<Rightarrow> Some (m, Inr ([], 0, Inr [192]))
      | _ \<Rightarrow> Some (m, Inl (refused E root height index ''wrong transaction schema'')))"

definition bulk_returns ::
    "env \<Rightarrow> transaction_data \<Rightarrow> u64 \<Rightarrow> u32 \<Rightarrow> bulk_state \<Rightarrow> smart_contract_event list option \<Rightarrow>
     handle_transaction_returns" where
  "bulk_returns E d height index s events =
     \<lparr>hr_burn_fuel_args =
        \<lparr>ba_account = to_account_id E (get_caller d), ba_fuel_to_burn = bs_fuel_to_burn s,
         ba_fuel_limit = get_fuel_limit d\<rparr>,
      hr_receipt =
        \<lparr>rx_height = height, rx_index = index,
         rx_burned_fuel = calculate_burned_fuel (bs_burned_fuel s),
         rx_success = (\<not> bs_execution_fail s), rx_returns = e_rmp E (mp_bulk_results (bs_results s)),
         rx_events = events\<rparr>\<rparr>"

definition handle_bulk_transaction ::
    "env \<Rightarrow> ('d, 'f) db_ops \<Rightarrow> ('w, 'f) wm_ops \<Rightarrow> bulk_transaction \<Rightarrow> u64 \<Rightarrow> u32 \<Rightarrow>
     smart_contract_event list \<Rightarrow> u64 \<Rightarrow> ('w, 'f) mach \<Rightarrow>
     (('w, 'f) mach \<times> handle_transaction_returns) option" where
  "handle_bulk_transaction E D W tx height index input_events ts m =
     (let s0 = \<lparr>bs_results = [], bs_execution_fail = False, bs_burned_fuel = 0, bs_fuel_to_burn = 0,
                bs_events = input_events\<rparr>
      in case bt_data tx of
           BulkV1 (BulkTransactions (UnsignedTransaction root) nodes) \<Rightarrow> do {
             (m1, r) \<leftarrow> exec_root E W root height index ts m;
             (case r of
                Inl ret \<Rightarrow> Some (m1, ret)
              | Inr (evs, wm_fuel, result) \<Rightarrow> do {
                  let fuel = calculate_burned_fuel wm_fuel;
                  s1 \<leftarrow> bulk_outcome E (data_hash E root) evs fuel result (add_fuel fuel s0);
                  (m2, s2) \<leftarrow>
                    (if bs_execution_fail s1 then Some (m1, s1)
                     else case nodes of None \<Rightarrow> Some (m1, s1) | Some ns \<Rightarrow> exec_nodes E W ts ns m1 s1);
                  let m3 = (if bs_execution_fail s2 then m2\<lparr>mc_fork := fk_rollback D (mc_fork m2)\<rparr> else m2);
                  Some (m3, bulk_returns E (bt_data tx) height index s2 (some_events (bs_events s2)))
                })
           }
         | _ \<Rightarrow>
             Some (m\<lparr>mc_fork := fk_rollback D (mc_fork m)\<rparr>, bulk_returns E (bt_data tx) height index s0 None))"

section \<open>Publishing\<close>

definition publish_msg ::
    "env \<Rightarrow> (nat \<Rightarrow> bool) \<Rightarrow> u8 \<Rightarrow> message \<Rightarrow> ('d, 'w) executor \<Rightarrow> ('d, 'w) executor" where
  "publish_msg E closed event msg x =
     (case publish E closed (ex_pubsub x) event msg of
        (ps, sent) \<Rightarrow> x\<lparr>ex_pubsub := ps, ex_sent := ex_sent x @ sent\<rparr>)"

definition emit_events ::
    "env \<Rightarrow> (nat \<Rightarrow> bool) \<Rightarrow> smart_contract_event list \<Rightarrow> ('d, 'w) executor \<Rightarrow> ('d, 'w) executor" where
  "emit_events E closed events x =
     (if has_subscribers (ex_pubsub x) EV_CONTRACT_EVENTS
      then fold (\<lambda>ev. publish_msg E closed EV_CONTRACT_EVENTS (GetContractEvent ev)) events x
      else x)"

section \<open>The transactions of a block\<close>

definition get_mach :: "('d, 'w) executor \<Rightarrow> 'f \<Rightarrow> ('w, 'f) mach" where
  "get_mach x f = \<lparr>mc_wm = ex_wm x, mc_fork = f, mc_seed = ex_seed x\<rparr>"

definition put_mach :: "('w, 'f) mach \<Rightarrow> ('d, 'w) executor \<Rightarrow> ('d, 'w) executor" where
  "put_mach m x = x\<lparr>ex_wm := mc_wm m, ex_seed := mc_seed m\<rparr>"

definition exec_transaction ::
    "env \<Rightarrow> ('d, 'f) db_ops \<Rightarrow> ('w, 'f) wm_ops \<Rightarrow> (nat \<Rightarrow> bool) \<Rightarrow> transaction \<Rightarrow> u64 \<Rightarrow> u32 \<Rightarrow>
     string \<Rightarrow> u64 \<Rightarrow> ('d, 'w) executor \<Rightarrow> 'f \<Rightarrow> (('d, 'w) executor \<times> 'f \<times> receipt) option" where
  "exec_transaction E D W closed tx height index mthd ts x f = do {
     let m = get_mach x (fk_flush D f);
     (m1, res) \<leftarrow>
       (case tx of
          UnitTransaction t \<Rightarrow> handle_unit_transaction E D W t height index [] ts m
        | BulkTransaction t \<Rightarrow> handle_bulk_transaction E D W t height index [] ts m);
     let rx = hr_receipt res;
     (m2, res_burning, burned) \<leftarrow> try_burn_fuel E D W mthd (hr_burn_fuel_args res) ts m1;
     (if res_burning then
        (let x1 = put_mach m2 x;
             x2 = (case rx_events rx of Some evs \<Rightarrow> emit_events E closed evs x1 | None \<Rightarrow> x1)
         in Some (x2, mc_fork m2, rx\<lparr>rx_burned_fuel := burned\<rparr>))
      else do {
        let m3 = m2\<lparr>mc_fork := fk_rollback D (mc_fork m2)\<rparr>;
        (m4, _, r) \<leftarrow> call_burn_fuel E D W mthd (to_account_id E (tx_get_caller tx)) burned ts m3;
        let burned' = (case r of Inl _ \<Rightarrow> 0 | Inr _ \<Rightarrow> burned);
        Some (put_mach m4 x, mc_fork m4,
          \<lparr>rx_height = height, rx_index = index, rx_burned_fuel = burned', rx_success = False,
           rx_returns = str_bytes ''error burning fuel'', rx_events = rx_events rx\<rparr>)
      })
   }"

text \<open>The loop over the hashes of a block, from index \<open>i\<close> on; a missing payload is a panic.\<close>

fun exec_transactions ::
    "env \<Rightarrow> ('d, 'f) db_ops \<Rightarrow> ('w, 'f) wm_ops \<Rightarrow> (nat \<Rightarrow> bool) \<Rightarrow> u64 \<Rightarrow> u64 \<Rightarrow> nat \<Rightarrow> hash list \<Rightarrow>
     ('d, 'w) executor \<Rightarrow> 'f \<Rightarrow> (('d, 'w) executor \<times> 'f \<times> hash list) option" where
  "exec_transactions E D W closed height ts i [] x f = Some (x, f, [])"
| "exec_transactions E D W closed height ts i (h # hs) x f =
     (case pl_txs (ex_pool x) h of
        Some (Some tx) \<Rightarrow> do {
          (x1, f1, rx) \<leftarrow>
            exec_transaction E D W closed tx height (of_nat i) (ex_burn_fuel_method x) ts x f;
          let f2 = fk_store_receipt D (fk_store_transaction D f1 h tx) h rx;
          (x2, f3, rxs) \<leftarrow> exec_transactions E D W closed height ts (Suc i) hs x1 f2;
          Some (x2, f3, primary_hash E (mp_receipt rx) # rxs)
        }
      | _ \<Rightarrow> None)"

section \<open>One block\<close>

text \<open>The signature check of a block received from a peer.\<close>

definition verify_block ::
    "env \<Rightarrow> (string \<Rightarrow> bool result) \<Rightarrow> block_values \<Rightarrow> block_data \<Rightarrow> unit result" where
  "verify_block E is_val bv data =
     (case (bv_validator bv, bv_signature bv) of
        (Some pk, Some sig) \<Rightarrow>
          if \<not> pk_verify E pk (e_rmp E (mp_block_data data)) sig
          then Inl (error_new_ext Other ''bad block signature'')
          else (case is_val (to_account_id E pk) of
                  Inr res \<Rightarrow>
                    if res then Inr () else Inl (error_new_ext Other ''unexpected block validator'')
                | Inl _ \<Rightarrow> Inl (error_new_ext Other ''unexpected error in block validator check''))
      | _ \<Rightarrow> Inr ())"

definition block_signature :: "env \<Rightarrow> key_pair \<Rightarrow> block_values \<Rightarrow> block_data \<Rightarrow> bytes result" where
  "block_signature E kp bv data =
     (if bd_height data = 0 then Inr (replicate 5 0)
      else case bv_signature bv of
             Some sig \<Rightarrow> Inr sig
           | None \<Rightarrow> kp_sign E kp (e_rmp E (mp_block_data data)))"

definition check_hash :: "block_values \<Rightarrow> hash \<Rightarrow> unit result" where
  "check_hash bv h =
     (case bv_exp_hash bv of
        Some exp_hash \<Rightarrow>
          if exp_hash \<noteq> h then Inl (error_new_ext Other ''unexpected block hash'') else Inr ()
      | None \<Rightarrow> Inr ())"

definition block_validator :: "key_pair \<Rightarrow> block_values \<Rightarrow> u64 \<Rightarrow> public_key option" where
  "block_validator kp bv height =
     (case bv_validator bv of
        Some pk \<Rightarrow> Some pk
      | None \<Rightarrow> if height = 0 then None else Some (kp_public_key kp))"

text \<open>From the executed fork to the new database: build the block, check it, sign it, store it, merge.\<close>

definition seal_block ::
    "env \<Rightarrow> ('d, 'f) db_ops \<Rightarrow> ('d \<Rightarrow> string \<Rightarrow> bool result) \<Rightarrow> key_pair \<Rightarrow> 'd \<Rightarrow> u64 \<Rightarrow> hash list \<Rightarrow>
     hash list \<Rightarrow> hash \<Rightarrow> block_values \<Rightarrow> 'f \<Rightarrow> ('d \<times> block) result" where
  "seal_block E D is_val kp db height txs_hashes rxs_hashes prev_hash bv f =
     (case fk_store_transactions_hashes D f height txs_hashes of (f1, txs_hash) \<Rightarrow>
      case fk_store_receipts_hashes D f1 height rxs_hashes of (f2, rxs_hash) \<Rightarrow>
        let data =
          \<lparr>bd_validator = block_validator kp bv height, bd_height = height,
           bd_size = of_nat (length txs_hashes), bd_prev_hash = prev_hash, bd_txs_hash = txs_hash,
           bd_rxs_hash = rxs_hash, bd_state_hash = fk_state_hash D f2 [], bd_timestamp = bv_timestamp bv\<rparr>
        in try_bind (verify_block E (is_val db) bv data) (\<lambda>_.
           try_bind (block_signature E kp bv data) (\<lambda>signature.
           try_bind (check_hash bv (primary_hash E (mp_block_data data))) (\<lambda>_.
             let block = \<lparr>blk_data = data, blk_signature = signature\<rparr>
             in try_bind (db_fork_merge D db (fk_store_block D f2 block)) (\<lambda>db'. Inr (db', block))))))"

definition exec_block ::
    "env \<Rightarrow> ('d, 'f) db_ops \<Rightarrow> ('w, 'f) wm_ops \<Rightarrow> (nat \<Rightarrow> bool) \<Rightarrow> ('d \<Rightarrow> string \<Rightarrow> bool result) \<Rightarrow>
     bool \<Rightarrow> u64 \<Rightarrow> hash list \<Rightarrow> hash \<Rightarrow> block_values \<Rightarrow> ('d, 'w) executor \<Rightarrow>
     (('d, 'w) executor \<times> hash result) option" where
  "exec_block E D W closed is_val is_validator height txs_hashes prev_hash bv x = do {
     (x1, f1, rxs_hashes) \<leftarrow>
       exec_transactions E D W closed height (bv_timestamp bv) 0 txs_hashes x (db_fork_create D (ex_db x));
     Some (case seal_block E D is_val (ex_keypair x1) (ex_db x1) height txs_hashes rxs_hashes prev_hash bv f1 of
             Inl e \<Rightarrow> (x1, Inl e)
           | Inr (db', block) \<Rightarrow>
               (let x2 = x1\<lparr>ex_db := db'\<rparr>;
                    x3 = (if is_validator \<and> has_subscribers (ex_pubsub x2) EV_BLOCK
                          then publish_msg E closed EV_BLOCK (GetBlockResponse block (Some txs_hashes) None) x2
                          else x2);
                    x4 = (if is_validator
                          then x3\<lparr>ex_is_validator :=
                                 (case is_val db' (to_account_id E (kp_public_key (ex_keypair x3))) of
                                    Inr valid \<Rightarrow> valid | Inl _ \<Rightarrow> False)\<rparr>
                          else x3)
                in (x4, Inr (block_hash E block))))
   }"

section \<open>Running\<close>

definition next_height :: "('d, 'f) db_ops \<Rightarrow> 'd \<Rightarrow> u64" where
  "next_height D db =
     (case db_load_block D db u64_max of Some blk \<Rightarrow> bd_height (blk_data blk) + 1 | None \<Rightarrow> 0)"

definition executor_can_run :: "('d, 'f) db_ops \<Rightarrow> u64 \<Rightarrow> 'd \<Rightarrow> pool \<Rightarrow> bool" where
  "executor_can_run D height0 db pool =
     (let height = (if height0 = u64_max then next_height D db else height0)
      in case map_of (pl_confirmed pool) height of
           Some bi \<Rightarrow>
             (case bi_txs_hashes bi of
                Some hashes \<Rightarrow>
                  list_all (\<lambda>h. case pl_txs pool h of Some (Some _) \<Rightarrow> True | _ \<Rightarrow> False) hashes
              | None \<Rightarrow> False)
         | None \<Rightarrow> False)"

text \<open>\<open>std::mem::take\<close> leaves defaults behind; the slot and its hash stay.\<close>

definition steal_block :: "u64 \<Rightarrow> block_info \<Rightarrow> pool \<Rightarrow> pool" where
  "steal_block height bi pool =
     pool\<lparr>pl_confirmed := bt_insert height
       (bi\<lparr>bi_signature := None, bi_validator := None, bi_txs_hashes := Some [], bi_timestamp := 0\<rparr>)
       (pl_confirmed pool)\<rparr>"

definition finish_pool :: "u64 \<Rightarrow> hash list \<Rightarrow> pool \<Rightarrow> pool" where
  "finish_pool height hashes pool =
     pool\<lparr>pl_confirmed := bt_remove height (pl_confirmed pool),
          pl_txs := fold (\<lambda>h m. m(h := None)) hashes (pl_txs pool)\<rparr>"

definition restore_pool :: "u64 \<Rightarrow> block_info \<Rightarrow> pool \<Rightarrow> pool" where
  "restore_pool height bi pool = pool\<lparr>pl_confirmed := bt_insert height bi (pl_confirmed pool)\<rparr>"

text \<open>After a block: the pool is cleaned, the seed takes the hashes of the new last block, and its
  execution is published.\<close>

definition update_seed_infos :: "env \<Rightarrow> ('d, 'f) db_ops \<Rightarrow> 'd \<Rightarrow> seed_source \<Rightarrow> seed_source" where
  "update_seed_infos E D db seed =
     (case db_load_block D db u64_max of
        Some block \<Rightarrow>
          seed\<lparr>ss_prev_hash := block_hash E block, ss_txs_hash := bd_txs_hash (blk_data block),
               ss_rxs_hash := bd_rxs_hash (blk_data block), ss_previous_seed := 0\<rparr>
      | None \<Rightarrow>
          seed\<lparr>ss_prev_hash := hash_default, ss_txs_hash := hash_default, ss_rxs_hash := hash_default,
               ss_previous_seed := 0\<rparr>)"

definition after_block ::
    "env \<Rightarrow> ('d, 'f) db_ops \<Rightarrow> (nat \<Rightarrow> bool) \<Rightarrow> u64 \<Rightarrow> hash list \<Rightarrow> ('d, 'w) executor \<Rightarrow> ('d, 'w) executor" where
  "after_block E D closed height hashes x =
     (let x1 = x\<lparr>ex_pool := finish_pool height hashes (ex_pool x),
                 ex_seed := update_seed_infos E D (ex_db x) (ex_seed x)\<rparr>
      in if has_subscribers (ex_pubsub x1) EV_BLOCK_EXEC
         then (case db_load_block D (ex_db x1) u64_max of
                 Some block \<Rightarrow>
                   publish_msg E closed EV_BLOCK_EXEC (GetBlockResponse block (Some hashes) None) x1
               | None \<Rightarrow> x1)
         else x1)"

section \<open>What execution leaves alone\<close>

lemma publish_msg_frame [frame_simps]:
  "ex_pool (publish_msg E closed ev msg x) = ex_pool x"
  "ex_db (publish_msg E closed ev msg x) = ex_db x"
  "ex_keypair (publish_msg E closed ev msg x) = ex_keypair x"
  "ex_burn_fuel_method (publish_msg E closed ev msg x) = ex_burn_fuel_method x"
  "ex_seed (publish_msg E closed ev msg x) = ex_seed x"
  by (simp_all add: publish_msg_def split: prod.splits)

definition same_shared :: "('d, 'w) executor \<Rightarrow> ('d, 'w) executor \<Rightarrow> bool" where
  "same_shared x x' \<longleftrightarrow>
     ex_pool x' = ex_pool x \<and> ex_db x' = ex_db x \<and> ex_keypair x' = ex_keypair x \<and>
     ex_burn_fuel_method x' = ex_burn_fuel_method x"

lemma same_shared_refl [simp]: "same_shared x x"
  by (simp add: same_shared_def)

lemma same_shared_trans: "same_shared x y \<Longrightarrow> same_shared y z \<Longrightarrow> same_shared x z"
  by (simp add: same_shared_def)

lemma put_mach_shared [simp]: "same_shared x (put_mach m y) \<longleftrightarrow> same_shared x y"
  by (simp add: same_shared_def put_mach_def)

lemma emit_events_shared: "same_shared x (emit_events E closed evs x)"
proof -
  have "same_shared x (fold (\<lambda>ev. publish_msg E closed EV_CONTRACT_EVENTS (GetContractEvent ev)) evs x)"
    by (induction evs arbitrary: x) (auto simp: same_shared_def frame_simps)
  then show ?thesis by (simp add: emit_events_def)
qed

text \<open>The two outcomes of a transaction: the fuel could be burned, or it was rolled back.\<close>

lemma exec_transaction_cases:
  assumes "exec_transaction E D W closed tx ht i mthd ts x f = Some (x', f', rx)"
  obtains (Burned) m1 res m2 burned where
    "(case tx of UnitTransaction t \<Rightarrow> handle_unit_transaction E D W t ht i [] ts (get_mach x (fk_flush D f))
        | BulkTransaction t \<Rightarrow> handle_bulk_transaction E D W t ht i [] ts (get_mach x (fk_flush D f))) = Some (m1, res)"
    "try_burn_fuel E D W mthd (hr_burn_fuel_args res) ts m1 = Some (m2, True, burned)"
    "x' = (case rx_events (hr_receipt res) of
       Some evs \<Rightarrow> emit_events E closed evs (put_mach m2 x) | None \<Rightarrow> put_mach m2 x)"
    "f' = mc_fork m2" "rx = (hr_receipt res)\<lparr>rx_burned_fuel := burned\<rparr>"
  | (Failed) m1 res m2 burned m4 fuel r where
    "(case tx of UnitTransaction t \<Rightarrow> handle_unit_transaction E D W t ht i [] ts (get_mach x (fk_flush D f))
        | BulkTransaction t \<Rightarrow> handle_bulk_transaction E D W t ht i [] ts (get_mach x (fk_flush D f))) = Some (m1, res)"
    "try_burn_fuel E D W mthd (hr_burn_fuel_args res) ts m1 = Some (m2, False, burned)"
    "call_burn_fuel E D W mthd (to_account_id E (tx_get_caller tx)) burned ts
       (m2\<lparr>mc_fork := fk_rollback D (mc_fork m2)\<rparr>) = Some (m4, fuel, r)"
    "x' = put_mach m4 x" "f' = mc_fork m4"
    "rx = \<lparr>rx_height = ht, rx_index = i, rx_burned_fuel = (case r of Inl _ \<Rightarrow> 0 | Inr _ \<Rightarrow> burned),
       rx_success = False, rx_returns = str_bytes ''error burning fuel'',
       rx_events = rx_events (hr_receipt res)\<rparr>"
proof -
  let ?h = "case tx of UnitTransaction t \<Rightarrow> handle_unit_transaction E D W t ht i [] ts (get_mach x (fk_flush D f))
        | BulkTransaction t \<Rightarrow> handle_bulk_transaction E D W t ht i [] ts (get_mach x (fk_flush D f))"
  from assms obtain m1 res where 1: "?h = Some (m1, res)"
    by (cases ?h) (auto simp: exec_transaction_def Let_def)
  with assms obtain m2 ok burned
    where 2: "try_burn_fuel E D W mthd (hr_burn_fuel_args res) ts m1 = Some (m2, ok, burned)"
    by (cases "try_burn_fuel E D W mthd (hr_burn_fuel_args res) ts m1")
       (auto simp: exec_transaction_def Let_def)
  show thesis
  proof (cases ok)
    case True
    with assms 1 2 that(1) show ?thesis by (simp add: exec_transaction_def Let_def)
  next
    case False
    with assms 1 2 obtain m4 fuel r where
      "call_burn_fuel E D W mthd (to_account_id E (tx_get_caller tx)) burned ts
       (m2\<lparr>mc_fork := fk_rollback D (mc_fork m2)\<rparr>) = Some (m4, fuel, r)"
      and "x' = put_mach m4 x" "f' = mc_fork m4"
      "rx = \<lparr>rx_height = ht, rx_index = i, rx_burned_fuel = (case r of Inl _ \<Rightarrow> 0 | Inr _ \<Rightarrow> burned),
       rx_success = False, rx_returns = str_bytes ''error burning fuel'',
       rx_events = rx_events (hr_receipt res)\<rparr>"
      by (simp add: exec_transaction_def Let_def bind_eq_Some_conv split_paired_Ex) metis
    with 1 2 False that(2) show ?thesis by simp
  qed
qed

lemma exec_transaction_shared:
  assumes "exec_transaction E D W closed tx ht i mthd ts x f = Some (x', f', rx)"
  shows "same_shared x x'"
  using assms
proof (cases rule: exec_transaction_cases)
  case (Burned m1 res m2 burned)
  then show ?thesis
    using emit_events_shared [of "put_mach m2 x"] by (auto simp: same_shared_def put_mach_def split: option.splits)
qed simp

lemma exec_transactions_Cons:
  assumes "exec_transactions E D W closed ht ts i (h # hs) x f = Some (x', f', rxs)"
  obtains tx x1 f1 rx rxs' where "pl_txs (ex_pool x) h = Some (Some tx)"
    "exec_transaction E D W closed tx ht (of_nat i) (ex_burn_fuel_method x) ts x f = Some (x1, f1, rx)"
    "exec_transactions E D W closed ht ts (Suc i) hs x1
       (fk_store_receipt D (fk_store_transaction D f1 h tx) h rx) = Some (x', f', rxs')"
    "rxs = primary_hash E (mp_receipt rx) # rxs'"
  using assms by (auto simp: bind_eq_Some_conv Let_def split: option.splits)

lemma exec_transactions_shared:
  "exec_transactions E D W closed ht ts i hs x f = Some (x', f', rxs) \<Longrightarrow> same_shared x x'"
proof (induction hs arbitrary: i x f rxs)
  case (Cons h hs)
  from Cons.prems show ?case
  proof (cases rule: exec_transactions_Cons)
    case (1 tx x1 f1 rx rxs')
    show ?thesis by (rule same_shared_trans [OF exec_transaction_shared [OF 1(2)] Cons.IH [OF 1(3)]])
  qed
qed simp

lemma exec_block_pool:
  assumes "exec_block E D W closed is_val iv ht hs prev bv x = Some (x', r)"
  shows "ex_pool x' = ex_pool x \<and> ex_keypair x' = ex_keypair x \<and>
    ex_burn_fuel_method x' = ex_burn_fuel_method x"
proof -
  from assms obtain x1 f1 rxs where
    1: "exec_transactions E D W closed ht (bv_timestamp bv) 0 hs x (db_fork_create D (ex_db x)) = Some (x1, f1, rxs)"
    and x': "(x', r) = (case seal_block E D is_val (ex_keypair x1) (ex_db x1) ht hs rxs prev bv f1 of
             Inl e \<Rightarrow> (x1, Inl e)
           | Inr (db', block) \<Rightarrow>
               (let x2 = x1\<lparr>ex_db := db'\<rparr>;
                    x3 = (if iv \<and> has_subscribers (ex_pubsub x2) EV_BLOCK
                          then publish_msg E closed EV_BLOCK (GetBlockResponse block (Some hs) None) x2
                          else x2);
                    x4 = (if iv
                          then x3\<lparr>ex_is_validator :=
                                 (case is_val db' (to_account_id E (kp_public_key (ex_keypair x3))) of
                                    Inr valid \<Rightarrow> valid | Inl _ \<Rightarrow> False)\<rparr>
                          else x3)
                in (x4, Inr (block_hash E block))))"
    unfolding exec_block_def by (auto simp: bind_eq_Some_conv)
  from exec_transactions_shared [OF 1] x' show ?thesis
    by (cases "seal_block E D is_val (ex_keypair x1) (ex_db x1) ht hs rxs prev bv f1")
       (auto simp: same_shared_def Let_def frame_simps split: prod.splits if_splits)
qed

lemma after_block_frame [frame_simps]:
  "ex_pool (after_block E D closed ht hs x) = finish_pool ht hs (ex_pool x)"
  "ex_db (after_block E D closed ht hs x) = ex_db x"
  "ex_keypair (after_block E D closed ht hs x) = ex_keypair x"
  by (simp_all add: after_block_def Let_def frame_simps split: option.splits)

section \<open>The loop\<close>

definition block_values_of :: "block_info \<Rightarrow> block_values" where
  "block_values_of bi =
     \<lparr>bv_exp_hash = bi_hash bi, bv_signature = bi_signature bi, bv_validator = bi_validator bi,
      bv_timestamp = bi_timestamp bi\<rparr>"

lemma length_bt_remove_insert:
  assumes "map_of m k = Some v"
  shows "length (bt_remove k (bt_insert k v' m)) < length m"
proof -
  have "bt_remove k (bt_insert k v' m) = bt_remove k m"
    by (induction m) (auto simp: bt_remove_def)
  moreover have "length (bt_remove k m) < length m"
    unfolding bt_remove_def using map_of_SomeD [OF assms] by (intro length_filter_less) auto
  ultimately show ?thesis by simp
qed

lemma after_block_shorter:
  assumes "map_of (pl_confirmed (ex_pool x)) ht = Some bi"
    and "exec_block E D W closed is_val iv ht hs prev bv (x\<lparr>ex_pool := steal_block ht bi (ex_pool x)\<rparr>) = Some (x1, r)"
  shows "length (pl_confirmed (ex_pool (after_block E D closed ht hs x1))) < length (pl_confirmed (ex_pool x))"
  using exec_block_pool [OF assms(2)] length_bt_remove_insert [OF assms(1)]
  by (simp add: frame_simps finish_pool_def steal_block_def)

function exec_loop ::
    "env \<Rightarrow> ('d, 'f) db_ops \<Rightarrow> ('w, 'f) wm_ops \<Rightarrow> (nat \<Rightarrow> bool) \<Rightarrow> ('d \<Rightarrow> string \<Rightarrow> bool result) \<Rightarrow>
     bool \<Rightarrow> hash \<Rightarrow> u64 \<Rightarrow> ('d, 'w) executor \<Rightarrow> ('d, 'w) executor option" where
  "exec_loop E D W closed is_val is_validator prev_hash height x =
     (case map_of (pl_confirmed (ex_pool x)) height of
        None \<Rightarrow> Some x
      | Some bi \<Rightarrow>
          (case bi_txs_hashes bi of
             None \<Rightarrow> Some x
           | Some hashes \<Rightarrow>
               (case exec_block E D W closed is_val is_validator height hashes prev_hash
                       (block_values_of bi) (x\<lparr>ex_pool := steal_block height bi (ex_pool x)\<rparr>) of
                  None \<Rightarrow> None
                | Some (x1, Inl err) \<Rightarrow>
                    map_option (\<lambda>_. x1\<lparr>ex_pool := restore_pool height bi (ex_pool x1)\<rparr>)
                      (error_to_string_full err)
                | Some (x1, Inr h) \<Rightarrow>
                    (let x2 = after_block E D closed height hashes x1
                     in if executor_can_run D (height + 1) (ex_db x2) (ex_pool x2)
                        then exec_loop E D W closed is_val is_validator h (height + 1) x2
                        else Some x2))))"
  by pat_completeness auto

termination
  by (relation "measure (\<lambda>(_, _, _, _, _, _, _, _, x). length (pl_confirmed (ex_pool x)))")
     (auto intro: after_block_shorter)

declare exec_loop.simps [simp del]

text \<open>The ways a turn of the loop goes.\<close>

lemma exec_loop_cases:
  assumes "exec_loop E D W closed is_val iv prev ht x = Some x'"
  obtains
    (Stop) "\<nexists>bi hs. map_of (pl_confirmed (ex_pool x)) ht = Some bi \<and> bi_txs_hashes bi = Some hs" "x' = x"
  | (Failed) bi hs x1 e where "map_of (pl_confirmed (ex_pool x)) ht = Some bi" "bi_txs_hashes bi = Some hs"
      "exec_block E D W closed is_val iv ht hs prev (block_values_of bi) (x\<lparr>ex_pool := steal_block ht bi (ex_pool x)\<rparr>) = Some (x1, Inl e)"
      "error_to_string_full e \<noteq> None" "x' = x1\<lparr>ex_pool := restore_pool ht bi (ex_pool x1)\<rparr>"
  | (Last) bi hs x1 h where "map_of (pl_confirmed (ex_pool x)) ht = Some bi" "bi_txs_hashes bi = Some hs"
      "exec_block E D W closed is_val iv ht hs prev (block_values_of bi) (x\<lparr>ex_pool := steal_block ht bi (ex_pool x)\<rparr>) = Some (x1, Inr h)"
      "x' = after_block E D closed ht hs x1" "\<not> executor_can_run D (ht + 1) (ex_db x') (ex_pool x')"
  | (Next) bi hs x1 h where "map_of (pl_confirmed (ex_pool x)) ht = Some bi" "bi_txs_hashes bi = Some hs"
      "exec_block E D W closed is_val iv ht hs prev (block_values_of bi) (x\<lparr>ex_pool := steal_block ht bi (ex_pool x)\<rparr>) = Some (x1, Inr h)"
      "executor_can_run D (ht + 1) (ex_db (after_block E D closed ht hs x1)) (ex_pool (after_block E D closed ht hs x1))"
      "exec_loop E D W closed is_val iv h (ht + 1) (after_block E D closed ht hs x1) = Some x'"
proof (cases "\<exists>bi hs. map_of (pl_confirmed (ex_pool x)) ht = Some bi \<and> bi_txs_hashes bi = Some hs")
  case False
  then have "x' = x" using assms by (auto simp: exec_loop.simps [of _ _ _ _ _ _ prev ht x] split: option.splits)
  with False show thesis by (rule Stop)
next
  case True
  then obtain bi hs where bi: "map_of (pl_confirmed (ex_pool x)) ht = Some bi" "bi_txs_hashes bi = Some hs" by blast
  let ?b = "exec_block E D W closed is_val iv ht hs prev (block_values_of bi) (x\<lparr>ex_pool := steal_block ht bi (ex_pool x)\<rparr>)"
  note loop = exec_loop.simps [of E D W closed is_val iv prev ht x]
  from assms bi obtain x1 r where b: "?b = Some (x1, r)" by (cases ?b) (auto simp: loop)
  show thesis
  proof (cases r)
    case (Inl e)
    with assms bi b show thesis by (intro Failed [OF bi]) (auto simp: loop)
  next
    case (Inr h)
    let ?x2 = "after_block E D closed ht hs x1"
    show thesis
    proof (cases "executor_can_run D (ht + 1) (ex_db ?x2) (ex_pool ?x2)")
      case True
      with assms bi b Inr show thesis by (intro Next [OF bi]) (simp_all add: loop Let_def)
    next
      case False
      with assms bi b Inr show thesis by (intro Last [OF bi]) (auto simp: loop Let_def)
    qed
  qed
qed

text \<open>A rule for invariants of the loop.\<close>

lemma exec_loop_rule:
  assumes "exec_loop E D W closed is_val iv prev ht x = Some x'" and "I prev ht x"
    and ok: "\<And>prev ht x bi hs x1 h. I prev ht x \<Longrightarrow> map_of (pl_confirmed (ex_pool x)) ht = Some bi \<Longrightarrow>
      bi_txs_hashes bi = Some hs \<Longrightarrow>
      exec_block E D W closed is_val iv ht hs prev (block_values_of bi)
        (x\<lparr>ex_pool := steal_block ht bi (ex_pool x)\<rparr>) = Some (x1, Inr h) \<Longrightarrow>
      I h (ht + 1) (after_block E D closed ht hs x1)"
    and err: "\<And>prev ht x bi hs x1 e. I prev ht x \<Longrightarrow> map_of (pl_confirmed (ex_pool x)) ht = Some bi \<Longrightarrow>
      bi_txs_hashes bi = Some hs \<Longrightarrow>
      exec_block E D W closed is_val iv ht hs prev (block_values_of bi)
        (x\<lparr>ex_pool := steal_block ht bi (ex_pool x)\<rparr>) = Some (x1, Inl e) \<Longrightarrow>
      I prev ht (x1\<lparr>ex_pool := restore_pool ht bi (ex_pool x1)\<rparr>)"
  shows "\<exists>prev' ht'. I prev' ht' x'"
  using assms(1,2)
proof (induction "length (pl_confirmed (ex_pool x))" arbitrary: prev ht x rule: less_induct)
  case less
  from less.prems(1) show ?case
  proof (cases rule: exec_loop_cases)
    case Stop
    with less.prems show ?thesis by blast
  next
    case (Failed bi hs x1 e)
    with err [OF less.prems(2) Failed(1-3)] show ?thesis by blast
  next
    case (Last bi hs x1 h)
    with ok [OF less.prems(2) Last(1-3)] show ?thesis by blast
  next
    case (Next bi hs x1 h)
    from less.hyps [OF after_block_shorter [OF Next(1,3)] Next(5) ok [OF less.prems(2) Next(1-3)]] show ?thesis .
  qed
qed

definition executor_run ::
    "env \<Rightarrow> ('d, 'f) db_ops \<Rightarrow> ('w, 'f) wm_ops \<Rightarrow> (nat \<Rightarrow> bool) \<Rightarrow> ('d \<Rightarrow> string \<Rightarrow> bool result) \<Rightarrow>
     bool \<Rightarrow> ('d, 'w) executor \<Rightarrow> ('d, 'w) executor option" where
  "executor_run E D W closed is_val is_validator x =
     (case db_load_block D (ex_db x) u64_max of
        Some block \<Rightarrow>
          exec_loop E D W closed is_val is_validator (block_hash E block)
            (bd_height (blk_data block) + 1) x
      | None \<Rightarrow> exec_loop E D W closed is_val is_validator hash_default 0 x)"

end
