(* ===== verification/Execution.thy ===== *)
theory Execution
  imports Executor
begin

text \<open>
  What the executor guarantees, proved once for every database and machine that keep their contracts
  (locale \<open>wm_contract\<close>): which indexes a transaction can touch, what a block adds to the database, that
  a failed block changes nothing, and that the chain stays linked.
\<close>

section \<open>Definitions\<close>

text \<open>A transaction works from the last checkpoint: it may move account state, or fall back to the
  checkpoint.\<close>

definition tx_frame :: "fork_abs \<Rightarrow> fork_abs \<Rightarrow> bool" where
  "tx_frame a a' \<longleftrightarrow>
     fa_base a' = fa_base a \<and> fa_ckpt a' = fa_ckpt a \<and>
     (ledger (fa_view a') = ledger (fa_view a) \<or> ledger (fa_view a') = ledger (fa_ckpt a))"

text \<open>The contract of the transaction could be resolved (for a bulk, that of its root).\<close>

definition resolved ::
    "env \<Rightarrow> ('w, 'f) wm_ops \<Rightarrow> transaction \<Rightarrow> u64 \<Rightarrow> ('w, 'f) mach \<Rightarrow> bool" where
  "resolved E W tx ts m \<longleftrightarrow>
     (case tx of
        UnitTransaction t \<Rightarrow>
          (\<exists>m1 h. wm_app_hash_check W (get_contract (st_data t)) (tx_ctx_args E (st_data t)) ts m =
             Some (m1, Inr h))
      | BulkTransaction t \<Rightarrow>
          (case bt_data t of
             BulkV1 (BulkTransactions (UnsignedTransaction root) _) \<Rightarrow>
               (case root of
                  BulkRootV1 d \<Rightarrow>
                    (\<exists>m1 h. wm_app_hash_check W (td_contract d) (tx_ctx_args E root) ts m = Some (m1, Inr h))
                | _ \<Rightarrow> True)
           | _ \<Rightarrow> True))"

text \<open>The chain: heights count up from 0 and each block names the hash of its predecessor.\<close>

definition chain_ok :: "env \<Rightarrow> block list \<Rightarrow> bool" where
  "chain_ok E bs \<longleftrightarrow>
     (\<forall>i < length bs.
        bd_height (blk_data (bs ! i)) = of_nat i \<and>
        bd_prev_hash (blk_data (bs ! i)) = (if i = 0 then hash_default else block_hash E (bs ! (i - 1))))"

definition tip :: "env \<Rightarrow> block list \<Rightarrow> hash \<times> u64" where
  "tip E bs =
     (if bs = [] then (hash_default, 0)
      else (block_hash E (last bs), bd_height (blk_data (last bs)) + 1))"

text \<open>Contents after the transactions of a block: payloads and receipts are stored, the other indexes
  outside account state are as before.\<close>

definition ran_transactions :: "hash list \<Rightarrow> (hash \<Rightarrow> transaction option) \<Rightarrow> store \<Rightarrow> store \<Rightarrow> bool" where
  "ran_transactions hs payload s s' \<longleftrightarrow>
     (\<forall>h. st_transactions s' h = (if h \<in> set hs then payload h else st_transactions s h)) \<and>
     (\<forall>h. h \<in> set hs \<longrightarrow> st_receipts s' h \<noteq> None) \<and>
     (\<forall>h. h \<notin> set hs \<longrightarrow> st_receipts s' h = st_receipts s h) \<and>
     st_blocks s' = st_blocks s \<and> st_transactions_hash s' = st_transactions_hash s \<and>
     st_receipts_hash s' = st_receipts_hash s \<and> st_config s' = st_config s \<and>
     st_internal s' = st_internal s"

text \<open>What a sealed block and the contents of its database must satisfy.\<close>

definition sealed ::
    "env \<Rightarrow> (string \<Rightarrow> bool result) \<Rightarrow> key_pair \<Rightarrow> u64 \<Rightarrow> hash list \<Rightarrow> hash list \<Rightarrow> hash \<Rightarrow> block_values \<Rightarrow>
     store \<Rightarrow> block \<Rightarrow> store \<Rightarrow> bool" where
  "sealed E is_val kp height hs rxs prev_hash bv s block s' \<longleftrightarrow>
     s' = st_store_block block
            (st_store_receipts_hashes height rxs (st_store_transactions_hashes height hs s)) \<and>
     blk_data block =
       \<lparr>bd_validator = block_validator kp bv height, bd_height = height, bd_size = of_nat (length hs),
        bd_prev_hash = prev_hash,
        bd_txs_hash = hash_of_digest (e_list_root E (st_transactions_hash s height @ hs)),
        bd_rxs_hash = hash_of_digest (e_list_root E (st_receipts_hash s height @ rxs)),
        bd_state_hash = st_state_hash E [] s, bd_timestamp = bv_timestamp bv\<rparr> \<and>
     block_signature E kp bv (blk_data block) = Inr (blk_signature block) \<and>
     verify_block E is_val bv (blk_data block) = Inr () \<and>
     (\<forall>h. bv_exp_hash bv = Some h \<longrightarrow> block_hash E block = h)"

section \<open>Frames\<close>

lemma tx_frame_refl [simp]: "tx_frame a a"
  by (simp add: tx_frame_def)

lemma tx_frame_trans: "tx_frame a b \<Longrightarrow> tx_frame b c \<Longrightarrow> tx_frame a c"
  by (auto simp: tx_frame_def)

lemma accounts_step_tx_frame: "accounts_step a b \<Longrightarrow> tx_frame a b"
  using accounts_step_frame by (auto simp: tx_frame_def)

lemma rollback_tx_frame [simp]: "tx_frame a (fa_rollback a)"
  by (simp add: tx_frame_def fa_rollback_def)

lemma accounts_step_rollback:
  "accounts_step a b \<Longrightarrow> tx_frame a (fa_rollback b) \<and> fa_view (fa_rollback b) = fa_ckpt a"
  using accounts_step_frame [of a b] by (simp add: tx_frame_def fa_rollback_def)

lemma ledger_eq_fields:
  "ledger s = ledger s' \<Longrightarrow> st_transactions s = st_transactions s' \<and> st_receipts s = st_receipts s' \<and>
     st_blocks s = st_blocks s' \<and> st_transactions_hash s = st_transactions_hash s' \<and>
     st_receipts_hash s = st_receipts_hash s' \<and> st_config s = st_config s' \<and> st_internal s = st_internal s'"
  by (cases s; cases s') (simp add: ledger_def)

lemma try_burn_fuel_cases:
  assumes "try_burn_fuel E D W mthd ba ts m = Some (m', ok, burned)"
  shows "mthd = [] \<and> m' = m \<and> ok \<and> burned = 0 \<or>
    mthd \<noteq> [] \<and> (\<exists>u r. call_burn_fuel E D W mthd (ba_account ba)
      (min (ba_fuel_to_burn ba) (ba_fuel_limit ba)) ts m = Some (m', u, r)) \<and>
    (ok \<longrightarrow> ba_fuel_to_burn ba \<le> ba_fuel_limit ba)"
proof (cases "mthd = []")
  case False
  let ?fuel = "if ba_fuel_to_burn ba > ba_fuel_limit ba then ba_fuel_limit ba else ba_fuel_to_burn ba"
  from assms False obtain m1 u r
    where c: "call_burn_fuel E D W mthd (ba_account ba) ?fuel ts m = Some (m1, u, r)"
    by (cases "call_burn_fuel E D W mthd (ba_account ba) ?fuel ts m")
       (auto simp: try_burn_fuel_def Let_def)
  with assms False have "m' = m1"
    by (auto simp: try_burn_fuel_def Let_def split: sum.splits option.splits)
  moreover have "?fuel = min (ba_fuel_to_burn ba) (ba_fuel_limit ba)" by (auto simp: min_def)
  moreover have "ok \<longrightarrow> ba_fuel_to_burn ba \<le> ba_fuel_limit ba"
    using assms False c by (auto simp: try_burn_fuel_def Let_def split: sum.splits option.splits)
  ultimately show ?thesis using c False by auto
qed (use assms in \<open>simp add: try_burn_fuel_def\<close>)

context wm_contract
begin

lemma call_burn_fuel_step:
  "call_burn_fuel E D W mthd origin fuel ts m = Some (m', u, r) \<Longrightarrow>
     accounts_step (absf (mc_fork m)) (absf (mc_fork m'))"
  using call_frame
  by (fastforce simp: call_burn_fuel_def bind_eq_Some_conv split: option.splits)

lemma try_burn_fuel_step:
  "try_burn_fuel E D W mthd ba ts m = Some (m', ok, burned) \<Longrightarrow>
     accounts_step (absf (mc_fork m)) (absf (mc_fork m'))"
  using try_burn_fuel_cases call_burn_fuel_step by fastforce

lemma handle_unit_spec:
  assumes "handle_unit_transaction E D W tx ht i evs ts m = Some (m', res)"
  shows "tx_frame (absf (mc_fork m)) (absf (mc_fork m')) \<and>
    (resolved E W (UnitTransaction tx) ts m \<and> \<not> rx_success (hr_receipt res) \<longrightarrow>
       fa_view (absf (mc_fork m')) = fa_ckpt (absf (mc_fork m)))"
proof -
  from assms obtain m1 ah where
    1: "wm_app_hash_check W (get_contract (st_data tx)) (tx_ctx_args E (st_data tx)) ts m = Some (m1, ah)"
    by (auto simp: handle_unit_transaction_def Let_def bind_eq_Some_conv)
  note f1 = app_hash_frame [OF 1]
  show ?thesis
  proof (cases ah)
    case (Inl e)
    with assms 1 accounts_step_tx_frame [OF f1] show ?thesis
      by (auto simp: handle_unit_transaction_def resolved_def Let_def bind_eq_Some_conv)
  next
    case (Inr h)
    with assms 1 obtain m2 evs2 fuel r where
      2: "wm_call W (tx_call_args E (st_data tx) h ts) evs m1 = Some (m2, evs2, fuel, r)"
      by (auto simp: handle_unit_transaction_def Let_def bind_eq_Some_conv)
    with assms 1 Inr have m': "m' = (case r of Inl _ \<Rightarrow> m2\<lparr>mc_fork := fk_rollback D (mc_fork m2)\<rparr> | Inr _ \<Rightarrow> m2)"
      and s: "rx_success (hr_receipt res) \<longleftrightarrow> (\<exists>v. r = Inr v)"
      by (auto simp: handle_unit_transaction_def Let_def bind_eq_Some_conv split: sum.splits)
    note f12 = accounts_step_trans [OF f1 call_frame [OF 2]]
    show ?thesis
      using accounts_step_tx_frame [OF f12] accounts_step_rollback [OF f12] m' s
      by (cases r) simp_all
  qed
qed

lemma exec_nodes_step:
  "exec_nodes E W ts nodes m s = Some (m', s') \<Longrightarrow> accounts_step (absf (mc_fork m)) (absf (mc_fork m'))"
proof (induction nodes arbitrary: m s)
  case (Cons node nodes)
  let ?d = "st_data node"
  from Cons.prems obtain m1 ah where
    1: "wm_app_hash_check W (get_contract ?d) (tx_ctx_args E ?d) ts m = Some (m1, ah)"
    by (auto simp: Let_def bind_eq_Some_conv)
  note f1 = app_hash_frame [OF 1]
  show ?case
  proof (cases ah)
    case (Inl e)
    with Cons.prems 1 obtain msg where "exec_nodes E W ts nodes m1
        (push_result E (data_hash E ?d) False (str_bytes msg) get_fuel_consumed_for_error s) = Some (m', s')"
      by (auto simp: Let_def bind_eq_Some_conv)
    from accounts_step_trans [OF f1 Cons.IH [OF this]] show ?thesis .
  next
    case (Inr h)
    with Cons.prems 1 obtain m2 evs fuel r where
      2: "wm_call W (tx_call_args E ?d h ts) [] m1 = Some (m2, evs, fuel, r)"
      by (auto simp: Let_def bind_eq_Some_conv)
    note f12 = accounts_step_trans [OF f1 call_frame [OF 2]]
    with Cons.prems 1 2 Inr consider "m' = m2" | s1 where "exec_nodes E W ts nodes m2 s1 = Some (m', s')"
      by (cases r) (auto simp: Let_def bind_eq_Some_conv)
    then show ?thesis using f12 accounts_step_trans [OF f12 Cons.IH] by cases auto
  qed
qed simp

lemma exec_root_step:
  assumes "exec_root E W root ht i ts m = Some (m', r)"
  shows "accounts_step (absf (mc_fork m)) (absf (mc_fork m'))"
proof (cases root)
  case (BulkRootV1 d)
  with assms obtain m1 ah where
    1: "wm_app_hash_check W (td_contract d) (tx_ctx_args E root) ts m = Some (m1, ah)"
    by (auto simp: exec_root_def bind_eq_Some_conv)
  with assms BulkRootV1 consider "m' = m1" | h evs fuel r where
    "wm_call W (tx_call_args E root h ts) [] m1 = Some (m', evs, fuel, r)"
    by (auto simp: exec_root_def bind_eq_Some_conv Let_def split: sum.splits)
  then show ?thesis using app_hash_frame [OF 1] accounts_step_trans call_frame by cases blast+
qed (use assms in \<open>auto simp: exec_root_def\<close>)

lemma handle_bulk_spec:
  assumes "handle_bulk_transaction E D W tx ht i evs ts m = Some (m', res)"
  shows "tx_frame (absf (mc_fork m)) (absf (mc_fork m')) \<and>
    (resolved E W (BulkTransaction tx) ts m \<and> fa_view (absf (mc_fork m)) = fa_ckpt (absf (mc_fork m)) \<and>
       \<not> rx_success (hr_receipt res) \<longrightarrow>
       fa_view (absf (mc_fork m')) = fa_ckpt (absf (mc_fork m)))"
proof (cases "\<exists>root nodes. bt_data tx = BulkV1 (BulkTransactions (UnsignedTransaction root) nodes)")
  case False
  then have "m' = m\<lparr>mc_fork := fk_rollback D (mc_fork m)\<rparr>"
    using assms
    by (auto simp: handle_bulk_transaction_def Let_def split: transaction_data.splits
        bulk_transactions.splits unsigned_transaction.splits)
  then show ?thesis by (simp add: fa_rollback_def) (simp add: tx_frame_def)
next
  case True
  then obtain root nodes where d: "bt_data tx = BulkV1 (BulkTransactions (UnsignedTransaction root) nodes)"
    by blast
  from assms d obtain m1 r where 1: "exec_root E W root ht i ts m = Some (m1, r)"
    by (auto simp: handle_bulk_transaction_def Let_def bind_eq_Some_conv)
  note f1 = exec_root_step [OF 1]
  show ?thesis
  proof (cases r)
    case (Inl ret)
    then have m': "m' = m1" using assms d 1 by (simp add: handle_bulk_transaction_def Let_def)
    have "m1 = m" if "resolved E W (BulkTransaction tx) ts m"
      using that 1 Inl d
      by (auto simp: resolved_def exec_root_def bind_eq_Some_conv split: transaction_data.splits)
    then show ?thesis using accounts_step_tx_frame [OF f1] m' by auto
  next
    case (Inr c)
    obtain evs1 fuel res1 where c: "c = (evs1, fuel, res1)" by (cases c)
    from assms d 1 Inr c obtain s1 m2 s2 where
      s12: "(if bs_execution_fail s1 then Some (m1, s1)
        else case nodes of None \<Rightarrow> Some (m1, s1) | Some ns \<Rightarrow> exec_nodes E W ts ns m1 s1) = Some (m2, s2)"
      and m': "m' = (if bs_execution_fail s2 then m2\<lparr>mc_fork := fk_rollback D (mc_fork m2)\<rparr> else m2)"
      and res: "res = bulk_returns E (bt_data tx) ht i s2 (some_events (bs_events s2))"
      by (auto simp: handle_bulk_transaction_def Let_def bind_eq_Some_conv)
    from s12 have "m2 = m1 \<or> (\<exists>ns. exec_nodes E W ts ns m1 s1 = Some (m2, s2))"
      by (auto split: if_splits option.splits)
    then have f12: "accounts_step (absf (mc_fork m)) (absf (mc_fork m2))"
      using f1 exec_nodes_step accounts_step_trans by metis
    show ?thesis
      using accounts_step_tx_frame [OF f12] accounts_step_rollback [OF f12] m' res
      by (simp add: bulk_returns_def)
  qed
qed

lemma handled_frame:
  assumes "(case tx of UnitTransaction t \<Rightarrow> handle_unit_transaction E D W t ht i [] ts m
      | BulkTransaction t \<Rightarrow> handle_bulk_transaction E D W t ht i [] ts m) = Some (m1, res)"
    and "fa_view (absf (mc_fork m)) = fa_ckpt (absf (mc_fork m))"
  shows "tx_frame (absf (mc_fork m)) (absf (mc_fork m1)) \<and>
    (resolved E W tx ts m \<and> \<not> rx_success (hr_receipt res) \<longrightarrow>
       fa_view (absf (mc_fork m1)) = fa_ckpt (absf (mc_fork m)))"
  using assms handle_unit_spec handle_bulk_spec by (cases tx) fastforce+

lemma get_mach_flush [simp]: "mc_fork (get_mach x (fk_flush D f)) = fk_flush D f"
  by (simp add: get_mach_def)

lemma exec_transaction_frame:
  assumes "exec_transaction E D W closed tx ht i mthd ts x f = Some (x', f', rx)"
  shows "fa_base (absf f') = fa_base (absf f) \<and> ledger (fa_view (absf f')) = ledger (fa_view (absf f))"
proof -
  have start: "fa_view (absf (fk_flush D f)) = fa_ckpt (absf (fk_flush D f))" by (simp add: fa_flush_def)
  have frame: "tx_frame (absf (fk_flush D f)) (absf f')"
    using assms
  proof (cases rule: exec_transaction_cases)
    case (Burned m1 res m2 burned)
    from handled_frame [OF Burned(1)] start have "tx_frame (absf (fk_flush D f)) (absf (mc_fork m1))" by simp
    then show ?thesis
      using tx_frame_trans accounts_step_tx_frame [OF try_burn_fuel_step [OF Burned(2)]] Burned(4) by simp
  next
    case (Failed m1 res m2 burned m4 fuel r)
    from handled_frame [OF Failed(1)] start have "tx_frame (absf (fk_flush D f)) (absf (mc_fork m1))" by simp
    from tx_frame_trans [OF this accounts_step_tx_frame [OF try_burn_fuel_step [OF Failed(2)]]]
    have "tx_frame (absf (fk_flush D f)) (fa_rollback (absf (mc_fork m2)))"
      by (rule tx_frame_trans) simp
    then show ?thesis
      using tx_frame_trans accounts_step_tx_frame [OF call_burn_fuel_step [OF Failed(3)]] Failed(5) by simp
  qed
  then show ?thesis by (auto simp: tx_frame_def fa_flush_def)
qed

text \<open>A transaction whose receipt is unsuccessful: its contents are those before it, but for the call
  that burns the fuel.\<close>

lemma exec_transaction_failed:
  assumes "exec_transaction E D W closed tx ht i mthd ts x f = Some (x', f', rx)"
    and "resolved E W tx ts (get_mach x (fk_flush D f))" and "\<not> rx_success rx"
  shows "\<exists>m0 m'. fa_view (absf (mc_fork m0)) = fa_view (absf f) \<and> f' = mc_fork m' \<and>
    (m' = m0 \<or> mthd \<noteq> [] \<and> (\<exists>account units fuel r.
       call_burn_fuel E D W mthd account units ts m0 = Some (m', fuel, r)))"
proof -
  have start: "fa_view (absf (fk_flush D f)) = fa_view (absf f)"
    "fa_ckpt (absf (fk_flush D f)) = fa_view (absf f)" by (simp_all add: fa_flush_def)
  from assms(1) show ?thesis
  proof (cases rule: exec_transaction_cases)
    case (Burned m1 res m2 burned)
    from handled_frame [OF Burned(1)] start assms(2,3) Burned(5)
    have "fa_view (absf (mc_fork m1)) = fa_view (absf f)" by simp
    moreover note try_burn_fuel_cases [OF Burned(2)]
    ultimately show ?thesis using Burned(4) by blast
  next
    case (Failed m1 res m2 burned m4 fuel r)
    from handled_frame [OF Failed(1)] start have "tx_frame (absf (fk_flush D f)) (absf (mc_fork m1))" by simp
    from tx_frame_trans [OF this accounts_step_tx_frame [OF try_burn_fuel_step [OF Failed(2)]]]
    have "fa_ckpt (absf (mc_fork m2)) = fa_view (absf f)" by (simp add: tx_frame_def start)
    then have "fa_view (absf (mc_fork (m2\<lparr>mc_fork := fk_rollback D (mc_fork m2)\<rparr>))) = fa_view (absf f)"
      by (simp add: fa_rollback_def)
    moreover from try_burn_fuel_cases [OF Failed(2)] have "mthd \<noteq> []" by simp
    ultimately show ?thesis using Failed(3,5) by blast
  qed
qed

lemma exec_transactions_ran:
  "exec_transactions E D W closed ht ts i hs x f = Some (x', f', rxs) \<Longrightarrow>
   fa_base (absf f') = fa_base (absf f) \<and> length rxs = length hs \<and>
   (\<forall>h \<in> set hs. \<exists>tx. pl_txs (ex_pool x) h = Some (Some tx)) \<and>
   ran_transactions hs (\<lambda>h. the (pl_txs (ex_pool x) h)) (fa_view (absf f)) (fa_view (absf f'))"
proof (induction hs arbitrary: i x f rxs)
  case Nil
  then show ?case by (simp add: ran_transactions_def)
next
  case (Cons h hs)
  from Cons.prems show ?case
  proof (cases rule: exec_transactions_Cons)
    case (1 tx x1 f1 rx rxs')
    let ?f2 = "fk_store_receipt D (fk_store_transaction D f1 h tx) h rx"
    have pool: "ex_pool x1 = ex_pool x"
      using exec_transaction_shared [OF 1(2)] by (simp add: same_shared_def)
    note IH = Cons.IH [OF 1(3), unfolded pool]
    note base = exec_transaction_frame [OF 1(2)]
    note fields = ledger_eq_fields [OF conjunct2 [OF base]]
    have v2: "fa_view (absf ?f2) = st_store_receipt h rx (st_store_transaction h tx (fa_view (absf f1)))"
      by (simp add: fa_write_def)
    have "ran_transactions (h # hs) (\<lambda>h. the (pl_txs (ex_pool x) h)) (fa_view (absf f)) (fa_view (absf f'))"
      using IH fields 1(1)
      by (auto simp: ran_transactions_def v2 st_store_receipt_def st_store_transaction_def)
    moreover have "fa_base (absf ?f2) = fa_base (absf f)" using base by (simp add: fa_write_def)
    ultimately show ?thesis using IH 1 by simp
  qed
qed

lemma seal_block_sealed:
  assumes "inv db" and "fa_base (absf f) = snap db"
    and "seal_block E D is_val kp db ht hs rxs prev bv f = Inr (db', block)"
  shows "inv db' \<and> sealed E (is_val db) kp ht hs rxs prev bv (fa_view (absf f)) block (snap db')"
proof -
  obtain f1 th where 1: "fk_store_transactions_hashes D f ht hs = (f1, th)" by force
  obtain f2 rh where 2: "fk_store_receipts_hashes D f1 ht rxs = (f2, rh)" by force
  let ?d = "\<lparr>bd_validator = block_validator kp bv ht, bd_height = ht, bd_size = of_nat (length hs),
    bd_prev_hash = prev, bd_txs_hash = th, bd_rxs_hash = rh, bd_state_hash = fk_state_hash D f2 [],
    bd_timestamp = bv_timestamp bv\<rparr>"
  from assms(3) 1 2 have v: "verify_block E (is_val db) bv ?d = Inr ()"
    and sg: "block_signature E kp bv ?d = Inr (blk_signature block)"
    and ch: "check_hash bv (primary_hash E (mp_block_data ?d)) = Inr ()"
    and bd: "blk_data block = ?d" and mg: "db_fork_merge D db (fk_store_block D f2 block) = Inr db'"
    by (auto simp: seal_block_def Let_def try_bind_Inr_iff)
  have a1: "absf f1 = fa_write (st_store_transactions_hashes ht hs) (absf f)"
    and a2: "absf f2 = fa_write (st_store_receipts_hashes ht rxs) (absf f1)"
    using 1 2 f_run_op [of "FStoreTransactionsHashes ht hs" f] f_run_op [of "FStoreReceiptsHashes ht rxs" f1]
    by simp_all
  have a3: "absf (fk_store_block D f2 block) = fa_write (st_store_block block) (absf f2)" by simp
  from a1 a2 assms(2) have "fa_base (absf (fk_store_block D f2 block)) = snap db" by simp
  from fork_merge [OF assms(1) this mg] have "inv db'" and snap: "snap db' = st_store_block block
      (st_store_receipts_hashes ht rxs (st_store_transactions_hashes ht hs (fa_view (absf f))))"
    by (simp_all add: a1 a2)
  moreover have "th = hash_of_digest (e_list_root E (st_transactions_hash (fa_view (absf f)) ht @ hs))"
    using f_transactions_root [of f ht hs] 1 by simp
  moreover have "rh = hash_of_digest (e_list_root E (st_receipts_hash (fa_view (absf f)) ht @ rxs))"
    using f_receipts_root [of f1 ht rxs] 2 by (simp add: a1 st_store_transactions_hashes_def)
  moreover have "fk_state_hash D f2 [] = st_state_hash E [] (fa_view (absf f))"
    by (simp add: f_state_hash a1 a2 st_state_hash_def st_store_transactions_hashes_def
        st_store_receipts_hashes_def)
  ultimately show ?thesis
    using v sg ch bd by (auto simp: sealed_def check_hash_def block_hash_def split: option.splits if_splits)
qed

lemma exec_block_cases:
  assumes "exec_block E D W closed is_val iv ht hs prev bv x = Some (x', r)" and "inv (ex_db x)"
  shows "case r of
      Inl e \<Rightarrow> ex_db x' = ex_db x
    | Inr h \<Rightarrow> inv (ex_db x') \<and> (\<exists>s block rxs. length rxs = length hs \<and>
        (\<forall>h \<in> set hs. \<exists>tx. pl_txs (ex_pool x) h = Some (Some tx)) \<and>
        ran_transactions hs (\<lambda>h. the (pl_txs (ex_pool x) h)) (snap (ex_db x)) s \<and>
        sealed E (is_val (ex_db x)) (ex_keypair x) ht hs rxs prev bv s block (snap (ex_db x')) \<and>
        h = block_hash E block)"
proof -
  from assms(1) obtain x1 f1 rxs where
    1: "exec_transactions E D W closed ht (bv_timestamp bv) 0 hs x (db_fork_create D (ex_db x)) = Some (x1, f1, rxs)"
    by (auto simp: exec_block_def bind_eq_Some_conv)
  have sh: "ex_db x1 = ex_db x" "ex_keypair x1 = ex_keypair x"
    using exec_transactions_shared [OF 1] by (simp_all add: same_shared_def)
  have f0: "absf (db_fork_create D (ex_db x)) = fa_new (snap (ex_db x))" by (rule fork_create [OF assms(2)])
  note ran = exec_transactions_ran [OF 1, unfolded f0]
  show ?thesis
  proof (cases "seal_block E D is_val (ex_keypair x) (ex_db x) ht hs rxs prev bv f1")
    case (Inl e)
    with assms(1) 1 sh show ?thesis by (auto simp: exec_block_def)
  next
    case (Inr c)
    obtain db' block where c: "c = (db', block)" by (cases c)
    from seal_block_sealed [OF assms(2) _ Inr [unfolded c]] ran
    have "inv db'" "sealed E (is_val (ex_db x)) (ex_keypair x) ht hs rxs prev bv (fa_view (absf f1)) block (snap db')"
      by simp_all
    moreover from assms(1) 1 Inr c sh have "r = Inr (block_hash E block)" "ex_db x' = db'"
      by (auto simp: exec_block_def Let_def frame_simps split: if_splits)
    ultimately show ?thesis using ran by (auto simp: Let_def)
  qed
qed

end

section \<open>Chains\<close>

lemma tip_height: "chain_ok E bs \<Longrightarrow> snd (tip E bs) = of_nat (length bs)"
proof -
  assume ok: "chain_ok E bs"
  show ?thesis
  proof (cases bs rule: rev_cases)
    case (snoc xs b)
    with ok have "bd_height (blk_data b) = of_nat (length xs)"
      by (auto simp: chain_ok_def nth_append dest: spec [of _ "length xs"])
    with snoc show ?thesis by (simp add: tip_def)
  qed (simp add: tip_def)
qed

lemma chain_ok_snoc:
  assumes "chain_ok E bs" and "bd_height (blk_data b) = snd (tip E bs)"
    and "bd_prev_hash (blk_data b) = fst (tip E bs)"
  shows "chain_ok E (bs @ [b])"
  using assms tip_height [OF assms(1)]
  by (auto simp: chain_ok_def nth_append less_Suc_eq tip_def last_conv_nth)

lemma sealed_blocks:
  "sealed E v kp ht hs rxs prev bv s b s' \<Longrightarrow>
   st_blocks s' = st_blocks s @ [b] \<and> bd_height (blk_data b) = ht \<and> bd_prev_hash (blk_data b) = prev \<and>
   st_transactions s' = st_transactions s \<and> st_receipts s' = st_receipts s"
  by (auto simp: sealed_def st_store_block_def st_store_receipts_hashes_def st_store_transactions_hashes_def)

context wm_contract
begin

text \<open>The database part of a run: the chain grows and stays linked.\<close>

lemma exec_loop_chain:
  assumes "exec_loop E D W closed is_val iv prev ht x = Some x'" and "inv (ex_db x)"
    and "chain_ok E (st_blocks (snap (ex_db x)))" and "(prev, ht) = tip E (st_blocks (snap (ex_db x)))"
  shows "inv (ex_db x') \<and> chain_ok E (st_blocks (snap (ex_db x'))) \<and>
   (\<exists>bs. st_blocks (snap (ex_db x')) = st_blocks (snap (ex_db x)) @ bs)"
proof -
  define I where "I prev ht y \<longleftrightarrow> inv (ex_db y) \<and> chain_ok E (st_blocks (snap (ex_db y))) \<and>
    (prev, ht) = tip E (st_blocks (snap (ex_db y))) \<and>
    (\<exists>bs. st_blocks (snap (ex_db y)) = st_blocks (snap (ex_db x)) @ bs)" for prev ht and y :: "('d, 'w) executor"
  have "\<exists>prev' ht'. I prev' ht' x'"
  proof (rule exec_loop_rule [OF assms(1), of I])
    show "I prev ht x" using assms by (simp add: I_def)
  next
    fix prev ht x bi hs x1 h
    assume I: "I prev ht x" and b: "exec_block E D W closed is_val iv ht hs prev (block_values_of bi)
        (x\<lparr>ex_pool := steal_block ht bi (ex_pool x)\<rparr>) = Some (x1, Inr h)"
    from exec_block_cases [OF b] I obtain s block rxs where inv: "inv (ex_db x1)"
      and ran: "ran_transactions hs (\<lambda>h. the (pl_txs (steal_block ht bi (ex_pool x)) h)) (snap (ex_db x)) s"
      and sealed: "sealed E (is_val (ex_db x)) (ex_keypair x) ht hs rxs prev (block_values_of bi) s block (snap (ex_db x1))"
      and h: "h = block_hash E block" by (auto simp: I_def)
    from ran sealed_blocks [OF sealed] have "st_blocks (snap (ex_db x1)) = st_blocks (snap (ex_db x)) @ [block]"
      by (simp add: ran_transactions_def)
    then show "I h (ht + 1) (after_block E D closed ht hs x1)"
      using I inv h sealed_blocks [OF sealed] chain_ok_snoc [of E "st_blocks (snap (ex_db x))" block]
      by (auto simp: I_def frame_simps tip_def prod_eq_iff)
  next
    fix prev ht x bi hs x1 e
    assume I: "I prev ht x" and b: "exec_block E D W closed is_val iv ht hs prev (block_values_of bi)
        (x\<lparr>ex_pool := steal_block ht bi (ex_pool x)\<rparr>) = Some (x1, Inl e)"
    from exec_block_cases [OF b] I show "I prev ht (x1\<lparr>ex_pool := restore_pool ht bi (ex_pool x1)\<rparr>)"
      by (simp add: I_def)
  qed
  then show ?thesis by (auto simp: I_def)
qed

lemma load_tip:
  "(case db_load_block D db u64_max of Some b \<Rightarrow> (block_hash E b, bd_height (blk_data b) + 1)
      | None \<Rightarrow> (hash_default, 0)) = tip E (st_blocks (snap db))"
  by (simp add: load_block st_load_block_def tip_def)

lemma executor_run_loop:
  "executor_run E D W closed is_val iv x = (case tip E (st_blocks (snap (ex_db x))) of
     (prev, ht) \<Rightarrow> exec_loop E D W closed is_val iv prev ht x)"
  by (simp add: executor_run_def flip: load_tip split: option.splits)

end

section \<open>The pool\<close>

lemma fold_remove: "fold (\<lambda>h m. m(h := None)) hs m = (\<lambda>h. if h \<in> set hs then None else m h)"
  by (induction hs arbitrary: m) (auto simp: fun_eq_iff)

lemma bt_insert_back:
  "bt_wf m \<Longrightarrow> map_of m k = Some v \<Longrightarrow> bt_insert k v (bt_insert k v' m) = m"
  by (induction m) (auto simp: bt_wf_Cons split: if_splits dest!: map_of_SomeD)

lemma restore_steal:
  "bt_wf (pl_confirmed p) \<Longrightarrow> map_of (pl_confirmed p) ht = Some bi \<Longrightarrow>
   restore_pool ht bi (steal_block ht bi p) = p"
  by (simp add: restore_pool_def steal_block_def bt_insert_back)

lemma bt_remove_insert: "bt_remove k (bt_insert k v m) = bt_remove k m"
  by (induction m) (auto simp: bt_remove_def)

lemma finish_pool_inv:
  assumes "pool_inv stored p" and "map_of (pl_confirmed p) ht = Some bi" and "bi_txs_hashes bi = Some hs"
  shows "pool_inv (\<lambda>h. stored h \<or> h \<in> set hs) (finish_pool ht hs (steal_block ht bi p))"
proof -
  have conf: "set hs \<subseteq> confirmed_hashes (pl_confirmed p)" by (rule confirmed_hashes_map_of [OF assms(2,3)])
  have sub: "confirmed_hashes (bt_remove ht (pl_confirmed p)) \<subseteq> confirmed_hashes (pl_confirmed p)"
    by (rule confirmed_hashes_remove)
  from assms(1) conf have "set hs \<inter> set (qs_fifo (pl_unconfirmed p)) = {}"
    by (auto simp: pool_inv_def)
  with assms(1) sub show ?thesis
    by (auto simp: pool_inv_def finish_pool_def steal_block_def bt_remove_insert fold_remove)
qed

definition stored_in :: "store \<Rightarrow> hash \<Rightarrow> bool" where
  "stored_in s h \<longleftrightarrow> st_transactions s h \<noteq> None"

context wm_contract
begin

lemma exec_block_stored:
  assumes "exec_block E D W closed is_val iv ht hs prev bv x = Some (x1, Inr h)" and "inv (ex_db x)"
  shows "stored_in (snap (ex_db x1)) = (\<lambda>h. stored_in (snap (ex_db x)) h \<or> h \<in> set hs)"
proof -
  from exec_block_cases [OF assms] obtain s block rxs
    where all: "\<forall>h \<in> set hs. \<exists>tx. pl_txs (ex_pool x) h = Some (Some tx)"
      and ran: "ran_transactions hs (\<lambda>h. the (pl_txs (ex_pool x) h)) (snap (ex_db x)) s"
      and sealed: "sealed E (is_val (ex_db x)) (ex_keypair x) ht hs rxs prev bv s block (snap (ex_db x1))"
    by auto
  from sealed_blocks [OF sealed] ran all show ?thesis
    by (fastforce simp: stored_in_def ran_transactions_def fun_eq_iff)
qed

lemma exec_loop_pool:
  assumes "exec_loop E D W closed is_val iv prev ht x = Some x'" and "inv (ex_db x)"
    and "pool_inv (stored_in (snap (ex_db x))) (ex_pool x)"
  shows "inv (ex_db x') \<and> pool_inv (stored_in (snap (ex_db x'))) (ex_pool x') \<and>
    pl_unconfirmed (ex_pool x') = pl_unconfirmed (ex_pool x)"
proof -
  define I where "I prev ht y \<longleftrightarrow> inv (ex_db y) \<and> pool_inv (stored_in (snap (ex_db y))) (ex_pool y) \<and>
    pl_unconfirmed (ex_pool y) = pl_unconfirmed (ex_pool x)"
    for prev :: hash and ht :: u64 and y :: "('d, 'w) executor"
  have "\<exists>prev' ht'. I prev' ht' x'"
  proof (rule exec_loop_rule [OF assms(1), of I])
    show "I prev ht x" using assms by (simp add: I_def)
  next
    fix prev ht x bi hs x1 h
    assume I: "I prev ht x" and bi: "map_of (pl_confirmed (ex_pool x)) ht = Some bi" "bi_txs_hashes bi = Some hs"
      and b: "exec_block E D W closed is_val iv ht hs prev (block_values_of bi)
        (x\<lparr>ex_pool := steal_block ht bi (ex_pool x)\<rparr>) = Some (x1, Inr h)"
    from exec_block_cases [OF b] I have "inv (ex_db x1)" by (simp add: I_def)
    moreover have "pool_inv (stored_in (snap (ex_db x1))) (finish_pool ht hs (ex_pool x1))"
      using exec_block_stored [OF b] exec_block_pool [OF b] finish_pool_inv [OF _ bi] I by (simp add: I_def)
    moreover have "pl_unconfirmed (ex_pool x1) = pl_unconfirmed (ex_pool x)"
      using exec_block_pool [OF b] by (simp add: steal_block_def)
    ultimately show "I h (ht + 1) (after_block E D closed ht hs x1)"
      using I by (simp add: I_def frame_simps finish_pool_def)
  next
    fix prev ht x bi hs x1 e
    assume I: "I prev ht x" and bi: "map_of (pl_confirmed (ex_pool x)) ht = Some bi"
      and b: "exec_block E D W closed is_val iv ht hs prev (block_values_of bi)
        (x\<lparr>ex_pool := steal_block ht bi (ex_pool x)\<rparr>) = Some (x1, Inl e)"
    have "restore_pool ht bi (ex_pool x1) = ex_pool x"
      using exec_block_pool [OF b] restore_steal [OF _ bi] I by (simp add: I_def pool_inv_def)
    with exec_block_cases [OF b] I show "I prev ht (x1\<lparr>ex_pool := restore_pool ht bi (ex_pool x1)\<rparr>)"
      by (simp add: I_def)
  qed
  then show ?thesis by (auto simp: I_def)
qed

end

section \<open>A machine to evaluate on\<close>

text \<open>A contract that records its call in the data of the owner, or fails when its method is \<open>fail\<close>;
  no contract is registered for an account without one.\<close>

definition demo_wm :: "('d, 'f) db_ops \<Rightarrow> (unit, 'f) wm_ops" where
  "demo_wm D =
     \<lparr>wm_call = (\<lambda>a evs m.
        Some (m\<lparr>mc_fork := fk_store_account_data D (mc_fork m) (ca_owner a) ''last'' (ca_args a)\<rparr>, evs, 3,
              if ca_method a = ''fail'' then Inl (error_new WasmMachineFault) else Inr [1])),
      wm_callable_call = (\<lambda>a evs m. Some (m, evs, 0, Inr 1)),
      wm_app_hash_check = (\<lambda>c cx ts m. Some (m, case c of Some h \<Rightarrow> Inr h | None \<Rightarrow> Inl (error_new ResourceNotFound))),
      wm_contract_updatable = (\<lambda>a cx ts m. Some (m, True))\<rparr>"

lemma accounts_step_data: "accounts_step a (fa_write (st_put_account_data aid k (Some v)) a)"
  unfolding accounts_step_def by (rule exI [of _ "[FStoreAccountData aid k v]"]) simp

interpretation demo: wm_contract demo_env "rocks_ops demo_env mem_merkledb" rd_snap "\<lambda>f. f"
  "rocks_inv mem_merkledb" "demo_wm (rocks_ops demo_env mem_merkledb)"
proof (intro wm_contract.intro wm_contract_axioms.intro)
  show "db_contract demo_env (rocks_ops demo_env mem_merkledb) rd_snap (\<lambda>f. f) (rocks_inv mem_merkledb)"
    by (rule mem.rocks_contract)
qed (auto simp: demo_wm_def fork_store_account_data_def mem_merkledb_def accounts_step_data)

end
