(* ===== verification/Ledger.thy ===== *)
theory Ledger
  imports Execution
begin

text \<open>
  The properties of the executor, with their witnesses: an empty in-memory database, the demonstration
  machine of \<open>Execution\<close>, and a pool with one confirmed block of one transaction.
\<close>

definition demo_D :: "(store rocks_db, fork_abs) db_ops" where
  "demo_D = rocks_ops demo_env mem_merkledb"

definition demo_tx :: transaction where
  "demo_tx = UnitTransaction (SignedTransaction (V1 (demo_v1\<lparr>td_contract := Some hash_default\<rparr>)) [])"

definition demo_block_info :: block_info where
  "demo_block_info =
     \<lparr>bi_hash = None, bi_validator = None, bi_signature = None, bi_txs_hashes = Some [hash_default],
      bi_timestamp = 0\<rparr>"

definition demo_confirmed :: pool where
  "demo_confirmed =
     \<lparr>pl_txs = [hash_default \<mapsto> Some demo_tx], pl_unconfirmed = qs_new,
      pl_confirmed = [(0, demo_block_info)]\<rparr>"

definition demo_executor :: "(store rocks_db, unit) executor" where
  "demo_executor =
     executor_new demo_confirmed (rocks_new mem_merkledb store_empty) () pubsub_new (KpEd25519 [] [])
       (seed_source_new [] [] hash_default hash_default hash_default)"

definition demo_values :: block_values where
  "demo_values = block_values_of demo_block_info"

lemma demo_inv [simp]: "rocks_inv mem_merkledb (ex_db demo_executor)"
  by (simp add: demo_executor_def executor_new_def rocks_inv_def rocks_new_def)

lemma demo_contract: "wm_contract demo_env demo_D rd_snap (\<lambda>f. f) (rocks_inv mem_merkledb) (demo_wm demo_D)"
  unfolding demo_D_def by (rule demo.wm_contract_axioms)

lemmas demo_eval =
  demo_D_def demo_wm_def demo_executor_def demo_confirmed_def demo_block_info_def demo_tx_def
  executor_new_def pubsub_new_def rocks_new_def mem_merkledb_def rocks_fork_create_def
  rocks_fork_merge_def exec_transaction_def handle_unit_transaction_def try_burn_fuel_def
  get_mach_def put_mach_def some_events_def stamp_events_def has_subscribers_def
  fork_store_account_data_def fork_store_transaction_def fork_store_receipt_def
  demo_v1_def tx_call_args_def calculate_burned_fuel_def

lemma demo_exec_transactions:
  assumes "pl_txs p = pl_txs demo_confirmed"
  shows "\<exists>x' f' rxs. exec_transactions demo_env demo_D (demo_wm demo_D) (\<lambda>_. False) 0 0 0 [hash_default]
     (demo_executor\<lparr>ex_pool := p\<rparr>) (db_fork_create demo_D (ex_db demo_executor)) = Some (x', f', rxs)"
  using assms by (simp add: demo_eval Let_def)

lemma demo_seal:
  "\<exists>db' block. seal_block demo_env demo_D is_val kp db 0 hs rxs prev demo_values f = Inr (db', block)"
  by (simp add: seal_block_def Let_def demo_values_def block_values_of_def demo_block_info_def
      verify_block_def block_signature_def check_hash_def demo_D_def rocks_fork_merge_def mem_merkledb_def
      split: prod.splits)

lemma demo_exec_block:
  assumes "pl_txs p = pl_txs demo_confirmed"
  shows "\<exists>x' h. exec_block demo_env demo_D (demo_wm demo_D) (\<lambda>_. False) is_val iv 0 [hash_default] hash_default
    demo_values (demo_executor\<lparr>ex_pool := p\<rparr>) = Some (x', Inr h)"
proof -
  obtain x1 f1 rxs where 1: "exec_transactions demo_env demo_D (demo_wm demo_D) (\<lambda>_. False) 0 0 0
      [hash_default] (demo_executor\<lparr>ex_pool := p\<rparr>) (db_fork_create demo_D (ex_db demo_executor)) = Some (x1, f1, rxs)"
    using demo_exec_transactions [OF assms] by blast
  obtain db' block where 2: "seal_block demo_env demo_D is_val (ex_keypair x1) (ex_db x1) 0 [hash_default]
      rxs hash_default demo_values f1 = Inr (db', block)" using demo_seal by blast
  have "bv_timestamp demo_values = 0"
    by (simp add: demo_values_def block_values_of_def demo_block_info_def)
  with 1 2 show ?thesis by (simp add: exec_block_def Let_def)
qed

section \<open>Blocks\<close>

text \<open>C2. A block is executed entirely or not at all. Whatever its transactions do, \<open>exec_block\<close> leaves the
  pool alone, and either it fails and the database is the one before, or it succeeds and the database
  holds in addition: the payload and a receipt of every transaction, the hash lists at its height, and
  one more block. That block has the given height and predecessor, the number of transactions, the Merkle
  roots of the hash lists and of the accounts, and the time stamp; its signature verifies and comes from
  a validator where a peer's signature was given, and its hash is the expected one where one was given.
\<close>

theorem exec_block_commits_or_aborts:
  assumes "wm_contract E D snap absf dinv W" and "dinv (ex_db x)"
    and "exec_block E D W closed is_val iv ht hs prev bv x = Some (x', r)"
  shows "ex_pool x' = ex_pool x \<and>
    (case r of
       Inl e \<Rightarrow> ex_db x' = ex_db x
     | Inr h \<Rightarrow> dinv (ex_db x') \<and> (\<exists>s block rxs. length rxs = length hs \<and>
         (\<forall>h \<in> set hs. \<exists>tx. pl_txs (ex_pool x) h = Some (Some tx)) \<and>
         ran_transactions hs (\<lambda>h. the (pl_txs (ex_pool x) h)) (snap (ex_db x)) s \<and>
         sealed E (is_val (ex_db x)) (ex_keypair x) ht hs rxs prev bv s block (snap (ex_db x')) \<and>
         h = block_hash E block))"
  using wm_contract.exec_block_cases [OF assms(1,3,2)] exec_block_pool [OF assms(3)] by blast

theorem exec_block_commits_or_aborts_witness:
  "\<exists>x' h. exec_block demo_env demo_D (demo_wm demo_D) (\<lambda>_. False) (\<lambda>_ _. Inr True) True 0 [hash_default]
     hash_default demo_values demo_executor = Some (x', Inr h) \<and>
   (\<exists>s block. ran_transactions [hash_default] (\<lambda>h. the (pl_txs demo_confirmed h)) store_empty s \<and>
      st_blocks (rd_snap (ex_db x')) = st_blocks s @ [block])"
proof -
  obtain x' h where b: "exec_block demo_env demo_D (demo_wm demo_D) (\<lambda>_. False) (\<lambda>_ _. Inr True) True 0
      [hash_default] hash_default demo_values (demo_executor\<lparr>ex_pool := demo_confirmed\<rparr>) = Some (x', Inr h)"
    using demo_exec_block by blast
  have x: "demo_executor\<lparr>ex_pool := demo_confirmed\<rparr> = demo_executor"
    by (simp add: demo_executor_def executor_new_def)
  from exec_block_commits_or_aborts [OF demo_contract demo_inv b [unfolded x]]
  obtain s block rxs where "ran_transactions [hash_default] (\<lambda>h. the (pl_txs demo_confirmed h)) store_empty s"
    and "sealed demo_env (\<lambda>_. Inr True) (ex_keypair demo_executor) 0 [hash_default] rxs hash_default demo_values
      s block (rd_snap (ex_db x'))"
    by (auto simp: demo_executor_def executor_new_def rocks_new_def mem_merkledb_def)
  with b x sealed_blocks show ?thesis by metis
qed

text \<open>C4. Running the executor only ever appends to the chain: the blocks that were there stay, the heights
  of all blocks count up from 0, and each names the hash of the block before it.
\<close>

theorem executor_run_extends_chain:
  assumes "wm_contract E D snap absf dinv W" and "dinv (ex_db x)"
    and "chain_ok E (st_blocks (snap (ex_db x)))"
    and "executor_run E D W closed is_val iv x = Some x'"
  shows "chain_ok E (st_blocks (snap (ex_db x'))) \<and>
    (\<exists>bs. st_blocks (snap (ex_db x')) = st_blocks (snap (ex_db x)) @ bs)"
proof -
  obtain prev ht where t: "(prev, ht) = tip E (st_blocks (snap (ex_db x)))"
    by (metis surj_pair)
  with assms(4) wm_contract.executor_run_loop [OF assms(1)]
  have "exec_loop E D W closed is_val iv prev ht x = Some x'" by (metis case_prod_conv)
  from wm_contract.exec_loop_chain [OF assms(1) this assms(2,3) t] show ?thesis by blast
qed

lemma steal_txs: "pl_txs (steal_block ht bi p) = pl_txs p"
  by (simp add: steal_block_def)

lemma demo_run:
  "\<exists>x'. executor_run demo_env demo_D (demo_wm demo_D) (\<lambda>_. False) (\<lambda>_ _. Inr True) True demo_executor = Some x'"
proof -
  obtain x1 h where b: "exec_block demo_env demo_D (demo_wm demo_D) (\<lambda>_. False) (\<lambda>_ _. Inr True) True 0
      [hash_default] hash_default demo_values
      (demo_executor\<lparr>ex_pool := steal_block 0 demo_block_info demo_confirmed\<rparr>) = Some (x1, Inr h)"
    using demo_exec_block [OF steal_txs] by blast
  have p: "ex_pool demo_executor = demo_confirmed" by (simp add: demo_executor_def executor_new_def)
  have "ex_pool x1 = steal_block 0 demo_block_info demo_confirmed" using exec_block_pool [OF b] by simp
  then have "pl_confirmed (ex_pool (after_block demo_env demo_D (\<lambda>_. False) 0 [hash_default] x1)) = []"
    by (simp add: frame_simps finish_pool_def steal_block_def demo_confirmed_def bt_remove_def)
  then have stop: "\<not> executor_can_run demo_D 1
      (ex_db (after_block demo_env demo_D (\<lambda>_. False) 0 [hash_default] x1))
      (ex_pool (after_block demo_env demo_D (\<lambda>_. False) 0 [hash_default] x1))"
    by (simp add: executor_can_run_def Let_def)
  have "db_load_block demo_D (ex_db demo_executor) u64_max = None"
    by (simp add: demo_D_def rocks_load_block_def st_load_block_def demo_executor_def executor_new_def
        rocks_new_def mem_merkledb_def store_empty_def)
  moreover have "map_of (pl_confirmed (ex_pool demo_executor)) 0 = Some demo_block_info"
    by (simp add: p demo_confirmed_def)
  moreover have "bi_txs_hashes demo_block_info = Some [hash_default]" by (simp add: demo_block_info_def)
  ultimately show ?thesis
    using b stop
    by (simp add: executor_run_def exec_loop.simps [of _ _ _ _ _ _ hash_default 0 demo_executor] p Let_def
        demo_values_def)
qed

theorem executor_run_extends_chain_witness:
  "\<exists>x'. executor_run demo_env demo_D (demo_wm demo_D) (\<lambda>_. False) (\<lambda>_ _. Inr True) True demo_executor = Some x' \<and>
     chain_ok demo_env (st_blocks (rd_snap (ex_db x')))"
proof -
  obtain x' where r: "executor_run demo_env demo_D (demo_wm demo_D) (\<lambda>_. False) (\<lambda>_ _. Inr True) True
      demo_executor = Some x'" using demo_run by blast
  have "chain_ok demo_env (st_blocks (rd_snap (ex_db demo_executor)))"
    by (simp add: chain_ok_def demo_executor_def executor_new_def rocks_new_def mem_merkledb_def store_empty_def)
  from executor_run_extends_chain [OF demo_contract demo_inv this r] r show ?thesis by blast
qed

section \<open>The pool\<close>

text \<open>Running the executor keeps the invariant of the pool, relative to the transactions then in the
  database: what is unconfirmed has its payload and is in no block, neither of the chain nor of the
  pool; what a confirmed block of the pool names is known to the pool or already stored. The queue of
  unconfirmed transactions is untouched.
\<close>

theorem executor_run_keeps_pool:
  assumes "wm_contract E D snap absf dinv W" and "dinv (ex_db x)"
    and "pool_inv (stored_in (snap (ex_db x))) (ex_pool x)"
    and "executor_run E D W closed is_val iv x = Some x'"
  shows "pool_inv (stored_in (snap (ex_db x'))) (ex_pool x') \<and>
    pl_unconfirmed (ex_pool x') = pl_unconfirmed (ex_pool x)"
proof -
  obtain prev ht where "exec_loop E D W closed is_val iv prev ht x = Some x'"
    using assms(4) wm_contract.executor_run_loop [OF assms(1), of closed is_val iv x]
    by (cases "tip E (st_blocks (snap (ex_db x)))") auto
  from wm_contract.exec_loop_pool [OF assms(1) this assms(2,3)] show ?thesis by blast
qed

theorem executor_run_keeps_pool_witness:
  "\<exists>x'. executor_run demo_env demo_D (demo_wm demo_D) (\<lambda>_. False) (\<lambda>_ _. Inr True) True demo_executor = Some x' \<and>
     pool_inv (stored_in (rd_snap (ex_db x'))) (ex_pool x')"
proof -
  obtain x' where r: "executor_run demo_env demo_D (demo_wm demo_D) (\<lambda>_. False) (\<lambda>_ _. Inr True) True
      demo_executor = Some x'" using demo_run by blast
  have "pool_inv (stored_in (rd_snap (ex_db demo_executor))) (ex_pool demo_executor)"
    by (simp add: pool_inv_def demo_executor_def executor_new_def demo_confirmed_def demo_block_info_def
        confirmed_hashes_def bt_wf_def)
  from executor_run_keeps_pool [OF demo_contract demo_inv this r] r show ?thesis by blast
qed

text \<open>C16. A block that fails (a bad signature, an unknown validator, an unexpected hash, a database fault) stays
  where it was: the run ends with the pool and the database it started from.
\<close>

theorem failed_block_stays_confirmed:
  assumes "wm_contract E D snap absf dinv W" and "dinv (ex_db x)" and "bt_wf (pl_confirmed (ex_pool x))"
    and "tip E (st_blocks (snap (ex_db x))) = (prev, ht)"
    and "map_of (pl_confirmed (ex_pool x)) ht = Some bi" and "bi_txs_hashes bi = Some hs"
    and "exec_block E D W closed is_val iv ht hs prev (block_values_of bi)
      (x\<lparr>ex_pool := steal_block ht bi (ex_pool x)\<rparr>) = Some (x1, Inl err)"
    and "executor_run E D W closed is_val iv x = Some x'"
  shows "ex_pool x' = ex_pool x \<and> ex_db x' = ex_db x"
proof -
  from assms(8) have "exec_loop E D W closed is_val iv prev ht x = Some x'"
    by (simp add: wm_contract.executor_run_loop [OF assms(1)] assms(4))
  with assms(5-7) have x': "x' = x1\<lparr>ex_pool := restore_pool ht bi (ex_pool x1)\<rparr>"
    by (auto simp: exec_loop.simps [of _ _ _ _ _ _ prev ht x])
  have "ex_pool x1 = steal_block ht bi (ex_pool x)" using exec_block_pool [OF assms(7)] by simp
  with x' restore_steal [OF assms(3,5)] wm_contract.exec_block_cases [OF assms(1,7)] assms(2)
  show ?thesis by simp
qed

text \<open>A block that expects another hash than the one its execution gives.\<close>

definition demo_bad_info :: block_info where
  "demo_bad_info = demo_block_info\<lparr>bi_hash := Some (Hash [])\<rparr>"

definition demo_bad :: "(store rocks_db, unit) executor" where
  "demo_bad = demo_executor\<lparr>ex_pool := demo_confirmed\<lparr>pl_confirmed := [(0, demo_bad_info)]\<rparr>\<rparr>"

lemma demo_seal_bad:
  "seal_block demo_env demo_D is_val kp db 0 hs rxs prev (block_values_of demo_bad_info) f =
     Inl (error_new_ext Other ''unexpected block hash'')"
  by (simp add: seal_block_def Let_def block_values_of_def demo_bad_info_def demo_block_info_def
      verify_block_def block_signature_def check_hash_def primary_hash_def hash_of_digest_def hash_pack_def
      split: prod.splits)

theorem failed_block_stays_confirmed_witness:
  "\<exists>x'. executor_run demo_env demo_D (demo_wm demo_D) (\<lambda>_. False) (\<lambda>_ _. Inr True) True demo_bad = Some x' \<and>
     ex_pool x' = ex_pool demo_bad \<and> ex_db x' = ex_db demo_bad"
proof -
  let ?steal = "steal_block 0 demo_bad_info (ex_pool demo_bad)"
  let ?err = "error_new_ext Other ''unexpected block hash''"
  have e: "demo_bad\<lparr>ex_pool := ?steal\<rparr> = demo_executor\<lparr>ex_pool := ?steal\<rparr>" by (simp add: demo_bad_def)
  have t: "bv_timestamp (block_values_of demo_bad_info) = 0"
    by (simp add: block_values_of_def demo_bad_info_def demo_block_info_def)
  have db: "ex_db demo_bad = ex_db demo_executor" by (simp add: demo_bad_def)
  obtain x1 f1 rxs where 1: "exec_transactions demo_env demo_D (demo_wm demo_D) (\<lambda>_. False) 0 0 0
      [hash_default] (demo_executor\<lparr>ex_pool := ?steal\<rparr>) (db_fork_create demo_D (ex_db demo_executor)) = Some (x1, f1, rxs)"
    using demo_exec_transactions [of ?steal] by (auto simp: steal_txs demo_bad_def)
  then have b: "exec_block demo_env demo_D (demo_wm demo_D) (\<lambda>_. False) (\<lambda>_ _. Inr True) True 0 [hash_default]
      hash_default (block_values_of demo_bad_info) (demo_bad\<lparr>ex_pool := ?steal\<rparr>) = Some (x1, Inl ?err)"
    unfolding e by (simp add: exec_block_def t demo_seal_bad)
  have tip: "tip demo_env (st_blocks (rd_snap (ex_db demo_bad))) = (hash_default, 0)"
    by (simp add: db tip_def demo_executor_def executor_new_def rocks_new_def mem_merkledb_def store_empty_def)
  have m: "map_of (pl_confirmed (ex_pool demo_bad)) 0 = Some demo_bad_info"
    and w: "bt_wf (pl_confirmed (ex_pool demo_bad))" by (simp_all add: demo_bad_def bt_wf_def)
  have hs: "bi_txs_hashes demo_bad_info = Some [hash_default]"
    by (simp add: demo_bad_info_def demo_block_info_def)
  have inv: "rocks_inv mem_merkledb (ex_db demo_bad)" by (simp add: db)
  have "executor_run demo_env demo_D (demo_wm demo_D) (\<lambda>_. False) (\<lambda>_ _. Inr True) True demo_bad =
      map_option (\<lambda>_. x1\<lparr>ex_pool := restore_pool 0 demo_bad_info (ex_pool x1)\<rparr>) (error_to_string_full ?err)"
    by (simp add: wm_contract.executor_run_loop [OF demo_contract] tip exec_loop.simps m hs b)
  moreover have "\<exists>s. error_to_string_full ?err = Some s"
    by (simp add: error_to_string_full_def error_new_ext_def MAX_ERROR_SOURCE_STRING_LENGTH_def
        is_char_boundary_def Let_def)
  ultimately obtain x' where r: "executor_run demo_env demo_D (demo_wm demo_D) (\<lambda>_. False) (\<lambda>_ _. Inr True)
      True demo_bad = Some x'" by auto
  from failed_block_stays_confirmed [OF demo_contract inv w tip m hs b r] r show ?thesis by blast
qed

section \<open>Transactions\<close>

text \<open>C5. A failed transaction leaves no trace but the fuel it burns. When the contract of a transaction
  (for a bulk, of its root) could be resolved and the receipt says it failed, whether in the contract,
  in any node of the bulk or in burning the fuel, the fork holds what it held before the transaction,
  changed at most by the service contract's fuel-burning method called from those contents; with no
  burning method configured it is unchanged.
\<close>

theorem failed_transaction_leaves_only_fuel:
  assumes "wm_contract E D snap absf dinv W"
    and "exec_transaction E D W closed tx ht i mthd ts x f = Some (x', f', rx)"
    and "resolved E W tx ts (get_mach x (fk_flush D f))" and "\<not> rx_success rx"
  shows "\<exists>m0 m'. fa_view (absf (mc_fork m0)) = fa_view (absf f) \<and> f' = mc_fork m' \<and>
    (m' = m0 \<or> mthd \<noteq> [] \<and> (\<exists>account units fuel r.
       call_burn_fuel E D W mthd account units ts m0 = Some (m', fuel, r)))"
  by (rule wm_contract.exec_transaction_failed [OF assms])

definition demo_fail_tx :: transaction where
  "demo_fail_tx = UnitTransaction (SignedTransaction
     (V1 (demo_v1\<lparr>td_contract := Some hash_default, td_method := ''fail''\<rparr>)) [])"

theorem failed_transaction_leaves_only_fuel_witness:
  "\<exists>x' f' rx. exec_transaction demo_env demo_D (demo_wm demo_D) (\<lambda>_. False) demo_fail_tx 0 0 [] 0
     demo_executor (fa_new store_empty) = Some (x', f', rx) \<and> \<not> rx_success rx \<and> fa_view f' = store_empty"
proof -
  obtain x' f' rx where e: "exec_transaction demo_env demo_D (demo_wm demo_D) (\<lambda>_. False) demo_fail_tx 0 0 [] 0
     demo_executor (fa_new store_empty) = Some (x', f', rx)" and r: "\<not> rx_success rx"
    by (simp add: demo_eval demo_fail_tx_def Let_def failure_message_def error_new_def)
  have "resolved demo_env (demo_wm demo_D) demo_fail_tx 0 (get_mach demo_executor (fk_flush demo_D (fa_new store_empty)))"
    by (simp add: resolved_def demo_fail_tx_def demo_wm_def)
  from failed_transaction_leaves_only_fuel [OF demo_contract e this r] e r show ?thesis by auto
qed

text \<open>The fuel asked from an account never exceeds the limit of its transaction: the burning method is
  called with the smaller of the fuel to burn and the limit, and burning counts as successful only if
  the limit was enough.
\<close>

theorem burn_within_limit:
  assumes "try_burn_fuel E D W mthd ba ts m = Some (m', ok, burned)" and "mthd \<noteq> []"
  shows "(\<exists>u r. call_burn_fuel E D W mthd (ba_account ba)
      (min (ba_fuel_to_burn ba) (ba_fuel_limit ba)) ts m = Some (m', u, r)) \<and>
    (ok \<longrightarrow> ba_fuel_to_burn ba \<le> ba_fuel_limit ba)"
  using try_burn_fuel_cases [OF assms(1)] assms(2) by blast

theorem burn_within_limit_witness:
  "\<exists>m' ok burned u r.
     try_burn_fuel demo_env demo_D (demo_wm demo_D) ''burn'' \<lparr>ba_account = ''a'', ba_fuel_to_burn = 1000, ba_fuel_limit = 7\<rparr>
       0 (get_mach demo_executor (fa_new store_empty)) = Some (m', ok, burned) \<and>
     call_burn_fuel demo_env demo_D (demo_wm demo_D) ''burn'' ''a'' 7 0
       (get_mach demo_executor (fa_new store_empty)) = Some (m', u, r) \<and> \<not> ok"
proof -
  let ?ba = "\<lparr>ba_account = ''a'', ba_fuel_to_burn = 1000, ba_fuel_limit = 7\<rparr> :: burn_fuel_args"
  let ?m = "get_mach demo_executor (fa_new store_empty)"
  obtain m' ok burned
    where t: "try_burn_fuel demo_env demo_D (demo_wm demo_D) ''burn'' ?ba 0 ?m = Some (m', ok, burned)"
    by (auto simp: try_burn_fuel_def call_burn_fuel_def demo_D_def mem_merkledb_def get_mach_def store_empty_def)
  from burn_within_limit [OF t] t show ?thesis by auto
qed

text \<open>A bulk transaction whose data is not of the bulk kind runs no contract at all, and its receipt
  reports success: the handler's last branch, taken for unreachable, leaves \<open>execution_fail\<close> unset.
\<close>

theorem bulk_with_unit_data_succeeds:
  "\<exists>ret. handle_bulk_transaction E D W \<lparr>bt_data = V1 d, bt_signature = sig\<rparr> ht i evs ts m =
     Some (m\<lparr>mc_fork := fk_rollback D (mc_fork m)\<rparr>, ret) \<and>
   rx_success (hr_receipt ret) \<and> rx_events (hr_receipt ret) = None \<and> rx_burned_fuel (hr_receipt ret) = 0"
  by (simp add: handle_bulk_transaction_def bulk_returns_def calculate_burned_fuel_def)

end
