(* ===== verification/Utf8.thy ===== *)
theory Utf8
  imports Prelude
begin

text \<open>
  What the sources use of Rust's text library: \<open>std::str::from_utf8\<close>, which accepts exactly the
  well-formed UTF-8 sequences, and \<open>String::from_utf8_lossy\<close>, which replaces every maximal ill-formed
  part by the character U+FFFD. \<open>utf8_ranges\<close> gives, for a first byte, the ranges of the bytes that have
  to follow it (the table of well-formed sequences of the Unicode standard).
\<close>

section \<open>Definitions\<close>

definition utf8_ranges :: "u8 \<Rightarrow> (u8 \<times> u8) list option" where
  "utf8_ranges b =
     (if b \<le> 0x7f then Some []
      else if b < 0xc2 then None
      else if b \<le> 0xdf then Some [(0x80, 0xbf)]
      else if b = 0xe0 then Some [(0xa0, 0xbf), (0x80, 0xbf)]
      else if b = 0xed then Some [(0x80, 0x9f), (0x80, 0xbf)]
      else if b \<le> 0xef then Some [(0x80, 0xbf), (0x80, 0xbf)]
      else if b = 0xf0 then Some [(0x90, 0xbf), (0x80, 0xbf), (0x80, 0xbf)]
      else if b \<le> 0xf3 then Some [(0x80, 0xbf), (0x80, 0xbf), (0x80, 0xbf)]
      else if b = 0xf4 then Some [(0x80, 0x8f), (0x80, 0xbf), (0x80, 0xbf)]
      else None)"

text \<open>How many bytes fit the ranges, and whether all ranges are used up.\<close>

fun utf8_fit :: "(u8 \<times> u8) list \<Rightarrow> bytes \<Rightarrow> bool \<times> nat" where
  "utf8_fit [] bs = (True, 0)"
| "utf8_fit (r # rs) [] = (False, 0)"
| "utf8_fit (r # rs) (b # bs) =
     (if fst r \<le> b \<and> b \<le> snd r then map_prod id Suc (utf8_fit rs bs) else (False, 0))"

definition utf8_step :: "u8 \<Rightarrow> bytes \<Rightarrow> bool \<times> nat" where
  "utf8_step b bs = (case utf8_ranges b of None \<Rightarrow> (False, 0) | Some rs \<Rightarrow> utf8_fit rs bs)"

fun utf8_valid :: "bytes \<Rightarrow> bool" where
  "utf8_valid [] = True"
| "utf8_valid (b # bs) = (fst (utf8_step b bs) \<and> utf8_valid (drop (snd (utf8_step b bs)) bs))"

fun utf8_lossy :: "bytes \<Rightarrow> bytes" where
  "utf8_lossy [] = []"
| "utf8_lossy (b # bs) =
     (let r = utf8_step b bs
      in (if fst r then b # take (snd r) bs else [0xef, 0xbf, 0xbd]) @ utf8_lossy (drop (snd r) bs))"

definition bytes_str :: "bytes \<Rightarrow> string" where
  "bytes_str bs = map (\<lambda>b. char_of (unat b)) bs"

definition from_utf8 :: "bytes \<Rightarrow> string option" where
  "from_utf8 bs = (if utf8_valid bs then Some (bytes_str bs) else None)"

definition from_utf8_lossy :: "bytes \<Rightarrow> string" where
  "from_utf8_lossy bs = bytes_str (utf8_lossy bs)"

section \<open>Facts\<close>

lemma of_char_unat: "(of_char (char_of (unat b)) :: u8) = b"
proof -
  have "(of_char (char_of (unat b)) :: u8) = of_nat (of_char (char_of (unat b)))"
    by (simp only: of_nat_of_char)
  also have "\<dots> = of_nat (unat b mod 256)" by (simp only: of_char_of)
  also have "\<dots> = b" using unsigned_less [of b, where 'a = nat] by simp
  finally show ?thesis .
qed

lemma str_bytes_bytes_str [simp]: "str_bytes (bytes_str bs) = bs"
  by (simp add: str_bytes_def bytes_str_def comp_def of_char_unat)

lemma bytes_str_inj [simp]: "bytes_str a = bytes_str b \<longleftrightarrow> a = b"
  by (metis str_bytes_bytes_str)

lemma utf8_fit_append: "fst (utf8_fit rs bs) \<Longrightarrow> utf8_fit rs (take (snd (utf8_fit rs bs)) bs @ cs) = utf8_fit rs bs"
  by (induction rs bs rule: utf8_fit.induct) auto

lemma utf8_fit_le: "snd (utf8_fit rs bs) \<le> length bs"
  by (induction rs bs rule: utf8_fit.induct) auto

lemma utf8_lossy_valid: "utf8_valid (utf8_lossy bs)"
proof (induction bs rule: utf8_lossy.induct)
  case (2 b bs)
  show ?case
  proof (cases "fst (utf8_step b bs)")
    case True
    then obtain rs where rs: "utf8_ranges b = Some rs" "fst (utf8_fit rs bs)"
      by (auto simp: utf8_step_def split: option.splits)
    let ?n = "snd (utf8_fit rs bs)"
    have *: "utf8_step b (take ?n bs @ cs) = utf8_fit rs bs" for cs
      using utf8_fit_append [OF rs(2)] by (simp add: utf8_step_def rs(1))
    have "length (take ?n bs) = ?n" using utf8_fit_le by simp
    moreover have "utf8_step b bs = utf8_fit rs bs" by (simp add: utf8_step_def rs(1))
    ultimately show ?thesis using 2 True rs(2) by (simp add: Let_def *)
  next
    case False
    then show ?thesis using 2
      by (simp add: Let_def utf8_step_def utf8_ranges_def)
  qed
qed simp

lemma utf8_lossy_id: "utf8_valid bs \<Longrightarrow> utf8_lossy bs = bs"
  by (induction bs rule: utf8_lossy.induct) (auto simp: Let_def)

text \<open>The lossy reading agrees with the strict one wherever that accepts.\<close>

lemma from_utf8_lossy_agrees: "from_utf8 bs = Some s \<Longrightarrow> from_utf8_lossy bs = s"
  by (auto simp: from_utf8_def from_utf8_lossy_def utf8_lossy_id split: if_splits)

end
