(* ===== verification/HostFunc.thy ===== *)
theory HostFunc
  imports Wm Utf8
begin

text \<open>
  The host functions of \<^verbatim>\<open>src/wm/host_func.rs\<close>: what a smart contract may ask from the node. The
  context of a call has the fork, the machine and the seed of the enclosing call (\<open>cc_mach\<close>) and a
  reference to the machine's methods (\<open>cc_wm\<close>, the source's \<open>Option<&mut dyn Wm>\<close>) for nested calls.
  \<open>None\<close> is a panic.

  \<open>host_env\<close> holds what the machine takes from other crates besides the wasm engine: the random number
  generator, the MessagePack reader at three types, and the successive readings of the system clock.
\<close>

section \<open>Definitions\<close>

record host_env =
  he_pcg :: "u64 \<Rightarrow> u64"                             \<comment> \<open>first number of a \<open>Pcg32\<close> from a seed\<close>
  he_de_app_output :: "bytes \<Rightarrow> string + bool \<times> bytes"   \<comment> \<open>\<open>rmp_deserialize::<AppOutput>\<close>\<close>
  he_de_public_key :: "bytes \<Rightarrow> public_key option"       \<comment> \<open>\<open>rmp_deserialize::<PublicKey>\<close>\<close>
  he_de_bool :: "bytes \<Rightarrow> bool option"                   \<comment> \<open>\<open>rmp_deserialize::<bool>\<close>\<close>
  he_now :: "nat \<Rightarrow> u64"                                \<comment> \<open>readings of \<open>SystemTime::now\<close>, in seconds\<close>

record ('w, 'f) call_context =
  cc_wm :: "('w, 'f) wm_ops option"
  cc_mach :: "('w, 'f) mach"
  cc_owner :: string
  cc_data_updated :: bool
  cc_depth :: u16
  cc_network :: string
  cc_origin :: string
  cc_events :: "smart_contract_event list"
  cc_initial_fuel :: u64
  cc_block_timestamp :: u64
  cc_method :: string

abbreviation cc_fork :: "('w, 'f) call_context \<Rightarrow> 'f" where
  "cc_fork c \<equiv> mc_fork (cc_mach c)"

definition set_fork :: "'f \<Rightarrow> ('w, 'f) call_context \<Rightarrow> ('w, 'f) call_context" where
  "set_fork f c = c\<lparr>cc_mach := (cc_mach c)\<lparr>mc_fork := f\<rparr>\<rparr>"

definition mp_store_asset_data :: "string \<Rightarrow> bytes \<Rightarrow> mp_value" where
  "mp_store_asset_data account data = MpArr [MpStr account, MpBin data]"

definition hf_sha256 :: "env \<Rightarrow> bytes \<Rightarrow> bytes" where
  "hf_sha256 E data = digest_bytes (e_sha256 E data)"

definition get_smartcontract_hash :: "('d, 'f) db_ops \<Rightarrow> ('w, 'f) call_context \<Rightarrow> hash" where
  "get_smartcontract_hash D c =
     (case fk_load_account D (cc_fork c) (cc_owner c) of
        Some account \<Rightarrow> (case ac_contract account of Some h \<Rightarrow> h | None \<Rightarrow> hash_default)
      | None \<Rightarrow> hash_default)"

definition hf_emit ::
    "('d, 'f) db_ops \<Rightarrow> string \<Rightarrow> bytes \<Rightarrow> ('w, 'f) call_context \<Rightarrow> ('w, 'f) call_context" where
  "hf_emit D name data c =
     c\<lparr>cc_events := cc_events c @
        [\<lparr>ev_event_tx = hash_default, ev_emitter_account = cc_owner c,
          ev_emitter_smart_contract = get_smartcontract_hash D c, ev_event_name = name,
          ev_event_data = data\<rparr>]\<rparr>"

definition hf_load_data :: "('d, 'f) db_ops \<Rightarrow> string \<Rightarrow> ('w, 'f) call_context \<Rightarrow> bytes" where
  "hf_load_data D key c =
     (case fk_load_account_data D (cc_fork c) (cc_owner c) key of Some bs \<Rightarrow> bs | None \<Rightarrow> [])"

definition hf_store_data ::
    "('d, 'f) db_ops \<Rightarrow> string \<Rightarrow> bytes \<Rightarrow> ('w, 'f) call_context \<Rightarrow> ('w, 'f) call_context" where
  "hf_store_data D key data c =
     (set_fork (fk_store_account_data D (cc_fork c) (cc_owner c) key data) c)\<lparr>cc_data_updated := True\<rparr>"

definition hf_remove_data ::
    "('d, 'f) db_ops \<Rightarrow> string \<Rightarrow> ('w, 'f) call_context \<Rightarrow> ('w, 'f) call_context" where
  "hf_remove_data D key c =
     (set_fork (fk_remove_account_data D (cc_fork c) (cc_owner c) key) c)\<lparr>cc_data_updated := True\<rparr>"

definition hf_get_account_contract ::
    "('d, 'f) db_ops \<Rightarrow> string \<Rightarrow> ('w, 'f) call_context \<Rightarrow> hash option" where
  "hf_get_account_contract D account_id c =
     (case fk_load_account D (cc_fork c) account_id of Some account \<Rightarrow> ac_contract account | None \<Rightarrow> None)"

text \<open>The arguments of a nested call: one level deeper (the depth wraps around), from the owner.\<close>

definition nested_args ::
    "string \<Rightarrow> hash \<Rightarrow> string \<Rightarrow> bytes \<Rightarrow> u64 \<Rightarrow> ('w, 'f) call_context \<Rightarrow> call_args" where
  "nested_args owner app_hash mthd args fuel c =
     \<lparr>ca_depth = cc_depth c + 1, ca_network = cc_network c, ca_origin = cc_origin c, ca_owner = owner,
      ca_caller = cc_owner c, ca_contract = app_hash, ca_method = mthd, ca_args = args,
      ca_initial_fuel = fuel, ca_block_timestamp = cc_block_timestamp c\<rparr>"

definition nested_ctx :: "string \<Rightarrow> ('w, 'f) call_context \<Rightarrow> ctx_args" where
  "nested_ctx owner c = \<lparr>cx_origin = cc_origin c, cx_owner = owner, cx_caller = cc_owner c\<rparr>"

text \<open>The common shape of nested calls: resolve the contract, then run; \<open>run\<close> is the method of the
  machine that is called.\<close>

definition nested ::
    "(('w, 'f) wm_ops \<Rightarrow> call_args \<Rightarrow> smart_contract_event list \<Rightarrow> ('w, 'f) mach \<Rightarrow> ('w, 'f, 'r) wm_result) \<Rightarrow>
     string \<Rightarrow> string \<Rightarrow> hash option \<Rightarrow> string \<Rightarrow> bytes \<Rightarrow> u64 \<Rightarrow> ('w, 'f) call_context \<Rightarrow>
     (('w, 'f) call_context \<times> u64 \<times> 'r result) option" where
  "nested run missing owner contract mthd args fuel c =
     (case cc_wm c of
        None \<Rightarrow> Some (c, get_fuel_consumed_for_error, Inl (error_new_ext WasmMachineFault missing))
      | Some W \<Rightarrow>
          (case wm_app_hash_check W contract (nested_ctx owner c) (cc_block_timestamp c) (cc_mach c) of
             None \<Rightarrow> None
           | Some (m1, Inl e) \<Rightarrow> Some (c\<lparr>cc_mach := m1\<rparr>, 0, Inl e)
           | Some (m1, Inr h) \<Rightarrow>
               (case run W (nested_args owner h mthd args fuel c) (cc_events c) m1 of
                  None \<Rightarrow> None
                | Some (m2, evs, used, r) \<Rightarrow> Some (c\<lparr>cc_mach := m2, cc_events := evs\<rparr>, used, r))))"

definition hf_call ::
    "string \<Rightarrow> hash option \<Rightarrow> string \<Rightarrow> bytes \<Rightarrow> u64 \<Rightarrow> ('w, 'f) call_context \<Rightarrow>
     (('w, 'f) call_context \<times> u64 \<times> bytes result) option" where
  "hf_call = nested wm_call ''nested calls not implemented''"

definition hf_is_callable ::
    "('d, 'f) db_ops \<Rightarrow> string \<Rightarrow> string \<Rightarrow> u64 \<Rightarrow> ('w, 'f) call_context \<Rightarrow>
     (('w, 'f) call_context \<times> u64 \<times> i32 result) option" where
  "hf_is_callable D account mthd fuel c =
     (case hf_get_account_contract D account c of
        None \<Rightarrow> Some (c, 0, Inr 0)
      | Some h \<Rightarrow>
          nested wm_callable_call ''is_callable not implemented'' account (Some h) mthd (str_bytes mthd) fuel c)"

definition hf_get_keys :: "('d, 'f) db_ops \<Rightarrow> string \<Rightarrow> ('w, 'f) call_context \<Rightarrow> string list" where
  "hf_get_keys D pattern c =
     filter (\<lambda>s. pattern = [] \<or> take (length pattern) s = pattern)
       (fk_load_account_keys D (cc_fork c) (cc_owner c))"

definition hf_load_asset :: "('d, 'f) db_ops \<Rightarrow> string \<Rightarrow> ('w, 'f) call_context \<Rightarrow> bytes" where
  "hf_load_asset D account_id c =
     (case fk_load_account D (cc_fork c) account_id of
        Some account \<Rightarrow> account_load_asset account (cc_owner c) | None \<Rightarrow> [])"

definition account_or_new :: "('d, 'f) db_ops \<Rightarrow> 'f \<Rightarrow> string \<Rightarrow> account" where
  "account_or_new D f account_id =
     (case fk_load_account D f account_id of Some a \<Rightarrow> a | None \<Rightarrow> account_new account_id None)"

definition hf_store_asset ::
    "env \<Rightarrow> ('d, 'f) db_ops \<Rightarrow> string \<Rightarrow> bytes \<Rightarrow> ('w, 'f) call_context \<Rightarrow> ('w, 'f) call_context" where
  "hf_store_asset E D account_id val c =
     (if account_id = [] then c
      else hf_emit D ''STORE_ASSET'' (e_rmp E (mp_store_asset_data account_id val))
        (set_fork (fk_store_account D (cc_fork c)
           (account_store_asset (account_or_new D (cc_fork c) account_id) (cc_owner c) val)) c))"

definition hf_remove_asset ::
    "('d, 'f) db_ops \<Rightarrow> string \<Rightarrow> ('w, 'f) call_context \<Rightarrow> ('w, 'f) call_context" where
  "hf_remove_asset D account_id c =
     set_fork (fk_store_account D (cc_fork c)
       (account_remove_asset (account_or_new D (cc_fork c) account_id) (cc_owner c))) c"

definition hf_verify :: "env \<Rightarrow> public_key \<Rightarrow> bytes \<Rightarrow> bytes \<Rightarrow> i32" where
  "hf_verify E pk data sig = (if pk_verify E pk data sig then 1 else 0)"

definition hf_drand :: "host_env \<Rightarrow> u64 \<Rightarrow> ('w, 'f) call_context \<Rightarrow> (('w, 'f) call_context \<times> u64) option" where
  "hf_drand H mx c =
     (case drand_new (mc_seed (cc_mach c)) of
        None \<Rightarrow> None
      | Some d \<Rightarrow>
          (case drand_rand (he_pcg H) d mx of
             None \<Rightarrow> None
           | Some (n, d') \<Rightarrow> Some (c\<lparr>cc_mach := (cc_mach c)\<lparr>mc_seed := dr_seed d'\<rparr>\<rparr>, n)))"

definition hf_get_block_time :: "('w, 'f) call_context \<Rightarrow> u64" where
  "hf_get_block_time c = cc_block_timestamp c"

end
