(* ===== verification/WmLocal.thy ===== *)
theory WmLocal
  imports HostFunc
begin

text \<open>
  The smart contract machine \<open>WmLocal\<close> of \<^verbatim>\<open>src/wm/local.rs\<close>: the cache of compiled modules, the
  trampolines through which a running contract reaches the host functions, and the methods of the trait
  \<open>Wm\<close>.

  The engine (the \<open>wasmtime\<close> crate) is the parameter \<open>T\<close>: compiling, instantiating and invoking a module,
  its exported memory and its fuel counter. Running code of the contract is a \<open>run\<close>: it returns,
  traps, or asks for a host function and continues with the answer and the changed instance. Every
  such computation is finite, because the engine meters fuel.

  A host function may start another contract, or the contract's own allocator, and these may call host
  functions again: each nesting uses the native stack. The argument \<open>n\<close> of \<open>host_fn\<close> and \<open>wm_local_ops\<close> is
  the number of nested levels the stack has room for; beyond it the process dies, \<open>None\<close>.
\<close>

section \<open>The engine\<close>

datatype host_request =
    HfLog i32 i32
  | HfEmit i32 i32 i32 i32
  | HfLoadData i32 i32
  | HfStoreData i32 i32 i32 i32
  | HfGetKeys i32 i32
  | HfIsCallable i32 i32 i32 i32
  | HfRemoveData i32 i32
  | HfStoreAsset i32 i32 i32 i32
  | HfRemoveAsset i32 i32
  | HfLoadAsset i32 i32
  | HfGetAccountContract i32 i32
  | HfVerify i32 i32 i32 i32 i32 i32
  | HfSCall i32 i32 i32 i32 i32 i32 i32 i32
  | HfCall i32 i32 i32 i32 i32 i32
  | HfSha256 i32 i32
  | HfDrand u64
  | HfGetBlockTime

datatype 'i run = Done 'i u64 | Trap 'i string | Host 'i host_request "'i \<Rightarrow> u64 \<Rightarrow> 'i run"

datatype func_type = I32_I32 | I32x4_I64 | I32x4_I32

record ('m, 'i) wasmtime =
  wt_module_new :: "bytes \<Rightarrow> string + 'm"                     \<comment> \<open>\<open>Module::new\<close>\<close>
  wt_imports :: "'m \<Rightarrow> string list"                          \<comment> \<open>names in \<open>Module::imports\<close>\<close>
  wt_instance :: "'m \<Rightarrow> u64 \<Rightarrow> 'i run"                       \<comment> \<open>\<open>Instance::new\<close> on a store with this fuel\<close>
  wt_func :: "'i \<Rightarrow> string \<Rightarrow> bool"                         \<comment> \<open>there is an exported function\<close>
  wt_typed :: "'i \<Rightarrow> string \<Rightarrow> func_type \<Rightarrow> bool"           \<comment> \<open>and it has this type\<close>
  wt_type_error :: string
  wt_invoke :: "'i \<Rightarrow> string \<Rightarrow> i32 list \<Rightarrow> 'i run"          \<comment> \<open>\<open>TypedFunc::call\<close>\<close>
  wt_memory :: "'i \<Rightarrow> bytes option"                          \<comment> \<open>the exported memory\<close>
  wt_write :: "'i \<Rightarrow> nat \<Rightarrow> bytes \<Rightarrow> string + 'i"            \<comment> \<open>\<open>Memory::write\<close>\<close>
  wt_fuel_consumed :: "'i \<Rightarrow> u64"
  wt_consume_fuel :: "u64 \<Rightarrow> 'i \<Rightarrow> string + 'i"

text \<open>A host function gets the instance and the context of the call; it panics, traps or answers.\<close>

type_synonym ('i, 'w, 'f, 'r) host_result = "(('w, 'f) call_context \<times> 'i \<times> (string + 'r)) option"
type_synonym ('i, 'w, 'f) handler =
  "host_request \<Rightarrow> 'i \<Rightarrow> ('w, 'f) call_context \<Rightarrow> ('i, 'w, 'f, u64) host_result"

type_synonym ('i, 'w, 'f) tramp = "'i \<Rightarrow> ('w, 'f) call_context \<Rightarrow> ('i, 'w, 'f, u64) host_result"

primrec drive :: "('i, 'w, 'f) handler \<Rightarrow> 'i run \<Rightarrow> ('w, 'f) call_context \<Rightarrow> ('i, 'w, 'f, u64) host_result" where
  "drive h (Done i v) c = Some (c, i, Inr v)"
| "drive h (Trap i t) c = Some (c, i, Inl t)"
| "drive h (Host i req k) c =
     (case h req i c of
        None \<Rightarrow> None
      | Some (c1, i1, Inl t) \<Rightarrow> Some (c1, i1, Inl t)
      | Some (c1, i1, Inr v) \<Rightarrow> drive h (k i1 v) c1)"

section \<open>Memory\<close>

definition wslice_create :: "i32 \<Rightarrow> i32 \<Rightarrow> u64" where
  "wslice_create offset len =
     or (push_bit 32 (scast offset)) (and (scast len) 0xffffffff)"

definition wslice_split :: "u64 \<Rightarrow> i32 \<times> i32" where
  "wslice_split wslice =
     (ucast (drop_bit 32 (and wslice 0xffffffff00000000)), ucast (and wslice 0xffffffff))"

text \<open>\<open>data.get(offset as usize .. offset as usize + length as usize)\<close>: the casts extend the sign.\<close>

definition get_range :: "i32 \<Rightarrow> i32 \<Rightarrow> bytes \<Rightarrow> bytes option" where
  "get_range offset len data =
     (let start = (scast offset :: u64); stop = start + scast len
      in if start \<le> stop \<and> unat stop \<le> length data
         then Some (take (unat (stop - start)) (drop (unat start) data)) else None)"

definition slice_from :: "bytes \<Rightarrow> i32 \<Rightarrow> i32 \<Rightarrow> string + bytes" where
  "slice_from mem offset len =
     (case get_range offset len mem of Some bs \<Rightarrow> Inr bs | None \<Rightarrow> Inl ''out of bounds memory access'')"

definition mem_from :: "('m, 'i) wasmtime \<Rightarrow> 'i \<Rightarrow> string + bytes" where
  "mem_from T i =
     (case wt_memory T i of
        Some mem \<Rightarrow> Inr mem | None \<Rightarrow> Inl ''failed to get caller's exported memory'')"

definition alloc_mem ::
    "('m, 'i) wasmtime \<Rightarrow> ('i, 'w, 'f) handler \<Rightarrow> i32 \<Rightarrow> 'i \<Rightarrow> ('w, 'f) call_context \<Rightarrow>
     (('w, 'f) call_context \<times> 'i \<times> i32 result) option" where
  "alloc_mem T h sz i c =
     (case drive h (wt_invoke T i ''alloc'' [sz]) c of
        None \<Rightarrow> None
      | Some (c1, i1, Inl t) \<Rightarrow> Some (c1, i1, Inl (error_new_ext WasmMachineFault t))
      | Some (c1, i1, Inr v) \<Rightarrow> Some (c1, i1, Inr (ucast v)))"

definition write_mem ::
    "('m, 'i) wasmtime \<Rightarrow> ('i, 'w, 'f) handler \<Rightarrow> bytes \<Rightarrow> 'i \<Rightarrow> ('w, 'f) call_context \<Rightarrow>
     (('w, 'f) call_context \<times> 'i \<times> i32 result) option" where
  "write_mem T h data i c =
     (case alloc_mem T h (of_nat (length data)) i c of
        None \<Rightarrow> None
      | Some (c1, i1, Inl e) \<Rightarrow> Some (c1, i1, Inl e)
      | Some (c1, i1, Inr offset) \<Rightarrow>
          (case wt_write T i1 (unat (scast offset :: u64)) data of
             Inl t \<Rightarrow> Some (c1, i1, Inl (error_new_ext WasmMachineFault t))
           | Inr i2 \<Rightarrow> Some (c1, i2, Inr offset)))"

definition return_buf ::
    "('m, 'i) wasmtime \<Rightarrow> ('i, 'w, 'f) handler \<Rightarrow> bytes \<Rightarrow> 'i \<Rightarrow> ('w, 'f) call_context \<Rightarrow>
     ('i, 'w, 'f, u64) host_result" where
  "return_buf T h buf i c =
     (if \<not> wt_func T i ''alloc'' then Some (c, i, Inl ''get `alloc` fail'')
      else if \<not> wt_typed T i ''alloc'' I32_I32 then Some (c, i, Inl (wt_type_error T))
      else case write_mem T h buf i c of
             None \<Rightarrow> None
           | Some (c1, i1, Inl _) \<Rightarrow> Some (c1, i1, Inl ''error writing in wasm memory'')
           | Some (c1, i1, Inr offset) \<Rightarrow>
               Some (c1, i1, Inr (wslice_create offset (of_nat (length buf)))))"

section \<open>Trampolines\<close>

text \<open>The parameters of a host function are read from memory first; a failure is a trap.\<close>

definition with_args ::
    "string + 'a \<Rightarrow> 'i \<Rightarrow> ('w, 'f) call_context \<Rightarrow> ('a \<Rightarrow> ('i, 'w, 'f, u64) host_result) \<Rightarrow>
     ('i, 'w, 'f, u64) host_result" where
  "with_args r i c k = (case r of Inl t \<Rightarrow> Some (c, i, Inl t) | Inr x \<Rightarrow> k x)"

definition arg_bytes :: "('m, 'i) wasmtime \<Rightarrow> 'i \<Rightarrow> i32 \<Rightarrow> i32 \<Rightarrow> string + bytes" where
  "arg_bytes T i offset sz = try_bind (mem_from T i) (\<lambda>mem. slice_from mem offset sz)"

definition arg_lossy :: "('m, 'i) wasmtime \<Rightarrow> 'i \<Rightarrow> i32 \<Rightarrow> i32 \<Rightarrow> string + string" where
  "arg_lossy T i offset sz = try_bind (arg_bytes T i offset sz) (\<lambda>buf. Inr (from_utf8_lossy buf))"

definition arg_str :: "('m, 'i) wasmtime \<Rightarrow> 'i \<Rightarrow> i32 \<Rightarrow> i32 \<Rightarrow> string + string" where
  "arg_str T i offset sz = try_bind (arg_bytes T i offset sz) (\<lambda>buf.
     case from_utf8 buf of Some s \<Rightarrow> Inr s | None \<Rightarrow> Inl ''invalid utf-8'')"

definition arg_hash :: "('m, 'i) wasmtime \<Rightarrow> 'i \<Rightarrow> i32 \<Rightarrow> i32 \<Rightarrow> string + hash" where
  "arg_hash T i offset sz = try_bind (arg_bytes T i offset sz) (\<lambda>buf.
     case hash_from_bytes buf of Inr h \<Rightarrow> Inr h | Inl _ \<Rightarrow> Inl ''invalid contract hash'')"

definition tr_log ::
    "('m, 'i) wasmtime \<Rightarrow> i32 \<Rightarrow> i32 \<Rightarrow> ('i, 'w, 'f) tramp" where
  "tr_log T offset sz i c = with_args (arg_lossy T i offset sz) i c (\<lambda>msg. Some (c, i, Inr 0))"

definition tr_emit ::
    "('m, 'i) wasmtime \<Rightarrow> ('d, 'f) db_ops \<Rightarrow>
     i32 \<Rightarrow> i32 \<Rightarrow> i32 \<Rightarrow> i32 \<Rightarrow> ('i, 'w, 'f) tramp" where
  "tr_emit T D no ns do' ds i c =
     with_args (try_bind (arg_str T i no ns) (\<lambda>name.
       try_bind (arg_bytes T i do' ds) (\<lambda>data. Inr (name, data)))) i c
       (\<lambda>(name, data). Some (hf_emit D name data c, i, Inr 0))"

definition tr_load_data ::
    "('m, 'i) wasmtime \<Rightarrow> ('d, 'f) db_ops \<Rightarrow> ('i, 'w, 'f) handler \<Rightarrow>
     i32 \<Rightarrow> i32 \<Rightarrow> ('i, 'w, 'f) tramp" where
  "tr_load_data T D h ko ks i c =
     with_args (arg_str T i ko ks) i c (\<lambda>key. return_buf T h (hf_load_data D key c) i c)"

definition tr_store_data ::
    "('m, 'i) wasmtime \<Rightarrow> ('d, 'f) db_ops \<Rightarrow>
     i32 \<Rightarrow> i32 \<Rightarrow> i32 \<Rightarrow> i32 \<Rightarrow> ('i, 'w, 'f) tramp" where
  "tr_store_data T D ko ks do' ds i c =
     with_args (try_bind (arg_str T i ko ks) (\<lambda>key.
       try_bind (arg_bytes T i do' ds) (\<lambda>data. Inr (key, data)))) i c
       (\<lambda>(key, data). Some (hf_store_data D key data c, i, Inr 0))"

definition tr_remove_data ::
    "('m, 'i) wasmtime \<Rightarrow> ('d, 'f) db_ops \<Rightarrow>
     i32 \<Rightarrow> i32 \<Rightarrow> ('i, 'w, 'f) tramp" where
  "tr_remove_data T D ko ks i c =
     with_args (arg_str T i ko ks) i c (\<lambda>key. Some (hf_remove_data D key c, i, Inr 0))"

definition mp_app_output :: "bool \<Rightarrow> bytes \<Rightarrow> mp_value" where
  "mp_app_output success data = MpArr [MpBool success, MpBin data]"

definition get_keys_error :: string where
  "get_keys_error = ''last char of search pattern must be '' @ [CHR 0x27, CHR ''*'', CHR 0x27]"

text \<open>The pattern has to end in \<open>*\<close>; taking its last byte off panics inside a longer character.\<close>

definition tr_get_keys ::
    "env \<Rightarrow> ('m, 'i) wasmtime \<Rightarrow> ('d, 'f) db_ops \<Rightarrow> ('i, 'w, 'f) handler \<Rightarrow>
     i32 \<Rightarrow> i32 \<Rightarrow> ('i, 'w, 'f) tramp" where
  "tr_get_keys E T D h po ps i c =
     with_args (arg_str T i po ps) i c (\<lambda>pattern.
       if pattern = [] then
         return_buf T h (e_rmp E (mp_app_output False (str_bytes get_keys_error))) i c
       else if \<not> is_char_boundary pattern (length pattern - 1) then None
       else if last pattern \<noteq> CHR ''*'' then
         return_buf T h (e_rmp E (mp_app_output False (str_bytes get_keys_error))) i c
       else return_buf T h (e_rmp E (mp_app_output True
              (e_rmp E (MpArr (map MpStr (hf_get_keys D (butlast pattern) c)))))) i c)"

definition consume ::
    "('m, 'i) wasmtime \<Rightarrow> u64 \<Rightarrow> 'i \<Rightarrow> ('w, 'f) call_context \<Rightarrow> ('i, 'w, 'f) tramp \<Rightarrow>
     ('i, 'w, 'f, u64) host_result" where
  "consume T fuel i c k =
     (case wt_consume_fuel T fuel i of Inl t \<Rightarrow> Some (c, i, Inl t) | Inr i1 \<Rightarrow> k i1 c)"

definition tr_is_callable ::
    "('m, 'i) wasmtime \<Rightarrow> ('d, 'f) db_ops \<Rightarrow>
     i32 \<Rightarrow> i32 \<Rightarrow> i32 \<Rightarrow> i32 \<Rightarrow> ('i, 'w, 'f) tramp" where
  "tr_is_callable T D ao as' mo ms i c =
     with_args (try_bind (arg_str T i ao as') (\<lambda>account.
       try_bind (arg_str T i mo ms) (\<lambda>mthd. Inr (account, mthd)))) i c
       (\<lambda>(account, mthd).
          case hf_is_callable D account mthd (cc_initial_fuel c - wt_fuel_consumed T i) c of
            None \<Rightarrow> None
          | Some (c1, fuel, r) \<Rightarrow>
              consume T fuel i c1 (\<lambda>i1 c2. Some (c2, i1, Inr (case r of Inr v \<Rightarrow> ucast v | Inl _ \<Rightarrow> 0))))"

definition tr_store_asset ::
    "env \<Rightarrow> ('m, 'i) wasmtime \<Rightarrow> ('d, 'f) db_ops \<Rightarrow>
     i32 \<Rightarrow> i32 \<Rightarrow> i32 \<Rightarrow> i32 \<Rightarrow> ('i, 'w, 'f) tramp" where
  "tr_store_asset E T D ao al vo vl i c =
     with_args (try_bind (arg_lossy T i ao al) (\<lambda>account_id.
       try_bind (arg_bytes T i vo vl) (\<lambda>val. Inr (account_id, val)))) i c
       (\<lambda>(account_id, val). Some (hf_store_asset E D account_id val c, i, Inr 0))"

definition tr_remove_asset ::
    "('m, 'i) wasmtime \<Rightarrow> ('d, 'f) db_ops \<Rightarrow>
     i32 \<Rightarrow> i32 \<Rightarrow> ('i, 'w, 'f) tramp" where
  "tr_remove_asset T D ao al i c =
     with_args (arg_lossy T i ao al) i c (\<lambda>account_id. Some (hf_remove_asset D account_id c, i, Inr 0))"

definition tr_load_asset ::
    "('m, 'i) wasmtime \<Rightarrow> ('d, 'f) db_ops \<Rightarrow> ('i, 'w, 'f) handler \<Rightarrow>
     i32 \<Rightarrow> i32 \<Rightarrow> ('i, 'w, 'f) tramp" where
  "tr_load_asset T D h ao as' i c =
     with_args (arg_lossy T i ao as') i c (\<lambda>account_id. return_buf T h (hf_load_asset D account_id c) i c)"

definition tr_get_account_contract ::
    "('m, 'i) wasmtime \<Rightarrow> ('d, 'f) db_ops \<Rightarrow> ('i, 'w, 'f) handler \<Rightarrow>
     i32 \<Rightarrow> i32 \<Rightarrow> ('i, 'w, 'f) tramp" where
  "tr_get_account_contract T D h ao al i c =
     with_args (arg_lossy T i ao al) i c (\<lambda>account_id.
       return_buf T h (case hf_get_account_contract D account_id c of
                         Some hash \<Rightarrow> hash_as_bytes hash | None \<Rightarrow> []) i c)"

definition tr_verify ::
    "env \<Rightarrow> host_env \<Rightarrow> ('m, 'i) wasmtime \<Rightarrow>
     i32 \<Rightarrow> i32 \<Rightarrow> i32 \<Rightarrow> i32 \<Rightarrow> i32 \<Rightarrow> i32 \<Rightarrow> ('i, 'w, 'f) tramp" where
  "tr_verify E H T po pl do' dl so sl i c =
     with_args (try_bind (arg_bytes T i po pl) (\<lambda>buf.
       try_bind (case he_de_public_key H buf of Some pk \<Rightarrow> Inr pk | None \<Rightarrow> Inl ''invalid public key'') (\<lambda>pk.
       try_bind (arg_bytes T i do' dl) (\<lambda>data.
       try_bind (arg_bytes T i so sl) (\<lambda>sig. Inr (pk, data, sig)))))) i c
       (\<lambda>(pk, data, sig). Some (c, i, Inr (ucast (hf_verify E pk data sig))))"

text \<open>What \<open>call\<close> and \<open>s_call\<close> do with their arguments.\<close>

definition nested_call ::
    "env \<Rightarrow> ('m, 'i) wasmtime \<Rightarrow> ('i, 'w, 'f) handler \<Rightarrow> string \<Rightarrow> hash option \<Rightarrow> string \<Rightarrow> bytes \<Rightarrow>
     ('i, 'w, 'f) tramp" where
  "nested_call E T h account contract mthd args i c =
     (case hf_call account contract mthd args (cc_initial_fuel c - wt_fuel_consumed T i) c of
        None \<Rightarrow> None
      | Some (c1, fuel, r) \<Rightarrow>
          (case (case r of
                   Inr buf \<Rightarrow> Some (e_rmp E (mp_app_output True buf))
                 | Inl err \<Rightarrow> map_option (\<lambda>msg. e_rmp E (mp_app_output False (str_bytes msg)))
                     (error_to_string_full err)) of
             None \<Rightarrow> None
           | Some buf \<Rightarrow> consume T fuel i c1 (\<lambda>i1 c2. return_buf T h buf i1 c2)))"

definition tr_call ::
    "env \<Rightarrow> ('m, 'i) wasmtime \<Rightarrow> ('i, 'w, 'f) handler \<Rightarrow>
     i32 \<Rightarrow> i32 \<Rightarrow> i32 \<Rightarrow> i32 \<Rightarrow> i32 \<Rightarrow> i32 \<Rightarrow> ('i, 'w, 'f) tramp" where
  "tr_call E T h ao as' mo ms go gs i c =
     with_args (try_bind (arg_lossy T i ao as') (\<lambda>account.
       try_bind (arg_lossy T i mo ms) (\<lambda>mthd.
       try_bind (arg_bytes T i go gs) (\<lambda>args. Inr (account, mthd, args))))) i c
       (\<lambda>(account, mthd, args). nested_call E T h account None mthd args i c)"

definition tr_s_call ::
    "env \<Rightarrow> ('m, 'i) wasmtime \<Rightarrow> ('i, 'w, 'f) handler \<Rightarrow>
     i32 \<Rightarrow> i32 \<Rightarrow> i32 \<Rightarrow> i32 \<Rightarrow> i32 \<Rightarrow> i32 \<Rightarrow> i32 \<Rightarrow> i32 \<Rightarrow> ('i, 'w, 'f) tramp" where
  "tr_s_call E T h ao as' co cs mo ms go gs i c =
     with_args (try_bind (arg_lossy T i ao as') (\<lambda>account.
       try_bind (arg_hash T i co cs) (\<lambda>contract.
       try_bind (arg_lossy T i mo ms) (\<lambda>mthd.
       try_bind (arg_bytes T i go gs) (\<lambda>args. Inr (account, contract, mthd, args)))))) i c
       (\<lambda>(account, contract, mthd, args). nested_call E T h account (Some contract) mthd args i c)"

definition tr_sha256 ::
    "env \<Rightarrow> ('m, 'i) wasmtime \<Rightarrow> ('i, 'w, 'f) handler \<Rightarrow>
     i32 \<Rightarrow> i32 \<Rightarrow> ('i, 'w, 'f) tramp" where
  "tr_sha256 E T h do' ds i c =
     with_args (arg_bytes T i do' ds) i c (\<lambda>data. return_buf T h (hf_sha256 E data) i c)"

definition tr_drand :: "host_env \<Rightarrow> u64 \<Rightarrow> ('i, 'w, 'f) tramp" where
  "tr_drand H mx i c =
     (case hf_drand H mx c of None \<Rightarrow> None | Some (c1, n) \<Rightarrow> Some (c1, i, Inr n))"

definition tr_get_block_time :: "('i, 'w, 'f) tramp" where
  "tr_get_block_time i c = Some (c, i, Inr (hf_get_block_time c))"

fun trampoline ::
    "env \<Rightarrow> host_env \<Rightarrow> ('m, 'i) wasmtime \<Rightarrow> ('d, 'f) db_ops \<Rightarrow> ('i, 'w, 'f) handler \<Rightarrow> ('i, 'w, 'f) handler"
where
  "trampoline E H T D h (HfLog o1 s1) = tr_log T o1 s1"
| "trampoline E H T D h (HfEmit o1 s1 o2 s2) = tr_emit T D o1 s1 o2 s2"
| "trampoline E H T D h (HfLoadData o1 s1) = tr_load_data T D h o1 s1"
| "trampoline E H T D h (HfStoreData o1 s1 o2 s2) = tr_store_data T D o1 s1 o2 s2"
| "trampoline E H T D h (HfGetKeys o1 s1) = tr_get_keys E T D h o1 s1"
| "trampoline E H T D h (HfIsCallable o1 s1 o2 s2) = tr_is_callable T D o1 s1 o2 s2"
| "trampoline E H T D h (HfRemoveData o1 s1) = tr_remove_data T D o1 s1"
| "trampoline E H T D h (HfStoreAsset o1 s1 o2 s2) = tr_store_asset E T D o1 s1 o2 s2"
| "trampoline E H T D h (HfRemoveAsset o1 s1) = tr_remove_asset T D o1 s1"
| "trampoline E H T D h (HfLoadAsset o1 s1) = tr_load_asset T D h o1 s1"
| "trampoline E H T D h (HfGetAccountContract o1 s1) = tr_get_account_contract T D h o1 s1"
| "trampoline E H T D h (HfVerify o1 s1 o2 s2 o3 s3) = tr_verify E H T o1 s1 o2 s2 o3 s3"
| "trampoline E H T D h (HfSCall o1 s1 o2 s2 o3 s3 o4 s4) = tr_s_call E T h o1 s1 o2 s2 o3 s3 o4 s4"
| "trampoline E H T D h (HfCall o1 s1 o2 s2 o3 s3) = tr_call E T h o1 s1 o2 s2 o3 s3"
| "trampoline E H T D h (HfSha256 o1 s1) = tr_sha256 E T h o1 s1"
| "trampoline E H T D h (HfDrand mx) = tr_drand H mx"
| "trampoline E H T D h HfGetBlockTime = tr_get_block_time"

fun host_fn ::
    "env \<Rightarrow> host_env \<Rightarrow> ('m, 'i) wasmtime \<Rightarrow> ('d, 'f) db_ops \<Rightarrow> nat \<Rightarrow> ('i, 'w, 'f) handler" where
  "host_fn E H T D 0 = (\<lambda>_ _ _. None)"
| "host_fn E H T D (Suc n) = trampoline E H T D (host_fn E H T D n)"

definition host_names :: "string list" where
  "host_names =
     [''hf_log'', ''hf_emit'', ''hf_load_data'', ''hf_store_data'', ''hf_remove_data'', ''hf_is_callable'',
      ''hf_load_asset'', ''hf_store_asset'', ''hf_remove_asset'', ''hf_get_account_contract'', ''hf_get_keys'',
      ''hf_call'', ''hf_s_call'', ''hf_verify'', ''hf_sha256'', ''hf_drand'', ''hf_get_block_time'']"

definition host_functions_register :: "string list \<Rightarrow> unit result" where
  "host_functions_register imports =
     (if list_all (\<lambda>name. name \<in> set host_names) imports then Inr ()
      else Inl (error_new_ext NotImplemented ''wasm import not found''))"

section \<open>The cache\<close>

record 'm cached_module =
  cm_module :: 'm
  cm_last_used :: u64

text \<open>The entries are listed in the order in which the hash map iterates; it only decides between
  entries of the same age. \<open>wl_reads\<close> counts the readings of the clock.\<close>

record 'm wm_local =
  wl_cache :: "(hash \<times> 'm cached_module) list"
  wl_cache_max :: nat
  wl_reads :: nat

definition wm_local_new :: "nat \<Rightarrow> 'm wm_local option" where
  "wm_local_new cache_max =
     (if cache_max = 0 then None else Some \<lparr>wl_cache = [], wl_cache_max = cache_max, wl_reads = 0\<rparr>)"

fun older :: "hash \<times> 'm cached_module \<Rightarrow> (hash \<times> 'm cached_module) list \<Rightarrow> hash \<times> 'm cached_module" where
  "older e [] = e"
| "older e (cur # es) =
     older (if cm_last_used (snd cur) < cm_last_used (snd e) then cur else e) es"

definition evict :: "'m wm_local \<Rightarrow> 'm wm_local" where
  "evict w =
     (case wl_cache w of
        [] \<Rightarrow> w
      | e # es \<Rightarrow>
          if wl_cache_max w < length (wl_cache w)
          then w\<lparr>wl_cache := AList.delete (fst (older e es)) (wl_cache w)\<rparr> else w)"

definition code_key :: "env \<Rightarrow> hash \<Rightarrow> string" where
  "code_key E target = ''contracts:code:'' @ e_hex E (hash_as_bytes target)"

definition load_module ::
    "env \<Rightarrow> ('m, 'i) wasmtime \<Rightarrow> ('d, 'f) db_ops \<Rightarrow> 'f \<Rightarrow> hash \<Rightarrow> 'm wm_local \<Rightarrow> 'm wm_local \<times> unit result" where
  "load_module E T D f target w =
     (let w1 = evict w
      in case fk_load_account_data D f SERVICE_ACCOUNT_ID (code_key E target) of
           None \<Rightarrow> (w1, Inl (error_new_ext ResourceNotFound ''smart contract not found''))
         | Some wasm_bin \<Rightarrow>
             (case wt_module_new T wasm_bin of
                Inl err \<Rightarrow> (w1, Inl (error_new_ext Other err))
              | Inr m \<Rightarrow>
                  (w1\<lparr>wl_cache := AList.update target \<lparr>cm_module = m, cm_last_used = 0\<rparr> (wl_cache w1)\<rparr>, Inr ())))"

definition touch :: "host_env \<Rightarrow> hash \<Rightarrow> 'm cached_module \<Rightarrow> 'm wm_local \<Rightarrow> 'm wm_local" where
  "touch H target entry w =
     w\<lparr>wl_cache := AList.update target (entry\<lparr>cm_last_used := he_now H (wl_reads w)\<rparr>) (wl_cache w),
       wl_reads := Suc (wl_reads w)\<rparr>"

definition get_module ::
    "env \<Rightarrow> host_env \<Rightarrow> ('m, 'i) wasmtime \<Rightarrow> ('d, 'f) db_ops \<Rightarrow> 'f \<Rightarrow> hash \<Rightarrow> 'm wm_local \<Rightarrow>
     'm wm_local \<times> 'm result" where
  "get_module E H T D f target w =
     (let (w1, r) = (if map_of (wl_cache w) target = None then load_module E T D f target w else (w, Inr ()))
      in case r of
           Inl e \<Rightarrow> (w1, Inl e)
         | Inr _ \<Rightarrow>
             (let entry = the (map_of (wl_cache w1) target)
              in (touch H target entry w1, Inr (cm_module entry))))"

section \<open>Running a contract\<close>

definition mp_app_input :: "call_args \<Rightarrow> string \<Rightarrow> mp_value" where
  "mp_app_input a mthd =
     MpArr [MpUInt (unat (ca_depth a)), MpStr (ca_network a), MpStr (ca_owner a), MpStr (ca_caller a),
            MpStr mthd, MpStr (ca_origin a)]"

definition call_ctx ::
    "call_args \<Rightarrow> smart_contract_event list \<Rightarrow> ('w, 'f) mach \<Rightarrow> ('w, 'f) call_context" where
  "call_ctx a evs m =
     \<lparr>cc_wm = None, cc_mach = m, cc_owner = ca_owner a, cc_data_updated = False, cc_depth = ca_depth a,
      cc_network = ca_network a, cc_origin = ca_origin a, cc_events = evs,
      cc_initial_fuel = ca_initial_fuel a, cc_block_timestamp = ca_block_timestamp a,
      cc_method = ca_method a\<rparr>"

text \<open>\<open>unwrap_or_return!\<close>: an error ends the call with a fuel consumption of zero.\<close>

definition or_return ::
    "(('w, 'f) call_context \<times> 'i \<times> 'a result) option \<Rightarrow>
     ('a \<Rightarrow> 'i \<Rightarrow> ('w, 'f) call_context \<Rightarrow> ('w, 'f, 'r) wm_result) \<Rightarrow> ('w, 'f, 'r) wm_result" where
  "or_return x k =
     (case x of
        None \<Rightarrow> None
      | Some (c, i, Inl e) \<Rightarrow> Some (cc_mach c, cc_events c, 0, Inl e)
      | Some (c, i, Inr v) \<Rightarrow> k v i c)"

definition check :: "bool \<Rightarrow> error \<Rightarrow> 'i \<Rightarrow> ('w, 'f) call_context \<Rightarrow> (('w, 'f) call_context \<times> 'i \<times> unit result) option" where
  "check b e i c = Some (c, i, if b then Inr () else Inl e)"

definition faulting ::
    "('i, 'w, 'f, u64) host_result \<Rightarrow> (('w, 'f) call_context \<times> 'i \<times> u64 result) option" where
  "faulting x =
     (case x of
        None \<Rightarrow> None
      | Some (c, i, Inl t) \<Rightarrow> Some (c, i, Inl (error_new_ext WasmMachineFault t))
      | Some (c, i, Inr v) \<Rightarrow> Some (c, i, Inr v))"

text \<open>From the allocator to the invocation of the entry point: the arguments and the input (which
  names the method \<open>imethod\<close>) are written to the memory; \<open>k\<close> is what follows the invocation.\<close>

definition run_entry ::
    "env \<Rightarrow> ('m, 'i) wasmtime \<Rightarrow> ('i, 'w, 'f) handler \<Rightarrow> call_args \<Rightarrow> string \<Rightarrow> string \<Rightarrow> func_type \<Rightarrow> string \<Rightarrow>
     (u64 \<Rightarrow> 'i \<Rightarrow> ('w, 'f) call_context \<Rightarrow> ('w, 'f, 'r) wm_result) \<Rightarrow>
     'i \<Rightarrow> ('w, 'f) call_context \<Rightarrow> ('w, 'f, 'r) wm_result" where
  "run_entry E T h a imethod entry ftype missing k i0 c0 =
     or_return (check (wt_typed T i0 ''alloc'' I32_I32)
       (error_new_ext ResourceNotFound ''wasm `alloc` not found'') i0 c0) (\<lambda>_ i1 c1.
     or_return (check (wt_memory T i1 \<noteq> None)
       (error_new_ext ResourceNotFound ''wasm `memory` not found'') i1 c1) (\<lambda>_ i2 c2.
     or_return (write_mem T h (ca_args a) i2 c2) (\<lambda>args_addr i3 c3.
     or_return (write_mem T h (e_rmp E (mp_app_input a imethod)) i3 c3) (\<lambda>input_addr i4 c4.
     or_return (check (wt_typed T i4 entry ftype) (error_new_ext ResourceNotFound missing) i4 c4) (\<lambda>_ i5 c5.
     or_return (faulting (drive h (wt_invoke T i5 entry
        [input_addr, of_nat (length (e_rmp E (mp_app_input a imethod))), args_addr,
         of_nat (length (ca_args a))]) c5)) k)))))"

text \<open>The whole call: the module, its imports, the instance (whose start function runs without access to
  nested calls), then the entry point, with the machine itself (\<open>W\<close>) available to it.\<close>

definition invoke ::
    "env \<Rightarrow> host_env \<Rightarrow> ('m, 'i) wasmtime \<Rightarrow> ('d, 'f) db_ops \<Rightarrow> ('i, 'm wm_local, 'f) handler \<Rightarrow>
     ('m wm_local, 'f) wm_ops \<Rightarrow> string \<Rightarrow> string \<Rightarrow> func_type \<Rightarrow> string \<Rightarrow>
     (u64 \<Rightarrow> 'i \<Rightarrow> ('m wm_local, 'f) call_context \<Rightarrow> ('m wm_local, 'f, 'r) wm_result) \<Rightarrow>
     call_args \<Rightarrow> smart_contract_event list \<Rightarrow> ('m wm_local, 'f) mach \<Rightarrow> ('m wm_local, 'f, 'r) wm_result" where
  "invoke E H T D h W imethod entry ftype missing k a evs m =
     (case get_module E H T D (mc_fork m) (ca_contract a) (mc_wm m) of
        (w1, Inl e) \<Rightarrow> Some (m\<lparr>mc_wm := w1\<rparr>, evs, 0, Inl e)
      | (w1, Inr md) \<Rightarrow>
          (case host_functions_register (wt_imports T md) of
             Inl e \<Rightarrow> Some (m\<lparr>mc_wm := w1\<rparr>, evs, 0, Inl e)
           | Inr _ \<Rightarrow>
               or_return (faulting (drive h (wt_instance T md (ca_initial_fuel a))
                            (call_ctx a evs (m\<lparr>mc_wm := w1\<rparr>)))) (\<lambda>_ i c.
               run_entry E T h a imethod entry ftype missing k i (c\<lparr>cc_wm := Some W\<rparr>))))"

text \<open>After the invocation: the hash of the owner's data is brought up to date.\<close>

definition update_data_hash ::
    "('d, 'f) db_ops \<Rightarrow> 'i \<Rightarrow> ('w, 'f) call_context \<Rightarrow> (('w, 'f) call_context \<times> 'i \<times> unit result) option" where
  "update_data_hash D i c =
     (if \<not> cc_data_updated c then Some (c, i, Inr ())
      else case fk_load_account D (cc_fork c) (cc_owner c) of
             None \<Rightarrow> Some (c, i, Inl (error_new_ext WasmMachineFault ''inconsistent state''))
           | Some account \<Rightarrow>
               Some (set_fork (fk_store_account D (cc_fork c)
                       (account\<lparr>ac_data_hash := Some (fk_state_hash D (cc_fork c) (ac_id account))\<rparr>)) c, i, Inr ()))"

definition wm_local_call ::
    "env \<Rightarrow> host_env \<Rightarrow> ('m, 'i) wasmtime \<Rightarrow> ('d, 'f) db_ops \<Rightarrow> ('i, 'm wm_local, 'f) handler \<Rightarrow>
     ('m wm_local, 'f) wm_ops \<Rightarrow> call_args \<Rightarrow> smart_contract_event list \<Rightarrow> ('m wm_local, 'f) mach \<Rightarrow>
     ('m wm_local, 'f, bytes) wm_result" where
  "wm_local_call E H T D h W a =
     invoke E H T D h W (ca_method a) ''run'' I32x4_I64 ''wasm `run` not found'' (\<lambda>wslice i c.
       let consumed_fuel = wt_fuel_consumed T i in
       or_return (update_data_hash D i c) (\<lambda>_ i c.
         let (offset, len) = wslice_split wslice in
         case get_range offset len (case wt_memory T i of Some mem \<Rightarrow> mem | None \<Rightarrow> []) of
           None \<Rightarrow> Some (cc_mach c, cc_events c, 0, Inl (error_new_ext WasmMachineFault ''out of bounds memory access''))
         | Some buf \<Rightarrow>
             Some (cc_mach c, cc_events c, consumed_fuel,
                   case he_de_app_output H buf of
                     Inr (True, data) \<Rightarrow> Inr data
                   | Inr (False, data) \<Rightarrow> Inl (error_new_ext SmartContractFault (from_utf8_lossy data))
                   | Inl err \<Rightarrow> Inl (error_new_ext SmartContractFault err)))) a"

definition wm_local_callable_call ::
    "env \<Rightarrow> host_env \<Rightarrow> ('m, 'i) wasmtime \<Rightarrow> ('d, 'f) db_ops \<Rightarrow> ('i, 'm wm_local, 'f) handler \<Rightarrow>
     ('m wm_local, 'f) wm_ops \<Rightarrow> call_args \<Rightarrow> smart_contract_event list \<Rightarrow> ('m wm_local, 'f) mach \<Rightarrow>
     ('m wm_local, 'f, i32) wm_result" where
  "wm_local_callable_call E H T D h W a =
     invoke E H T D h W ''is_callable'' ''is_callable'' I32x4_I32 ''wasm `is_callable` not found'' (\<lambda>v i c.
       let consumed_fuel = wt_fuel_consumed T i in
       or_return (update_data_hash D i c) (\<lambda>_ i c.
         Some (cc_mach c, cc_events c, consumed_fuel, Inr (ucast v)))) a"

definition mp_contract_updatable_args :: "string \<Rightarrow> bytes \<Rightarrow> bytes \<Rightarrow> mp_value" where
  "mp_contract_updatable_args account current new = MpArr [MpStr account, MpBin current, MpBin new]"

definition hash_or_empty :: "hash option \<Rightarrow> bytes" where
  "hash_or_empty h = (case h of Some h \<Rightarrow> hash_as_bytes h | None \<Rightarrow> [])"

definition wm_local_contract_updatable ::
    "env \<Rightarrow> host_env \<Rightarrow> ('m, 'i) wasmtime \<Rightarrow> ('d, 'f) db_ops \<Rightarrow> ('i, 'm wm_local, 'f) handler \<Rightarrow>
     ('m wm_local, 'f) wm_ops \<Rightarrow> check_hash_args \<Rightarrow> ctx_args \<Rightarrow> u64 \<Rightarrow> ('m wm_local, 'f) mach \<Rightarrow>
     (('m wm_local, 'f) mach \<times> bool) option" where
  "wm_local_contract_updatable E H T D h W ch cx ts m =
     (case Option.bind (fk_load_account D (mc_fork m) SERVICE_ACCOUNT_ID) ac_contract of
        None \<Rightarrow> Some (m, False)
      | Some contract \<Rightarrow>
          (case wm_local_call E H T D h W
                  \<lparr>ca_depth = 0, ca_network = [], ca_origin = cx_origin cx, ca_owner = SERVICE_ACCOUNT_ID,
                   ca_caller = cx_caller cx, ca_contract = contract, ca_method = ''contract_updatable'',
                   ca_args = e_rmp E (mp_contract_updatable_args (ch_account ch)
                     (hash_or_empty (ch_current_hash ch)) (hash_or_empty (ch_new_hash ch))),
                   ca_initial_fuel = MAX_FUEL, ca_block_timestamp = ts\<rparr> [] m of
             None \<Rightarrow> None
           | Some (m1, _, _, Inr val) \<Rightarrow>
               Some (m1, case he_de_bool H val of Some b \<Rightarrow> b | None \<Rightarrow> False)
           | Some (m1, _, _, Inl _) \<Rightarrow> Some (m1, False)))"

definition wm_local_app_hash_check ::
    "env \<Rightarrow> host_env \<Rightarrow> ('m, 'i) wasmtime \<Rightarrow> ('d, 'f) db_ops \<Rightarrow> ('i, 'm wm_local, 'f) handler \<Rightarrow>
     ('m wm_local, 'f) wm_ops \<Rightarrow> hash option \<Rightarrow> ctx_args \<Rightarrow> u64 \<Rightarrow> ('m wm_local, 'f) mach \<Rightarrow>
     (('m wm_local, 'f) mach \<times> hash result) option" where
  "wm_local_app_hash_check E H T D h W app_hash0 cx ts m =
     (let account = account_or_new D (mc_fork m) (cx_owner cx)
      in if ac_contract account \<noteq> app_hash0 then
           (let app_hash = (if ac_contract account \<noteq> None \<and> app_hash0 = None then ac_contract account else app_hash0)
            in case (if ac_contract account = app_hash then Some (m, True)
                     else wm_local_contract_updatable E H T D h W
                            \<lparr>ch_account = cx_owner cx, ch_current_hash = ac_contract account,
                             ch_new_hash = app_hash\<rparr> cx ts m) of
                 None \<Rightarrow> None
               | Some (m1, True) \<Rightarrow>
                   Some (m1\<lparr>mc_fork := fk_store_account D (mc_fork m1) (account\<lparr>ac_contract := app_hash\<rparr>)\<rparr>,
                         Inr (case app_hash of Some h \<Rightarrow> h | None \<Rightarrow> hash_default))
               | Some (m1, False) \<Rightarrow>
                   Some (m1, Inl (error_new_ext InvalidContract ''cannot bind the contract to the account'')))
         else case app_hash0 of
                Some h \<Rightarrow> Some (m, Inr h)
              | None \<Rightarrow> Some (m, Inl (error_new_ext ResourceNotFound ''smart contract not specified'')))"

text \<open>The machine as seen through the trait. What a running contract calls back is one level deeper.\<close>

fun wm_local_ops :: "env \<Rightarrow> host_env \<Rightarrow> ('m, 'i) wasmtime \<Rightarrow> ('d, 'f) db_ops \<Rightarrow> nat \<Rightarrow> ('m wm_local, 'f) wm_ops" where
  "wm_local_ops E H T D 0 =
     \<lparr>wm_call = (\<lambda>_ _ _. None), wm_callable_call = (\<lambda>_ _ _. None), wm_app_hash_check = (\<lambda>_ _ _ _. None),
      wm_contract_updatable = (\<lambda>_ _ _ _. None)\<rparr>"
| "wm_local_ops E H T D (Suc n) =
     (let h = host_fn E H T D n; W = wm_local_ops E H T D n
      in \<lparr>wm_call = wm_local_call E H T D h W, wm_callable_call = wm_local_callable_call E H T D h W,
          wm_app_hash_check = wm_local_app_hash_check E H T D h W,
          wm_contract_updatable = wm_local_contract_updatable E H T D h W\<rparr>)"

end
