(* ===== verification/Contracts.thy ===== *)
theory Contracts
  imports WmLocal
begin

text \<open>
  What the machine \<open>WmLocal\<close> guarantees, however contracts call each other. A relation \<open>R\<close> between forks that the
  primitive writes of a contract respect (locale \<open>machine_frame\<close>) is respected by every call. The writes may depend
  on the account the contract runs for; if some accounts are not \<open>allowed\<close>, this needs contracts that do not call
  them. With the relation that allows every write to accounts and their data, this is the contract the executor relies on
  (\<open>wm_contract\<close>); theory \<open>Assets\<close> uses a finer one.
\<close>

section \<open>Contracts that do not call some accounts\<close>

text \<open>The account that a request for a nested call names, read from the contract's memory.\<close>

definition calls_allowed :: "('m, 'i) wasmtime \<Rightarrow> (string \<Rightarrow> bool) \<Rightarrow> 'i \<Rightarrow> host_request \<Rightarrow> bool" where
  "calls_allowed T allowed i req =
     (case req of
        HfIsCallable ao al _ _ \<Rightarrow> (case arg_str T i ao al of Inr account \<Rightarrow> allowed account | Inl _ \<Rightarrow> True)
      | HfCall ao al _ _ _ _ \<Rightarrow> (case arg_lossy T i ao al of Inr account \<Rightarrow> allowed account | Inl _ \<Rightarrow> True)
      | HfSCall ao al _ _ _ _ _ _ \<Rightarrow> (case arg_lossy T i ao al of Inr account \<Rightarrow> allowed account | Inl _ \<Rightarrow> True)
      | _ \<Rightarrow> True)"

primrec tame_run :: "('m, 'i) wasmtime \<Rightarrow> (string \<Rightarrow> bool) \<Rightarrow> 'i run \<Rightarrow> bool" where
  "tame_run T allowed (Done i v) = True"
| "tame_run T allowed (Trap i t) = True"
| "tame_run T allowed (Host i req k) = (calls_allowed T allowed i req \<and> (\<forall>i1 v. tame_run T allowed (k i1 v)))"

definition tame :: "('m, 'i) wasmtime \<Rightarrow> (string \<Rightarrow> bool) \<Rightarrow> bool" where
  "tame T allowed \<longleftrightarrow> (\<forall>i name args. tame_run T allowed (wt_invoke T i name args)) \<and>
     (\<forall>md fuel. tame_run T allowed (wt_instance T md fuel))"

lemma calls_allowed_all [simp]: "calls_allowed T (\<lambda>_. True) i req"
  by (simp add: calls_allowed_def split: host_request.split sum.split)

lemma tame_all [simp]: "tame T (\<lambda>_. True)"
proof -
  have "tame_run T (\<lambda>_. True) r" for r by (induction r) auto
  then show ?thesis by (simp add: tame_def)
qed

section \<open>The reach of a contract\<close>

definition ctx_step :: "('f \<Rightarrow> 'f \<Rightarrow> bool) \<Rightarrow> ('w, 'f) call_context \<Rightarrow> ('w, 'f) call_context \<Rightarrow> bool" where
  "ctx_step R c c' \<longleftrightarrow> cc_wm c' = cc_wm c \<and> cc_owner c' = cc_owner c \<and> R (cc_fork c) (cc_fork c')"

definition ops_ok :: "('f \<Rightarrow> 'f \<Rightarrow> bool) \<Rightarrow> (string \<Rightarrow> bool) \<Rightarrow> ('w, 'f) wm_ops \<Rightarrow> bool" where
  "ops_ok R allowed W \<longleftrightarrow>
     (\<forall>a evs m m' evs' fuel r. wm_call W a evs m = Some (m', evs', fuel, r) \<longrightarrow> allowed (ca_owner a) \<longrightarrow>
        R (mc_fork m) (mc_fork m')) \<and>
     (\<forall>a evs m m' evs' fuel r. wm_callable_call W a evs m = Some (m', evs', fuel, r) \<longrightarrow> allowed (ca_owner a) \<longrightarrow>
        R (mc_fork m) (mc_fork m')) \<and>
     (\<forall>c cx ts m m' r. wm_app_hash_check W c cx ts m = Some (m', r) \<longrightarrow> R (mc_fork m) (mc_fork m'))"

definition ctx_ok :: "('f \<Rightarrow> 'f \<Rightarrow> bool) \<Rightarrow> (string \<Rightarrow> bool) \<Rightarrow> ('w, 'f) call_context \<Rightarrow> bool" where
  "ctx_ok R allowed c \<longleftrightarrow> allowed (cc_owner c) \<and> (case cc_wm c of None \<Rightarrow> True | Some W \<Rightarrow> ops_ok R allowed W)"

definition handler_ok ::
    "('m, 'i) wasmtime \<Rightarrow> ('f \<Rightarrow> 'f \<Rightarrow> bool) \<Rightarrow> (string \<Rightarrow> bool) \<Rightarrow> ('i, 'w, 'f) handler \<Rightarrow> bool" where
  "handler_ok T R allowed h \<longleftrightarrow>
     (\<forall>req i c c' i' r. ctx_ok R allowed c \<longrightarrow> calls_allowed T allowed i req \<longrightarrow> h req i c = Some (c', i', r) \<longrightarrow>
        ctx_step R c c')"

definition result_ok :: "('f \<Rightarrow> 'f \<Rightarrow> bool) \<Rightarrow> 'f \<Rightarrow> ('w, 'f, 'r) wm_result \<Rightarrow> bool" where
  "result_ok R f x \<longleftrightarrow> (\<forall>m evs fuel r. x = Some (m, evs, fuel, r) \<longrightarrow> R f (mc_fork m))"

text \<open>What the relation has to respect: each write that a contract can cause. The last one is that of
  \<open>app_hash_check\<close>, which stores the account as it was before the service contract was asked.\<close>

locale machine_frame =
  fixes E :: env and T :: "('m, 'i) wasmtime" and D :: "('d, 'f) db_ops" and R :: "'f \<Rightarrow> 'f \<Rightarrow> bool"
    and allowed :: "string \<Rightarrow> bool"
  assumes R_refl: "R f f"
    and R_trans: "R f g \<Longrightarrow> R g g' \<Longrightarrow> R f g'"
    and R_store_data: "R f (fk_store_account_data D f own key val)"
    and R_remove_data: "R f (fk_remove_account_data D f own key)"
    and R_store_asset: "allowed own \<Longrightarrow> R f (fk_store_account D f (account_store_asset (account_or_new D f aid) own val))"
    and R_remove_asset: "allowed own \<Longrightarrow> R f (fk_store_account D f (account_remove_asset (account_or_new D f aid) own))"
    and R_data_hash: "fk_load_account D f own = Some acc \<Longrightarrow> R f (fk_store_account D f (acc\<lparr>ac_data_hash := hsh\<rparr>))"
    and R_bind: "R f g \<Longrightarrow> R f (fk_store_account D g ((account_or_new D f own)\<lparr>ac_contract := cn\<rparr>))"
    and service_allowed: "allowed SERVICE_ACCOUNT_ID"
    and tame: "tame T allowed"
begin

lemma result_okD:
  "result_ok R f x \<Longrightarrow> x = Some (m, evs, fuel, r) \<Longrightarrow> R f (mc_fork m)"
  unfolding result_ok_def by blast

lemma ctx_step_refl [simp]: "ctx_step R c c"
  by (simp add: ctx_step_def R_refl)

lemma ctx_step_trans: "ctx_step R a b \<Longrightarrow> ctx_step R b c \<Longrightarrow> ctx_step R a c"
  by (auto simp: ctx_step_def intro: R_trans)

lemma ctx_step_ok: "ctx_step R c c' \<Longrightarrow> ctx_ok R allowed c \<Longrightarrow> ctx_ok R allowed c'"
  by (simp add: ctx_step_def ctx_ok_def)

lemma ops_okD:
  assumes "ops_ok R allowed W"
  shows "wm_call W a evs m = Some (m', evs', fuel, r1) \<Longrightarrow> allowed (ca_owner a) \<Longrightarrow> R (mc_fork m) (mc_fork m')"
    and "wm_callable_call W a evs m = Some (m', evs', fuel, r2) \<Longrightarrow> allowed (ca_owner a) \<Longrightarrow> R (mc_fork m) (mc_fork m')"
    and "wm_app_hash_check W cn cx ts m = Some (m', r3) \<Longrightarrow> R (mc_fork m) (mc_fork m')"
  using assms unfolding ops_ok_def by blast+

subsection \<open>Running code\<close>

text \<open>What holds of the host functions holds of every computation that uses them.\<close>

lemma tame_parts: "tame_run T allowed (wt_invoke T i name args)" "tame_run T allowed (wt_instance T md fuel)"
  using tame by (auto simp: tame_def)

lemma drive_step:
  assumes "handler_ok T R allowed h" and "drive h r c = Some (c', i', v)" and "ctx_ok R allowed c"
    and "tame_run T allowed r"
  shows "ctx_step R c c'"
  using assms(2-4)
proof (induction r arbitrary: c)
  case (Host i req k)
  from Host.prems obtain c1 i1 r1 where 1: "h req i c = Some (c1, i1, r1)"
    by (auto split: option.splits)
  from Host.prems(3) have calls: "calls_allowed T allowed i req" and rest: "tame_run T allowed (k i1 v1)" for v1
    by simp_all
  from assms(1) Host.prems(2) calls 1 have step: "ctx_step R c c1" unfolding handler_ok_def by blast
  show ?case
  proof (cases r1)
    case (Inl t)
    with Host.prems 1 step show ?thesis by simp
  next
    case (Inr v1)
    with Host.prems 1 have "drive h (k i1 v1) c1 = Some (c', i', v)" by simp
    from Host.IH [OF rangeI rangeI this ctx_step_ok [OF step Host.prems(2)] rest] have "ctx_step R c1 c'" .
    with step show ?thesis by (rule ctx_step_trans)
  qed
qed simp_all

lemma alloc_mem_step:
  assumes "handler_ok T R allowed h" and "alloc_mem T h sz i c = Some (c', i', r)" and "ctx_ok R allowed c"
  shows "ctx_step R c c'"
  using assms(2,3)
  by (auto simp: alloc_mem_def split: option.splits sum.splits intro: drive_step [OF assms(1) _ _ tame_parts(1)])

lemma write_mem_step:
  assumes "handler_ok T R allowed h" and "write_mem T h buf i c = Some (c', i', r)" and "ctx_ok R allowed c"
  shows "ctx_step R c c'"
  using assms(2,3)
  by (auto simp: write_mem_def split: option.splits sum.splits intro: alloc_mem_step [OF assms(1)])

lemma return_buf_step:
  assumes "handler_ok T R allowed h" and "return_buf T h buf i c = Some (c', i', r)" and "ctx_ok R allowed c"
  shows "ctx_step R c c'"
  using assms(2,3)
  by (auto simp: return_buf_def split: option.splits sum.splits if_splits intro: write_mem_step [OF assms(1)])

lemma nested_step:
  assumes run: "\<And>W a evs m m' evs' fuel r. ops_ok R allowed W \<Longrightarrow> run W a evs m = Some (m', evs', fuel, r) \<Longrightarrow>
      allowed (ca_owner a) \<Longrightarrow> R (mc_fork m) (mc_fork m')"
    and owner: "allowed owner"
    and call: "nested run missing owner contract mthd args fuel c = Some (c', used, r)"
    and ok: "ctx_ok R allowed c"
  shows "ctx_step R c c'"
proof (cases "cc_wm c")
  case None
  with call show ?thesis by (simp add: nested_def)
next
  case (Some W)
  with ok have W: "ops_ok R allowed W" by (simp add: ctx_ok_def)
  from call Some obtain m1 r1 where
    1: "wm_app_hash_check W contract (nested_ctx owner c) (cc_block_timestamp c) (cc_mach c) = Some (m1, r1)"
    by (auto simp: nested_def split: option.splits)
  from ops_okD(3) [OF W 1] have s1: "R (cc_fork c) (mc_fork m1)" .
  show ?thesis
  proof (cases r1)
    case (Inl e)
    with call Some 1 s1 show ?thesis by (auto simp: nested_def ctx_step_def)
  next
    case (Inr h)
    with call Some 1 obtain m2 evs where
      2: "run W (nested_args owner h mthd args fuel c) (cc_events c) m1 = Some (m2, evs, used, r)"
      and c': "c' = c\<lparr>cc_mach := m2, cc_events := evs\<rparr>"
      by (auto simp: nested_def split: option.splits)
    from owner have "allowed (ca_owner (nested_args owner h mthd args fuel c))" by (simp add: nested_args_def)
    from R_trans [OF s1 run [OF W 2 this]] show ?thesis by (simp add: c' ctx_step_def)
  qed
qed

lemma hf_call_step:
  "hf_call owner contract mthd args fuel c = Some (c', used, r) \<Longrightarrow> allowed owner \<Longrightarrow> ctx_ok R allowed c \<Longrightarrow>
     ctx_step R c c'"
  unfolding hf_call_def by (erule nested_step [rotated 2]) (auto dest: ops_okD(1))

lemma hf_is_callable_step:
  "hf_is_callable D account mthd fuel c = Some (c', used, r) \<Longrightarrow> allowed account \<Longrightarrow> ctx_ok R allowed c \<Longrightarrow>
     ctx_step R c c'"
  by (auto simp: hf_is_callable_def split: option.splits elim!: nested_step [rotated 2] dest: ops_okD(2))

lemma nested_call_step:
  assumes "handler_ok T R allowed h" and "nested_call E T h account contract mthd args i c = Some (c', i', r)"
    and "allowed account" and "ctx_ok R allowed c"
  shows "ctx_step R c c'"
proof -
  from assms(2) obtain c1 fuel r1 where call: "hf_call account contract mthd args
      (cc_initial_fuel c - wt_fuel_consumed T i) c = Some (c1, fuel, r1)"
    by (auto simp: nested_call_def split: option.splits)
  from hf_call_step [OF this assms(3,4)] have step: "ctx_step R c c1" .
  with assms(2) call show ?thesis
    by (auto simp: nested_call_def consume_def split: option.splits sum.splits
        intro: ctx_step_trans return_buf_step [OF assms(1)] ctx_step_ok [OF _ assms(4)])
qed

subsection \<open>Host functions\<close>

lemma hf_steps:
  "ctx_step R c (hf_emit D name data c)"
  "ctx_step R c (hf_store_data D key data c)"
  "ctx_step R c (hf_remove_data D key c)"
  by (simp_all add: ctx_step_def hf_emit_def hf_store_data_def hf_remove_data_def set_fork_def R_refl R_store_data
      R_remove_data)

lemma hf_asset_steps:
  assumes "ctx_ok R allowed c"
  shows "ctx_step R c (hf_store_asset E D account_id data c)" "ctx_step R c (hf_remove_asset D account_id c)"
  using assms by (simp_all add: ctx_step_def ctx_ok_def hf_emit_def hf_store_asset_def hf_remove_asset_def set_fork_def
      R_refl R_store_asset R_remove_asset)

lemma hf_drand_step: "hf_drand H mx c = Some (c', n) \<Longrightarrow> ctx_step R c c'"
  by (auto simp: hf_drand_def ctx_step_def R_refl split: option.splits)

lemmas tr_defs = tr_log_def tr_emit_def tr_load_data_def tr_store_data_def tr_remove_data_def
  tr_get_keys_def tr_is_callable_def tr_store_asset_def tr_remove_asset_def tr_load_asset_def
  tr_get_account_contract_def tr_verify_def tr_call_def tr_s_call_def tr_sha256_def tr_drand_def
  tr_get_block_time_def

lemma trampoline_ok:
  assumes "handler_ok T R allowed h"
  shows "handler_ok T R allowed (trampoline E H T D h)"
  unfolding handler_ok_def
proof (intro allI impI)
  fix req i c c' i' and r :: "string + u64"
  assume ok: "ctx_ok R allowed c" and calls: "calls_allowed T allowed i req"
    and call: "trampoline E H T D h req i c = Some (c', i', r)"
  note steps = return_buf_step [OF assms _ ok] hf_drand_step hf_steps hf_asset_steps [OF ok]
  from call show "ctx_step R c c'"
  proof (cases req)
    case (HfIsCallable o1 s1 o2 s2)
    with call calls show ?thesis
      by (auto simp: tr_is_callable_def with_args_def consume_def calls_allowed_def try_bind_def
          split: sum.splits option.splits)
        (erule (1) hf_is_callable_step [OF _ _ ok])+
  next
    case (HfSCall o1 s1 o2 s2 o3 s3 o4 s4)
    with call calls show ?thesis
      by (auto simp: tr_s_call_def with_args_def calls_allowed_def try_bind_def
          split: sum.splits option.splits dest: nested_call_step [OF assms _ _ ok])
  next
    case (HfCall o1 s1 o2 s2 o3 s3)
    with call calls show ?thesis
      by (auto simp: tr_call_def with_args_def calls_allowed_def try_bind_def
          split: sum.splits option.splits dest: nested_call_step [OF assms _ _ ok])
  qed (auto simp: tr_defs with_args_def split: sum.splits option.splits if_splits intro: steps)
qed

lemma host_fn_ok: "handler_ok T R allowed (host_fn E H T D n)"
  by (induction n) (simp_all add: trampoline_ok handler_ok_def [of T R allowed "\<lambda>_ _ _. None"])

subsection \<open>The methods of the machine\<close>

lemma or_return_ok:
  assumes "ctx_ok R allowed c0" and "\<And>c i v. x = Some (c, i, v) \<Longrightarrow> ctx_step R c0 c"
    and "\<And>v i c. ctx_ok R allowed c \<Longrightarrow> result_ok R (cc_fork c) (k v i c)"
  shows "result_ok R (cc_fork c0) (or_return x k)"
proof -
  have "R (cc_fork c0) (mc_fork m)"
    if r: "or_return x k = Some (m, evs, fuel, r)" for m evs fuel r
  proof -
    from r obtain c i v where x: "x = Some (c, i, v)" by (auto simp: or_return_def split: option.splits)
    from assms(2) [OF this] have step: "ctx_step R c0 c" .
    then have s: "R (cc_fork c0) (cc_fork c)" by (simp add: ctx_step_def)
    show ?thesis
    proof (cases v)
      case (Inr w)
      with r x have "k w i c = Some (m, evs, fuel, r)" by (simp add: or_return_def)
      from R_trans [OF s result_okD [OF assms(3) this]] ctx_step_ok [OF step assms(1)]
      show ?thesis by simp
    qed (use r x s in \<open>simp add: or_return_def\<close>)
  qed
  then show ?thesis by (auto simp: result_ok_def)
qed

lemma check_step: "check b e i c = Some (c', i', v) \<Longrightarrow> ctx_step R c c'"
  by (simp add: check_def)

lemma faulting_step:
  assumes "handler_ok T R allowed h" and "tame_run T allowed r" and "faulting (drive h r c) = Some (c', i', v)"
    and "ctx_ok R allowed c"
  shows "ctx_step R c c'"
  using assms(3,4)
  by (auto simp: faulting_def split: option.splits sum.splits intro: drive_step [OF assms(1) _ _ assms(2)])

lemma update_data_hash_step: "update_data_hash D i c = Some (c', i', v) \<Longrightarrow> ctx_step R c c'"
  by (auto simp: update_data_hash_def set_fork_def ctx_step_def R_refl split: if_splits option.splits intro: R_data_hash)

lemma run_entry_ok:
  assumes "handler_ok T R allowed h" and "ctx_ok R allowed c"
    and "\<And>v i c. ctx_ok R allowed c \<Longrightarrow> result_ok R (cc_fork c) (k v i c)"
  shows "result_ok R (cc_fork c) (run_entry E T h a imethod entry ftype missing k i c)"
  unfolding run_entry_def
  by (intro or_return_ok assms(3))
     (use assms in \<open>auto intro: check_step write_mem_step faulting_step tame_parts\<close>)

lemma invoke_ok:
  assumes "handler_ok T R allowed h" and "ops_ok R allowed W" and "allowed (ca_owner a)"
    and "\<And>v i c. ctx_ok R allowed c \<Longrightarrow> result_ok R (cc_fork c) (k v i c)"
  shows "result_ok R (mc_fork m) (invoke E H T D h W imethod entry ftype missing k a evs m)"
proof -
  have run: "result_ok R (cc_fork c) (run_entry E T h a imethod entry ftype missing k i (c\<lparr>cc_wm := Some W\<rparr>))"
    if "ctx_ok R allowed c" for i c
    using run_entry_ok [OF assms(1) _ assms(4), of "c\<lparr>cc_wm := Some W\<rparr>"] assms(2) that by (simp add: ctx_ok_def)
  have "result_ok R (cc_fork (call_ctx a evs m'))
      (or_return (faulting (drive h (wt_instance T md fuel) (call_ctx a evs m'))) (\<lambda>_ i c.
        run_entry E T h a imethod entry ftype missing k i (c\<lparr>cc_wm := Some W\<rparr>)))" for md fuel m'
  proof (rule or_return_ok)
    show ok: "ctx_ok R allowed (call_ctx a evs m')" using assms(3) by (simp add: ctx_ok_def call_ctx_def)
    show "ctx_step R (call_ctx a evs m') c"
      if "faulting (drive h (wt_instance T md fuel) (call_ctx a evs m')) = Some (c, i, v)" for c i v
      using faulting_step [OF assms(1) tame_parts(2) that ok] .
  qed (rule run)
  from this [of "m\<lparr>mc_wm := w\<rparr>" for w] show ?thesis
    by (auto simp: invoke_def result_ok_def call_ctx_def R_refl split: prod.splits sum.splits)
qed

lemma wm_local_call_ok:
  assumes "handler_ok T R allowed h" and "ops_ok R allowed W" and "allowed (ca_owner a)"
  shows "result_ok R (mc_fork m) (wm_local_call E H T D h W a evs m)"
  unfolding wm_local_call_def
  by (rule invoke_ok [OF assms], unfold Let_def, rule or_return_ok)
     (auto simp: result_ok_def R_refl split: option.splits prod.splits intro: update_data_hash_step)

lemma wm_local_callable_call_ok:
  assumes "handler_ok T R allowed h" and "ops_ok R allowed W" and "allowed (ca_owner a)"
  shows "result_ok R (mc_fork m) (wm_local_callable_call E H T D h W a evs m)"
  unfolding wm_local_callable_call_def
  by (rule invoke_ok [OF assms], unfold Let_def, rule or_return_ok)
     (auto simp: result_ok_def R_refl intro: update_data_hash_step)

lemma wm_local_contract_updatable_ok:
  assumes "handler_ok T R allowed h" and "ops_ok R allowed W"
    and "wm_local_contract_updatable E H T D h W ch cx ts m = Some (m', b)"
  shows "R (mc_fork m) (mc_fork m')"
proof -
  have call: "R (mc_fork m) (mc_fork m1)"
    if "wm_local_call E H T D h W a evs m = Some (m1, evs', fuel, r)" "ca_owner a = SERVICE_ACCOUNT_ID"
    for a evs m1 evs' fuel r
    using result_okD [OF wm_local_call_ok [OF assms(1,2)] that(1)] that(2) service_allowed by simp
  from assms(3) show ?thesis
    by (auto simp: wm_local_contract_updatable_def R_refl split: option.splits sum.splits dest: call)
qed

lemma R_rebind: "R f (fk_store_account D f (account_or_new D f own))"
  using R_bind [OF R_refl, where f = f and own = own and cn = "ac_contract (account_or_new D f own)"] by simp

lemma wm_local_app_hash_check_ok:
  assumes "handler_ok T R allowed h" and "ops_ok R allowed W"
    and "wm_local_app_hash_check E H T D h W app_hash cx ts m = Some (m', r)"
  shows "R (mc_fork m) (mc_fork m')"
  using assms(3) wm_local_contract_updatable_ok [OF assms(1,2)] R_rebind
  by (auto simp: wm_local_app_hash_check_def Let_def R_refl split: if_splits option.splits bool.splits
      intro!: R_bind)

lemma wm_local_ops_ok: "ops_ok R allowed (wm_local_ops E H T D n)"
proof (induction n)
  case (Suc n)
  note * = host_fn_ok [of H n] Suc
  show ?case
    unfolding ops_ok_def
    by (auto simp: Let_def dest: result_okD [OF wm_local_call_ok [OF *]]
        result_okD [OF wm_local_callable_call_ok [OF *]] wm_local_app_hash_check_ok [OF *])
qed (simp add: ops_ok_def)

end

text \<open>So the executor's contract holds of this machine over every database that keeps its own: its writes to
  accounts and their data are the ones the contract allows, whoever calls whom.\<close>

sublocale db_contract \<subseteq> frame: machine_frame E T D "\<lambda>f f'. accounts_step (absf f) (absf f')" "\<lambda>_. True" for T
  by unfold_locales (auto intro: accounts_step_trans)

sublocale db_contract \<subseteq> wm_local: wm_contract E D snap absf inv "wm_local_ops E H T D n" for H T n
  using frame.wm_local_ops_ok by unfold_locales (auto dest: frame.ops_okD)

context db_contract
begin

lemma wm_local_contract: "wm_contract E D snap absf inv (wm_local_ops E H T D n)"
  by (rule wm_local.wm_contract_axioms)

end

end
