(* ===== verification/Machine.thy ===== *)
theory Machine
  imports Contracts Ledger
begin

text \<open>
  Properties of the machine \<open>WmLocal\<close>: slices of the contract's memory, the module cache, the resolution
  of contracts, the host functions on assets, and what a failing contract costs. The witnesses run on a
  small engine, \<open>demo_wasm\<close>, whose modules are their own memory.
\<close>

section \<open>An engine for the witnesses\<close>

definition demo_wasm :: "(bytes, bytes) wasmtime" where
  "demo_wasm =
     \<lparr>wt_module_new = Inr, wt_imports = (\<lambda>_. []), wt_instance = (\<lambda>md fuel. Done md 0),
      wt_func = (\<lambda>_ _. True), wt_typed = (\<lambda>_ _ _. True), wt_type_error = [],
      wt_invoke = (\<lambda>i name args.
        if name = ''run'' then (if i = [] then Trap i ''unreachable'' else Done i (wslice_create 0 (of_nat (length i))))
        else Done i 0),
      wt_memory = Some, wt_write = (\<lambda>i _ _. Inr i), wt_fuel_consumed = (\<lambda>_. 7), wt_consume_fuel = (\<lambda>_. Inr)\<rparr>"

definition demo_host :: host_env where
  "demo_host =
     \<lparr>he_pcg = (\<lambda>s. s), he_de_app_output = (\<lambda>bs. Inr (True, bs)), he_de_public_key = (\<lambda>bs. Some (Ed25519 bs)),
      he_de_bool = (\<lambda>bs. Some (bs \<noteq> [])), he_now = of_nat\<rparr>"

definition demo_mach :: "bytes wm_local \<Rightarrow> store \<Rightarrow> (bytes wm_local, fork_abs) mach" where
  "demo_mach w s =
     \<lparr>mc_wm = w, mc_fork = fa_new s, mc_seed = seed_source_new [] [] hash_default hash_default hash_default\<rparr>"

section \<open>Memory slices\<close>

text \<open>A slice of wasm memory is passed in one 64-bit word, and both sides agree on it: splitting the
  word gives back the offset and the length, negative ones included.\<close>

theorem wslice_roundtrip: "wslice_split (wslice_create offset len) = (offset, len)"
proof -
  have m: "(0xffffffff :: u64) = mask 32" "(0xffffffff00000000 :: u64) = push_bit 32 (mask 32)"
    by (simp_all add: mask_eq_exp_minus_1 push_bit_eq_mult)
  show ?thesis
    unfolding wslice_split_def wslice_create_def m
    by (auto intro!: bit_word_eqI simp: bit_simps)
qed

lemma unat_scast_i32: "int (unat (scast (x :: i32) :: u64)) = (if 0 \<le> sint x then sint x else sint x + 2 ^ 64)"
proof -
  have b: "- (2 ^ 31) \<le> sint x" "sint x < 2 ^ 31"
    using sint_ge [of x] sint_lt [of x] by simp_all
  have "uint (scast x :: u64) = sint x mod 2 ^ LENGTH(64)"
    unfolding scast_eq by (rule uint_word_of_int)
  then have "int (unat (scast x :: u64)) = sint x mod 2 ^ 64" by (simp only: uint_nat) simp
  also have "\<dots> = (if 0 \<le> sint x then sint x else sint x + 2 ^ 64)"
  proof (cases "0 \<le> sint x")
    case False
    have "sint x mod 2 ^ 64 = (sint x + 2 ^ 64) mod 2 ^ 64" by simp
    also have "\<dots> = sint x + 2 ^ 64" using False b by (intro mod_pos_pos_trivial) auto
    finally show ?thesis using False by simp
  qed (use b in simp)
  finally show ?thesis .
qed

text \<open>Host functions and the machine read the contract's memory only where it exists. Offset and
  length are signed numbers that the code casts to \<open>usize\<close> and adds, both of which may wrap around;
  still a slice is returned exactly when neither is negative and the end is within the memory (of at
  most 4 GiB, as in wasm).\<close>

theorem get_range_in_bounds:
  assumes "length data \<le> 2 ^ 32"
  shows "get_range offset len data =
    (if 0 \<le> sint offset \<and> 0 \<le> sint len \<and> sint offset + sint len \<le> int (length data)
     then Some (take (nat (sint len)) (drop (nat (sint offset)) data)) else None)"
proof -
  let ?s = "scast offset :: u64" and ?l = "scast len :: u64"
  have b: "- (2 ^ 31) \<le> sint offset" "sint offset < 2 ^ 31" "- (2 ^ 31) \<le> sint len" "sint len < 2 ^ 31"
    using sint_ge [of offset] sint_lt [of offset] sint_ge [of len] sint_lt [of len] by simp_all
  note u = unat_scast_i32 [of offset] unat_scast_i32 [of len]
  have sum: "unat (?s + ?l) = (if unat ?s + unat ?l < 2 ^ 64 then unat ?s + unat ?l else unat ?s + unat ?l - 2 ^ 64)"
    using unsigned_less [of ?s, where 'a = nat] unsigned_less [of ?l, where 'a = nat]
    by (simp add: unat_word_ariths mod_if)
  define S L R where "S = unat ?s" and "L = unat ?l" and "R = unat (?s + ?l)"
  have "int S = (if 0 \<le> sint offset then sint offset else sint offset + 2 ^ 64)"
    "int L = (if 0 \<le> sint len then sint len else sint len + 2 ^ 64)"
    "R = (if S + L < 2 ^ 64 then S + L else S + L - 2 ^ 64)"
    using u sum by (simp_all only: S_def L_def R_def)
  with assms b have "(S \<le> R \<and> R \<le> length data) \<longleftrightarrow>
      0 \<le> sint offset \<and> 0 \<le> sint len \<and> sint offset + sint len \<le> int (length data)"
    by (auto split: if_splits)
  then have "(?s \<le> ?s + ?l \<and> unat (?s + ?l) \<le> length data) \<longleftrightarrow>
      0 \<le> sint offset \<and> 0 \<le> sint len \<and> sint offset + sint len \<le> int (length data)"
    by (simp add: word_le_nat_alt S_def R_def)
  moreover have "unat ?s = nat (sint offset)" "unat ?l = nat (sint len)" if "0 \<le> sint offset" "0 \<le> sint len"
    using that u by (simp_all only: if_True flip: nat_int)
  ultimately show ?thesis by (simp add: get_range_def Let_def)
qed

theorem get_range_in_bounds_witness:
  "get_range 1 2 [10, 11, 12, 13] = Some [11, 12] \<and> get_range (- 1) 2 [10, 11, 12, 13] = None"
  using get_range_in_bounds [of "[10, 11, 12, 13]" 1 2] get_range_in_bounds [of "[10, 11, 12, 13]" "- 1" 2]
  by simp

section \<open>The module cache\<close>

definition cache_inv :: "'m wm_local \<Rightarrow> bool" where
  "cache_inv w \<longleftrightarrow> distinct (map fst (wl_cache w)) \<and> 0 < wl_cache_max w \<and>
     length (wl_cache w) \<le> Suc (wl_cache_max w)"

lemma older_in: "older e es \<in> set (e # es)"
  by (induction e es rule: older.induct) auto

lemma older_min: "x \<in> set (e # es) \<Longrightarrow> cm_last_used (snd (older e es)) \<le> cm_last_used (snd x)"
proof (induction e es arbitrary: x rule: older.induct)
  case (2 e cur es)
  define b where "b = (if cm_last_used (snd cur) < cm_last_used (snd e) then cur else e)"
  have IH: "cm_last_used (snd (older b es)) \<le> cm_last_used (snd y)" if "y = b \<or> y \<in> set es" for y
    using "2.IH" [of y] that by (simp only: b_def list.set insert_iff)
  have "cm_last_used (snd b) \<le> cm_last_used (snd e)" "cm_last_used (snd b) \<le> cm_last_used (snd cur)"
    by (auto simp: b_def)
  then have "cm_last_used (snd (older b es)) \<le> cm_last_used (snd x)"
    using "2.prems" IH [of b] IH [of x] by (auto intro: order_trans)
  then show ?case by (simp only: older.simps b_def)
qed simp

lemma length_alist_update:
  "length (AList.update k v al) = (if k \<in> fst ` set al then length al else Suc (length al))"
  by (induction al) auto

lemma length_alist_delete:
  "distinct (map fst al) \<Longrightarrow> k \<in> fst ` set al \<Longrightarrow> Suc (length (AList.delete k al)) = length al"
proof (induction al)
  case (Cons e al)
  show ?case
  proof (cases "fst e = k")
    case True
    with Cons.prems have "AList.delete k al = al" by (intro delete_id) auto
    with True show ?thesis by (cases e) simp
  next
    case False
    with Cons show ?thesis by (cases e) auto
  qed
qed simp

lemma evict_spec:
  assumes "cache_inv w"
  shows "cache_inv (evict w) \<and> length (wl_cache (evict w)) \<le> wl_cache_max w \<and>
    wl_cache_max (evict w) = wl_cache_max w \<and>
    (\<forall>h. map_of (wl_cache (evict w)) h = map_of (wl_cache w) h \<or>
       map_of (wl_cache (evict w)) h = None \<and> (\<exists>e. map_of (wl_cache w) h = Some e \<and>
         (\<forall>h' e'. map_of (wl_cache w) h' = Some e' \<longrightarrow> cm_last_used e \<le> cm_last_used e')))"
proof (cases "wl_cache w")
  case Nil
  with assms show ?thesis by (simp add: evict_def cache_inv_def)
next
  case (Cons e es)
  let ?o = "older e es" and ?m = "wl_cache w"
  show ?thesis
  proof (cases "wl_cache_max w < length ?m")
    case False
    with Cons assms show ?thesis by (simp add: evict_def cache_inv_def)
  next
    case True
    have w': "evict w = w\<lparr>wl_cache := AList.delete (fst ?o) ?m\<rparr>" using Cons True by (simp add: evict_def)
    have d: "distinct (map fst ?m)" and len: "length ?m \<le> Suc (wl_cache_max w)"
      using assms by (simp_all add: cache_inv_def)
    have o: "?o \<in> set ?m" using older_in Cons by metis
    then have mo: "map_of ?m (fst ?o) = Some (snd ?o)" using d by simp
    have "Suc (length (AList.delete (fst ?o) ?m)) = length ?m" using o by (intro length_alist_delete d) auto
    moreover have "cm_last_used (snd ?o) \<le> cm_last_used e'" if "map_of ?m h' = Some e'" for h' e'
      using older_min [of "(h', e')" e es] map_of_SomeD [OF that] Cons by simp
    then have "\<exists>e. map_of ?m (fst ?o) = Some e \<and>
        (\<forall>h' e'. map_of ?m h' = Some e' \<longrightarrow> cm_last_used e \<le> cm_last_used e')" using mo by blast
    ultimately show ?thesis using assms len
      by (auto simp: w' cache_inv_def distinct_delete delete_conv' simp del: map_of_eq_Some_iff)
  qed
qed

text \<open>The module cache. It never holds more than one module above its limit. Getting a contract marks
  it as used now and leaves the other entries alone, except that a contract that is not there yet may
  push out one entry, of those least recently used; it is then compiled from the code stored under the
  service account.\<close>

theorem get_module_cache:
  assumes "cache_inv w" and "get_module E H T D f target w = (w', r)"
  shows "cache_inv w' \<and> wl_cache_max w' = wl_cache_max w \<and>
    (\<forall>h. h \<noteq> target \<longrightarrow> map_of (wl_cache w') h \<noteq> map_of (wl_cache w) h \<longrightarrow>
       map_of (wl_cache w) target = None \<and> map_of (wl_cache w') h = None \<and>
       (\<exists>e. map_of (wl_cache w) h = Some e \<and>
         (\<forall>h' e'. map_of (wl_cache w) h' = Some e' \<longrightarrow> cm_last_used e \<le> cm_last_used e'))) \<and>
    (\<forall>md. r = Inr md \<longrightarrow>
       map_of (wl_cache w') target = Some \<lparr>cm_module = md, cm_last_used = he_now H (wl_reads w)\<rparr> \<and>
       (map_of (wl_cache w) target = None \<longrightarrow>
          (\<exists>bin. fk_load_account_data D f SERVICE_ACCOUNT_ID (code_key E target) = Some bin \<and>
             wt_module_new T bin = Inr md)))"
proof (cases "map_of (wl_cache w) target")
  case (Some e)
  with assms(2) have w': "w' = touch H target e w" and r: "r = Inr (cm_module e)"
    by (auto simp: get_module_def Let_def)
  from Some have "target \<in> fst ` set (wl_cache w)" by (metis map_of_SomeD fst_conv image_eqI)
  with assms(1) Some show ?thesis
    by (auto simp: w' r touch_def cache_inv_def distinct_update length_alist_update update_conv')
next
  case None
  note ev = evict_spec [OF assms(1)]
  show ?thesis
  proof (cases r)
    case (Inl err)
    with None assms(2) have "w' = evict w"
      by (auto simp: get_module_def Let_def load_module_def split: option.splits sum.splits)
    with ev Inl None show ?thesis by auto
  next
    case (Inr md)
    with None assms(2) obtain bin where
      bin: "fk_load_account_data D f SERVICE_ACCOUNT_ID (code_key E target) = Some bin" "wt_module_new T bin = Inr md"
      and w': "w' = touch H target \<lparr>cm_module = md, cm_last_used = 0\<rparr>
        ((evict w)\<lparr>wl_cache := AList.update target \<lparr>cm_module = md, cm_last_used = 0\<rparr> (wl_cache (evict w))\<rparr>)"
      by (auto simp: get_module_def Let_def load_module_def update_conv' split: option.splits sum.splits)
    have "wl_reads (evict w) = wl_reads w" by (simp add: evict_def split: list.splits)
    with ev bin Inr None show ?thesis
      by (auto simp: w' touch_def cache_inv_def distinct_update length_alist_update update_conv'
          dom_update simp del: map_of_eq_Some_iff)
  qed
qed

theorem get_module_cache_witness:
  "\<exists>w'. get_module demo_env demo_host demo_wasm demo_D (fa_new (store_empty\<lparr>st_account_data := (\<lambda>_ _. Some [5])\<rparr>))
     hash_default \<lparr>wl_cache = [], wl_cache_max = 1, wl_reads = 0\<rparr> = (w', Inr [5]) \<and> cache_inv w'"
proof -
  let ?w = "\<lparr>wl_cache = [], wl_cache_max = 1, wl_reads = 0\<rparr> :: bytes wm_local"
  let ?f = "fa_new (store_empty\<lparr>st_account_data := (\<lambda>_ _. Some [5])\<rparr>)"
  obtain w' r where g: "get_module demo_env demo_host demo_wasm demo_D ?f hash_default ?w = (w', r)" by force
  have inv: "cache_inv ?w" by (simp add: cache_inv_def)
  have "r = Inr [5]" using g
    by (auto simp: get_module_def load_module_def evict_def demo_wasm_def demo_D_def mem_merkledb_def fa_new_def
        Let_def touch_def)
  with g get_module_cache [OF inv g] show ?thesis by blast
qed

text \<open>Every cached module is what compiling the stored code would give.\<close>

definition cache_coherent :: "env \<Rightarrow> ('m, 'i) wasmtime \<Rightarrow> ('d, 'f) db_ops \<Rightarrow> 'f \<Rightarrow> 'm wm_local \<Rightarrow> bool" where
  "cache_coherent E T D f w \<longleftrightarrow>
     list_all (\<lambda>(h, e). \<exists>bin. fk_load_account_data D f SERVICE_ACCOUNT_ID (code_key E h) = Some bin \<and>
       wt_module_new T bin = Inr (cm_module e)) (wl_cache w)"

lemma evict_subset: "set (wl_cache (evict w)) \<subseteq> set (wl_cache w)"
  by (auto simp: evict_def AList.delete_eq split: list.splits)

lemma coherent_lookup:
  "cache_coherent E T D f w \<Longrightarrow> map_of (wl_cache w) h = Some e \<Longrightarrow>
   \<exists>bin. fk_load_account_data D f SERVICE_ACCOUNT_ID (code_key E h) = Some bin \<and> wt_module_new T bin = Inr (cm_module e)"
  by (auto simp: cache_coherent_def list_all_iff dest!: map_of_SomeD)

lemma coherent_mono: "set (wl_cache w') \<subseteq> set (wl_cache w) \<Longrightarrow> cache_coherent E T D f w \<Longrightarrow> cache_coherent E T D f w'"
  by (auto simp: cache_coherent_def list_all_iff)

lemma coherent_update:
  assumes "cache_coherent E T D f w" and "fk_load_account_data D f SERVICE_ACCOUNT_ID (code_key E h) = Some bin"
    and "wt_module_new T bin = Inr (cm_module e)" and "wl_cache w' = AList.update h e (wl_cache w)"
  shows "cache_coherent E T D f w'"
  using assms set_alist_update [of h e "wl_cache w"] by (fastforce simp: cache_coherent_def list_all_iff)

lemma get_module_miss_coherent:
  assumes assms: "get_module E H T D f target w = (w', r)" and None: "map_of (wl_cache w) target = None"
    and c: "cache_coherent E T D f w"
  shows "cache_coherent E T D f w'"
proof (cases r)
  case (Inl err)
  with None assms have "w' = evict w"
    by (auto simp: get_module_def Let_def load_module_def split: option.splits sum.splits)
  with coherent_mono [OF evict_subset c] show ?thesis by simp
next
  case (Inr md)
  with None assms obtain bin where
    bin: "fk_load_account_data D f SERVICE_ACCOUNT_ID (code_key E target) = Some bin" "wt_module_new T bin = Inr md"
    and w': "w' = touch H target \<lparr>cm_module = md, cm_last_used = 0\<rparr>
      ((evict w)\<lparr>wl_cache := AList.update target \<lparr>cm_module = md, cm_last_used = 0\<rparr> (wl_cache (evict w))\<rparr>)"
    by (auto simp: get_module_def Let_def load_module_def update_conv' split: option.splits sum.splits)
  let ?e = "\<lparr>cm_module = md, cm_last_used = 0\<rparr>"
  have "cache_coherent E T D f ((evict w)\<lparr>wl_cache := AList.update target ?e (wl_cache (evict w))\<rparr>)"
    by (rule coherent_update [OF coherent_mono [OF evict_subset c] bin(1), where e = ?e]) (simp_all add: bin)
  then show ?thesis
    by (rule coherent_update [OF _ bin(1), where e = "?e\<lparr>cm_last_used := he_now H (wl_reads (evict w))\<rparr>"])
       (simp_all add: bin w' touch_def)
qed

text \<open>C36. The module cache is transparent where it is coherent: as long as every cached module is what the
  code stored under its hash compiles to, getting a contract gives what a machine with an empty cache would
  give, errors included, and the cache stays coherent. Where it is not, the cache decides: a cached
  contract is found whatever the database holds.
\<close>

theorem module_cache_transparent:
  assumes "get_module E H T D f target w = (w', r)"
  shows "(cache_coherent E T D f w \<longrightarrow>
      r = snd (get_module E H T D f target (w\<lparr>wl_cache := []\<rparr>)) \<and> cache_coherent E T D f w') \<and>
    (\<forall>e. map_of (wl_cache w) target = Some e \<longrightarrow> r = Inr (cm_module e))"
proof (cases "map_of (wl_cache w) target")
  case (Some e)
  with assms have w': "w' = touch H target e w" and r: "r = Inr (cm_module e)"
    by (auto simp: get_module_def Let_def)
  have "r = snd (get_module E H T D f target (w\<lparr>wl_cache := []\<rparr>)) \<and> cache_coherent E T D f w'"
    if c: "cache_coherent E T D f w"
  proof -
    from coherent_lookup [OF c Some] obtain bin where
      bin: "fk_load_account_data D f SERVICE_ACCOUNT_ID (code_key E target) = Some bin"
      "wt_module_new T bin = Inr (cm_module e)" by blast
    have "cache_coherent E T D f w'"
      by (rule coherent_update [OF c bin(1), where e = "e\<lparr>cm_last_used := he_now H (wl_reads w)\<rparr>"])
         (simp_all add: bin w' touch_def)
    with bin r show ?thesis by (simp add: get_module_def load_module_def evict_def Let_def)
  qed
  with Some r show ?thesis by auto
next
  case None
  have "r = snd (get_module E H T D f target (w\<lparr>wl_cache := []\<rparr>))"
    using assms None by (auto simp: get_module_def load_module_def evict_def Let_def update_conv'
        split: option.splits sum.splits)
  with None get_module_miss_coherent [OF assms None] show ?thesis by simp
qed

definition demo_cached :: "bytes wm_local" where
  "demo_cached = \<lparr>wl_cache = [(hash_default, \<lparr>cm_module = [5], cm_last_used = 0\<rparr>)], wl_cache_max = 1, wl_reads = 0\<rparr>"

theorem module_cache_transparent_witness:
  "snd (get_module demo_env demo_host demo_wasm demo_D (fa_new (store_empty\<lparr>st_account_data := (\<lambda>_ _. Some [5])\<rparr>))
     hash_default demo_cached) =
   snd (get_module demo_env demo_host demo_wasm demo_D (fa_new (store_empty\<lparr>st_account_data := (\<lambda>_ _. Some [5])\<rparr>))
     hash_default (demo_cached\<lparr>wl_cache := []\<rparr>)) \<and>
   snd (get_module demo_env demo_host demo_wasm demo_D (fa_new store_empty) hash_default demo_cached) = Inr [5]"
proof -
  let ?f = "fa_new (store_empty\<lparr>st_account_data := (\<lambda>_ _. Some [5])\<rparr>)"
  have "cache_coherent demo_env demo_wasm demo_D ?f demo_cached"
    by (simp add: cache_coherent_def demo_cached_def demo_D_def demo_wasm_def mem_merkledb_def fa_new_def)
  with module_cache_transparent [of demo_env demo_host demo_wasm demo_D ?f hash_default demo_cached]
  have 1: "snd (get_module demo_env demo_host demo_wasm demo_D ?f hash_default demo_cached) =
    snd (get_module demo_env demo_host demo_wasm demo_D ?f hash_default (demo_cached\<lparr>wl_cache := []\<rparr>))"
    by (metis prod.collapse)
  have "map_of (wl_cache demo_cached) hash_default = Some \<lparr>cm_module = [5], cm_last_used = 0\<rparr>"
    by (simp add: demo_cached_def)
  with module_cache_transparent [of demo_env demo_host demo_wasm demo_D "fa_new store_empty" hash_default demo_cached]
  have "snd (get_module demo_env demo_host demo_wasm demo_D (fa_new store_empty) hash_default demo_cached) = Inr [5]"
    by (metis cached_module.select_convs(1) prod.collapse)
  with 1 show ?thesis by simp
qed

section \<open>Resolving contracts\<close>

definition contract_of :: "store \<Rightarrow> string \<Rightarrow> hash option" where
  "contract_of s aid = Option.bind (st_accounts s aid) ac_contract"

definition ids_ok :: "store \<Rightarrow> bool" where
  "ids_ok s \<longleftrightarrow> (\<forall>aid acc. st_accounts s aid = Some acc \<longrightarrow> ac_id acc = aid)"

context db_contract
begin

lemma account_or_new_abs:
  "account_or_new D f aid = (case st_accounts (fa_view (absf f)) aid of Some a \<Rightarrow> a | None \<Rightarrow> account_new aid None)"
  by (simp add: account_or_new_def f_load_account)

lemma account_or_new_id: "ids_ok (fa_view (absf f)) \<Longrightarrow> ac_id (account_or_new D f aid) = aid"
  by (auto simp: account_or_new_abs ids_ok_def account_new_def split: option.splits)

lemma account_or_new_contract: "ac_contract (account_or_new D f aid) = contract_of (fa_view (absf f)) aid"
  by (auto simp: account_or_new_abs contract_of_def account_new_def split: option.splits)

lemma contract_of_stored:
  "ac_id acc = aid \<Longrightarrow> contract_of (fa_view (absf (fk_store_account D f acc))) aid = ac_contract acc"
  by (simp add: contract_of_def fa_write_def st_store_account_def)

lemma app_hash_check_spec:
  assumes ids: "ids_ok (fa_view (absf (mc_fork m)))"
    and r: "wm_local_app_hash_check E H T D h W c cx ts m = Some (m', r)"
  defines "before \<equiv> contract_of (fa_view (absf (mc_fork m))) (cx_owner cx)"
    and "ask \<equiv> wm_local_contract_updatable E H T D h W
      \<lparr>ch_account = cx_owner cx, ch_current_hash = contract_of (fa_view (absf (mc_fork m))) (cx_owner cx),
       ch_new_hash = c\<rparr> cx ts m"
  shows "case r of
      Inr hh \<Rightarrow> contract_of (fa_view (absf (mc_fork m'))) (cx_owner cx) = Some hh \<and>
        (if before = Some hh then c = None \<or> c = Some hh else c = Some hh \<and> (\<exists>m1. ask = Some (m1, True)))
    | Inl e \<Rightarrow> (if before = None \<and> c = None then m' = m else c \<noteq> None \<and> ask = Some (m', False))"
proof (cases "before = c")
  case True
  with r show ?thesis
    by (auto simp: wm_local_app_hash_check_def Let_def account_or_new_contract before_def split: option.splits)
next
  case ne: False
  note store = contract_of_stored [OF account_or_new_id [OF ids]]
  show ?thesis
  proof (cases c)
    case None
    with ne r show ?thesis
      by (auto simp: wm_local_app_hash_check_def Let_def account_or_new_contract before_def contract_of_def
          fa_write_def st_store_account_def account_or_new_id [OF ids] split: option.splits)
  next
    case (Some hh)
    with ne r show ?thesis
      by (auto simp: wm_local_app_hash_check_def Let_def account_or_new_contract before_def ask_def contract_of_def
          fa_write_def st_store_account_def account_or_new_id [OF ids] split: option.splits bool.splits)
  qed
qed

end

text \<open>C18. Which contract an account runs. (Accounts are stored under their identifier.) When the resolution succeeds with a contract, the account is bound
  to it afterwards, and either it was bound to it before and the caller named this contract or none, or
  the caller named it and the service contract allowed the change. It fails only if neither the account
  nor the caller has a contract, or the service contract did not allow the one the caller named.\<close>

theorem app_hash_check_binds:
  assumes "db_contract E D snap absf dinv" and "ids_ok (fa_view (absf (mc_fork m)))"
    and "wm_local_app_hash_check E H T D h W c cx ts m = Some (m', r)"
  shows "let before = contract_of (fa_view (absf (mc_fork m))) (cx_owner cx);
             ask = wm_local_contract_updatable E H T D h W
               \<lparr>ch_account = cx_owner cx, ch_current_hash = before, ch_new_hash = c\<rparr> cx ts m
    in case r of
         Inr hh \<Rightarrow> contract_of (fa_view (absf (mc_fork m'))) (cx_owner cx) = Some hh \<and>
           (if before = Some hh then c = None \<or> c = Some hh else c = Some hh \<and> (\<exists>m1. ask = Some (m1, True)))
       | Inl e \<Rightarrow> (if before = None \<and> c = None then m' = m else c \<noteq> None \<and> ask = Some (m', False))"
  using db_contract.app_hash_check_spec [OF assms] by (simp only: Let_def)

lemma demo_db: "db_contract demo_env demo_D rd_snap (\<lambda>f. f) (rocks_inv mem_merkledb)"
  unfolding demo_D_def by (rule mem.rocks_contract)

theorem app_hash_check_binds_witness:
  "contract_of (fa_view (mc_fork (fst (the (wm_local_app_hash_check demo_env demo_host demo_wasm demo_D
      (\<lambda>_ _ _. None) (wm_local_ops demo_env demo_host demo_wasm demo_D 0) None
      \<lparr>cx_origin = [], cx_owner = ''a'', cx_caller = []\<rparr> 0
      (demo_mach \<lparr>wl_cache = [], wl_cache_max = 1, wl_reads = 0\<rparr> (store_empty\<lparr>st_accounts := [''a'' \<mapsto> account_new ''a'' (Some hash_default)]\<rparr>)))))))
    ''a'' = Some hash_default"
proof -
  let ?s = "store_empty\<lparr>st_accounts := [''a'' \<mapsto> account_new ''a'' (Some hash_default)]\<rparr>"
  let ?m = "demo_mach \<lparr>wl_cache = [], wl_cache_max = 1, wl_reads = 0\<rparr> ?s" and ?cx = "\<lparr>cx_origin = [], cx_owner = ''a'', cx_caller = []\<rparr> :: ctx_args"
  let ?W = "wm_local_ops demo_env demo_host demo_wasm demo_D 0"
  let ?r = "wm_local_app_hash_check demo_env demo_host demo_wasm demo_D (\<lambda>_ _ _. None) ?W None ?cx 0 ?m"
  have view: "fa_view (mc_fork ?m) = ?s" by (simp add: demo_mach_def fa_new_def)
  have ids: "ids_ok (fa_view (mc_fork ?m))" unfolding view by (simp add: ids_ok_def account_new_def)
  have "ac_contract (account_or_new demo_D (mc_fork ?m) ''a'') = Some hash_default"
    unfolding db_contract.account_or_new_contract [OF demo_db] view by (simp add: contract_of_def account_new_def)
  then have "\<exists>m'. ?r = Some (m', Inr hash_default)" by (simp add: wm_local_app_hash_check_def Let_def)
  then obtain m' where r: "?r = Some (m', Inr hash_default)" by blast
  from app_hash_check_binds [OF demo_db ids r] r show ?thesis by (simp add: Let_def)
qed

section \<open>Assets\<close>

definition asset_of :: "store \<Rightarrow> string \<Rightarrow> string \<Rightarrow> bytes" where
  "asset_of s aid k = (case st_accounts s aid of Some acc \<Rightarrow> account_load_asset acc k | None \<Rightarrow> [])"

context db_contract
begin

lemma stored_account:
  fixes c :: "('w, 'f) call_context" and acc :: account
  assumes "ids_ok (fa_view (absf (cc_fork c)))"
    and "\<And>k. account_load_asset acc k = (if k = own then v else account_load_asset (account_or_new D (cc_fork c) aid) k)"
    and "ac_id acc = aid" and "ac_contract acc = ac_contract (account_or_new D (cc_fork c) aid)"
  defines "s \<equiv> fa_view (absf (cc_fork c))"
    and "s' \<equiv> fa_view (absf (cc_fork (set_fork (fk_store_account D (cc_fork c) acc) c)))"
  shows "(\<forall>a k. asset_of s' a k = (if a = aid \<and> k = own then v else asset_of s a k)) \<and>
    contract_of s' = contract_of s \<and> s'\<lparr>st_accounts := st_accounts s\<rparr> = s"
  using assms(1-4)
  by (auto simp: s_def s'_def asset_of_def contract_of_def fa_write_def st_store_account_def fun_eq_iff set_fork_def
      account_or_new_abs account_new_def account_load_asset_def split: option.splits)

lemma asset_ops:
  "account_load_asset (account_store_asset a k v) k' = (if k' = k then v else account_load_asset a k')"
  "account_load_asset (account_remove_asset a k) k' = (if k' = k then [] else account_load_asset a k')"
  "ac_id (account_store_asset a k v) = ac_id a" "ac_id (account_remove_asset a k) = ac_id a"
  "ac_contract (account_store_asset a k v) = ac_contract a" "ac_contract (account_remove_asset a k) = ac_contract a"
  by (simp_all add: account_load_asset_def account_store_asset_def account_remove_asset_def map_of_bt_insert
      map_of_bt_remove)

lemma hf_assets:
  fixes val :: bytes
  assumes "ids_ok (fa_view (absf (cc_fork c)))" and "aid \<noteq> []"
  defines "s \<equiv> fa_view (absf (cc_fork c))"
    and "s1 \<equiv> fa_view (absf (cc_fork (hf_store_asset E D aid val c)))"
    and "s2 \<equiv> fa_view (absf (cc_fork (hf_remove_asset D aid c)))"
  shows "(\<forall>a k. asset_of s1 a k = (if a = aid \<and> k = cc_owner c then val else asset_of s a k)) \<and>
      contract_of s1 = contract_of s \<and> s1\<lparr>st_accounts := st_accounts s\<rparr> = s"
    and "(\<forall>a k. asset_of s2 a k = (if a = aid \<and> k = cc_owner c then [] else asset_of s a k)) \<and>
      contract_of s2 = contract_of s \<and> s2\<lparr>st_accounts := st_accounts s\<rparr> = s"
proof -
  have 1: "cc_fork (hf_store_asset E D aid val c) = cc_fork (set_fork (fk_store_account D (cc_fork c)
      (account_store_asset (account_or_new D (cc_fork c) aid) (cc_owner c) val)) c)"
    using assms(2) by (simp add: hf_store_asset_def hf_emit_def)
  show "(\<forall>a k. asset_of s1 a k = (if a = aid \<and> k = cc_owner c then val else asset_of s a k)) \<and>
      contract_of s1 = contract_of s \<and> s1\<lparr>st_accounts := st_accounts s\<rparr> = s"
    unfolding s_def s1_def 1 by (rule stored_account [OF assms(1)]) (simp_all add: asset_ops account_or_new_id [OF assms(1)])
  show "(\<forall>a k. asset_of s2 a k = (if a = aid \<and> k = cc_owner c then [] else asset_of s a k)) \<and>
      contract_of s2 = contract_of s \<and> s2\<lparr>st_accounts := st_accounts s\<rparr> = s"
    unfolding s_def s2_def hf_remove_asset_def
    by (rule stored_account [OF assms(1)]) (simp_all add: asset_ops account_or_new_id [OF assms(1)])
qed

end

text \<open>The host functions on assets touch exactly the entry named by the calling contract's account in the account with the
  given non-empty identifier. (Theory \<open>Assets\<close> draws the conclusion for whole blocks.)\<close>

lemma asset_writes_exact:
  assumes "db_contract E D snap absf dinv" and "ids_ok (fa_view (absf (cc_fork c)))" and "aid \<noteq> []"
  shows "let s = fa_view (absf (cc_fork c)); s1 = fa_view (absf (cc_fork (hf_store_asset E D aid val c)));
             s2 = fa_view (absf (cc_fork (hf_remove_asset D aid c)))
    in (\<forall>a k. asset_of s1 a k = (if a = aid \<and> k = cc_owner c then val else asset_of s a k)) \<and>
       (\<forall>a k. asset_of s2 a k = (if a = aid \<and> k = cc_owner c then [] else asset_of s a k)) \<and>
       contract_of s1 = contract_of s \<and> contract_of s2 = contract_of s \<and>
       s1\<lparr>st_accounts := st_accounts s\<rparr> = s \<and> s2\<lparr>st_accounts := st_accounts s\<rparr> = s"
  using db_contract.hf_assets [OF assms] by (simp add: Let_def)

definition demo_ctx :: "(bytes wm_local, fork_abs) call_context" where
  "demo_ctx = call_ctx
     \<lparr>ca_depth = 0, ca_network = [], ca_origin = [], ca_owner = ''coin'', ca_caller = [], ca_contract = hash_default,
      ca_method = [], ca_args = [], ca_initial_fuel = 100, ca_block_timestamp = 0\<rparr> []
     (demo_mach \<lparr>wl_cache = [], wl_cache_max = 1, wl_reads = 0\<rparr> store_empty)"

section \<open>Failures\<close>

definition free_fault :: "('w, 'f, 'r) wm_result \<Rightarrow> bool" where
  "free_fault x \<longleftrightarrow>
     (\<forall>m evs fuel e. x = Some (m, evs, fuel, Inl e) \<longrightarrow> err_kind e \<noteq> SmartContractFault \<longrightarrow> fuel = 0)"

lemma or_return_free: "(\<And>v i c. free_fault (k v i c)) \<Longrightarrow> free_fault (or_return x k)"
  by (auto simp: free_fault_def or_return_def split: option.splits sum.splits)

lemma wm_local_call_free: "free_fault (wm_local_call E H T D h W a evs m)"
  unfolding wm_local_call_def invoke_def run_entry_def Let_def
  by (auto split: prod.splits sum.splits option.splits bool.splits intro!: or_return_free
      simp: free_fault_def [of "Some _"] error_new_ext_def)

text \<open>A contract that faults costs nothing. When the machine itself stops a transaction's contract (it
  traps, runs out of fuel, has no entry point), and not the contract by an error of its own, the fuel
  reported is zero whatever was used, so the failed transaction burns no fuel.\<close>

theorem faulting_transaction_is_free:
  assumes "W = wm_local_ops E H T D (Suc n)"
    and "handle_unit_transaction E D W tx ht i evs ts m = Some (m', ret)"
    and "wm_app_hash_check W (get_contract (st_data tx)) (tx_ctx_args E (st_data tx)) ts m = Some (m1, Inr hh)"
    and "wm_call W (tx_call_args E (st_data tx) hh ts) evs m1 = Some (m2, evs', fuel, Inl e)"
    and "err_kind e \<noteq> SmartContractFault"
  shows "\<not> rx_success (hr_receipt ret) \<and> rx_burned_fuel (hr_receipt ret) = 0 \<and>
    ba_fuel_to_burn (hr_burn_fuel_args ret) = 0"
proof -
  from assms(4) have "wm_local_call E H T D (host_fn E H T D n) (wm_local_ops E H T D n)
      (tx_call_args E (st_data tx) hh ts) evs m1 = Some (m2, evs', fuel, Inl e)"
    by (simp add: assms(1) Let_def)
  with wm_local_call_free assms(5) have "fuel = 0" unfolding free_fault_def by blast
  with assms(2-4) show ?thesis
    by (auto simp: handle_unit_transaction_def Let_def calculate_burned_fuel_def bind_eq_Some_conv)
qed

definition demo_store :: store where
  "demo_store = store_empty
     \<lparr>st_accounts := [''acc'' \<mapsto> account_new ''acc'' (Some hash_default)], st_account_data := (\<lambda>_ _. Some [])\<rparr>"

definition demo_call_tx :: signed_transaction where
  "demo_call_tx = SignedTransaction (V1 (demo_v1\<lparr>td_account := ''acc'', td_contract := Some hash_default\<rparr>)) []"

theorem faulting_transaction_is_free_witness:
  "\<exists>m' ret. handle_unit_transaction demo_env demo_D (wm_local_ops demo_env demo_host demo_wasm demo_D 1) demo_call_tx
      0 0 [] 0 (demo_mach \<lparr>wl_cache = [], wl_cache_max = 1, wl_reads = 0\<rparr> demo_store) = Some (m', ret) \<and>
     rx_burned_fuel (hr_receipt ret) = 0"
proof -
  let ?W = "wm_local_ops demo_env demo_host demo_wasm demo_D (Suc 0)"
  let ?m = "demo_mach \<lparr>wl_cache = [], wl_cache_max = 1, wl_reads = 0\<rparr> demo_store"
  let ?d = "st_data demo_call_tx"
  have 1: "wm_app_hash_check ?W (get_contract ?d) (tx_ctx_args demo_env ?d) 0 ?m = Some (?m, Inr hash_default)"
    by (simp add: wm_local_app_hash_check_def Let_def account_or_new_def demo_D_def mem_merkledb_def demo_mach_def
        fa_new_def demo_store_def demo_call_tx_def tx_ctx_args_def account_new_def)
  have "\<exists>m2 evs fuel e. wm_call ?W (tx_call_args demo_env ?d hash_default 0) [] ?m = Some (m2, evs, fuel, Inl e) \<and>
      err_kind e = WasmMachineFault \<and> err_source e = Some ''unreachable''"
    by (simp add: wm_local_call_def invoke_def run_entry_def get_module_def load_module_def evict_def Let_def
        demo_D_def mem_merkledb_def demo_mach_def fa_new_def demo_store_def touch_def demo_wasm_def or_return_def check_def
        host_functions_register_def faulting_def write_mem_def alloc_mem_def error_new_ext_def)
  then obtain m2 evs fuel e where
    2: "wm_call ?W (tx_call_args demo_env ?d hash_default 0) [] ?m = Some (m2, evs, fuel, Inl e)"
    and e: "err_kind e = WasmMachineFault" by blast
  from 1 2 e have "\<exists>m' ret. handle_unit_transaction demo_env demo_D ?W demo_call_tx 0 0 [] 0 ?m = Some (m', ret)"
    by (simp add: handle_unit_transaction_def Let_def failure_message_def)
  then obtain m' ret where 3: "handle_unit_transaction demo_env demo_D ?W demo_call_tx 0 0 [] 0 ?m = Some (m', ret)"
    by blast
  from faulting_transaction_is_free [OF refl 3 1 2] e 3 show ?thesis by simp
qed

text \<open>Two host functions can be made to panic by a contract: asking for a random number up to
  \<open>u64::MAX\<close>, and searching for keys with a pattern whose last character is not a single byte.\<close>

theorem host_functions_panic:
  "trampoline E H T D h (HfDrand u64_max) i c = None \<and>
   (\<forall>offset len pattern. arg_str T i offset len = Inr pattern \<longrightarrow> pattern \<noteq> [] \<longrightarrow>
      \<not> is_char_boundary pattern (length pattern - 1) \<longrightarrow>
      trampoline E H T D h (HfGetKeys offset len) i c = None)"
  by (auto simp: tr_drand_def hf_drand_def drand_rand_def u64_max_def tr_get_keys_def with_args_def Let_def
      split: option.splits)

theorem host_functions_panic_witness:
  "trampoline demo_env demo_host demo_wasm demo_D (\<lambda>_ _ _. None) (HfGetKeys 0 2) [0xc3, 0xa9] demo_ctx = None"
proof -
  have "arg_str demo_wasm [0xc3, 0xa9] 0 2 = Inr (bytes_str [0xc3, 0xa9])"
    by (simp add: arg_str_def arg_bytes_def mem_from_def demo_wasm_def slice_from_def get_range_def from_utf8_def
        utf8_step_def utf8_ranges_def)
  moreover have "\<not> is_char_boundary (bytes_str [0xc3, 0xa9]) (length (bytes_str [0xc3, 0xa9]) - 1)" "bytes_str [0xc3, 0xa9] \<noteq> []"
    by (simp_all add: is_char_boundary_def bytes_str_def)
  ultimately show ?thesis
    using host_functions_panic [of demo_env demo_host demo_wasm demo_D "\<lambda>_ _ _. None" "[0xc3, 0xa9]" demo_ctx] by blast
qed

end
