(* ===== verification/Builder.thy ===== *)
theory Builder
  imports Pool Db
begin

text \<open>
  \<^verbatim>\<open>src/blockchain/builder.rs\<close>: unconfirmed transactions are cut, in arrival order, into blocks of at
  most \<open>threshold\<close> hashes, which are queued as confirmed blocks at the next heights.

  The two nested loops of \<open>run\<close> are partial functions: \<open>None\<close> is a run that never returns. \<open>now ht\<close> is
  the clock as read while the block of height \<open>ht\<close> is built. The database is reached through the
  trait record \<open>db_ops\<close>.
\<close>

section \<open>Definitions\<close>

record builder =
  bu_threshold :: nat

definition builder_new :: "nat \<Rightarrow> builder" where
  [simp]: "builder_new threshold = \<lparr>bu_threshold = threshold\<rparr>"

definition set_block_threshold :: "nat \<Rightarrow> builder \<Rightarrow> builder" where
  "set_block_threshold t b = b\<lparr>bu_threshold := t\<rparr>"

text \<open>\<open>try_read\<close> fails when the pool is locked; the length then defaults to 0.\<close>

definition builder_can_run :: "bool \<Rightarrow> pool \<Rightarrow> nat \<Rightarrow> bool" where
  "builder_can_run locked pool threshold =
     ((if locked then 0 else qs_len (pl_unconfirmed pool)) \<ge> threshold)"

text \<open>The height after the last confirmed block of the pool, or after the last block of the chain.\<close>

definition builder_height :: "('d, 'f) db_ops \<Rightarrow> 'd \<Rightarrow> pool \<Rightarrow> u64" where
  "builder_height D db pool =
     (case bt_last (pl_confirmed pool) of
        Some (ht, _) \<Rightarrow> ht + 1
      | None \<Rightarrow>
          (case db_load_block D db u64_max of
             Some block \<Rightarrow> bd_height (blk_data block) + 1
           | None \<Rightarrow> 0))"

text \<open>\<open>for _ in 0..self.threshold\<close>.\<close>

fun pop_upto :: "nat \<Rightarrow> hash queue_set \<Rightarrow> hash list \<times> hash queue_set" where
  "pop_upto 0 q = ([], q)"
| "pop_upto (Suc n) q =
     (case qs_pop q of
        (q', None) \<Rightarrow> ([], q')
      | (q', Some h) \<Rightarrow> (case pop_upto n q' of (hs, q'') \<Rightarrow> (h # hs, q'')))"

definition new_block_info :: "hash list \<Rightarrow> u64 \<Rightarrow> block_info" where
  "new_block_info hs timestamp =
     \<lparr>bi_hash = None, bi_validator = None, bi_signature = None, bi_txs_hashes = Some hs,
      bi_timestamp = timestamp\<rparr>"

text \<open>One round of the inner loop, on the local variables \<open>count\<close>, \<open>height\<close> and the pool. \<open>checked_sub\<close>
  with a default of 0 is natural-number subtraction.\<close>

definition build_block :: "nat \<Rightarrow> (u64 \<Rightarrow> u64) \<Rightarrow> nat \<times> u64 \<times> pool \<Rightarrow> nat \<times> u64 \<times> pool" where
  "build_block threshold now s =
     (case s of (count, height, pool) \<Rightarrow>
       case pop_upto threshold (pl_unconfirmed pool) of (txs_hashes, q) \<Rightarrow>
         (let timestamp = (if height = 0 then 0 else now height)
          in (count - length txs_hashes, height + 1,
              pool\<lparr>pl_unconfirmed := q,
                   pl_confirmed :=
                     bt_insert height (new_block_info txs_hashes timestamp) (pl_confirmed pool)\<rparr>)))"

partial_function (option) builder_while ::
    "nat \<Rightarrow> (u64 \<Rightarrow> u64) \<Rightarrow> nat \<times> u64 \<times> pool \<Rightarrow> (nat \<times> u64 \<times> pool) option" where
  "builder_while threshold now s =
     (if fst s > 0 then builder_while threshold now (build_block threshold now s) else Some s)"

partial_function (option) builder_loop ::
    "nat \<Rightarrow> (u64 \<Rightarrow> u64) \<Rightarrow> nat \<times> u64 \<times> pool \<Rightarrow> pool option" where
  "builder_loop threshold now s =
     Option.bind (builder_while threshold now s)
       (\<lambda>(_, height, pool).
          if qs_len (pl_unconfirmed pool) < threshold then Some pool
          else builder_loop threshold now (qs_len (pl_unconfirmed pool), height, pool))"

definition builder_run ::
    "('d, 'f) db_ops \<Rightarrow> builder \<Rightarrow> (u64 \<Rightarrow> u64) \<Rightarrow> 'd \<Rightarrow> pool \<Rightarrow> pool option" where
  "builder_run D b now db pool =
     builder_loop (bu_threshold b) now
       (qs_len (pl_unconfirmed pool), builder_height D db pool, pool)"

section \<open>What a run should do\<close>

text \<open>The entries added from height \<open>ht\<close> on.\<close>

fun new_blocks :: "(u64 \<Rightarrow> u64) \<Rightarrow> u64 \<Rightarrow> hash list list \<Rightarrow> (u64 \<times> block_info) list" where
  "new_blocks now ht [] = []"
| "new_blocks now ht (hs # hss) =
     (ht, new_block_info hs (if ht = 0 then 0 else now ht)) # new_blocks now (ht + 1) hss"

section \<open>The inner loop\<close>

lemma pop_upto_spec:
  "qs_inv q \<Longrightarrow> pop_upto n q = (hs, q') \<Longrightarrow>
   hs = take n (qs_fifo q) \<and> qs_inv q' \<and> qs_fifo q' = drop n (qs_fifo q)"
proof (induction n arbitrary: q hs)
  case (Suc n)
  obtain q1 r where 1: "qs_pop q = (q1, r)" by (cases "qs_pop q")
  note pop = qs.pop_spec [OF Suc.prems(1) 1]
  show ?case
  proof (cases "qs_fifo q")
    case Nil
    with pop 1 Suc.prems show ?thesis by auto
  next
    case (Cons h rest)
    with pop 1 Suc.prems obtain hs' where "pop_upto n q1 = (hs', q')" and "hs = h # hs'"
      by (auto split: prod.splits)
    with Suc.IH [of q1 hs'] pop Cons show ?thesis by simp
  qed
qed simp

lemma build_block_pops:
  assumes "qs_inv (pl_unconfirmed pool)" and "\<forall>j \<in> fst ` set (pl_confirmed pool). j < ht"
  obtains q where "qs_inv q" "qs_fifo q = drop threshold (qs_fifo (pl_unconfirmed pool))"
    "build_block threshold now (qs_len (pl_unconfirmed pool), ht, pool) =
      (qs_len q, ht + 1, pool\<lparr>pl_unconfirmed := q, pl_confirmed := pl_confirmed pool @
         [(ht, new_block_info (take threshold (qs_fifo (pl_unconfirmed pool))) (if ht = 0 then 0 else now ht))]\<rparr>)"
proof -
  obtain hs q where pop: "pop_upto threshold (pl_unconfirmed pool) = (hs, q)" by force
  from pop_upto_spec [OF assms(1) pop] assms(2) show thesis
    by (intro that [of q]) (simp_all add: build_block_def pop Let_def qs_len_def bt_insert_above min_def)
qed

lemma builder_while_drains:
  assumes "threshold > 0" and "qs_inv (pl_unconfirmed pool)"
    and "\<forall>j \<in> fst ` set (pl_confirmed pool). j < ht"
    and "unat ht + length (chunks threshold (qs_fifo (pl_unconfirmed pool))) < 2 ^ 64"
  shows "\<exists>q. qs_inv q \<and> qs_fifo q = [] \<and>
    builder_while threshold now (qs_len (pl_unconfirmed pool), ht, pool) =
      Some (0, ht + of_nat (length (chunks threshold (qs_fifo (pl_unconfirmed pool)))),
        pool\<lparr>pl_unconfirmed := q,
             pl_confirmed := pl_confirmed pool @
               new_blocks now ht (chunks threshold (qs_fifo (pl_unconfirmed pool)))\<rparr>)"
  using assms(2-)
proof (induction "length (qs_fifo (pl_unconfirmed pool))" arbitrary: pool ht rule: less_induct)
  case less
  show ?case
  proof (cases "qs_fifo (pl_unconfirmed pool)")
    case Nil
    then show ?thesis using less.prems
      by (auto simp: builder_while.simps qs_len_def intro!: exI [of _ "pl_unconfirmed pool"])
  next
    case (Cons h rest)
    let ?xs = "qs_fifo (pl_unconfirmed pool)"
    let ?bi = "new_block_info (take threshold ?xs) (if ht = 0 then 0 else now ht)"
    obtain q where q: "qs_inv q" "qs_fifo q = drop threshold ?xs" and step: "build_block threshold now (qs_len (pl_unconfirmed pool), ht, pool) =
      (qs_len q, ht + 1, pool\<lparr>pl_unconfirmed := q, pl_confirmed := pl_confirmed pool @ [(ht, ?bi)]\<rparr>)"
      by (rule build_block_pops [OF less.prems(1,2)])
    from Cons assms(1) have ch: "chunks threshold ?xs = take threshold ?xs # chunks threshold (drop threshold ?xs)" by simp
    let ?pool = "pool\<lparr>pl_unconfirmed := q, pl_confirmed := pl_confirmed pool @ [(ht, ?bi)]\<rparr>"
    from less.prems(3) ch have "ht \<noteq> u64_max" by (auto simp: unat_u64_max)
    then have suc: "unat (ht + 1) = Suc (unat ht)" by (rule unat_Suc_u64)
    have "\<exists>q'. qs_inv q' \<and> qs_fifo q' = [] \<and>
      builder_while threshold now (qs_len (pl_unconfirmed ?pool), ht + 1, ?pool) =
      Some (0, (ht + 1) + of_nat (length (chunks threshold (qs_fifo (pl_unconfirmed ?pool)))),
        ?pool\<lparr>pl_unconfirmed := q', pl_confirmed := pl_confirmed ?pool @
          new_blocks now (ht + 1) (chunks threshold (qs_fifo (pl_unconfirmed ?pool)))\<rparr>)"
    proof (rule less.hyps)
      show "length (qs_fifo (pl_unconfirmed ?pool)) < length ?xs"
        using Cons assms(1) q by simp
      have "j < ht + 1" if "j \<in> fst ` set (pl_confirmed pool) \<or> j = ht" for j
        using that less.prems(2) suc by (fastforce simp: word_less_nat_alt)
      then show "\<forall>j \<in> fst ` set (pl_confirmed ?pool). j < ht + 1" by auto
      show "unat (ht + 1) + length (chunks threshold (qs_fifo (pl_unconfirmed ?pool))) < 2 ^ 64"
        using less.prems(3) ch q suc by simp
    qed (use q in simp)
    then show ?thesis
      using Cons ch q step by (subst builder_while.simps) (auto simp: qs_len_def add_ac)
  qed
qed

section \<open>Runs\<close>

lemma builder_height_above:
  assumes "bt_wf (pl_confirmed pool)" and "u64_max \<notin> fst ` set (pl_confirmed pool)"
    and "j \<in> fst ` set (pl_confirmed pool)"
  shows "j < builder_height D db pool"
proof -
  from assms(3) obtain ht bi where last: "bt_last (pl_confirmed pool) = Some (ht, bi)"
    by (cases "bt_last (pl_confirmed pool)") auto
  then have "(ht, bi) \<in> set (pl_confirmed pool)"
    by (metis bt_last_def last_in_set option.distinct(1) option.inject)
  then have "ht \<noteq> u64_max" using assms(2) by force
  then have "unat (ht + 1) = Suc (unat ht)" by (rule unat_Suc_u64)
  with bt_last_max [OF assms(1) last assms(3)] last show ?thesis
    by (simp add: builder_height_def word_less_nat_alt word_le_nat_alt)
qed

lemma builder_loop_zero: "builder_loop threshold now s = Some p \<Longrightarrow> threshold \<noteq> 0"
proof (rule builder_loop.raw_induct [where P = "\<lambda>threshold now s p. threshold \<noteq> 0"])
  fix loop :: "nat \<Rightarrow> (u64 \<Rightarrow> u64) \<Rightarrow> nat \<times> u64 \<times> pool \<Rightarrow> pool option" and t n s' p'
  assume "\<And>t n s y. loop t n s = Some y \<Longrightarrow> t \<noteq> 0"
    and "Option.bind (builder_while t n s') (\<lambda>(_, height, pool).
      if qs_len (pl_unconfirmed pool) < t then Some pool
      else loop t n (qs_len (pl_unconfirmed pool), height, pool)) = Some p'"
  then show "t \<noteq> 0" by (auto simp: bind_eq_Some_conv split: if_splits)
qed

lemma builder_run_result:
  assumes "bu_threshold b > 0"
    and "qs_inv (pl_unconfirmed pool)" and "bt_wf (pl_confirmed pool)"
    and "u64_max \<notin> fst ` set (pl_confirmed pool)"
    and "unat (builder_height D db pool) +
           length (chunks (bu_threshold b) (qs_fifo (pl_unconfirmed pool))) < 2 ^ 64"
  shows "\<exists>pool'. builder_run D b now db pool = Some pool' \<and>
    qs_inv (pl_unconfirmed pool') \<and> qs_fifo (pl_unconfirmed pool') = [] \<and>
    pl_txs pool' = pl_txs pool \<and>
    pl_confirmed pool' = pl_confirmed pool @ new_blocks now (builder_height D db pool)
      (chunks (bu_threshold b) (qs_fifo (pl_unconfirmed pool)))"
proof -
  let ?ht = "builder_height D db pool" and ?cs = "chunks (bu_threshold b) (qs_fifo (pl_unconfirmed pool))"
  have "\<forall>j \<in> fst ` set (pl_confirmed pool). j < ?ht"
    by (intro ballI builder_height_above assms)
  from builder_while_drains [OF assms(1,2) this assms(5), of now]
  obtain q where q: "qs_inv q" "qs_fifo q = []"
    and w: "builder_while (bu_threshold b) now (qs_len (pl_unconfirmed pool), ?ht, pool) =
      Some (0, ?ht + of_nat (length ?cs), pool\<lparr>pl_unconfirmed := q,
        pl_confirmed := pl_confirmed pool @ new_blocks now ?ht ?cs\<rparr>)" by blast
  have "builder_run D b now db pool = Some (pool\<lparr>pl_unconfirmed := q,
        pl_confirmed := pl_confirmed pool @ new_blocks now ?ht ?cs\<rparr>)"
    unfolding builder_run_def using assms(1) q
    by (subst builder_loop.simps, subst w) (simp add: qs_len_def)
  with q show ?thesis by simp
qed

text \<open>C6. A run of the builder. With a positive threshold the two loops end: the queue of unconfirmed
  transactions is empty afterwards, and the confirmed blocks are the old ones followed by the queue
  cut in arrival order into non-empty blocks of at most \<open>threshold\<close> hashes, at consecutive heights
  from the one after the last known block; nothing else in the pool changes. (The heights must not
  run past \<open>u64::MAX\<close>.)
\<close>

theorem builder_run_drains:
  assumes "bu_threshold b > 0"
    and "qs_inv (pl_unconfirmed pool)" and "bt_wf (pl_confirmed pool)"
    and "u64_max \<notin> fst ` set (pl_confirmed pool)"
    and "unat (builder_height D db pool) +
           length (chunks (bu_threshold b) (qs_fifo (pl_unconfirmed pool))) < 2 ^ 64"
  shows "\<exists>pool'. builder_run D b now db pool = Some pool' \<and>
    qs_inv (pl_unconfirmed pool') \<and> qs_fifo (pl_unconfirmed pool') = [] \<and>
    pl_txs pool' = pl_txs pool \<and>
    pl_confirmed pool' = pl_confirmed pool @ new_blocks now (builder_height D db pool)
      (chunks (bu_threshold b) (qs_fifo (pl_unconfirmed pool)))"
  using assms by (rule builder_run_result)

definition demo_pool :: pool where
  "demo_pool =
     \<lparr>pl_txs = (\<lambda>_. None), pl_unconfirmed = fold (\<lambda>v q. fst (qs_push q v))
        [Hash [1], Hash [2], Hash [1], Hash [3]] qs_new, pl_confirmed = []\<rparr>"

theorem builder_run_drains_witness:
  "\<exists>pool'. builder_run (rocks_ops demo_env mem_merkledb) \<lparr>bu_threshold = 2\<rparr> (\<lambda>_. 9)
     (rocks_new mem_merkledb store_empty) demo_pool = Some pool' \<and>
     map fst (pl_confirmed pool') = [0, 1] \<and>
     map (bi_txs_hashes \<circ> snd) (pl_confirmed pool') = [Some [Hash [1], Hash [2]], Some [Hash [3]]] \<and>
     qs_fifo (pl_unconfirmed pool') = []"
proof -
  let ?D = "rocks_ops demo_env mem_merkledb" and ?db = "rocks_new mem_merkledb store_empty"
  have q: "qs_fifo (pl_unconfirmed demo_pool) = [Hash [1], Hash [2], Hash [3]]"
    by (simp add: demo_pool_def qs_push_def)
  have inv: "qs_inv (pl_unconfirmed demo_pool)"
    by (auto simp: demo_pool_def qs_push_def qs_inv_def)
  have h: "builder_height ?D ?db demo_pool = 0"
    by (simp add: builder_height_def demo_pool_def bt_last_def rocks_load_block_def
        st_load_block_def rocks_new_def mem_merkledb_def store_empty_def)
  have c: "chunks 2 [Hash [1], Hash [2], Hash [3]] = [[Hash [1], Hash [2]], [Hash [3]]]"
    by (simp add: numeral_2_eq_2)
  have "\<exists>pool'. builder_run ?D \<lparr>bu_threshold = 2\<rparr> (\<lambda>_. 9) ?db demo_pool = Some pool' \<and>
    qs_inv (pl_unconfirmed pool') \<and> qs_fifo (pl_unconfirmed pool') = [] \<and>
    pl_txs pool' = pl_txs demo_pool \<and>
    pl_confirmed pool' = pl_confirmed demo_pool @ new_blocks (\<lambda>_. 9) (builder_height ?D ?db demo_pool)
      (chunks (bu_threshold \<lparr>bu_threshold = 2\<rparr>) (qs_fifo (pl_unconfirmed demo_pool)))"
    by (rule builder_run_drains) (simp_all add: inv h q c, simp_all add: demo_pool_def)
  then show ?thesis by (auto simp: h q c) (simp add: demo_pool_def new_block_info_def)+
qed

text \<open>A threshold of zero. The builder then never returns, whatever the pool: with transactions waiting
  the inner loop keeps adding empty blocks, and with an empty queue the exit test \<open>count < 0\<close> fails.
\<close>

theorem builder_run_zero_threshold:
  "builder_run D \<lparr>bu_threshold = 0\<rparr> now db pool = None"
  using builder_loop_zero [of 0 now] by (cases "builder_run D \<lparr>bu_threshold = 0\<rparr> now db pool") (auto simp: builder_run_def)

end
