(* ===== verification/Dispatcher.thy ===== *)
theory Dispatcher
  imports Drand Db PubSub Pool "HOL-Library.Monad_Syntax"
begin

text \<open>
  \<^verbatim>\<open>src/blockchain/dispatcher.rs\<close>: the handlers of the messages submitted to the blockchain service, single
  or packed. \<open>None\<close> is a panic. What differs between builds is the argument \<open>codec\<close>: the
  decoders of rmp-serde, and the handler of \<open>ExecReadOnlyTransaction\<close>, absent (\<open>cd_ro = None\<close>) without the
  feature \<open>ro-exec\<close>; \<open>ReadOnly\<close> gives the one of the feature. The channel to
  the aligner thread is the list of what was sent to it, and its condition variable the flag
  \<open>dp_aligned\<close> (\<open>true\<close>: not aligning). The optional feature \<open>rt-monitor\<close> is off.
\<close>

unbundle bit_operations_syntax

section \<open>State\<close>

record block_config =
  bc_threshold :: nat
  bc_timeout :: u16
  bc_network :: string
  bc_keypair :: key_pair

record blockchain_settings =
  se_accept_broadcast :: bool
  se_block_threshold :: nat
  se_block_timeout :: u16
  se_burning_fuel_method :: string
  se_network_name :: "string option"
  se_is_production :: bool
  se_min_node_version :: string

record 'd codec =
  cd_multi :: "bytes \<Rightarrow> multi_message option"
  cd_settings :: "bytes \<Rightarrow> blockchain_settings option"
  cd_ro :: "('d \<Rightarrow> string \<Rightarrow> string \<Rightarrow> bytes \<Rightarrow> string \<Rightarrow> hash option \<Rightarrow> u64 \<Rightarrow> string \<Rightarrow> message option) option"

record 'd dispatcher =
  dp_config :: block_config
  dp_pool :: pool
  dp_db :: 'd
  dp_pubsub :: pubsub
  dp_seed :: seed_source
  dp_p2p_id :: string
  dp_aligned :: bool
  dp_aligner :: "message list"
  dp_sent :: "(nat \<times> message) list"

definition MAX_TRANSACTION_SIZE :: nat where "MAX_TRANSACTION_SIZE = 524288 * 2"
definition MAX_PACK_LEVEL :: nat where "MAX_PACK_LEVEL = 32"
definition ARRAY_HIGH_NIBBLE :: u8 where "ARRAY_HIGH_NIBBLE = 0x90"

text \<open>The thread of the aligner that \<open>new\<close> starts is a component of the worker; what the dispatcher holds of it is its
  status and the channel to it, empty at first.\<close>

definition dispatcher_new ::
    "block_config \<Rightarrow> pool \<Rightarrow> 'd \<Rightarrow> pubsub \<Rightarrow> seed_source \<Rightarrow> string \<Rightarrow> bool \<times> message list \<Rightarrow> 'd dispatcher" where
  [simp]: "dispatcher_new config pool db pubsub seed p2p_id aligner =
     \<lparr>dp_config = config, dp_pool = pool, dp_db = db, dp_pubsub = pubsub, dp_seed = seed, dp_p2p_id = p2p_id,
      dp_aligned = fst aligner, dp_aligner = snd aligner, dp_sent = []\<rparr>"

definition set_block_timeout :: "u16 \<Rightarrow> 'd dispatcher \<Rightarrow> 'd dispatcher" where
  "set_block_timeout t s = s\<lparr>dp_config := (dp_config s)\<lparr>bc_timeout := t\<rparr>\<rparr>"

section \<open>Transactions\<close>

text \<open>The tests before the pool is looked at.\<close>

definition admit_transaction ::
    "env \<Rightarrow> ('d, 'f) db_ops \<Rightarrow> 'd dispatcher \<Rightarrow> transaction \<Rightarrow> hash result" where
  "admit_transaction E D s tx =
     (if length (e_rmp E (mp_transaction tx)) \<ge> MAX_TRANSACTION_SIZE then Inl (error_new TooLargeTx)
      else try_bind (tx_verify E tx (tx_get_caller tx) (tx_get_signature tx)) (\<lambda>_.
           try_bind (tx_check_integrity E tx) (\<lambda>_.
             let hash = tx_get_primary_hash E tx
             in if bc_network (dp_config s) \<noteq> tx_get_network tx then Inl (error_new BadNetwork)
                else if db_contains_transaction D (dp_db s) hash then Inl (error_new DuplicatedConfirmedTx)
                else Inr hash)))"

definition put_transaction_internal ::
    "env \<Rightarrow> ('d, 'f) db_ops \<Rightarrow> transaction \<Rightarrow> 'd dispatcher \<Rightarrow> 'd dispatcher \<times> hash result" where
  "put_transaction_internal E D tx s =
     (case admit_transaction E D s tx of
        Inl e \<Rightarrow> (s, Inl e)
      | Inr hash \<Rightarrow>
          (let pool = dp_pool s
           in case pl_txs pool hash of
                None \<Rightarrow>
                  (s\<lparr>dp_pool := pool\<lparr>pl_txs := (pl_txs pool)(hash \<mapsto> Some tx),
                                   pl_unconfirmed := fst (qs_push (pl_unconfirmed pool) hash)\<rparr>\<rparr>,
                   Inr hash)
              | Some None \<Rightarrow>
                  (s\<lparr>dp_pool := pool\<lparr>pl_txs := (pl_txs pool)(hash \<mapsto> Some tx)\<rparr>\<rparr>, Inr hash)
              | Some (Some _) \<Rightarrow>
                  (s, if qs_contains (pl_unconfirmed pool) hash
                      then Inl (error_new DuplicatedUnconfirmedTx)
                      else Inl (error_new DuplicatedConfirmedTx))))"

definition broadcast_attempt ::
    "env \<Rightarrow> (nat \<Rightarrow> bool) \<Rightarrow> transaction \<Rightarrow> 'd dispatcher \<Rightarrow> 'd dispatcher" where
  "broadcast_attempt E closed tx s =
     (if has_subscribers (dp_pubsub s) EV_TRANSACTION
      then (case publish E closed (dp_pubsub s) EV_TRANSACTION (GetTransactionResponse tx None) of
              (ps, sent) \<Rightarrow> s\<lparr>dp_pubsub := ps, dp_sent := dp_sent s @ sent\<rparr>)
      else s)"

definition put_transaction_handler ::
    "env \<Rightarrow> ('d, 'f) db_ops \<Rightarrow> (nat \<Rightarrow> bool) \<Rightarrow> transaction \<Rightarrow> 'd dispatcher \<Rightarrow> 'd dispatcher \<times> message" where
  "put_transaction_handler E D closed tx s =
     (case put_transaction_internal E D tx s of
        (s', Inr hash) \<Rightarrow> (broadcast_attempt E closed tx s', PutTransactionResponse hash)
      | (s', Inl err) \<Rightarrow> (s', Exception err))"

definition get_transaction_handler :: "('d, 'f) db_ops \<Rightarrow> hash \<Rightarrow> 'd dispatcher \<Rightarrow> message" where
  "get_transaction_handler D hash s =
     (case (case db_load_transaction D (dp_db s) hash of
              Some tx \<Rightarrow> Some tx
            | None \<Rightarrow> (case pl_txs (dp_pool s) hash of Some (Some tx) \<Rightarrow> Some tx | _ \<Rightarrow> None)) of
        Some tx \<Rightarrow> GetTransactionResponse tx (Some (dp_p2p_id s))
      | None \<Rightarrow> Exception (error_new ResourceNotFound))"

definition get_transaction_res_handler ::
    "env \<Rightarrow> ('d, 'f) db_ops \<Rightarrow> transaction \<Rightarrow> string option \<Rightarrow> 'd dispatcher \<Rightarrow> 'd dispatcher" where
  "get_transaction_res_handler E D tx origin s =
     (let s' = fst (put_transaction_internal E D tx s)
      in if \<not> dp_aligned s' then s'\<lparr>dp_aligner := dp_aligner s' @ [GetTransactionResponse tx origin]\<rparr>
         else s')"

section \<open>Queries\<close>

definition get_receipt_handler :: "('d, 'f) db_ops \<Rightarrow> hash \<Rightarrow> 'd dispatcher \<Rightarrow> message" where
  "get_receipt_handler D hash s =
     (case db_load_receipt D (dp_db s) hash of
        Some rx \<Rightarrow> GetReceiptResponse rx
      | None \<Rightarrow> Exception (error_new ResourceNotFound))"

definition get_block_handler :: "('d, 'f) db_ops \<Rightarrow> u64 \<Rightarrow> bool \<Rightarrow> 'd dispatcher \<Rightarrow> message" where
  "get_block_handler D height txs s =
     (case db_load_block D (dp_db s) height of
        Some block \<Rightarrow>
          GetBlockResponse block
            (if txs then db_load_transactions_hashes D (dp_db s) (bd_height (blk_data block)) else None)
            (Some (dp_p2p_id s))
      | None \<Rightarrow> Exception (error_new ResourceNotFound))"

definition get_account_handler ::
    "env \<Rightarrow> ('d, 'f) db_ops \<Rightarrow> string \<Rightarrow> string list \<Rightarrow> 'd dispatcher \<Rightarrow> message" where
  "get_account_handler E D i data_names s =
     (case db_load_account D (dp_db s) i of
        Some acc \<Rightarrow>
          GetAccountResponse acc
            (map (\<lambda>name.
               if name = ''*'' then Some (e_rmp E (MpArr (map MpStr (db_load_account_keys D (dp_db s) i))))
               else db_load_account_data D (dp_db s) i name) data_names)
      | None \<Rightarrow> Exception (error_new ResourceNotFound))"

definition get_stats_handler :: "env \<Rightarrow> ('d, 'f) db_ops \<Rightarrow> 'd dispatcher \<Rightarrow> message" where
  "get_stats_handler E D s =
     GetCoreStatsResponse (primary_hash E (mp_hashes (qs_fifo (pl_unconfirmed (dp_pool s)))))
       (qs_len (pl_unconfirmed (dp_pool s))) (db_load_block D (dp_db s) u64_max)"

text \<open>Three \<open>unwrap\<close>s: the settings must be stored, decode, and carry a network name.\<close>

definition get_network_id_handler :: "'d codec \<Rightarrow> ('d, 'f) db_ops \<Rightarrow> 'd dispatcher \<Rightarrow> message option" where
  "get_network_id_handler C D s = do {
     buf \<leftarrow> db_load_configuration D (dp_db s) ''blockchain:settings'';
     config \<leftarrow> cd_settings C buf;
     network_name \<leftarrow> se_network_name config;
     Some (GetNetworkIdResponse network_name)
   }"

definition get_seed_handler :: "'d dispatcher \<Rightarrow> message option" where
  "get_seed_handler s = map_option GetSeedRespone (get_seed (dp_seed s))"

definition get_p2p_id_handler :: "'d dispatcher \<Rightarrow> message" where
  "get_p2p_id_handler s = GetP2pIdResponse (dp_p2p_id s)"

section \<open>Blocks received from peers\<close>

definition missing_start :: "('d, 'f) db_ops \<Rightarrow> 'd \<Rightarrow> u64" where
  "missing_start D db =
     (case db_load_block D db u64_max of Some blk \<Rightarrow> bd_height (blk_data blk) + 1 | None \<Rightarrow> 0)"

text \<open>The loop over the hashes of a received block: no longer unconfirmed, known without payload.\<close>

definition note_hash :: "hash \<Rightarrow> pool \<Rightarrow> pool" where
  "note_hash h pool =
     (let pool1 = (if qs_contains (pl_unconfirmed pool) h
                   then pool\<lparr>pl_unconfirmed := fst (qs_remove (pl_unconfirmed pool) h)\<rparr> else pool)
      in if pl_txs pool1 h = None then pool1\<lparr>pl_txs := (pl_txs pool1)(h \<mapsto> None)\<rparr> else pool1)"

definition received_block_info :: "env \<Rightarrow> block \<Rightarrow> hash list option \<Rightarrow> block_info" where
  "received_block_info E block txs_hashes =
     \<lparr>bi_hash = Some (block_hash E block), bi_validator = bd_validator (blk_data block),
      bi_signature = Some (blk_signature block), bi_txs_hashes = txs_hashes,
      bi_timestamp = bd_timestamp (blk_data block)\<rparr>"

definition add_received_block :: "env \<Rightarrow> block \<Rightarrow> hash list option \<Rightarrow> pool \<Rightarrow> pool" where
  "add_received_block E block txs_hashes pool =
     (let pool1 = (case txs_hashes of Some hashes \<Rightarrow> fold note_hash hashes pool | None \<Rightarrow> pool)
      in pool1\<lparr>pl_confirmed := bt_insert (bd_height (blk_data block))
                (received_block_info E block txs_hashes) (pl_confirmed pool1)\<rparr>)"

definition get_block_res_handler ::
    "env \<Rightarrow> ('d, 'f) db_ops \<Rightarrow> block \<Rightarrow> hash list option \<Rightarrow> string option \<Rightarrow> 'd dispatcher \<Rightarrow> 'd dispatcher" where
  "get_block_res_handler E D block txs_hashes origin s =
     (let start = missing_start D (dp_db s); height = bd_height (blk_data block)
      in if start + 1 = height \<and> dp_aligned s
         then s\<lparr>dp_pool := add_received_block E block txs_hashes (dp_pool s)\<rparr>
         else if start \<le> height
         then (if dp_aligned s then s\<lparr>dp_aligned := False\<rparr>
               else s\<lparr>dp_aligner := dp_aligner s @ [GetBlockResponse block txs_hashes origin]\<rparr>)
         else s)"

section \<open>Dispatching\<close>

text \<open>\<open>chan\<close> is the response channel of the submitter.\<close>

function message_handler ::
      "env \<Rightarrow> 'd codec \<Rightarrow> ('d, 'f) db_ops \<Rightarrow> (nat \<Rightarrow> bool) \<Rightarrow> nat \<Rightarrow> message \<Rightarrow> nat \<Rightarrow> 'd dispatcher \<Rightarrow>
       ('d dispatcher \<times> message option) option"
  and packed_message_handler ::
      "env \<Rightarrow> 'd codec \<Rightarrow> ('d, 'f) db_ops \<Rightarrow> (nat \<Rightarrow> bool) \<Rightarrow> nat \<Rightarrow> bytes \<Rightarrow> nat \<Rightarrow> 'd dispatcher \<Rightarrow>
       ('d dispatcher \<times> message option) option"
  and handle_requests ::
      "env \<Rightarrow> 'd codec \<Rightarrow> ('d, 'f) db_ops \<Rightarrow> (nat \<Rightarrow> bool) \<Rightarrow> nat \<Rightarrow> message list \<Rightarrow> nat \<Rightarrow> 'd dispatcher \<Rightarrow>
       ('d dispatcher \<times> message list) option" where
  "message_handler E C D closed chan req pack_level s =
     (case req of
        PutTransactionRequest confirm tx \<Rightarrow>
          (case put_transaction_handler E D closed tx s of
             (s', res) \<Rightarrow> Some (s', if confirm then Some res else None))
      | GetTransactionRequest hash _ \<Rightarrow> Some (s, Some (get_transaction_handler D hash s))
      | GetReceiptRequest hash \<Rightarrow> Some (s, Some (get_receipt_handler D hash s))
      | GetBlockRequest height txs _ \<Rightarrow> Some (s, Some (get_block_handler D height txs s))
      | GetAccountRequest i data \<Rightarrow> Some (s, Some (get_account_handler E D i data s))
      | GetCoreStatsRequest \<Rightarrow> Some (s, Some (get_stats_handler E D s))
      | GetNetworkIdRequest \<Rightarrow> map_option (\<lambda>res. (s, Some res)) (get_network_id_handler C D s)
      | GetSeedRequest \<Rightarrow> map_option (\<lambda>res. (s, Some res)) (get_seed_handler s)
      | Subscribe i events \<Rightarrow>
          Some (s\<lparr>dp_pubsub := subscribe (dp_pubsub s) i events pack_level chan\<rparr>, Some (Packed [0]))
      | Unsubscribe i events \<Rightarrow> Some (s\<lparr>dp_pubsub := unsubscribe (dp_pubsub s) i events\<rparr>, None)
      | GetBlockResponse block txs origin \<Rightarrow> Some (get_block_res_handler E D block txs origin s, None)
      | GetTransactionResponse tx origin \<Rightarrow> Some (get_transaction_res_handler E D tx origin s, None)
      | GetP2pIdRequest \<Rightarrow> Some (s, Some (get_p2p_id_handler s))
      | ExecReadOnlyTransaction target mthd args origin contract max_fuel network \<Rightarrow>
          (case cd_ro C of
             None \<Rightarrow> Some (s, None)
           | Some exec \<Rightarrow>
               map_option (\<lambda>res. (s, Some res)) (exec (dp_db s) target mthd args origin contract max_fuel network))
      | Packed buf \<Rightarrow> packed_message_handler E C D closed chan buf (pack_level + 1) s
      | _ \<Rightarrow> Some (s, None))"
| "packed_message_handler E C D closed chan buf pack_level s =
     (if pack_level \<ge> MAX_PACK_LEVEL then Some (s, None)
      else
        let tag = (case buf of [] \<Rightarrow> 0 | b # _ \<Rightarrow> b)
        in if tag AND ARRAY_HIGH_NIBBLE \<noteq> ARRAY_HIGH_NIBBLE
           then Some (s, Some (Exception (error_new_ext MalformedData ''expected anonymous serialization format'')))
           else (case cd_multi C buf of
                   Some (Simple req) \<Rightarrow>
                     (case message_handler E C D closed chan req pack_level s of
                        None \<Rightarrow> None
                      | Some (s', res) \<Rightarrow>
                          Some (s', map_option (\<lambda>r. Packed (rmp_or_default E (mp_multi_message (Simple r)))) res))
                 | Some (Sequence requests) \<Rightarrow>
                     (case handle_requests E C D closed chan requests pack_level s of
                        None \<Rightarrow> None
                      | Some (s', responses) \<Rightarrow>
                          Some (s', if responses = [] then None
                                    else Some (Packed (rmp_or_default E (mp_multi_message (Sequence responses))))))
                 | None \<Rightarrow>
                     Some (s, Some (Packed (rmp_or_default E
                       (mp_multi_message (Simple (Exception (error_new MalformedData)))))))))"
| "handle_requests E C D closed chan [] pack_level s = Some (s, [])"
| "handle_requests E C D closed chan (req # requests) pack_level s =
     (case message_handler E C D closed chan req pack_level s of
        None \<Rightarrow> None
      | Some (s1, res) \<Rightarrow>
          (case handle_requests E C D closed chan requests pack_level s1 of
             None \<Rightarrow> None
           | Some (s2, responses) \<Rightarrow>
               Some (s2, (case res of Some r \<Rightarrow> r # responses | None \<Rightarrow> responses))))"
  by pat_completeness auto

termination
proof (relation "inv_image (less_than <*lex*> less_than) (\<lambda>c. case c of
    Inl (_, _, _, _, _, _, l, _) \<Rightarrow> (3 * (MAX_PACK_LEVEL - l) + 3, 0)
  | Inr (Inl (_, _, _, _, _, _, l, _)) \<Rightarrow> (if l < MAX_PACK_LEVEL then 3 * (MAX_PACK_LEVEL - l) + 5 else 1, 0)
  | Inr (Inr (_, _, _, _, _, rs, l, _)) \<Rightarrow> (3 * (MAX_PACK_LEVEL - l) + 4, length rs))")
qed (auto simp: not_le)

declare message_handler.simps [simp del] packed_message_handler.simps [simp del]

end
