(* ===== verification/Dispatching.thy ===== *)
theory Dispatching
  imports Dispatcher
begin

text \<open>
  What the dispatcher guarantees: which transactions enter the pool, that no message, single or packed
  at any depth, breaks the invariant of the pool or touches the database, and how blocks received from
  peers and packed requests are answered.
\<close>

section \<open>Steps that keep the invariant\<close>

definition disp_step :: "('d, 'f) db_ops \<Rightarrow> 'd dispatcher \<Rightarrow> 'd dispatcher \<Rightarrow> bool" where
  "disp_step D s s' \<longleftrightarrow>
     dp_db s' = dp_db s \<and> dp_config s' = dp_config s \<and>
     (pool_inv (db_contains_transaction D (dp_db s)) (dp_pool s) \<longrightarrow>
      pool_inv (db_contains_transaction D (dp_db s)) (dp_pool s'))"

lemma disp_step_refl [simp]: "disp_step D s s"
  by (simp add: disp_step_def)

lemma disp_step_trans: "disp_step D s t \<Longrightarrow> disp_step D t u \<Longrightarrow> disp_step D s u"
  by (simp add: disp_step_def)

lemma disp_step_same_pool:
  "dp_db s' = dp_db s \<Longrightarrow> dp_config s' = dp_config s \<Longrightarrow> dp_pool s' = dp_pool s \<Longrightarrow> disp_step D s s'"
  by (simp add: disp_step_def)

lemma pool_inv_payload:
  assumes "pool_inv stored p" and "pl_txs p h = Some None"
  shows "pool_inv stored (p\<lparr>pl_txs := (pl_txs p)(h \<mapsto> Some tx)\<rparr>)"
  using assms by (auto simp: pool_inv_def)

lemma pool_inv_new:
  assumes "pool_inv stored p" and "pl_txs p h = None" and "\<not> stored h"
  shows "pool_inv stored (p\<lparr>pl_txs := (pl_txs p)(h \<mapsto> Some tx),
    pl_unconfirmed := fst (qs_push (pl_unconfirmed p) h)\<rparr>)"
proof -
  obtain q b where q: "qs_push (pl_unconfirmed p) h = (q, b)" by force
  from assms(1) have "qs_inv (pl_unconfirmed p)" by (simp add: pool_inv_def)
  note push = qs.push_spec [OF this q]
  from assms have "h \<notin> confirmed_hashes (pl_confirmed p)" by (auto simp: pool_inv_def)
  with assms push show ?thesis by (auto simp: pool_inv_def q split: if_splits)
qed

lemma admit_not_stored: "admit_transaction E D s tx = Inr h \<Longrightarrow> \<not> db_contains_transaction D (dp_db s) h"
  by (auto simp: admit_transaction_def Let_def try_bind_Inr_iff split: if_splits)

lemma put_transaction_step: "disp_step D s (fst (put_transaction_internal E D tx s))"
  using admit_not_stored [of E D s tx]
  by (auto simp: put_transaction_internal_def disp_step_def Let_def pool_inv_new pool_inv_payload
      split: sum.splits option.splits)

lemma note_hash_spec:
  assumes "pool_inv stored p"
  shows "pool_inv stored (note_hash h p) \<and> h \<notin> set (qs_fifo (pl_unconfirmed (note_hash h p))) \<and>
    pl_txs (note_hash h p) h \<noteq> None \<and> pl_confirmed (note_hash h p) = pl_confirmed p \<and>
    set (qs_fifo (pl_unconfirmed (note_hash h p))) \<subseteq> set (qs_fifo (pl_unconfirmed p)) \<and>
    (\<forall>k. pl_txs p k \<noteq> None \<longrightarrow> pl_txs (note_hash h p) k \<noteq> None)"
proof -
  obtain q b where q: "qs_remove (pl_unconfirmed p) h = (q, b)" by force
  from assms have inv: "qs_inv (pl_unconfirmed p)" by (simp add: pool_inv_def)
  note rem = qs.remove_spec [OF inv q]
  have dist: "distinct (qs_fifo (pl_unconfirmed p))" using inv by (simp add: qs_inv_def)
  show ?thesis
    using assms rem dist qs.contains_spec [OF inv]
    by (auto simp: note_hash_def Let_def q pool_inv_def dest: notin_set_remove1)
qed

lemma note_hashes_spec:
  "pool_inv stored p \<Longrightarrow> pool_inv stored (fold note_hash hs p) \<and>
   (\<forall>h \<in> set hs. h \<notin> set (qs_fifo (pl_unconfirmed (fold note_hash hs p))) \<and> pl_txs (fold note_hash hs p) h \<noteq> None) \<and>
   pl_confirmed (fold note_hash hs p) = pl_confirmed p \<and>
   set (qs_fifo (pl_unconfirmed (fold note_hash hs p))) \<subseteq> set (qs_fifo (pl_unconfirmed p)) \<and>
   (\<forall>k. pl_txs p k \<noteq> None \<longrightarrow> pl_txs (fold note_hash hs p) k \<noteq> None)"
proof (induction hs arbitrary: p)
  case (Cons h hs)
  note n = note_hash_spec [OF Cons.prems, of h]
  from Cons.IH [of "note_hash h p"] n show ?case by (simp add: subset_iff) blast
qed simp

lemma pool_inv_insert_block:
  assumes "pool_inv stored p"
    and "\<forall>h \<in> (case bi_txs_hashes bi of None \<Rightarrow> {} | Some hs \<Rightarrow> set hs).
           h \<notin> set (qs_fifo (pl_unconfirmed p)) \<and> pl_txs p h \<noteq> None"
  shows "pool_inv stored (p\<lparr>pl_confirmed := bt_insert ht bi (pl_confirmed p)\<rparr>)"
  using assms confirmed_hashes_insert [of ht bi "pl_confirmed p"] by (fastforce simp: pool_inv_def)

lemma add_received_block_inv:
  assumes "pool_inv stored p"
  shows "pool_inv stored (add_received_block E block txs p)"
proof (cases txs)
  case None
  then show ?thesis
    using assms by (simp add: add_received_block_def pool_inv_insert_block received_block_info_def)
next
  case (Some hs)
  have "pool_inv stored (fold note_hash hs p\<lparr>pl_confirmed := bt_insert (bd_height (blk_data block))
      (received_block_info E block txs) (pl_confirmed (fold note_hash hs p))\<rparr>)"
    using note_hashes_spec [OF assms, of hs]
    by (intro pool_inv_insert_block) (simp_all add: received_block_info_def Some)
  then show ?thesis by (simp add: add_received_block_def Some Let_def)
qed

lemma get_block_res_step: "disp_step D s (get_block_res_handler E D block txs origin s)"
  by (simp add: get_block_res_handler_def disp_step_def Let_def add_received_block_inv)

lemma put_handler_step: "disp_step D s (fst (put_transaction_handler E D closed tx s))"
proof -
  obtain s1 r where p: "put_transaction_internal E D tx s = (s1, r)" by force
  with put_transaction_step [of D s E tx] have "disp_step D s s1" by simp
  moreover have "disp_step D s1 (broadcast_attempt E closed tx s1)"
    by (rule disp_step_same_pool) (simp_all add: broadcast_attempt_def split: prod.splits)
  ultimately show ?thesis
    using disp_step_trans by (auto simp: put_transaction_handler_def p split: sum.splits)
qed

lemma get_transaction_res_step: "disp_step D s (get_transaction_res_handler E D tx origin s)"
proof -
  let ?s = "fst (put_transaction_internal E D tx s)"
  have "disp_step D ?s (get_transaction_res_handler E D tx origin s)"
    by (rule disp_step_same_pool) (simp_all add: get_transaction_res_handler_def Let_def)
  with put_transaction_step show ?thesis by (rule disp_step_trans)
qed

lemma handlers_step:
  "message_handler E C D closed chan req l s = Some (s', r) \<Longrightarrow> disp_step D s s'"
  "packed_message_handler E C D closed chan buf l s = Some (s', r) \<Longrightarrow> disp_step D s s'"
  "handle_requests E C D closed chan reqs l s = Some (s', rs) \<Longrightarrow> disp_step D s s'"
proof (induction E C D closed chan req l s and E C D closed chan buf l s and E C D closed chan reqs l s
    arbitrary: s' r and s' r and s' rs
    rule: message_handler_packed_message_handler_handle_requests.induct)
  case (1 E C D closed chan req l s)
  have sub: "disp_step D s (s\<lparr>dp_pubsub := ps\<rparr>)" for ps by (rule disp_step_same_pool) simp_all
  note handled = 1(2) [unfolded message_handler.simps [of E C D closed chan req l s]]
  show ?case
  proof (cases req)
    case (PutTransactionRequest confirm tx)
    with handled put_handler_step [of D s E closed tx] show ?thesis by (auto split: prod.splits)
  next
    case (Packed buf)
    with 1(1) handled show ?thesis by simp
  qed (use handled sub get_block_res_step get_transaction_res_step in \<open>auto split: option.splits\<close>)
next
  case (2 E C D closed chan buf l s)
  from 2(3) [unfolded packed_message_handler.simps [of E C D closed chan buf l s]] 2(1,2) show ?case
    by (auto simp: Let_def split: if_splits option.splits multi_message.splits prod.splits)
next
  case (4 E C D closed chan req reqs l s)
  then show ?case by (auto split: option.splits prod.splits intro: disp_step_trans)
qed simp


section \<open>Properties\<close>

text \<open>A dispatcher with an empty database, and a transaction signed by its caller.\<close>

definition demo_ops :: "(store rocks_db, fork_abs) db_ops" where
  "demo_ops = rocks_ops demo_env mem_merkledb"

definition demo_dispatcher :: "store rocks_db dispatcher" where
  "demo_dispatcher =
     \<lparr>dp_config = \<lparr>bc_threshold = 1, bc_timeout = 1, bc_network = ''skynet'', bc_keypair = KpEd25519 [] []\<rparr>,
      dp_pool = pool_default, dp_db = rocks_new mem_merkledb store_empty, dp_pubsub = pubsub_new,
      dp_seed = seed_source_new [] [] hash_default hash_default hash_default, dp_p2p_id = ''me'',
      dp_aligned = True, dp_aligner = [], dp_sent = []\<rparr>"

definition demo_signed_tx :: transaction where
  "demo_signed_tx =
     UnitTransaction (SignedTransaction (V1 demo_v1) (e_rmp demo_env (mp_transaction_data (V1 demo_v1))))"

lemma demo_admit:
  "admit_transaction demo_env demo_ops demo_dispatcher demo_signed_tx = Inr (tx_get_primary_hash demo_env demo_signed_tx)"
  by (simp add: admit_transaction_def demo_dispatcher_def demo_signed_tx_def tx_get_network_def tx_data_def
      tx_verify_def tx_check_integrity_def data_check_integrity_def v1_check_integrity_def pk_verify_def
      tx_get_caller_def tx_get_signature_def demo_v1_def demo_env_def demo_ops_def rocks_contains_transaction_def
      rocks_new_def mem_merkledb_def store_empty_def MAX_TRANSACTION_SIZE_def mp_transaction_def
      v1_fields_def mp_public_key_def mp_option_def str_bytes_def schema_v1_def curve_name_def mp_u64_def)

text \<open>C11. Admission of transactions. A transaction is accepted exactly when its encoding is below the size
  limit, its signature verifies under its caller's key, its data passes the integrity check, it names
  this node's network, it is not in the database and the pool does not have its payload already. Then
  the payload is recorded under the hash of its data, and it is queued at the end of the unconfirmed
  transactions if the pool had never heard of it; nothing else of the pool changes. A refused
  transaction changes nothing.
\<close>

theorem put_transaction_admits:
  "((\<exists>h. snd (put_transaction_internal E D tx s) = Inr h) \<longleftrightarrow>
      length (e_rmp E (mp_transaction tx)) < MAX_TRANSACTION_SIZE \<and>
      tx_verify E tx (tx_get_caller tx) (tx_get_signature tx) = Inr () \<and>
      tx_check_integrity E tx = Inr () \<and> bc_network (dp_config s) = tx_get_network tx \<and>
      \<not> db_contains_transaction D (dp_db s) (tx_get_primary_hash E tx) \<and>
      \<not> (\<exists>t. pl_txs (dp_pool s) (tx_get_primary_hash E tx) = Some (Some t))) \<and>
   (\<forall>e. snd (put_transaction_internal E D tx s) = Inl e \<longrightarrow> fst (put_transaction_internal E D tx s) = s) \<and>
   (\<forall>h. snd (put_transaction_internal E D tx s) = Inr h \<longrightarrow>
      h = tx_get_primary_hash E tx \<and>
      fst (put_transaction_internal E D tx s) = s\<lparr>dp_pool := (dp_pool s)
        \<lparr>pl_txs := (pl_txs (dp_pool s))(h \<mapsto> Some tx),
         pl_unconfirmed := (if pl_txs (dp_pool s) h = None then fst (qs_push (pl_unconfirmed (dp_pool s)) h)
                            else pl_unconfirmed (dp_pool s))\<rparr>\<rparr>)"
proof -
  have admit: "(admit_transaction E D s tx = Inr h) \<longleftrightarrow> h = tx_get_primary_hash E tx \<and>
      length (e_rmp E (mp_transaction tx)) < MAX_TRANSACTION_SIZE \<and>
      tx_verify E tx (tx_get_caller tx) (tx_get_signature tx) = Inr () \<and>
      tx_check_integrity E tx = Inr () \<and> bc_network (dp_config s) = tx_get_network tx \<and>
      \<not> db_contains_transaction D (dp_db s) (tx_get_primary_hash E tx)" for h
    by (auto simp: admit_transaction_def Let_def try_bind_Inr_iff)
  show ?thesis
  proof (cases "admit_transaction E D s tx")
    case (Inl e)
    with admit show ?thesis by (auto simp: put_transaction_internal_def)
  next
    case (Inr h)
    let ?h = "tx_get_primary_hash E tx"
    from Inr admit have a: "admit_transaction E D s tx = Inr ?h" by metis
    have conds: "length (e_rmp E (mp_transaction tx)) < MAX_TRANSACTION_SIZE"
      "tx_verify E tx (tx_get_caller tx) (tx_get_signature tx) = Inr ()"
      "tx_check_integrity E tx = Inr ()" "bc_network (dp_config s) = tx_get_network tx"
      "\<not> db_contains_transaction D (dp_db s) ?h"
      using a by (simp_all add: admit)
    consider "pl_txs (dp_pool s) ?h = None" | "pl_txs (dp_pool s) ?h = Some None"
      | t where "pl_txs (dp_pool s) ?h = Some (Some t)"
      by (metis option.exhaust)
    then show ?thesis
      by cases (simp_all add: put_transaction_internal_def a Let_def conds)
  qed
qed

theorem put_transaction_admits_witness:
  "snd (put_transaction_internal demo_env demo_ops demo_signed_tx demo_dispatcher) =
     Inr (tx_get_primary_hash demo_env demo_signed_tx) \<and>
   qs_fifo (pl_unconfirmed (dp_pool (fst (put_transaction_internal demo_env demo_ops demo_signed_tx demo_dispatcher)))) =
     [tx_get_primary_hash demo_env demo_signed_tx]"
proof -
  let ?p = "put_transaction_internal demo_env demo_ops demo_signed_tx demo_dispatcher"
  have ok: "snd ?p = Inr (tx_get_primary_hash demo_env demo_signed_tx)"
    by (simp add: put_transaction_internal_def demo_admit Let_def) (simp add: demo_dispatcher_def pool_default_def)
  then have "fst ?p = demo_dispatcher\<lparr>dp_pool := (dp_pool demo_dispatcher)
        \<lparr>pl_txs := (pl_txs (dp_pool demo_dispatcher))(tx_get_primary_hash demo_env demo_signed_tx \<mapsto> Some demo_signed_tx),
         pl_unconfirmed := (if pl_txs (dp_pool demo_dispatcher) (tx_get_primary_hash demo_env demo_signed_tx) = None
           then fst (qs_push (pl_unconfirmed (dp_pool demo_dispatcher)) (tx_get_primary_hash demo_env demo_signed_tx))
           else pl_unconfirmed (dp_pool demo_dispatcher))\<rparr>\<rparr>"
    using put_transaction_admits [of demo_env demo_ops demo_signed_tx demo_dispatcher] by blast
  with ok show ?thesis by (simp add: demo_dispatcher_def pool_default_def qs_push_def)
qed

text \<open>No message can corrupt the pool. Whatever the request, from a peer or a client, alone or packed in
  messages nested to any depth, handling it leaves the database and the configuration alone and keeps
  the invariant of the pool relative to the transactions in the database.
\<close>

theorem message_handler_keeps_pool:
  assumes "message_handler E C D closed chan req 0 s = Some (s', res)"
    and "pool_inv (db_contains_transaction D (dp_db s)) (dp_pool s)"
  shows "pool_inv (db_contains_transaction D (dp_db s')) (dp_pool s') \<and> dp_db s' = dp_db s \<and>
    dp_config s' = dp_config s"
  using handlers_step(1) [OF assms(1)] assms(2) by (simp add: disp_step_def)

theorem message_handler_keeps_pool_witness:
  "\<exists>s' res. message_handler demo_env \<lparr>cd_multi = (\<lambda>_. None), cd_settings = (\<lambda>_. None), cd_ro = None\<rparr> demo_ops (\<lambda>_. False) 0
      (PutTransactionRequest True demo_signed_tx) 0 demo_dispatcher = Some (s', res) \<and>
    pool_inv (db_contains_transaction demo_ops (dp_db s')) (dp_pool s')"
proof -
  obtain s' res where m: "message_handler demo_env \<lparr>cd_multi = (\<lambda>_. None), cd_settings = (\<lambda>_. None), cd_ro = None\<rparr> demo_ops
      (\<lambda>_. False) 0 (PutTransactionRequest True demo_signed_tx) 0 demo_dispatcher = Some (s', res)"
    by (cases "put_transaction_handler demo_env demo_ops (\<lambda>_. False) demo_signed_tx demo_dispatcher")
       (auto simp: message_handler.simps)
  have "pool_inv (db_contains_transaction demo_ops (dp_db demo_dispatcher)) (dp_pool demo_dispatcher)"
    by (simp add: demo_dispatcher_def pool_inv_default)
  from message_handler_keeps_pool [OF m this] m show ?thesis by blast
qed

text \<open>Nesting is bounded. A packed message that unpacks to a packed message again and again, without
  end, is dropped without a reply after \<open>MAX_PACK_LEVEL\<close> levels, and changes nothing.
\<close>

theorem endless_packing_dropped:
  assumes "\<forall>i. (case bufs i of [] \<Rightarrow> 0 | b # _ \<Rightarrow> b) AND ARRAY_HIGH_NIBBLE = ARRAY_HIGH_NIBBLE \<and>
      cd_multi C (bufs i) = Some (Simple (Packed (bufs (Suc i))))"
  shows "message_handler E C D closed chan (Packed (bufs 0)) 0 s = Some (s, None)"
proof -
  have "packed_message_handler E C D closed chan (bufs i) l s = Some (s, None)" for i l
  proof (induction "MAX_PACK_LEVEL - l" arbitrary: i l)
    case 0
    then show ?case by (simp add: packed_message_handler.simps)
  next
    case (Suc n)
    then have "packed_message_handler E C D closed chan (bufs (Suc i)) (Suc l) s = Some (s, None)"
      by (metis Suc_diff_Suc add_diff_cancel_left' diff_Suc_Suc plus_1_eq_Suc zero_less_Suc zero_less_diff)
    with Suc(2) assms show ?case
      by (simp add: packed_message_handler.simps [of _ _ _ _ _ "bufs i"] message_handler.simps Let_def)
  qed
  then show ?thesis by (simp add: message_handler.simps)
qed

theorem endless_packing_dropped_witness:
  "message_handler demo_env \<lparr>cd_multi = (\<lambda>b. Some (Simple (Packed b))), cd_settings = (\<lambda>_. None), cd_ro = None\<rparr> demo_ops
     (\<lambda>_. False) 0 (Packed [0x92]) 0 demo_dispatcher = Some (demo_dispatcher, None)"
  by (rule endless_packing_dropped [of "\<lambda>_. [0x92]"]) (simp add: ARRAY_HIGH_NIBBLE_def)

text \<open>A packed request for statistics is answered with an empty buffer: the reply cannot be encoded
  (serde has no encoding for a tuple in an internally tagged variant) and the failure is replaced by the
  default, so the client gets a \<open>Packed\<close> message without content. The same holds for the network
  identifier, the seed and the peer identifier.
\<close>

theorem packed_stats_reply_empty:
  assumes "(case buf of [] \<Rightarrow> 0 | b # _ \<Rightarrow> b) AND ARRAY_HIGH_NIBBLE = ARRAY_HIGH_NIBBLE"
    and "cd_multi C buf = Some (Simple GetCoreStatsRequest)"
  shows "message_handler E C D closed chan (Packed buf) 0 s = Some (s, Some (Packed []))"
  using assms
  by (simp add: message_handler.simps packed_message_handler.simps [of _ _ _ _ _ buf] Let_def MAX_PACK_LEVEL_def
      get_stats_handler_def mp_multi_message_def mp_message_def rmp_or_default_def)

theorem packed_stats_reply_empty_witness:
  "message_handler demo_env \<lparr>cd_multi = (\<lambda>_. Some (Simple GetCoreStatsRequest)), cd_settings = (\<lambda>_. None), cd_ro = None\<rparr>
     demo_ops (\<lambda>_. False) 0 (Packed [0x91]) 0 demo_dispatcher = Some (demo_dispatcher, Some (Packed []))"
  by (rule packed_stats_reply_empty) (simp_all add: ARRAY_HIGH_NIBBLE_def)

text \<open>The next block is not queued. When an aligned node receives the block that follows its last one,
  it does not add it to the pool but declares itself misaligned; the block it would add is the one after
  that (the code compares with one more than the first missing height).
\<close>

theorem next_block_starts_alignment:
  assumes "dp_aligned s" and "bd_height (blk_data block) = missing_start D (dp_db s)"
  shows "get_block_res_handler E D block txs origin s = s\<lparr>dp_aligned := False\<rparr> \<and>
    get_block_res_handler E D
      (block\<lparr>blk_data := (blk_data block)\<lparr>bd_height := missing_start D (dp_db s) + 1\<rparr>\<rparr>) txs origin s \<noteq>
      s\<lparr>dp_aligned := False\<rparr>"
proof -
  have "s\<lparr>dp_pool := p\<rparr> \<noteq> s\<lparr>dp_aligned := False\<rparr>" for p
  proof
    assume "s\<lparr>dp_pool := p\<rparr> = s\<lparr>dp_aligned := False\<rparr>"
    then have "dp_aligned (s\<lparr>dp_pool := p\<rparr>) = dp_aligned (s\<lparr>dp_aligned := False\<rparr>)" by simp
    with assms(1) show False by simp
  qed
  with assms show ?thesis by (simp add: get_block_res_handler_def Let_def)
qed

theorem next_block_starts_alignment_witness:
  "get_block_res_handler demo_env demo_ops demo_block (Some []) None demo_dispatcher =
     demo_dispatcher\<lparr>dp_aligned := False\<rparr>"
proof -
  have "missing_start demo_ops (dp_db demo_dispatcher) = 0"
    by (simp add: missing_start_def demo_ops_def demo_dispatcher_def rocks_load_block_def st_load_block_def
        rocks_new_def mem_merkledb_def store_empty_def)
  then have "bd_height (blk_data demo_block) = missing_start demo_ops (dp_db demo_dispatcher)"
    by (simp add: demo_block_def)
  from next_block_starts_alignment [OF _ this] show ?thesis by (simp add: demo_dispatcher_def)
qed

end
