(* ===== verification/Aligner.thy ===== *)
theory Aligner
  imports Dispatching
begin

text \<open>
  \<^verbatim>\<open>src/blockchain/aligner.rs\<close>: when the dispatcher finds the node behind its peers, the aligner collects
  the last blocks the peers propose, chooses one, downloads the blocks and the transactions up to it,
  puts them in the pool and waits for the executor.

  The code is a thread that loops over the clock and its channel. It is modelled as a machine: a phase
  for each loop, with the loop's variables, and one step \<open>al_step\<close> per turn of a loop. A turn either finds the time
  window or timeout of the loop elapsed, or polls the channel that the dispatcher fills (\<open>dp_aligner\<close>).
  The random number of a turn chooses the peer if one is needed. \<open>iter\<close> is the order in which the hash
  map of proposals iterates. \<open>None\<close> is a panic, or a loop that does not end. \<open>e_debug\<close> tells whether
  debug messages are logged: the one of \<open>collect_missing_txs\<close> unwraps the origin of a transaction when it is.
\<close>

section \<open>State\<close>

type_synonym peer = "string \<times> string \<times> block"

record aligner =
  al_trusted_peers :: "peer list"
  al_missing_blocks :: "message list"
  al_unexpected_blocks :: "message list"
  al_blacklist_blocks :: "hash list"
  al_missing_txs :: "hash list"

definition aligner_new :: aligner where
  "aligner_new =
     \<lparr>al_trusted_peers = [], al_missing_blocks = [], al_unexpected_blocks = [], al_blacklist_blocks = [],
      al_missing_txs = []\<rparr>"

definition MAX_ATTEMPTS :: nat where "MAX_ATTEMPTS = 3"
definition LATEST_WINDOW :: nat where "LATEST_WINDOW = 5"

datatype tick = Elapsed nat | Polled nat

datatype al_phase =
    Idle
  | FindPeers "peer list"
  | CollectBlocks u64 u64 string nat          \<comment> \<open>height limit, local height, first peer, attempt\<close>
  | CollectTxs u64 "hash list" string bool nat \<comment> \<open>height limit, requested, current peer, send, attempt\<close>
  | WaitExecuted

type_synonym 'd al_state = "al_phase \<times> aligner \<times> 'd dispatcher"

section \<open>Operations\<close>

definition al_publish :: "env \<Rightarrow> (nat \<Rightarrow> bool) \<Rightarrow> u8 \<Rightarrow> message \<Rightarrow> 'd dispatcher \<Rightarrow> 'd dispatcher" where
  "al_publish E closed event msg s =
     (case publish E closed (dp_pubsub s) event msg of
        (ps, sent) \<Rightarrow> s\<lparr>dp_pubsub := ps, dp_sent := dp_sent s @ sent\<rparr>)"

text \<open>\<open>SliceRandom::choose\<close> on the trusted peers, by their identifier.\<close>

definition choose_peer :: "nat \<Rightarrow> aligner \<Rightarrow> string option" where
  "choose_peer r al =
     (if al_trusted_peers al = [] then None
      else Some (fst (al_trusted_peers al ! (r mod length (al_trusted_peers al)))))"

definition collect_peer :: "env \<Rightarrow> message \<Rightarrow> peer list \<Rightarrow> peer list" where
  "collect_peer E msg peers =
     (case msg of
        GetBlockResponse block None (Some origin) \<Rightarrow>
          (let entry = (origin, e_hex E (hash_as_bytes (primary_hash E (mp_block block))), block)
           in if entry \<in> set peers then peers else peers @ [entry])
      | _ \<Rightarrow> peers)"

abbreviation peer_height :: "peer \<Rightarrow> u64" where
  "peer_height p \<equiv> bd_height (blk_data (snd (snd p)))"

text \<open>How many peers propose each block, and its height.\<close>

definition count_peer :: "peer \<Rightarrow> (string \<times> nat \<times> u64) list \<Rightarrow> (string \<times> nat \<times> u64) list" where
  "count_peer p m =
     AList.update (fst (snd p))
       (case map_of m (fst (snd p)) of None \<Rightarrow> 1 | Some (n, _) \<Rightarrow> n + 1, peer_height p) m"

definition most_common_block ::
    "env \<Rightarrow> ((string \<times> nat \<times> u64) list \<Rightarrow> (string \<times> nat \<times> u64) list) \<Rightarrow> hash list \<Rightarrow> peer list \<Rightarrow> string option" where
  "most_common_block E iter blacklist peers =
     (let blocks = filter (\<lambda>b. (case hash_from_hex E (fst b) of Inr h \<Rightarrow> h | Inl _ \<Rightarrow> hash_default) \<notin> set blacklist)
            (iter (fold count_peer peers []));
          by_occurrences = sort_key (\<lambda>b. fst (snd b)) blocks;
          window = (if LATEST_WINDOW < length by_occurrences then take LATEST_WINDOW by_occurrences else by_occurrences);
          by_height = sort_key (\<lambda>b. snd (snd b)) window
      in if by_height = [] then None else Some (fst (last by_height)))"

definition filter_peers ::
    "env \<Rightarrow> ((string \<times> nat \<times> u64) list \<Rightarrow> (string \<times> nat \<times> u64) list) \<Rightarrow> peer list \<Rightarrow> u64 \<Rightarrow> aligner \<Rightarrow>
     (aligner \<times> u64) option" where
  "filter_peers E iter collected last_block_height al =
     (case most_common_block E iter (al_blacklist_blocks al) collected of
        None \<Rightarrow> None
      | Some common \<Rightarrow>
          (case collected of
             [] \<Rightarrow> None
           | first # _ \<Rightarrow>
               (let trusted = filter (\<lambda>p. \<not> (fst (snd p) \<noteq> common \<or> peer_height p < last_block_height + 1)) collected
                in Some (al\<lparr>al_trusted_peers := al_trusted_peers al @ trusted\<rparr>,
                         if trusted \<noteq> [] then peer_height first else 0))))"

definition al_reset :: "'d dispatcher \<Rightarrow> 'd al_state" where
  "al_reset s = (Idle, aligner_new, s\<lparr>dp_aligned := True\<rparr>)"

text \<open>A message of the channel while the missing blocks are collected. The first result tells whether
  the loop goes on (with the attempts to count on from), is over, or panics.\<close>

definition missing_hashes :: "pool \<Rightarrow> hash list \<Rightarrow> hash list" where
  "missing_hashes pool = filter (\<lambda>tx. pl_txs pool tx = None \<or> \<not> qs_contains (pl_unconfirmed pool) tx)"

definition try_to_retrieve_a_block ::
    "env \<Rightarrow> (nat \<Rightarrow> bool) \<Rightarrow> nat \<Rightarrow> u64 \<Rightarrow> u64 \<Rightarrow> nat \<Rightarrow> message \<Rightarrow> aligner \<Rightarrow> 'd dispatcher \<Rightarrow>
     (bool \<times> nat \<times> aligner \<times> 'd dispatcher) option" where
  "try_to_retrieve_a_block E closed r max_height last_height attempt req al s =
     (case req of
        GetBlockResponse block (Some txs_hashes) origin \<Rightarrow>
          (let height = bd_height (blk_data block)
           in if max_height < height \<and> req \<notin> set (al_unexpected_blocks al)
              then Some (False, attempt, al\<lparr>al_unexpected_blocks := al_unexpected_blocks al @ [req]\<rparr>, s)
              else
                (let al1 = al\<lparr>al_missing_blocks := al_missing_blocks al @ [req],
                              al_missing_txs := al_missing_txs al @ missing_hashes (dp_pool s) txs_hashes\<rparr>
                 in if last_height + 1 < height
                    then (case choose_peer r al1 of
                            None \<Rightarrow> None
                          | Some peer \<Rightarrow>
                              Some (False, 0, al1, al_publish E closed EV_UNICAST_REQUEST
                                (GetBlockRequest (height - 1) True (Some peer)) s))
                    else Some (True, 0, al1, s)))
      | _ \<Rightarrow> Some (False, attempt, al, s))"

text \<open>Entering the collection of the transactions, or giving up.\<close>

definition blocks_collected :: "u64 \<Rightarrow> string \<Rightarrow> aligner \<Rightarrow> 'd dispatcher \<Rightarrow> 'd al_state" where
  "blocks_collected max_height peer al s =
     (if al_missing_blocks al = [] then al_reset s
      else (case last (al_missing_blocks al) of
              GetBlockResponse _ _ _ \<Rightarrow> (CollectTxs max_height (al_missing_txs al) peer True 0, al, s)
            | _ \<Rightarrow> al_reset s))"

definition add_txs_to_the_pool :: "env \<Rightarrow> block \<Rightarrow> hash list option \<Rightarrow> pool \<Rightarrow> pool" where
  "add_txs_to_the_pool E block txs pool =
     (let pool1 = (case txs of Some hashes \<Rightarrow> fold note_hash hashes pool | None \<Rightarrow> pool);
          blk_info = \<lparr>bi_hash = Some (block_hash E block), bi_validator = bd_validator (blk_data block),
                      bi_signature = Some (blk_signature block), bi_txs_hashes = txs,
                      bi_timestamp = bd_timestamp (blk_data block)\<rparr>
      in pool1\<lparr>pl_confirmed := bt_insert (bd_height (blk_data block)) blk_info (pl_confirmed pool1)\<rparr>)"

definition add_block_message :: "env \<Rightarrow> message \<Rightarrow> pool \<Rightarrow> pool" where
  "add_block_message E msg pool =
     (case msg of GetBlockResponse block txs _ \<Rightarrow> add_txs_to_the_pool E block txs pool | _ \<Rightarrow> pool)"

definition at_height :: "u64 \<Rightarrow> message \<Rightarrow> bool" where
  "at_height h msg = (case msg of GetBlockResponse block _ _ \<Rightarrow> bd_height (blk_data block) = h | _ \<Rightarrow> False)"

partial_function (option) add_unexpected :: "env \<Rightarrow> message list \<Rightarrow> u64 \<Rightarrow> pool \<Rightarrow> pool option" where
  "add_unexpected E msgs last_block pool =
     (case find (at_height last_block) msgs of
        None \<Rightarrow> Some pool
      | Some msg \<Rightarrow> add_unexpected E msgs (last_block + 1) (add_block_message E msg pool))"

definition update_pool :: "env \<Rightarrow> aligner \<Rightarrow> pool \<Rightarrow> pool option" where
  "update_pool E al pool =
     (case al_trusted_peers al of
        [] \<Rightarrow> None
      | first # _ \<Rightarrow>
          add_unexpected E (al_unexpected_blocks al) (peer_height first + 1)
            (fold (add_block_message E) (rev (al_missing_blocks al)) pool))"

section \<open>The machine\<close>

text \<open>Polling the channel.\<close>

definition al_poll :: "'d dispatcher \<Rightarrow> message option \<times> 'd dispatcher" where
  "al_poll s = (case dp_aligner s of [] \<Rightarrow> (None, s) | m # ms \<Rightarrow> (Some m, s\<lparr>dp_aligner := ms\<rparr>))"

definition al_start :: "env \<Rightarrow> (nat \<Rightarrow> bool) \<Rightarrow> 'd dispatcher \<Rightarrow> 'd al_state" where
  "al_start E closed s =
     (if dp_aligned s then (Idle, aligner_new, s)
      else (FindPeers [], aligner_new,
            al_publish E closed EV_GOSSIP_REQUEST (GetBlockRequest u64_max False None) s))"

definition peers_found ::
    "env \<Rightarrow> ('d, 'f) db_ops \<Rightarrow> ((string \<times> nat \<times> u64) list \<Rightarrow> (string \<times> nat \<times> u64) list) \<Rightarrow> (nat \<Rightarrow> bool) \<Rightarrow> nat \<Rightarrow>
     peer list \<Rightarrow> aligner \<Rightarrow> 'd dispatcher \<Rightarrow> 'd al_state option" where
  "peers_found E D iter closed r collected al s =
     (case db_load_block D (dp_db s) u64_max of
        None \<Rightarrow> Some (al_reset s)
      | Some local_last \<Rightarrow>
          if collected = [] then Some (al_reset s)
          else
            (let last_height = bd_height (blk_data local_last)
             in case filter_peers E iter collected last_height al of
                  None \<Rightarrow> None
                | Some (al1, max_height) \<Rightarrow>
                    (case choose_peer r al1 of
                       None \<Rightarrow> Some (al_reset s)
                     | Some peer \<Rightarrow>
                         Some (CollectBlocks max_height last_height peer 0, al1,
                               al_publish E closed EV_UNICAST_REQUEST (GetBlockRequest u64_max True (Some peer)) s))))"

definition blocks_step ::
    "env \<Rightarrow> (nat \<Rightarrow> bool) \<Rightarrow> tick \<Rightarrow> u64 \<Rightarrow> u64 \<Rightarrow> string \<Rightarrow> nat \<Rightarrow> aligner \<Rightarrow> 'd dispatcher \<Rightarrow> 'd al_state option" where
  "blocks_step E closed t max_height last_height peer0 attempt al s =
     (case t of
        Elapsed r \<Rightarrow>
          if attempt + 1 < MAX_ATTEMPTS
          then (case choose_peer r al of
                  None \<Rightarrow> None
                | Some peer \<Rightarrow>
                    Some (CollectBlocks max_height last_height peer0 (attempt + 1), al,
                          al_publish E closed EV_UNICAST_REQUEST (GetBlockRequest u64_max True (Some peer)) s))
          else Some (al_reset s)
      | Polled r \<Rightarrow>
          (case al_poll s of
             (None, s1) \<Rightarrow> Some (CollectBlocks max_height last_height peer0 attempt, al, s1)
           | (Some req, s1) \<Rightarrow>
               (case try_to_retrieve_a_block E closed r max_height last_height attempt req al s1 of
                  None \<Rightarrow> None
                | Some (over, attempt1, al1, s2) \<Rightarrow>
                    Some (if over then blocks_collected max_height peer0 al1 s2
                          else (CollectBlocks max_height last_height peer0 attempt1, al1, s2)))))"

definition txs_collected :: "env \<Rightarrow> aligner \<Rightarrow> 'd dispatcher \<Rightarrow> 'd al_state option" where
  "txs_collected E al s =
     (case update_pool E al (dp_pool s) of
        None \<Rightarrow> None
      | Some pool \<Rightarrow> Some (WaitExecuted, al, s\<lparr>dp_pool := pool\<rparr>))"

definition txs_step ::
    "env \<Rightarrow> (nat \<Rightarrow> bool) \<Rightarrow> tick \<Rightarrow> u64 \<Rightarrow> hash list \<Rightarrow> string \<Rightarrow> bool \<Rightarrow> nat \<Rightarrow> aligner \<Rightarrow> 'd dispatcher \<Rightarrow>
     'd al_state option" where
  "txs_step E closed t max_height txs peer send attempt al s0 =
     (case txs of
        [] \<Rightarrow> txs_collected E al s0
      | requested # rest \<Rightarrow>
          (let s = (if send then al_publish E closed EV_UNICAST_REQUEST (GetTransactionRequest requested (Some peer)) s0
                    else s0)
           in case t of
                Elapsed r \<Rightarrow>
                  if attempt + 1 < MAX_ATTEMPTS
                  then map_option (\<lambda>peer1. (CollectTxs max_height txs peer1 True (attempt + 1), al, s)) (choose_peer r al)
                  else Some (al_reset s)
              | Polled r \<Rightarrow>
                  (case al_poll s of
                     (Some (GetTransactionResponse tx origin), s1) \<Rightarrow>
                       if tx_get_primary_hash E tx = requested
                       then (if e_debug E \<and> origin = None then None
                             else if rest = [] then txs_collected E al s1
                             else map_option (\<lambda>peer1. (CollectTxs max_height rest peer1 True 0, al, s1)) (choose_peer r al))
                       else Some (CollectTxs max_height txs peer False attempt, al, s1)
                   | (Some (GetBlockResponse block (Some hs) origin), s1) \<Rightarrow>
                       Some (CollectTxs max_height txs peer False attempt,
                         if max_height < bd_height (blk_data block)
                         then al\<lparr>al_unexpected_blocks := al_unexpected_blocks al @ [GetBlockResponse block (Some hs) origin]\<rparr>
                         else al, s1)
                   | (_, s1) \<Rightarrow> Some (CollectTxs max_height txs peer False attempt, al, s1))))"

definition wait_step :: "('d, 'f) db_ops \<Rightarrow> aligner \<Rightarrow> 'd dispatcher \<Rightarrow> 'd al_state option" where
  "wait_step D al s =
     (case db_load_block D (dp_db s) u64_max of
        None \<Rightarrow> None
      | Some executed \<Rightarrow>
          (case al_trusted_peers al of
             [] \<Rightarrow> None
           | first # _ \<Rightarrow>
               Some (if bd_height (blk_data executed) < peer_height first then (WaitExecuted, al, s) else al_reset s)))"

definition al_step ::
    "env \<Rightarrow> ('d, 'f) db_ops \<Rightarrow> ((string \<times> nat \<times> u64) list \<Rightarrow> (string \<times> nat \<times> u64) list) \<Rightarrow> (nat \<Rightarrow> bool) \<Rightarrow> tick \<Rightarrow>
     'd al_state \<Rightarrow> 'd al_state option" where
  "al_step E D iter closed t st =
     (case st of (ph, al, s) \<Rightarrow>
        (case ph of
           Idle \<Rightarrow> Some (al_start E closed s)
         | FindPeers collected \<Rightarrow>
             (case t of
                Elapsed r \<Rightarrow> peers_found E D iter closed r collected al s
              | Polled _ \<Rightarrow>
                  (case al_poll s of
                     (None, s1) \<Rightarrow> Some (FindPeers collected, al, s1)
                   | (Some msg, s1) \<Rightarrow> Some (FindPeers (collect_peer E msg collected), al, s1)))
         | CollectBlocks max_height last_height peer attempt \<Rightarrow>
             blocks_step E closed t max_height last_height peer attempt al s
         | CollectTxs max_height txs peer send attempt \<Rightarrow> txs_step E closed t max_height txs peer send attempt al s
         | WaitExecuted \<Rightarrow> wait_step D al s))"

section \<open>What a step keeps\<close>

lemma add_txs_is_add_received: "add_txs_to_the_pool = add_received_block"
  by (simp add: fun_eq_iff add_txs_to_the_pool_def add_received_block_def received_block_info_def Let_def)

lemma add_block_message_inv: "pool_inv stored p \<Longrightarrow> pool_inv stored (add_block_message E msg p)"
  by (simp add: add_block_message_def add_txs_is_add_received add_received_block_inv split: message.split)

lemma add_block_messages_inv: "pool_inv stored p \<Longrightarrow> pool_inv stored (fold (add_block_message E) msgs p)"
  by (induction msgs arbitrary: p) (simp_all add: add_block_message_inv)

lemma add_unexpected_inv:
  assumes "add_unexpected E msgs h p = Some p'"
  shows "pool_inv stored p \<longrightarrow> pool_inv stored p'"
  by (rule add_unexpected.raw_induct [where P = "\<lambda>E msgs h p p'. pool_inv stored p \<longrightarrow> pool_inv stored p'", OF _ assms])
     (auto simp: add_block_message_inv split: option.splits)

lemma update_pool_inv: "update_pool E al p = Some p' \<Longrightarrow> pool_inv stored p \<Longrightarrow> pool_inv stored p'"
  using add_unexpected_inv by (fastforce simp: update_pool_def add_block_messages_inv split: list.splits)

lemma al_publish_frames [frame_simps]:
  "dp_db (al_publish E closed ev m s) = dp_db s"
  "dp_config (al_publish E closed ev m s) = dp_config s"
  "dp_pool (al_publish E closed ev m s) = dp_pool s"
  "dp_aligned (al_publish E closed ev m s) = dp_aligned s"
  "dp_aligner (al_publish E closed ev m s) = dp_aligner s"
  by (simp_all add: al_publish_def split: prod.splits)

lemma al_poll_frames [frame_simps]:
  "dp_db (snd (al_poll s)) = dp_db s" "dp_config (snd (al_poll s)) = dp_config s"
  "dp_pool (snd (al_poll s)) = dp_pool s" "dp_aligned (snd (al_poll s)) = dp_aligned s"
  by (simp_all add: al_poll_def split: list.splits)

lemma al_poll_same:
  assumes "al_poll s = (m, s1)"
  shows "dp_db s1 = dp_db s \<and> dp_config s1 = dp_config s \<and> dp_pool s1 = dp_pool s \<and> dp_aligned s1 = dp_aligned s"
  using al_poll_frames [of s] assms by simp

text \<open>The steps that leave the pool alone.\<close>

abbreviation same_pool :: "'d dispatcher \<Rightarrow> 'd al_state \<Rightarrow> bool" where
  "same_pool s st \<equiv> dp_db (snd (snd st)) = dp_db s \<and> dp_config (snd (snd st)) = dp_config s \<and>
     dp_pool (snd (snd st)) = dp_pool s"

lemma al_reset_same: "same_pool s (al_reset s)"
  by (simp add: al_reset_def)

lemma peers_found_same: "peers_found E D iter closed r peers al s = Some st \<Longrightarrow> same_pool s st"
  by (auto simp: peers_found_def al_reset_def Let_def frame_simps split: option.splits if_splits prod.splits)

lemma try_to_retrieve_same:
  "try_to_retrieve_a_block E closed r mx lh a req al s = Some (ov, a', al', s') \<Longrightarrow>
   dp_db s' = dp_db s \<and> dp_config s' = dp_config s \<and> dp_pool s' = dp_pool s"
  by (auto simp: try_to_retrieve_a_block_def Let_def frame_simps split: message.splits option.splits if_splits)

lemma blocks_collected_same: "same_pool s (blocks_collected mx peer al s)"
  by (simp add: blocks_collected_def al_reset_def split: message.split)

lemma blocks_step_same:
  assumes "blocks_step E closed t mx lh peer a al s = Some st"
  shows "same_pool s st"
proof (cases t)
  case (Elapsed r)
  with assms show ?thesis
    by (auto simp: blocks_step_def al_reset_def frame_simps split: if_splits option.splits)
next
  case (Polled r)
  show ?thesis
  proof (cases "al_poll s")
    case (Pair m s1)
    note same = al_poll_same [OF Pair]
    show ?thesis
    proof (cases m)
      case (Some req)
      with assms Polled Pair obtain ov a' al' s2
        where r: "try_to_retrieve_a_block E closed r mx lh a req al s1 = Some (ov, a', al', s2)"
          and st: "st = (if ov then blocks_collected mx peer al' s2 else (CollectBlocks mx lh peer a', al', s2))"
        by (auto simp: blocks_step_def split: option.splits)
      from try_to_retrieve_same [OF r] same blocks_collected_same [of mx peer al' s2] show ?thesis
        unfolding st by auto
    qed (use assms Polled Pair same in \<open>auto simp: blocks_step_def\<close>)
  qed
qed

lemma txs_collected_step: "txs_collected E al s = Some st \<Longrightarrow> disp_step D s (snd (snd st))"
  by (auto simp: txs_collected_def disp_step_def update_pool_inv split: option.splits)

lemma txs_step_step:
  assumes "txs_step E closed t mx txs peer send a al s0 = Some st"
  shows "disp_step D s0 (snd (snd st))"
proof (cases txs)
  case Nil
  with assms show ?thesis by (simp add: txs_step_def txs_collected_step)
next
  case (Cons requested rest)
  define s where "s = (if send then al_publish E closed EV_UNICAST_REQUEST (GetTransactionRequest requested (Some peer)) s0 else s0)"
  have sent: "disp_step D s0 s" by (rule disp_step_same_pool) (simp_all add: s_def frame_simps)
  obtain m s1 where poll: "al_poll s = (m, s1)" by force
  from al_poll_same [OF poll] have polled: "disp_step D s s1" by (intro disp_step_same_pool) simp_all
  have reset: "disp_step D s (snd (snd (al_reset s)))" by (rule disp_step_same_pool) (simp_all add: al_reset_def)
  have "disp_step D s (snd (snd st))"
  proof (cases t)
    case (Elapsed r)
    with assms reset show ?thesis by (auto simp: txs_step_def Cons s_def [symmetric] Let_def split: if_splits)
  next
    case (Polled r)
    with assms polled disp_step_trans [OF polled txs_collected_step] show ?thesis
      by (auto simp: txs_step_def Cons s_def [symmetric] Let_def poll split: option.splits message.splits if_splits)
  qed
  with sent show ?thesis by (rule disp_step_trans)
qed

lemma al_step_step:
  assumes "al_step E D iter closed t (ph, al, s) = Some st"
  shows "disp_step D s (snd (snd st))"
proof (cases ph)
  case Idle
  with assms show ?thesis
    by (intro disp_step_same_pool) (auto simp: al_step_def al_start_def frame_simps)
next
  case (FindPeers peers)
  obtain m s1 where poll: "al_poll s = (m, s1)" by force
  from FindPeers assms al_poll_same [OF poll] peers_found_same [of E D iter closed _ peers al s st] show ?thesis
    by (intro disp_step_same_pool) (auto simp: al_step_def poll split: tick.splits option.splits)
next
  case (CollectBlocks mx lh peer a)
  with assms blocks_step_same [of E closed t mx lh peer a al s st] show ?thesis
    by (intro disp_step_same_pool) (auto simp: al_step_def)
next
  case (CollectTxs mx txs peer send a)
  with assms show ?thesis by (simp add: al_step_def txs_step_step)
next
  case WaitExecuted
  with assms show ?thesis
    by (intro disp_step_same_pool) (auto simp: al_step_def wait_step_def al_reset_def split: option.splits list.splits)
qed

section \<open>Which block the aligner follows\<close>

text \<open>How many of the collected peers propose a block.\<close>

definition occurrences :: "peer list \<Rightarrow> string \<Rightarrow> nat" where
  "occurrences peers h = length (filter (\<lambda>p. fst (snd p) = h) peers)"

lemma count_peers_spec:
  "distinct (map fst m) \<Longrightarrow>
   distinct (map fst (fold count_peer peers m)) \<and>
   (\<forall>h. map_option fst (map_of (fold count_peer peers m) h) =
      (case map_of m h of
         None \<Rightarrow> if occurrences peers h = 0 then None else Some (occurrences peers h)
       | Some (n, _) \<Rightarrow> Some (n + occurrences peers h)))"
proof (induction peers arbitrary: m)
  case Nil
  then show ?case by (auto simp: occurrences_def split: option.splits)
next
  case (Cons p peers)
  have "distinct (map fst (count_peer p m))"
    using Cons.prems by (simp add: count_peer_def distinct_update)
  from Cons.IH [OF this] show ?case
    by (auto simp: count_peer_def update_conv' occurrences_def split: option.splits)
qed

lemma proposals_spec:
  "distinct (map fst (fold count_peer peers []))"
  "b \<in> set (fold count_peer peers []) \<Longrightarrow> fst (snd b) = occurrences peers (fst b) \<and> 0 < occurrences peers (fst b)"
  "0 < occurrences peers h \<Longrightarrow> \<exists>b \<in> set (fold count_peer peers []). fst b = h"
proof -
  note spec = count_peers_spec [of "[]" peers, simplified]
  show d: "distinct (map fst (fold count_peer peers []))" using spec by simp
  show "fst (snd b) = occurrences peers (fst b) \<and> 0 < occurrences peers (fst b)" if "b \<in> set (fold count_peer peers [])" for b
  proof -
    from that d have "map_of (fold count_peer peers []) (fst b) = Some (snd b)"
      by (metis map_of_is_SomeI prod.collapse)
    with spec have "Some (fst (snd b)) = (if occurrences peers (fst b) = 0 then None else Some (occurrences peers (fst b)))"
      by (metis option.simps(9))
    then show ?thesis by (simp split: if_splits)
  qed
  show "\<exists>b \<in> set (fold count_peer peers []). fst b = h" if "0 < occurrences peers h" for h
  proof -
    from that spec have "map_option fst (map_of (fold count_peer peers []) h) = Some (occurrences peers h)" by simp
    then obtain v where "map_of (fold count_peer peers []) h = Some v" by (auto simp: map_option_case split: option.splits)
    from map_of_SomeD [OF this] show ?thesis by force
  qed
qed

lemma sorted_prefix_fewer:
  fixes f :: "'a \<Rightarrow> 'b :: linorder"
  assumes "sorted (map f ys)" and "y \<in> set (take k ys)"
  shows "length (filter (\<lambda>z. f z < f y) ys) < k"
proof -
  from assms(2) obtain i where i: "i < k" "i < length ys" "y = ys ! i" by (auto simp: in_set_conv_nth)
  have "\<not> f z < f y" if z: "z \<in> set (drop i ys)" for z
  proof -
    from z obtain j where "j < length ys - i" "z = ys ! (i + j)" by (auto simp: in_set_conv_nth)
    with assms(1) i have "f y \<le> f z" by (simp add: sorted_iff_nth_mono)
    then show ?thesis by simp
  qed
  then have "filter (\<lambda>z. f z < f y) (drop i ys) = []" by (simp add: filter_empty_conv)
  then have "filter (\<lambda>z. f z < f y) ys = filter (\<lambda>z. f z < f y) (take i ys)"
    by (metis append_Nil2 append_take_drop_id filter_append)
  then have "length (filter (\<lambda>z. f z < f y) ys) \<le> i"
    by (metis length_filter_le length_take min.bounded_iff)
  with i show ?thesis by simp
qed

lemma most_common_block_spec:
  assumes "most_common_block E iter [] peers = Some c"
    and "\<And>m. set (iter m) = set m"
  shows "0 < occurrences peers c \<and>
    card {h. 0 < occurrences peers h \<and> occurrences peers h < occurrences peers c} < LATEST_WINDOW"
proof -
  define blocks where "blocks = iter (fold count_peer peers [])"
  define window where "window = take LATEST_WINDOW (sort_key (\<lambda>b. fst (snd b)) blocks)"
  have set_blocks: "set blocks = set (fold count_peer peers [])"
    by (simp add: blocks_def assms(2))
  have last: "sort_key (\<lambda>b. snd (snd b)) window \<noteq> []" "c = fst (last (sort_key (\<lambda>b. snd (snd b)) window))"
    using assms(1) unfolding most_common_block_def Let_def blocks_def [symmetric] window_def
    by (auto split: if_splits)
  define b where "b = last (sort_key (\<lambda>b. snd (snd b)) window)"
  from last(1) have "b \<in> set (sort_key (\<lambda>b. snd (snd b)) window)" unfolding b_def by (rule last_in_set)
  then have b: "b \<in> set window" by simp
  then have "b \<in> set blocks" unfolding window_def by (auto dest: in_set_takeD)
  with set_blocks proposals_spec(2) [of b peers] last(2) b_def
  have c: "fst (snd b) = occurrences peers c" "0 < occurrences peers c" by simp_all
  have "{h. 0 < occurrences peers h \<and> occurrences peers h < occurrences peers c} \<subseteq>
      fst ` set (filter (\<lambda>z. fst (snd z) < fst (snd b)) (sort_key (\<lambda>b. fst (snd b)) blocks))"
  proof
    fix h
    assume h: "h \<in> {h. 0 < occurrences peers h \<and> occurrences peers h < occurrences peers c}"
    then obtain z where z: "z \<in> set (fold count_peer peers [])" "fst z = h" using proposals_spec(3) by blast
    with h proposals_spec(2) [OF z(1)] show "h \<in> fst ` set (filter (\<lambda>z. fst (snd z) < fst (snd b))
        (sort_key (\<lambda>b. fst (snd b)) blocks))"
      by (intro image_eqI [of _ _ z]) (simp_all add: c set_blocks)
  qed
  then have "card {h. 0 < occurrences peers h \<and> occurrences peers h < occurrences peers c} \<le>
      length (filter (\<lambda>z. fst (snd z) < fst (snd b)) (sort_key (\<lambda>b. fst (snd b)) blocks))"
    by (meson List.finite_set card_image_le card_length card_mono finite_imageI order_trans)
  also have "\<dots> < LATEST_WINDOW"
    using b unfolding window_def by (intro sorted_prefix_fewer) simp_all
  finally show ?thesis using c by simp
qed

section \<open>No panic\<close>

text \<open>The invariant of the machine: a fresh aligner until the peers are chosen; after that there are trusted peers
  and a local block, and the attempts are not used up.\<close>

fun al_inv :: "('d, 'f) db_ops \<Rightarrow> 'd al_state \<Rightarrow> bool" where
  "al_inv D (Idle, al, s) \<longleftrightarrow> al = aligner_new"
| "al_inv D (FindPeers peers, al, s) \<longleftrightarrow> al = aligner_new"
| "al_inv D (CollectBlocks mx lh peer a, al, s) \<longleftrightarrow>
     al_trusted_peers al \<noteq> [] \<and> db_load_block D (dp_db s) u64_max \<noteq> None \<and> a < MAX_ATTEMPTS"
| "al_inv D (CollectTxs mx txs peer send a, al, s) \<longleftrightarrow>
     al_trusted_peers al \<noteq> [] \<and> db_load_block D (dp_db s) u64_max \<noteq> None \<and> a < MAX_ATTEMPTS"
| "al_inv D (WaitExecuted, al, s) \<longleftrightarrow> al_trusted_peers al \<noteq> [] \<and> db_load_block D (dp_db s) u64_max \<noteq> None"

lemma choose_peer_some [simp]: "al_trusted_peers al \<noteq> [] \<Longrightarrow> \<exists>peer. choose_peer r al = Some peer"
  by (simp add: choose_peer_def)

lemma choose_peer_none: "choose_peer r al = None \<longleftrightarrow> al_trusted_peers al = []"
  by (simp add: choose_peer_def)

lemma al_reset_inv [simp]: "al_inv D (al_reset s)"
  by (simp add: al_reset_def)

lemma proposals_nonempty: "peers \<noteq> [] \<Longrightarrow> fold count_peer peers [] \<noteq> []"
proof
  assume "peers \<noteq> []" and empty: "fold count_peer peers [] = []"
  then have "0 < occurrences peers (fst (snd (hd peers)))"
    by (cases peers) (simp_all add: occurrences_def)
  from proposals_spec(3) [OF this] empty show False by simp
qed

lemma sort_key_Nil_iff [simp]: "sort_key f xs = [] \<longleftrightarrow> xs = []"
  by (metis length_0_conv length_sort)

lemma most_common_block_some:
  assumes "\<And>m. set (iter m) = set m" and "peers \<noteq> []"
  shows "\<exists>c. most_common_block E iter [] peers = Some c"
proof -
  have "iter (fold count_peer peers []) \<noteq> []"
    using proposals_nonempty [OF assms(2)] assms(1) by (metis set_empty)
  then show ?thesis by (simp add: most_common_block_def Let_def LATEST_WINDOW_def)
qed

text \<open>Among fewer than \<open>2 ^ 64\<close> blocks some height is missing, and the search for the next one ends there.\<close>

lemma add_unexpected_upto:
  assumes "find (at_height (h + of_nat j)) msgs = None"
  shows "\<exists>p'. add_unexpected E msgs h p = Some p'"
  using assms
proof (induction j arbitrary: h p)
  case 0
  then show ?case by (subst add_unexpected.simps) simp
next
  case (Suc j)
  show ?case
  proof (cases "find (at_height h) msgs")
    case None
    then show ?thesis by (subst add_unexpected.simps) simp
  next
    case (Some msg)
    from Suc.prems have "find (at_height ((h + 1) + of_nat j)) msgs = None" by (simp add: algebra_simps)
    from Suc.IH [OF this] show ?thesis by (subst add_unexpected.simps) (simp add: Some)
  qed
qed

lemma add_unexpected_returns:
  assumes "length msgs < 2 ^ 64"
  shows "\<exists>p'. add_unexpected E msgs h p = Some p'"
proof -
  define height where "height = (\<lambda>m. case m of GetBlockResponse block _ _ \<Rightarrow> bd_height (blk_data block) | _ \<Rightarrow> 0)"
  have "card (height ` set msgs) < card (UNIV :: u64 set)"
    using assms card_image_le [of "set msgs" height] card_length [of msgs] by (simp add: card_word)
  then obtain k where k: "k \<notin> height ` set msgs" by (metis UNIV_eq_I less_irrefl)
  have "at_height k m \<Longrightarrow> height m = k" for m by (cases m) (simp_all add: at_height_def height_def)
  with k have "find (at_height k) msgs = None" by (auto simp: find_None_iff)
  then have "find (at_height (h + of_nat (unat (k - h)))) msgs = None" by simp
  then show ?thesis by (rule add_unexpected_upto)
qed

lemma txs_collected_inv:
  assumes "al_trusted_peers al \<noteq> []" and "db_load_block D (dp_db s) u64_max \<noteq> None"
    and "length (al_unexpected_blocks al) < 2 ^ 64"
  shows "\<exists>st. txs_collected E al s = Some st \<and> al_inv D st"
proof -
  obtain first ps where tp: "al_trusted_peers al = first # ps" using assms(1) by (cases "al_trusted_peers al") simp_all
  from add_unexpected_returns [OF assms(3)] obtain p' where
    "add_unexpected E (al_unexpected_blocks al) (peer_height first + 1)
       (fold (add_block_message E) (rev (al_missing_blocks al)) (dp_pool s)) = Some p'" by blast
  with assms show ?thesis by (auto simp: txs_collected_def update_pool_def tp)
qed

lemma peers_found_inv:
  assumes "\<And>m. set (iter m) = set m"
  shows "\<exists>st. peers_found E D iter closed r peers aligner_new s = Some st \<and> al_inv D st"
proof (cases "peers = [] \<or> db_load_block D (dp_db s) u64_max = None")
  case True
  then have "peers_found E D iter closed r peers aligner_new s = Some (al_reset s)"
    by (auto simp: peers_found_def split: option.splits)
  then show ?thesis using al_reset_inv by blast
next
  case False
  then obtain first rest where peers: "peers = first # rest" by (cases peers) simp_all
  with False obtain b where b: "db_load_block D (dp_db s) u64_max = Some b" by blast
  from most_common_block_some [OF assms] peers obtain c where "most_common_block E iter [] peers = Some c" by blast
  then obtain al mx where f: "filter_peers E iter peers (bd_height (blk_data b)) aligner_new = Some (al, mx)"
    by (simp add: filter_peers_def aligner_new_def peers Let_def)
  show ?thesis
  proof (cases "choose_peer r al")
    case None
    with b f peers have "peers_found E D iter closed r peers aligner_new s = Some (al_reset s)"
      by (simp add: peers_found_def Let_def)
    then show ?thesis using al_reset_inv by blast
  next
    case (Some peer)
    then have "al_trusted_peers al \<noteq> []" by (metis choose_peer_none option.distinct(1))
    with b f peers Some show ?thesis by (simp add: peers_found_def Let_def MAX_ATTEMPTS_def frame_simps)
  qed
qed

lemma blocks_collected_inv:
  assumes "al_trusted_peers al \<noteq> []" and "db_load_block D (dp_db s) u64_max \<noteq> None"
  shows "al_inv D (blocks_collected mx peer al s)"
  using assms by (simp add: blocks_collected_def MAX_ATTEMPTS_def split: message.split)

lemma try_to_retrieve_inv:
  assumes "al_trusted_peers al \<noteq> []" and "a < MAX_ATTEMPTS"
  shows "\<exists>ov a' al' s'. try_to_retrieve_a_block E closed r mx lh a req al s = Some (ov, a', al', s') \<and>
    al_trusted_peers al' \<noteq> [] \<and> a' < MAX_ATTEMPTS \<and> dp_db s' = dp_db s"
  using assms
  by (auto simp: try_to_retrieve_a_block_def Let_def MAX_ATTEMPTS_def choose_peer_def frame_simps
      split: message.split option.split)

lemma blocks_step_inv:
  assumes "al_inv D (CollectBlocks mx lh peer a, al, s)"
  shows "\<exists>st. blocks_step E closed t mx lh peer a al s = Some st \<and> al_inv D st"
proof (cases t)
  case (Elapsed r)
  from assms obtain p where "choose_peer r al = Some p" using choose_peer_some by fastforce
  with assms Elapsed al_reset_inv [of D s] show ?thesis
    by (cases "a + 1 < MAX_ATTEMPTS") (simp_all add: blocks_step_def frame_simps)
next
  case (Polled r)
  obtain m s1 where poll: "al_poll s = (m, s1)" by force
  note same = al_poll_same [OF poll]
  show ?thesis
  proof (cases m)
    case None
    with assms same Polled poll show ?thesis by (simp add: blocks_step_def)
  next
    case (Some req)
    from assms try_to_retrieve_inv [of al a E closed r mx lh req s1] obtain ov a' al' s2
      where r: "try_to_retrieve_a_block E closed r mx lh a req al s1 = Some (ov, a', al', s2)"
        and i: "al_trusted_peers al' \<noteq> []" "a' < MAX_ATTEMPTS" "dp_db s2 = dp_db s1" by auto
    from i assms same blocks_collected_inv [of al' D s2 mx peer] Polled show ?thesis
      by (simp add: blocks_step_def poll Some r)
  qed
qed

text \<open>A transaction that was asked for arrives without its origin while debug messages are logged.\<close>

definition unwraps_origin :: "env \<Rightarrow> hash \<Rightarrow> message list \<Rightarrow> bool" where
  "unwraps_origin E requested msgs \<longleftrightarrow>
     e_debug E \<and> (case msgs of GetTransactionResponse tx origin # _ \<Rightarrow> origin = None \<and> tx_get_primary_hash E tx = requested
                    | _ \<Rightarrow> False)"

fun logging_panics :: "env \<Rightarrow> tick \<Rightarrow> al_phase \<Rightarrow> 'd dispatcher \<Rightarrow> bool" where
  "logging_panics E (Polled r) (CollectTxs mx (requested # rest) peer send a) s = unwraps_origin E requested (dp_aligner s)"
| "logging_panics E t ph s = False"

lemma txs_step_inv:
  assumes inv: "al_inv D (CollectTxs mx txs peer send a, al, s0)"
    and len: "length (al_unexpected_blocks al) < 2 ^ 64"
  shows "if logging_panics E t (CollectTxs mx txs peer send a) s0 then txs_step E closed t mx txs peer send a al s0 = None
    else \<exists>st. txs_step E closed t mx txs peer send a al s0 = Some st \<and> al_inv D st"
proof (cases txs)
  case Nil
  with inv len txs_collected_inv [of al D s0 E] show ?thesis by (simp add: txs_step_def)
next
  case (Cons requested rest)
  define s where "s = (if send then al_publish E closed EV_UNICAST_REQUEST (GetTransactionRequest requested (Some peer)) s0 else s0)"
  have s: "dp_db s = dp_db s0" "dp_aligner s = dp_aligner s0" by (simp_all add: s_def frame_simps)
  with inv have tp: "al_trusted_peers al \<noteq> []" and db: "db_load_block D (dp_db s) u64_max \<noteq> None"
    and a: "a < MAX_ATTEMPTS" by simp_all
  have peer: "\<exists>p. choose_peer r al = Some p" for r using tp by simp
  obtain m s1 where poll: "al_poll s = (m, s1)" by force
  from al_poll_same [OF poll] db have db1: "db_load_block D (dp_db s1) u64_max \<noteq> None" by simp
  show ?thesis
  proof (cases t)
    case (Elapsed r)
    from peer obtain p where "choose_peer r al = Some p" by blast
    with Elapsed tp db al_reset_inv [of D s] show ?thesis
      by (cases "a + 1 < MAX_ATTEMPTS") (simp_all add: txs_step_def Cons s_def [symmetric] Let_def)
  next
    case (Polled r)
    from peer obtain p where p: "choose_peer r al = Some p" by blast
    have step: "txs_step E closed t mx txs peer send a al s0 = None" if "unwraps_origin E requested (dp_aligner s0)"
      using that Polled s by (auto simp: txs_step_def Cons s_def [symmetric] Let_def al_poll_def unwraps_origin_def
          split: list.splits message.splits)
    have "\<not> (\<exists>tx. m = Some (GetTransactionResponse tx None) \<and> tx_get_primary_hash E tx = requested \<and> e_debug E)"
      if "\<not> unwraps_origin E requested (dp_aligner s0)"
      using that poll s by (auto simp: al_poll_def unwraps_origin_def split: list.splits)
    with p Polled tp db1 a txs_collected_inv [OF tp db1 len] step show ?thesis
      by (auto simp: txs_step_def Cons s_def [symmetric] Let_def poll MAX_ATTEMPTS_def split: option.split message.split)
  qed
qed

text \<open>C19. When the aligner panics. Whatever messages and time-outs come, every turn of its loops has a result that keeps its
  invariant (a peer to ask is always there, the search for the block that follows ends, and the
  local block it waits for is there), with one exception: it panics exactly when debug messages are logged and the
  transaction it waits for arrives in a message without an origin. The order in which the hash map of proposals iterates
  is arbitrary.
\<close>

theorem aligner_panics_only_in_log:
  assumes "al_inv D (ph, al, s)"
    and "\<And>m. set (iter m) = set m"
    and "length (al_unexpected_blocks al) < 2 ^ 64"
  shows "if logging_panics E t ph s then al_step E D iter closed t (ph, al, s) = None
    else \<exists>st. al_step E D iter closed t (ph, al, s) = Some st \<and> al_inv D st"
proof (cases ph)
  case Idle
  then show ?thesis by (simp add: al_step_def al_start_def)
next
  case (FindPeers peers)
  with assms(1) peers_found_inv [OF assms(2)] show ?thesis
    by (auto simp: al_step_def split: tick.split prod.split option.split)
next
  case (CollectBlocks mx lh peer a)
  with assms(1) blocks_step_inv show ?thesis by (simp add: al_step_def)
next
  case (CollectTxs mx txs peer send a)
  from txs_step_inv [OF assms(1) [unfolded CollectTxs] assms(3), of E t closed] show ?thesis
    unfolding CollectTxs al_step_def by (simp split: if_splits)
next
  case WaitExecuted
  with assms(1) show ?thesis by (auto simp: al_step_def wait_step_def al_reset_def split: list.split)
qed

text \<open>A proposal of a peer, and a node that has one block.\<close>

definition demo_behind :: "store rocks_db dispatcher" where
  "demo_behind = demo_dispatcher\<lparr>dp_db := rocks_new mem_merkledb (store_empty\<lparr>st_blocks := [demo_block]\<rparr>)\<rparr>"

definition demo_proposal :: peer where
  "demo_proposal = (''peer'', e_hex demo_env (hash_as_bytes (primary_hash demo_env (mp_block demo_block))), demo_block)"

text \<open>Both cases: a time-out while peers are collected, and the transaction that is waited
  for, gossiped by a peer: \<open>broadcast_attempt\<close> sends it without an origin.\<close>

theorem aligner_panics_only_in_log_witness:
  "(\<exists>st. al_step demo_env demo_ops rev (\<lambda>_. False) (Elapsed 7) (FindPeers [demo_proposal], aligner_new, demo_dispatcher) =
      Some st \<and> al_inv demo_ops st) \<and>
   al_step demo_env demo_ops rev (\<lambda>_. False) (Polled 7)
     (CollectTxs 1 [tx_get_primary_hash demo_env demo_signed_tx] ''peer'' False 0,
      aligner_new\<lparr>al_trusted_peers := [demo_proposal]\<rparr>,
      demo_behind\<lparr>dp_aligner := [GetTransactionResponse demo_signed_tx None]\<rparr>) = None"
proof -
  have "al_inv demo_ops (CollectTxs 1 [tx_get_primary_hash demo_env demo_signed_tx] ''peer'' False 0,
      aligner_new\<lparr>al_trusted_peers := [demo_proposal]\<rparr>,
      demo_behind\<lparr>dp_aligner := [GetTransactionResponse demo_signed_tx None]\<rparr>)"
    by (simp add: demo_behind_def demo_dispatcher_def MAX_ATTEMPTS_def demo_ops_def rocks_new_def mem_merkledb_def
        rocks_load_block_def st_load_block_def store_empty_def)
  moreover have "logging_panics demo_env (Polled 7)
      (CollectTxs 1 [tx_get_primary_hash demo_env demo_signed_tx] ''peer'' False 0)
      (demo_behind\<lparr>dp_aligner := [GetTransactionResponse demo_signed_tx None]\<rparr>)"
    by (simp add: unwraps_origin_def demo_env_def)
  ultimately show ?thesis
    using aligner_panics_only_in_log [of demo_ops "FindPeers [demo_proposal]" aligner_new demo_dispatcher rev demo_env
      "Elapsed 7" "\<lambda>_. False"]
    aligner_panics_only_in_log [of demo_ops "CollectTxs 1 [tx_get_primary_hash demo_env demo_signed_tx] ''peer'' False 0"
      "aligner_new\<lparr>al_trusted_peers := [demo_proposal]\<rparr>"
      "demo_behind\<lparr>dp_aligner := [GetTransactionResponse demo_signed_tx None]\<rparr>" rev demo_env "Polled 7" "\<lambda>_. False"]
    by (simp add: aligner_new_def)
qed

section \<open>Silent peers\<close>

fun al_run ::
    "env \<Rightarrow> ('d, 'f) db_ops \<Rightarrow> ((string \<times> nat \<times> u64) list \<Rightarrow> (string \<times> nat \<times> u64) list) \<Rightarrow> (nat \<Rightarrow> bool) \<Rightarrow> tick list \<Rightarrow>
     'd al_state \<Rightarrow> 'd al_state option" where
  "al_run E D iter closed [] st = Some st"
| "al_run E D iter closed (t # ts) st = Option.bind (al_step E D iter closed t st) (al_run E D iter closed ts)"

text \<open>The attempts made in a phase that waits for an answer.\<close>

fun asking :: "al_phase \<Rightarrow> nat option" where
  "asking (FindPeers []) = Some (MAX_ATTEMPTS - 1)"
| "asking (CollectBlocks mx lh peer a) = Some a"
| "asking (CollectTxs mx (tx # txs) peer send a) = Some a"
| "asking ph = None"

fun is_elapsed :: "tick \<Rightarrow> bool" where
  "is_elapsed (Elapsed r) = True"
| "is_elapsed (Polled r) = False"

lemma al_poll_empty: "dp_aligner s = [] \<Longrightarrow> al_poll s = (None, s)"
  by (simp add: al_poll_def)

text \<open>A turn without an answer either counts one more attempt or gives up.\<close>

lemma silent_step:
  assumes "al_inv D (ph, al, s)" and "asking ph = Some a" and "dp_aligner s = []"
  shows "\<exists>ph' al' s'. al_step E D iter closed t (ph, al, s) = Some (ph', al', s') \<and>
    al_inv D (ph', al', s') \<and> dp_aligner s' = [] \<and> dp_pool s' = dp_pool s \<and> dp_db s' = dp_db s \<and>
    (if is_elapsed t \<and> MAX_ATTEMPTS \<le> a + 1 then ph' = Idle \<and> dp_aligned s'
     else asking ph' = Some (if is_elapsed t then a + 1 else a))"
proof -
  have peer: "\<exists>p. choose_peer r al = Some p" if "al_trusted_peers al \<noteq> []" for r using that by simp
  show ?thesis
  proof (cases ph rule: asking.cases)
    case 1
    with assms show ?thesis
      by (cases t)
         (auto simp: al_step_def peers_found_def al_reset_def al_poll_empty MAX_ATTEMPTS_def split: option.split)
  next
    case (2 mx lh p a')
    show ?thesis
    proof (cases t)
      case (Elapsed r)
      from 2 assms have "al_trusted_peers al \<noteq> []" by simp
      from peer [OF this] obtain q where "choose_peer r al = Some q" by blast
      with 2 assms Elapsed show ?thesis
        by (auto simp: al_step_def blocks_step_def al_reset_def frame_simps)
    next
      case (Polled r)
      with 2 assms show ?thesis by (simp add: al_step_def blocks_step_def al_poll_empty)
    qed
  next
    case (3 mx tx txs p send a')
    show ?thesis
    proof (cases t)
      case (Elapsed r)
      from 3 assms have "al_trusted_peers al \<noteq> []" by simp
      from peer [OF this] obtain q where "choose_peer r al = Some q" by blast
      with 3 assms Elapsed show ?thesis
        by (auto simp: al_step_def txs_step_def al_reset_def frame_simps Let_def)
    next
      case (Polled r)
      with 3 assms show ?thesis by (auto simp: al_step_def txs_step_def al_poll_empty Let_def frame_simps)
    qed
  qed (use assms in simp_all)
qed

lemma al_inv_asking: "al_inv D (ph, al, s) \<Longrightarrow> asking ph = Some a \<Longrightarrow> a < MAX_ATTEMPTS"
  by (cases ph rule: asking.cases) (simp_all add: MAX_ATTEMPTS_def)

text \<open>C20. Alignment with silent peers ends. Waiting for proposals, for a block or for a transaction,
  with no message coming, the aligner gives up at the latest at the \<open>MAX_ATTEMPTS\<close>-th time-out, however often it polls in between: it
  goes back to idle and sets the node as aligned, so that blocks can be built again, leaving the pool and the
  database as they were.
\<close>

theorem aligner_gives_up:
  assumes "al_inv D (ph, al, s)" and "asking ph = Some a" and "dp_aligner s = []"
    and "MAX_ATTEMPTS \<le> a + length (filter is_elapsed ts)"
  shows "\<exists>k s'. k \<le> length ts \<and> al_run E D iter closed (take k ts) (ph, al, s) = Some (Idle, aligner_new, s') \<and>
    dp_aligned s' \<and> dp_pool s' = dp_pool s \<and> dp_db s' = dp_db s"
  using assms
proof (induction ts arbitrary: ph al s a)
  case Nil
  then show ?case using al_inv_asking by force
next
  case (Cons t ts)
  from silent_step [OF Cons.prems(1-3), of E iter closed t] obtain ph' al' s'
    where step: "al_step E D iter closed t (ph, al, s) = Some (ph', al', s')" "al_inv D (ph', al', s')"
        "dp_aligner s' = []" "dp_pool s' = dp_pool s" "dp_db s' = dp_db s"
      and next_phase: "if is_elapsed t \<and> MAX_ATTEMPTS \<le> a + 1 then ph' = Idle \<and> dp_aligned s'
        else asking ph' = Some (if is_elapsed t then a + 1 else a)" by blast
  show ?case
  proof (cases "is_elapsed t \<and> MAX_ATTEMPTS \<le> a + 1")
    case True
    with step next_phase show ?thesis by (intro exI [of _ 1] exI [of _ s']) simp
  next
    case False
    with next_phase have "asking ph' = Some (if is_elapsed t then a + 1 else a)" by presburger
    from Cons.IH [OF step(2) this step(3)] Cons.prems(4) obtain k s''
      where "k \<le> length ts" "al_run E D iter closed (take k ts) (ph', al', s') = Some (Idle, aligner_new, s'')"
        "dp_aligned s''" "dp_pool s'' = dp_pool s'" "dp_db s'' = dp_db s'" by (auto split: if_splits)
    with step show ?thesis by (intro exI [of _ "Suc k"] exI [of _ s'']) simp
  qed
qed

theorem aligner_gives_up_witness:
  "\<exists>k s'. k \<le> 2 \<and> al_run demo_env demo_ops (\<lambda>m. m) (\<lambda>_. False) (take k [Polled 0, Elapsed 1])
     (FindPeers [], aligner_new, demo_dispatcher) = Some (Idle, aligner_new, s') \<and>
     dp_aligned s' \<and> dp_pool s' = dp_pool demo_dispatcher"
proof -
  have "al_inv demo_ops (FindPeers [], aligner_new, demo_dispatcher)" "asking (FindPeers []) = Some 2"
    "dp_aligner demo_dispatcher = []" "MAX_ATTEMPTS \<le> 2 + length (filter is_elapsed [Polled 0, Elapsed 1])"
    by (simp_all add: MAX_ATTEMPTS_def demo_dispatcher_def)
  from aligner_gives_up [OF this, of demo_env "\<lambda>m. m" "\<lambda>_. False"] show ?thesis
    by (metis (no_types, lifting) One_nat_def Suc_1 list.size(3,4) add.right_neutral add_Suc_right)
qed

section \<open>Trusted peers\<close>

text \<open>The peers that are trusted all propose one block, higher than the local chain. But it is a rare one: fewer than
  \<open>LATEST_WINDOW\<close> of the proposed blocks are proposed by fewer peers, so that among many proposals the one that most peers make is
  never followed.
\<close>

theorem filter_peers_trusts:
  assumes "filter_peers E iter peers last_height aligner_new = Some (al, max_height)"
    and "\<And>m. set (iter m) = set m"
  shows "\<exists>c. 0 < occurrences peers c \<and>
    al_trusted_peers al = filter (\<lambda>p. fst (snd p) = c \<and> last_height + 1 \<le> peer_height p) peers \<and>
    card {h. 0 < occurrences peers h \<and> occurrences peers h < occurrences peers c} < LATEST_WINDOW"
proof -
  from assms(1) obtain c where c: "most_common_block E iter [] peers = Some c"
    and al: "al_trusted_peers al = filter (\<lambda>p. \<not> (fst (snd p) \<noteq> c \<or> peer_height p < last_height + 1)) peers"
    by (auto simp: filter_peers_def aligner_new_def Let_def split: option.splits list.splits)
  from al most_common_block_spec [OF c assms(2)] show ?thesis by (intro exI [of _ c]) (simp add: not_less)
qed

text \<open>Two peers propose one block and five others a block each: the first is not chosen.\<close>

definition demo_peer :: "string \<Rightarrow> string \<Rightarrow> u64 \<Rightarrow> peer" where
  "demo_peer p h height = (p, h, demo_block\<lparr>blk_data := (blk_data demo_block)\<lparr>bd_height := height\<rparr>\<rparr>)"

definition demo_peers :: "peer list" where
  "demo_peers = [demo_peer ''a'' ''x'' 9, demo_peer ''b'' ''x'' 9, demo_peer ''c'' ''1'' 5, demo_peer ''d'' ''2'' 6,
     demo_peer ''e'' ''3'' 7, demo_peer ''f'' ''4'' 8, demo_peer ''g'' ''5'' 4]"

theorem filter_peers_trusts_witness:
  "\<exists>al. filter_peers demo_env (\<lambda>m. m) demo_peers 0 aligner_new = Some (al, 9) \<and>
     al_trusted_peers al = [demo_peer ''f'' ''4'' 8] \<and>
     (\<exists>c. 0 < occurrences demo_peers c \<and> occurrences demo_peers c < occurrences demo_peers ''x'' \<and>
       al_trusted_peers al = filter (\<lambda>p. fst (snd p) = c \<and> 0 + 1 \<le> peer_height p) demo_peers \<and>
       card {h. 0 < occurrences demo_peers h \<and> occurrences demo_peers h < occurrences demo_peers c} < LATEST_WINDOW)"
proof -
  obtain al where f: "filter_peers demo_env (\<lambda>m. m) demo_peers 0 aligner_new = Some (al, 9)"
    and al: "al_trusted_peers al = [demo_peer ''f'' ''4'' 8]"
    by (simp add: filter_peers_def most_common_block_def demo_peers_def demo_peer_def count_peer_def Let_def
        aligner_new_def LATEST_WINDOW_def)
  from filter_peers_trusts [OF f] obtain c where c: "0 < occurrences demo_peers c"
    "al_trusted_peers al = filter (\<lambda>p. fst (snd p) = c \<and> 0 + 1 \<le> peer_height p) demo_peers"
    "card {h. 0 < occurrences demo_peers h \<and> occurrences demo_peers h < occurrences demo_peers c} < LATEST_WINDOW"
    by auto
  from c(2) al have "c = ''4''" by (auto simp: demo_peers_def demo_peer_def split: if_splits)
  then have "occurrences demo_peers c < occurrences demo_peers ''x''"
    by (simp add: occurrences_def demo_peers_def demo_peer_def)
  with f al c show ?thesis by blast
qed

end
