(* ===== verification/Worker.thy ===== *)
theory Worker
  imports Builder Execution Aligner
begin

text \<open>
  \<^verbatim>\<open>src/blockchain/worker.rs\<close>: the worker creates the dispatcher, the builder, the executor and the aligner on one shared
  pool, database, table of subscribers and seed source, and starts them from its event loop. Messages
  are handled, and the builder and the executor run, in tasks of their own: each is a step that can
  come at any time between the others, guarded for the last two by the flags \<open>building\<close> and
  \<open>executing\<close>. A task is taken as one atomic step; the aligner's thread takes one step per turn of its loops.
  The invariants hold in every state the worker can reach.
\<close>

section \<open>State and operations\<close>

text \<open>The shared structures are those of the dispatcher's record.\<close>

record ('d, 'w) worker =
  wk_dispatcher :: "'d dispatcher"
  wk_builder :: builder
  wk_wm :: 'w
  wk_burn_fuel_method :: string
  wk_building :: bool
  wk_executing :: bool
  wk_is_validator :: bool
  wk_aligner :: "al_phase \<times> aligner"

definition worker_new ::
    "block_config \<Rightarrow> 'd \<Rightarrow> 'w \<Rightarrow> seed_source \<Rightarrow> string \<Rightarrow> ('d, 'w) worker" where
  "worker_new config db wm seed p2p_id =
     \<lparr>wk_dispatcher =
        dispatcher_new config pool_default db pubsub_new seed p2p_id (True, []),
      wk_builder = builder_new (bc_threshold config), wk_wm = wm, wk_burn_fuel_method = [],
      wk_building = False, wk_executing = False, wk_is_validator = False,
      wk_aligner = (Idle, aligner_new)\<rparr>"

definition worker_set_burn_fuel_method :: "string \<Rightarrow> ('d, 'w) worker \<Rightarrow> ('d, 'w) worker" where
  [simp]: "worker_set_burn_fuel_method mthd w = w\<lparr>wk_burn_fuel_method := mthd\<rparr>"

definition worker_set_config :: "string \<Rightarrow> nat \<Rightarrow> u16 \<Rightarrow> ('d, 'w) worker \<Rightarrow> ('d, 'w) worker" where
  "worker_set_config network threshold timeout w =
     (let s = wk_dispatcher w;
          s1 = s\<lparr>dp_config := (dp_config s)\<lparr>bc_network := network, bc_threshold := threshold, bc_timeout := timeout\<rparr>\<rparr>
      in w\<lparr>wk_builder := set_block_threshold threshold (wk_builder w),
           wk_dispatcher := set_block_timeout timeout s1\<rparr>)"

text \<open>\<open>put_txs\<close>: unlike the dispatcher it takes the hash of the whole transaction, and every refusal is a
  panic.\<close>

definition worker_put_tx ::
    "env \<Rightarrow> ('d, 'f) db_ops \<Rightarrow> transaction \<Rightarrow> 'd dispatcher \<Rightarrow> 'd dispatcher option" where
  "worker_put_tx E D tx s =
     (let hash = primary_hash E (mp_transaction tx); pool = dp_pool s
      in if bc_network (dp_config s) \<noteq> tx_get_network tx then None
         else if db_contains_transaction D (dp_db s) hash then None
         else (case pl_txs pool hash of
                 None \<Rightarrow>
                   Some (s\<lparr>dp_pool := pool\<lparr>pl_txs := (pl_txs pool)(hash \<mapsto> Some tx),
                           pl_unconfirmed := fst (qs_push (pl_unconfirmed pool) hash)\<rparr>\<rparr>)
               | Some _ \<Rightarrow> None))"

fun worker_put_txs ::
    "env \<Rightarrow> ('d, 'f) db_ops \<Rightarrow> transaction list \<Rightarrow> 'd dispatcher \<Rightarrow> 'd dispatcher option" where
  "worker_put_txs E D [] s = Some s"
| "worker_put_txs E D (tx # txs) s = Option.bind (worker_put_tx E D tx s) (worker_put_txs E D txs)"

text \<open>\<open>swap(true)\<close> on a flag: the task is started only if it was not running.\<close>

definition try_build_block :: "bool \<Rightarrow> nat \<Rightarrow> ('d, 'w) worker \<Rightarrow> ('d, 'w) worker" where
  "try_build_block locked threshold w =
     (if \<not> builder_can_run locked (dp_pool (wk_dispatcher w)) threshold then w
      else if wk_building w then w
      else w\<lparr>wk_building := True\<rparr>)"

definition try_exec_block :: "('d, 'f) db_ops \<Rightarrow> ('d, 'w) worker \<Rightarrow> ('d, 'w) worker" where
  "try_exec_block D w =
     (if \<not> executor_can_run D u64_max (dp_db (wk_dispatcher w)) (dp_pool (wk_dispatcher w)) then w
      else if wk_executing w then w
      else w\<lparr>wk_executing := True\<rparr>)"

text \<open>The task that handles one message and sends the answer, if the requester is still there.\<close>

definition handle_message ::
    "env \<Rightarrow> 'd codec \<Rightarrow> ('d, 'f) db_ops \<Rightarrow> (nat \<Rightarrow> bool) \<Rightarrow> nat \<Rightarrow> message \<Rightarrow> 'd dispatcher \<Rightarrow> 'd dispatcher option" where
  "handle_message E C D closed chan req s =
     (case message_handler E C D closed chan req 0 s of
        None \<Rightarrow> None
      | Some (s1, None) \<Rightarrow> Some s1
      | Some (s1, Some res) \<Rightarrow>
          Some (if closed chan then s1 else s1\<lparr>dp_sent := dp_sent s1 @ [(chan, res)]\<rparr>))"

text \<open>The two branches of the event loop: the timer, and what follows a received message.\<close>

definition worker_tick :: "('d, 'f) db_ops \<Rightarrow> bool \<Rightarrow> ('d, 'w) worker \<Rightarrow> ('d, 'w) worker" where
  "worker_tick D locked w =
     try_exec_block D
       (if wk_is_validator w \<and> dp_aligned (wk_dispatcher w) then try_build_block locked 1 w else w)"

definition worker_received :: "('d, 'f) db_ops \<Rightarrow> bool \<Rightarrow> nat \<Rightarrow> ('d, 'w) worker \<Rightarrow> ('d, 'w) worker" where
  "worker_received D locked threshold w =
     (if wk_is_validator w
      then (let w1 = try_exec_block D w
            in if dp_aligned (wk_dispatcher w1) then try_build_block locked threshold w1 else w1)
      else w)"

text \<open>The executor task works on a clone: the pool, the database, the subscribers, the seed and the machine
  are shared, while the \<open>is_validator\<close> flag that \<open>exec_block\<close> refreshes is the clone's own and is lost
  with it.\<close>

definition worker_executor :: "('d, 'w) worker \<Rightarrow> ('d, 'w) executor" where
  "worker_executor w =
     (let s = wk_dispatcher w
      in \<lparr>ex_pool = dp_pool s, ex_db = dp_db s, ex_wm = wk_wm w, ex_pubsub = dp_pubsub s,
          ex_keypair = bc_keypair (dp_config s), ex_burn_fuel_method = wk_burn_fuel_method w,
          ex_seed = dp_seed s, ex_is_validator = False, ex_sent = dp_sent s\<rparr>)"

definition worker_executed :: "('d, 'w) executor \<Rightarrow> ('d, 'w) worker \<Rightarrow> ('d, 'w) worker" where
  "worker_executed x w =
     w\<lparr>wk_dispatcher := (wk_dispatcher w)\<lparr>dp_pool := ex_pool x, dp_db := ex_db x, dp_pubsub := ex_pubsub x,
         dp_seed := ex_seed x, dp_sent := ex_sent x\<rparr>,
       wk_wm := ex_wm x, wk_executing := False\<rparr>"

text \<open>The tasks that the code spawns (a handler, a run of the builder, a run of the executor) are one step each, although they
  release the locks in between; \<open>Concurrent\<close> has the steps between the locks.\<close>

inductive worker_step ::
    "env \<Rightarrow> 'd codec \<Rightarrow> ('d, 'f) db_ops \<Rightarrow> ('w, 'f) wm_ops \<Rightarrow> ('d \<Rightarrow> string \<Rightarrow> bool result) \<Rightarrow>
     ('d, 'w) worker \<Rightarrow> ('d, 'w) worker \<Rightarrow> bool"
  for E :: env and C :: "'d codec" and D :: "('d, 'f) db_ops" and W :: "('w, 'f) wm_ops" and is_val where
  SetConfig: "worker_step E C D W is_val w (worker_set_config network threshold timeout w)"
| SetBurn: "worker_step E C D W is_val w (worker_set_burn_fuel_method mthd w)"
| PutTxs: "worker_put_txs E D txs (wk_dispatcher w) = Some s \<Longrightarrow>
    worker_step E C D W is_val w (w\<lparr>wk_dispatcher := s\<rparr>)"
| SetValidator: "worker_step E C D W is_val w (w\<lparr>wk_is_validator := v\<rparr>)"
| Tick: "worker_step E C D W is_val w (worker_tick D locked w)"
| Received: "worker_step E C D W is_val w (worker_received D locked threshold w)"
| Handle: "handle_message E C D closed chan req (wk_dispatcher w) = Some s \<Longrightarrow>
    worker_step E C D W is_val w (w\<lparr>wk_dispatcher := s\<rparr>)"
| Build: "wk_building w \<Longrightarrow>
    builder_run D (wk_builder w) now (dp_db (wk_dispatcher w)) (dp_pool (wk_dispatcher w)) = Some pool \<Longrightarrow>
    worker_step E C D W is_val w (w\<lparr>wk_dispatcher := (wk_dispatcher w)\<lparr>dp_pool := pool\<rparr>, wk_building := False\<rparr>)"
| Execute: "wk_executing w \<Longrightarrow>
    executor_run E D W closed is_val (wk_is_validator w) (worker_executor w) = Some x \<Longrightarrow>
    worker_step E C D W is_val w (worker_executed x w)"
| Align: "al_step E D iter closed t (fst (wk_aligner w), snd (wk_aligner w), wk_dispatcher w) = Some (ph, al, s) \<Longrightarrow>
    worker_step E C D W is_val w (w\<lparr>wk_dispatcher := s, wk_aligner := (ph, al)\<rparr>)"

inductive worker_reach ::
    "env \<Rightarrow> 'd codec \<Rightarrow> ('d, 'f) db_ops \<Rightarrow> ('w, 'f) wm_ops \<Rightarrow> ('d \<Rightarrow> string \<Rightarrow> bool result) \<Rightarrow>
     ('d, 'w) worker \<Rightarrow> ('d, 'w) worker \<Rightarrow> bool"
  for E :: env and C :: "'d codec" and D :: "('d, 'f) db_ops" and W :: "('w, 'f) wm_ops" and is_val where
  Start: "worker_reach E C D W is_val w w"
| Step: "worker_reach E C D W is_val w w' \<Longrightarrow> worker_step E C D W is_val w' w'' \<Longrightarrow> worker_reach E C D W is_val w w''"

section \<open>The invariant\<close>

definition worker_inv ::
    "env \<Rightarrow> ('d \<Rightarrow> store) \<Rightarrow> ('d \<Rightarrow> bool) \<Rightarrow> ('d, 'w) worker \<Rightarrow> bool" where
  "worker_inv E snap dinv w \<longleftrightarrow>
     (let s = wk_dispatcher w
      in dinv (dp_db s) \<and> pool_inv (stored_in (snap (dp_db s))) (dp_pool s) \<and>
         chain_ok E (st_blocks (snap (dp_db s))))"

section \<open>The builder keeps the pool\<close>

lemma build_block_inv:
  assumes "pool_inv stored (snd (snd s))"
  shows "pool_inv stored (snd (snd (build_block threshold now s)))"
proof -
  obtain count height p where s: "s = (count, height, p)" by (cases s)
  obtain hs q where pop: "pop_upto threshold (pl_unconfirmed p) = (hs, q)" by force
  from assms s have inv: "pool_inv stored p" by simp
  then have "qs_inv (pl_unconfirmed p)" by (simp add: pool_inv_def)
  from pop_upto_spec [OF this pop] have hs: "hs = take threshold (qs_fifo (pl_unconfirmed p))"
    and q: "qs_inv q" "qs_fifo q = drop threshold (qs_fifo (pl_unconfirmed p))" by simp_all
  have "distinct (qs_fifo (pl_unconfirmed p))" using inv by (simp add: pool_inv_def qs_inv_def)
  then have disj: "set hs \<inter> set (qs_fifo q) = {}" unfolding hs q by (rule set_take_disj_set_drop_if_distinct) simp
  have sub: "set hs \<subseteq> set (qs_fifo (pl_unconfirmed p))" "set (qs_fifo q) \<subseteq> set (qs_fifo (pl_unconfirmed p))"
    unfolding hs q by (rule set_take_subset, rule set_drop_subset)
  have inv1: "pool_inv stored (p\<lparr>pl_unconfirmed := q\<rparr>)" using inv q sub by (auto simp: pool_inv_def)
  have "pool_inv stored (p\<lparr>pl_unconfirmed := q\<rparr>\<lparr>pl_confirmed := bt_insert height
      (new_block_info hs (if height = 0 then 0 else now height)) (pl_confirmed (p\<lparr>pl_unconfirmed := q\<rparr>))\<rparr>)"
  proof (rule pool_inv_insert_block [OF inv1])
    show "\<forall>h \<in> (case bi_txs_hashes (new_block_info hs (if height = 0 then 0 else now height)) of
        None \<Rightarrow> {} | Some hs \<Rightarrow> set hs).
      h \<notin> set (qs_fifo (pl_unconfirmed (p\<lparr>pl_unconfirmed := q\<rparr>))) \<and> pl_txs (p\<lparr>pl_unconfirmed := q\<rparr>) h \<noteq> None"
      using disj sub pool_inv_unconfirmed [OF inv] by (simp add: new_block_info_def) blast
  qed
  then show ?thesis by (simp add: build_block_def s pop Let_def)
qed

text \<open>What one round of the builder keeps, a run keeps.\<close>

lemma builder_while_keeps:
  assumes round: "\<And>t n s. Q (snd (snd s)) \<Longrightarrow> Q (snd (snd (build_block t n s)))"
    and "builder_while threshold now s = Some s'"
  shows "Q (snd (snd s)) \<longrightarrow> Q (snd (snd s'))"
proof (rule builder_while.raw_induct [where P = "\<lambda>t n s s'. Q (snd (snd s)) \<longrightarrow> Q (snd (snd s'))", OF _ assms(2)])
  fix loop t n s y
  assume "\<And>t n s y. loop t n s = Some y \<Longrightarrow> Q (snd (snd s)) \<longrightarrow> Q (snd (snd y))"
    and "(if 0 < fst s then loop t n (build_block t n s) else Some s) = Some y"
  then show "Q (snd (snd s)) \<longrightarrow> Q (snd (snd y))" using round [of s t n] by (auto split: if_splits)
qed

lemma builder_loop_keeps:
  assumes round: "\<And>t n s. Q (snd (snd s)) \<Longrightarrow> Q (snd (snd (build_block t n s)))"
    and "builder_loop threshold now s = Some p"
  shows "Q (snd (snd s)) \<longrightarrow> Q p"
proof (rule builder_loop.raw_induct [where P = "\<lambda>t n s p. Q (snd (snd s)) \<longrightarrow> Q p", OF _ assms(2)])
  fix loop t n s y
  assume IH: "\<And>t n s y. loop t n s = Some y \<Longrightarrow> Q (snd (snd s)) \<longrightarrow> Q y"
    and run: "Option.bind (builder_while t n s) (\<lambda>(_, height, pool).
      if qs_len (pl_unconfirmed pool) < t then Some pool
      else loop t n (qs_len (pl_unconfirmed pool), height, pool)) = Some y"
  from run obtain c ht p where w: "builder_while t n s = Some (c, ht, p)"
    and y: "(if qs_len (pl_unconfirmed p) < t then Some p else loop t n (qs_len (pl_unconfirmed p), ht, p)) = Some y"
    by (auto simp: bind_eq_Some_conv)
  show "Q (snd (snd s)) \<longrightarrow> Q y"
    using builder_while_keeps [where Q = Q, OF round w] IH y by (auto split: if_splits)
qed

lemma builder_run_keeps:
  assumes "\<And>t n s. Q (snd (snd s)) \<Longrightarrow> Q (snd (snd (build_block t n s)))"
    and "builder_run D b now db pool = Some pool'" and "Q pool"
  shows "Q pool'"
  using builder_loop_keeps [where Q = Q, OF assms(1) assms(2) [unfolded builder_run_def]] assms(3) by simp

lemma builder_run_inv: "builder_run D b now db pool = Some pool' \<Longrightarrow> pool_inv stored pool \<Longrightarrow> pool_inv stored pool'"
  by (rule builder_run_keeps [where Q = "pool_inv stored"]) (simp_all add: build_block_inv)

section \<open>Every step keeps the invariant\<close>

lemma try_frames [frame_simps]:
  "wk_dispatcher (try_build_block locked t w) = wk_dispatcher w"
  "wk_dispatcher (try_exec_block D w) = wk_dispatcher w"
  by (simp_all add: try_build_block_def try_exec_block_def)

lemma loop_frames [frame_simps]:
  "wk_dispatcher (worker_tick D locked w) = wk_dispatcher w"
  "wk_dispatcher (worker_received D locked t w) = wk_dispatcher w"
  by (simp_all add: worker_tick_def worker_received_def Let_def frame_simps)

lemma set_config_frames [frame_simps]:
  "dp_db (wk_dispatcher (worker_set_config nw th ti w)) = dp_db (wk_dispatcher w)"
  "dp_pool (wk_dispatcher (worker_set_config nw th ti w)) = dp_pool (wk_dispatcher w)"
  by (simp_all add: worker_set_config_def set_block_timeout_def Let_def)

lemma put_tx_step: "worker_put_tx E D tx s = Some s' \<Longrightarrow> disp_step D s s'"
  by (auto simp: worker_put_tx_def disp_step_def Let_def pool_inv_new split: if_splits option.splits)

lemma put_txs_step: "worker_put_txs E D txs s = Some s' \<Longrightarrow> disp_step D s s'"
proof (induction txs arbitrary: s)
  case (Cons tx txs)
  then obtain s1 where "worker_put_tx E D tx s = Some s1" "worker_put_txs E D txs s1 = Some s'"
    by (auto simp: bind_eq_Some_conv)
  with Cons.IH put_tx_step disp_step_trans show ?case by blast
qed simp

lemma disp_step_sent: "disp_step D s (s'\<lparr>dp_sent := out\<rparr>) \<longleftrightarrow> disp_step D s s'"
  by (simp add: disp_step_def)

lemma handle_message_step:
  assumes "handle_message E C D closed chan req s = Some s'"
  shows "disp_step D s s'"
proof -
  from assms obtain s1 r where m: "message_handler E C D closed chan req 0 s = Some (s1, r)"
    by (auto simp: handle_message_def split: option.split_asm)
  then have "s' = s1 \<or> s' = s1\<lparr>dp_sent := dp_sent s1 @ [(chan, the r)]\<rparr>"
    using assms by (auto simp: handle_message_def split: option.split_asm if_split_asm)
  with handlers_step(1) [OF m] show ?thesis by (auto simp: disp_step_sent)
qed

context wm_contract
begin

lemma contains_stored: "db_contains_transaction D d = stored_in (snap d)"
  by (simp add: fun_eq_iff contains_transaction stored_in_def)

lemma disp_step_worker:
  "disp_step D (wk_dispatcher w) s \<Longrightarrow> worker_inv E snap inv w \<Longrightarrow>
   worker_inv E snap inv (w\<lparr>wk_dispatcher := s\<rparr>) \<and> dp_db s = dp_db (wk_dispatcher w)"
  by (simp add: worker_inv_def Let_def disp_step_def contains_stored)

lemma worker_step_inv:
  assumes "worker_step E C D W is_val w w'" and "worker_inv E snap inv w"
  shows "worker_inv E snap inv w' \<and> (\<exists>bs. st_blocks (snap (dp_db (wk_dispatcher w'))) =
    st_blocks (snap (dp_db (wk_dispatcher w))) @ bs)"
  using assms(1)
proof (cases rule: worker_step.cases)
  case (PutTxs txs s)
  from disp_step_worker [OF put_txs_step [OF PutTxs(2)] assms(2)] show ?thesis
    unfolding PutTxs(1) by simp
next
  case (Handle closed chan req s)
  from disp_step_worker [OF handle_message_step [OF Handle(2)] assms(2)] show ?thesis
    unfolding Handle(1) by simp
next
  case (Align iter closed t ph al s)
  from disp_step_worker [OF al_step_step [OF Align(2), simplified] assms(2)] show ?thesis
    unfolding Align(1) by (auto simp: worker_inv_def Let_def)
next
  case (Build now pool)
  from builder_run_inv [OF Build(3)] assms(2) show ?thesis
    unfolding Build(1) by (simp add: worker_inv_def Let_def)
next
  case (Execute closed x)
  obtain prev ht where t: "(prev, ht) = tip E (st_blocks (snap (ex_db (worker_executor w))))" by (metis surj_pair)
  have l: "exec_loop E D W closed is_val (wk_is_validator w) prev ht (worker_executor w) = Some x"
    using Execute(3) unfolding executor_run_loop t [symmetric] by simp
  have n: "inv (ex_db (worker_executor w))" "chain_ok E (st_blocks (snap (ex_db (worker_executor w))))"
    "pool_inv (stored_in (snap (ex_db (worker_executor w)))) (ex_pool (worker_executor w))"
    using assms(2) by (simp_all add: worker_inv_def worker_executor_def Let_def)
  have db: "ex_db (worker_executor w) = dp_db (wk_dispatcher w)" by (simp add: worker_executor_def Let_def)
  from exec_loop_chain [OF l n(1,2) t] exec_loop_pool [OF l n(1,3)] show ?thesis
    unfolding Execute(1) db by (simp add: worker_inv_def worker_executed_def Let_def)
qed (use assms(2) in \<open>simp_all add: worker_inv_def Let_def frame_simps\<close>)

lemma worker_reach_inv:
  assumes "worker_reach E C D W is_val w w'" and "worker_inv E snap inv w"
  shows "worker_inv E snap inv w' \<and> (\<exists>bs. st_blocks (snap (dp_db (wk_dispatcher w'))) =
    st_blocks (snap (dp_db (wk_dispatcher w))) @ bs)"
  using assms
proof (induction rule: worker_reach.induct)
  case (Step w w' w'')
  from Step.IH [OF Step.prems] worker_step_inv [OF Step.hyps(2)] show ?case by (metis append_assoc)
qed simp

text \<open>Every state reached from a new worker.\<close>

lemma worker_safe:
  assumes "worker_reach E C D W is_val (worker_new config db wm seed p2p_id) w"
    and "inv db" and "chain_ok E (st_blocks (snap db))"
  shows "worker_inv E snap inv w \<and>
    (\<exists>bs. st_blocks (snap (dp_db (wk_dispatcher w))) = st_blocks (snap db) @ bs) \<and>
    (\<forall>h. qs_contains (pl_unconfirmed (dp_pool (wk_dispatcher w))) h \<longrightarrow>
       (\<exists>tx. pl_txs (dp_pool (wk_dispatcher w)) h = Some (Some tx)) \<and>
       st_transactions (snap (dp_db (wk_dispatcher w))) h = None \<and>
       h \<notin> confirmed_hashes (pl_confirmed (dp_pool (wk_dispatcher w))))"
proof -
  have "worker_inv E snap inv (worker_new config db wm seed p2p_id)"
    using assms(2,3) by (simp add: worker_inv_def worker_new_def Let_def pool_inv_default)
  from worker_reach_inv [OF assms(1) this]
  have i: "worker_inv E snap inv w"
    and ext: "\<exists>bs. st_blocks (snap (dp_db (wk_dispatcher w))) = st_blocks (snap db) @ bs"
    by (simp_all add: worker_new_def)
  let ?pool = "dp_pool (wk_dispatcher w)"
  from i have p: "pool_inv (stored_in (snap (dp_db (wk_dispatcher w)))) ?pool"
    by (simp add: worker_inv_def Let_def)
  then have "qs_contains (pl_unconfirmed ?pool) h \<longleftrightarrow> h \<in> set (qs_fifo (pl_unconfirmed ?pool))" for h
    by (simp add: pool_inv_def qs.contains_spec)
  with i ext p show ?thesis by (auto simp: pool_inv_def stored_in_def)
qed

end

end
