(* ===== verification/Node.thy ===== *)
theory Node
  imports Machine Worker
begin

text \<open>
  The parts put together: the worker with its dispatcher, builder and executor, over the database of
  \<^verbatim>\<open>src/db/rocks.rs\<close> and the machine of \<^verbatim>\<open>src/wm/local.rs\<close>. What is left as a hypothesis is the
  behaviour of the merkledb crate; the wasm engine is arbitrary.
\<close>

text \<open>Safety of the node when tasks are not interleaved. Every handler, every run of the builder and every run of the executor
  is one step here. From a new worker on a database whose chain is linked, every state reached by such steps, whatever
  the contracts do, satisfies the invariant: the chain is linked and only ever grows; an unconfirmed transaction has its
  payload, is in no block of the chain and in no confirmed block of the pool; and whatever a confirmed block names is known to
  the pool or already in the chain. The code releases its locks inside these steps: theory \<open>Races\<close> states what is left of
  the invariant then, and shows that an unconfirmed transaction may be in the chain already.
\<close>

lemma node_safe:
  assumes "merkledb_api M absf"
    and "worker_reach E C (rocks_ops E M) (wm_local_ops E H T (rocks_ops E M) n) is_val
      (worker_new config (rocks_new M backend) wm seed p2p_id) w"
    and "chain_ok E (st_blocks (md_snapshot M backend))"
  shows "worker_inv E rd_snap (rocks_inv M) w \<and>
    (\<exists>bs. st_blocks (rd_snap (dp_db (wk_dispatcher w))) = st_blocks (md_snapshot M backend) @ bs) \<and>
    (\<forall>h. qs_contains (pl_unconfirmed (dp_pool (wk_dispatcher w))) h \<longrightarrow>
       (\<exists>tx. pl_txs (dp_pool (wk_dispatcher w)) h = Some (Some tx)) \<and>
       st_transactions (rd_snap (dp_db (wk_dispatcher w))) h = None \<and>
       h \<notin> confirmed_hashes (pl_confirmed (dp_pool (wk_dispatcher w))))"
proof -
  have "wm_contract E (rocks_ops E M) rd_snap absf (rocks_inv M) (wm_local_ops E H T (rocks_ops E M) n)"
    by (rule db_contract.wm_local_contract [OF merkledb_api.rocks_contract [OF assms(1)]])
  from wm_contract.worker_safe [OF this assms(2)] assms(3) show ?thesis
    by (simp add: rocks_inv_def rocks_new_def)
qed

definition demo_config :: block_config where
  "demo_config = \<lparr>bc_threshold = 1, bc_timeout = 1, bc_network = ''skynet'', bc_keypair = KpEd25519 [] []\<rparr>"

definition demo_worker :: "(store rocks_db, bytes wm_local) worker" where
  "demo_worker = worker_new demo_config (rocks_new mem_merkledb store_empty)
     \<lparr>wl_cache = [], wl_cache_max = 1, wl_reads = 0\<rparr>
     (seed_source_new [] [] hash_default hash_default hash_default) ''me''"

definition demo_codec :: "'d codec" where
  "demo_codec = \<lparr>cd_multi = (\<lambda>_. None), cd_settings = (\<lambda>_. None), cd_ro = None\<rparr>"

abbreviation demo_machine :: "(bytes wm_local, fork_abs) wm_ops" where
  "demo_machine \<equiv> wm_local_ops demo_env demo_host demo_wasm demo_ops 9"

lemma node_safe_example:
  "\<exists>w. worker_reach demo_env demo_codec demo_ops demo_machine (\<lambda>_ _. Inr True) demo_worker w \<and>
     worker_inv demo_env rd_snap (rocks_inv mem_merkledb) w \<and>
     qs_fifo (pl_unconfirmed (dp_pool (wk_dispatcher w))) = [tx_get_primary_hash demo_env demo_signed_tx]"
proof -
  let ?put = "put_transaction_internal demo_env demo_ops demo_signed_tx demo_dispatcher"
  have d: "wk_dispatcher demo_worker = demo_dispatcher"
    by (simp add: demo_worker_def worker_new_def demo_dispatcher_def demo_config_def)
  have put: "put_transaction_handler demo_env demo_ops (\<lambda>_. False) demo_signed_tx demo_dispatcher =
      (fst ?put, PutTransactionResponse (tx_get_primary_hash demo_env demo_signed_tx))"
    by (simp add: put_transaction_handler_def put_transaction_internal_def demo_admit Let_def)
       (simp add: demo_dispatcher_def pool_default_def broadcast_attempt_def has_subscribers_def pubsub_new_def)
  have "handle_message demo_env demo_codec demo_ops (\<lambda>_. False) 0 (PutTransactionRequest False demo_signed_tx)
      (wk_dispatcher demo_worker) = Some (fst ?put)"
    by (simp add: handle_message_def message_handler.simps d put)
  from worker_reach.Step [OF worker_reach.Start worker_step.Handle [OF this]]
  have reach: "worker_reach demo_env demo_codec demo_ops demo_machine (\<lambda>_ _. Inr True) demo_worker
      (demo_worker\<lparr>wk_dispatcher := fst ?put\<rparr>)" .
  from node_safe [OF mem.merkledb_api_axioms reach [unfolded demo_worker_def demo_ops_def]]
  have "worker_inv demo_env rd_snap (rocks_inv mem_merkledb) (demo_worker\<lparr>wk_dispatcher := fst ?put\<rparr>)"
    by (simp add: demo_worker_def demo_ops_def rocks_new_def mem_merkledb_def store_empty_def chain_ok_def)
  moreover have "qs_fifo (pl_unconfirmed (dp_pool (fst ?put))) = [tx_get_primary_hash demo_env demo_signed_tx]"
    by (simp add: put_transaction_internal_def demo_admit Let_def)
       (simp add: demo_dispatcher_def pool_default_def qs_push_def)
  ultimately show ?thesis using reach by (intro exI [of _ "demo_worker\<lparr>wk_dispatcher := fst ?put\<rparr>"]) simp
qed

end
