(* ===== verification/Assets.thy ===== *)
theory Assets
  imports Machine
begin

text \<open>
  Who can change an asset. An account's assets are entries named by the account of the contract that stored them. Theory
  \<open>Contracts\<close> reduces what a contract can do, through any nesting of calls, to its primitive writes; here the
  executor is added (locale \<open>block_frame\<close>) and the relation \<open>spares k\<close>, \<open>no account's entry k changes\<close>, is shown
  to be respected: only code running for account \<open>k\<close> changes these entries.
\<close>

section \<open>The accounts that a transaction runs for\<close>

definition tx_accounts :: "transaction \<Rightarrow> string list" where
  "tx_accounts tx =
     (case tx of
        UnitTransaction t \<Rightarrow> [get_account (st_data t)]
      | BulkTransaction t \<Rightarrow>
          (case bt_data t of
             BulkV1 (BulkTransactions (UnsignedTransaction root) nodes) \<Rightarrow>
               get_account root # map (\<lambda>n. get_account (st_data n)) (case nodes of None \<Rightarrow> [] | Some ns \<Rightarrow> ns)
           | _ \<Rightarrow> []))"

section \<open>The executor\<close>

text \<open>What the executor writes itself, besides the calls of the machine.\<close>

locale block_frame = machine_frame E T D R allowed
  for E :: env and T :: "('m, 'i) wasmtime" and D :: "('d, 'f) db_ops" and R allowed +
  assumes R_flush: "R f (fk_flush D f)"
    and R_rollback: "R f (fk_rollback D f)"
    and R_store_transaction: "R f (fk_store_transaction D f h tx)"
    and R_store_receipt: "R f (fk_store_receipt D f h rx)"
begin

lemma call_R: "wm_call (wm_local_ops E H T D n) a evs m = Some (m', evs', fuel, r) \<Longrightarrow> allowed (ca_owner a) \<Longrightarrow>
    R (mc_fork m) (mc_fork m')"
  by (rule ops_okD(1) [OF wm_local_ops_ok])

lemma check_R: "wm_app_hash_check (wm_local_ops E H T D n) c cx ts m = Some (m', r) \<Longrightarrow> R (mc_fork m) (mc_fork m')"
  by (rule ops_okD(3) [OF wm_local_ops_ok])

lemma tx_call_R:
  "wm_app_hash_check (wm_local_ops E H T D n) c cx ts m = Some (m1, r1) \<Longrightarrow>
   wm_call (wm_local_ops E H T D n) (tx_call_args E d h ts) evs m1 = Some (m2, evs', fuel, r) \<Longrightarrow>
   allowed (get_account d) \<Longrightarrow> R (mc_fork m) (mc_fork m2)"
  using R_trans [OF check_R call_R] by (fastforce simp: tx_call_args_def)

lemma call_burn_fuel_R:
  "call_burn_fuel E D (wm_local_ops E H T D n) mthd origin fuel ts m = Some (m', u, r) \<Longrightarrow> R (mc_fork m) (mc_fork m')"
  by (auto simp: call_burn_fuel_def bind_eq_Some_conv burn_call_args_def R_refl service_allowed split: option.splits
      dest!: call_R)

lemma try_burn_fuel_R:
  "try_burn_fuel E D (wm_local_ops E H T D n) mthd ba ts m = Some (m', ok, burned) \<Longrightarrow> R (mc_fork m) (mc_fork m')"
  using try_burn_fuel_cases call_burn_fuel_R R_refl by metis

lemma handle_unit_R:
  assumes "handle_unit_transaction E D (wm_local_ops E H T D n) tx ht i evs ts m = Some (m', res)"
    and "allowed (get_account (st_data tx))"
  shows "R (mc_fork m) (mc_fork m')"
proof -
  let ?W = "wm_local_ops E H T D n" and ?d = "st_data tx"
  from assms(1) obtain m1 ah where 1: "wm_app_hash_check ?W (get_contract ?d) (tx_ctx_args E ?d) ts m = Some (m1, ah)"
    by (auto simp: handle_unit_transaction_def Let_def bind_eq_Some_conv)
  show ?thesis
  proof (cases ah)
    case (Inl e)
    with assms(1) 1 check_R [OF 1] show ?thesis
      by (auto simp: handle_unit_transaction_def Let_def bind_eq_Some_conv)
  next
    case (Inr h)
    with assms(1) 1 obtain m2 evs2 fuel r where 2: "wm_call ?W (tx_call_args E ?d h ts) evs m1 = Some (m2, evs2, fuel, r)"
      by (auto simp: handle_unit_transaction_def Let_def bind_eq_Some_conv)
    with assms(1) 1 Inr have "m' = (case r of Inl _ \<Rightarrow> m2\<lparr>mc_fork := fk_rollback D (mc_fork m2)\<rparr> | Inr _ \<Rightarrow> m2)"
      by (auto simp: handle_unit_transaction_def Let_def bind_eq_Some_conv)
    with tx_call_R [OF 1 2 assms(2)] show ?thesis by (auto intro: R_trans [OF _ R_rollback] split: sum.splits)
  qed
qed

lemma exec_nodes_R:
  "exec_nodes E (wm_local_ops E H T D n) ts nodes m s = Some (m', s') \<Longrightarrow>
   \<forall>node \<in> set nodes. allowed (get_account (st_data node)) \<Longrightarrow> R (mc_fork m) (mc_fork m')"
proof (induction nodes arbitrary: m s)
  case (Cons node nodes)
  let ?d = "st_data node" and ?W = "wm_local_ops E H T D n"
  from Cons.prems obtain m1 ah where
    1: "wm_app_hash_check ?W (get_contract ?d) (tx_ctx_args E ?d) ts m = Some (m1, ah)"
    by (auto simp: Let_def bind_eq_Some_conv)
  from Cons.prems(2) have own: "allowed (get_account ?d)" and rest: "\<forall>node \<in> set nodes. allowed (get_account (st_data node))"
    by simp_all
  show ?case
  proof (cases ah)
    case (Inl e)
    with Cons.prems 1 obtain s1 where "exec_nodes E ?W ts nodes m1 s1 = Some (m', s')"
      by (auto simp: Let_def bind_eq_Some_conv)
    from R_trans [OF check_R [OF 1] Cons.IH [OF this rest]] show ?thesis .
  next
    case (Inr h)
    with Cons.prems 1 obtain m2 evs fuel r where
      2: "wm_call ?W (tx_call_args E ?d h ts) [] m1 = Some (m2, evs, fuel, r)"
      by (auto simp: Let_def bind_eq_Some_conv)
    note step = tx_call_R [OF 1 2 own]
    with Cons.prems 1 2 Inr consider "m' = m2" | s1 where "exec_nodes E ?W ts nodes m2 s1 = Some (m', s')"
      by (cases r) (auto simp: Let_def bind_eq_Some_conv)
    then show ?thesis using step R_trans [OF step Cons.IH [OF _ rest]] by cases auto
  qed
qed (simp add: R_refl)

lemma exec_root_R:
  assumes "exec_root E (wm_local_ops E H T D n) root ht i ts m = Some (m', r)" and "allowed (get_account root)"
  shows "R (mc_fork m) (mc_fork m')"
proof (cases root)
  case (BulkRootV1 d)
  let ?W = "wm_local_ops E H T D n"
  from assms(1) BulkRootV1 obtain m1 ah where
    1: "wm_app_hash_check ?W (td_contract d) (tx_ctx_args E root) ts m = Some (m1, ah)"
    by (auto simp: exec_root_def bind_eq_Some_conv)
  with assms(1) BulkRootV1 consider "m' = m1" | h evs fuel r where
    "wm_call ?W (tx_call_args E root h ts) [] m1 = Some (m', evs, fuel, r)"
    by (auto simp: exec_root_def bind_eq_Some_conv Let_def split: sum.splits)
  then show ?thesis using check_R [OF 1] tx_call_R [OF 1 _ assms(2)] by cases auto
qed (use assms in \<open>auto simp: exec_root_def R_refl\<close>)

lemma handle_bulk_R:
  assumes "handle_bulk_transaction E D (wm_local_ops E H T D n) tx ht i evs ts m = Some (m', res)"
    and "\<forall>a \<in> set (tx_accounts (BulkTransaction tx)). allowed a"
  shows "R (mc_fork m) (mc_fork m')"
proof (cases "\<exists>root nodes. bt_data tx = BulkV1 (BulkTransactions (UnsignedTransaction root) nodes)")
  case False
  then have "m' = m\<lparr>mc_fork := fk_rollback D (mc_fork m)\<rparr>"
    using assms(1)
    by (auto simp: handle_bulk_transaction_def Let_def split: transaction_data.splits
        bulk_transactions.splits unsigned_transaction.splits)
  then show ?thesis by (simp add: R_rollback)
next
  case True
  then obtain root nodes where d: "bt_data tx = BulkV1 (BulkTransactions (UnsignedTransaction root) nodes)"
    by blast
  let ?W = "wm_local_ops E H T D n"
  from assms(2) d have root: "allowed (get_account root)"
    and ns: "\<forall>node \<in> set (case nodes of None \<Rightarrow> [] | Some ns \<Rightarrow> ns). allowed (get_account (st_data node))"
    by (auto simp: tx_accounts_def)
  from assms(1) d obtain m1 r where 1: "exec_root E ?W root ht i ts m = Some (m1, r)"
    by (auto simp: handle_bulk_transaction_def Let_def bind_eq_Some_conv)
  note f1 = exec_root_R [OF 1 root]
  show ?thesis
  proof (cases r)
    case (Inl ret)
    then show ?thesis using f1 assms(1) d 1 by (simp add: handle_bulk_transaction_def Let_def)
  next
    case (Inr c)
    obtain evs1 fuel res1 where c: "c = (evs1, fuel, res1)" by (cases c)
    from assms(1) d 1 Inr c obtain s1 m2 s2 where
      s12: "(if bs_execution_fail s1 then Some (m1, s1)
        else case nodes of None \<Rightarrow> Some (m1, s1) | Some ns \<Rightarrow> exec_nodes E ?W ts ns m1 s1) = Some (m2, s2)"
      and m': "m' = (if bs_execution_fail s2 then m2\<lparr>mc_fork := fk_rollback D (mc_fork m2)\<rparr> else m2)"
      by (auto simp: handle_bulk_transaction_def Let_def bind_eq_Some_conv)
    from s12 ns have "R (mc_fork m1) (mc_fork m2)" by (auto simp: R_refl split: if_splits option.splits dest: exec_nodes_R)
    from R_trans [OF f1 this] show ?thesis by (auto simp: m' intro: R_trans [OF _ R_rollback])
  qed
qed

lemma exec_transaction_R:
  assumes "exec_transaction E D (wm_local_ops E H T D n) closed tx ht i mthd ts x f = Some (x', f', rx)"
    and "\<forall>a \<in> set (tx_accounts tx). allowed a"
  shows "R f f'"
proof -
  have handled: "R f (mc_fork m1)"
    if "(case tx of
        UnitTransaction t \<Rightarrow> handle_unit_transaction E D (wm_local_ops E H T D n) t ht i [] ts (get_mach x (fk_flush D f))
      | BulkTransaction t \<Rightarrow> handle_bulk_transaction E D (wm_local_ops E H T D n) t ht i [] ts (get_mach x (fk_flush D f))) =
        Some (m1, res)" for m1 res
  proof (cases tx)
    case (UnitTransaction t)
    with that assms(2) have "R (mc_fork (get_mach x (fk_flush D f))) (mc_fork m1)"
      by (intro handle_unit_R [of H n t ht i "[]" ts]) (simp_all add: tx_accounts_def)
    with R_trans [OF R_flush] show ?thesis by (simp add: get_mach_def)
  next
    case (BulkTransaction t)
    with that assms(2) have "R (mc_fork (get_mach x (fk_flush D f))) (mc_fork m1)"
      by (intro handle_bulk_R [of H n t ht i "[]" ts]) simp_all
    with R_trans [OF R_flush] show ?thesis by (simp add: get_mach_def)
  qed
  from assms(1) show ?thesis
  proof (cases rule: exec_transaction_cases)
    case (Burned m1 res m2 burned)
    from R_trans [OF handled [OF Burned(1)] try_burn_fuel_R [OF Burned(2)]] show ?thesis by (simp add: Burned(4))
  next
    case (Failed m1 res m2 burned m4 fuel r)
    note R_trans [OF handled [OF Failed(1)] try_burn_fuel_R [OF Failed(2)]]
    from R_trans [OF R_trans [OF this R_rollback]] call_burn_fuel_R [OF Failed(3)] show ?thesis by (simp add: Failed(5))
  qed
qed

lemma exec_transactions_R:
  "exec_transactions E D (wm_local_ops E H T D n) closed ht ts i hs x f = Some (x', f', rxs) \<Longrightarrow>
   \<forall>h \<in> set hs. \<forall>tx. pl_txs (ex_pool x) h = Some (Some tx) \<longrightarrow> (\<forall>a \<in> set (tx_accounts tx). allowed a) \<Longrightarrow> R f f'"
proof (induction hs arbitrary: i x f rxs)
  case (Cons h hs)
  from Cons.prems(1) show ?case
  proof (cases rule: exec_transactions_Cons)
    case (1 tx x1 f1 rx rxs')
    have "ex_pool x1 = ex_pool x" using exec_transaction_shared [OF 1(2)] by (simp add: same_shared_def)
    then have "R (fk_store_receipt D (fk_store_transaction D f1 h tx) h rx) f'"
      using Cons.IH [OF 1(3)] Cons.prems(2) by simp
    moreover have "R f f1" using exec_transaction_R [OF 1(2)] Cons.prems(2) 1(1) by simp
    ultimately show ?thesis
      using R_trans [OF R_trans [OF _ R_store_transaction] R_trans [OF R_store_receipt]] by blast
  qed
qed (simp add: R_refl)

end

text \<open>One such relation is that two forks start from the same snapshot, whoever is called.\<close>

sublocale db_contract \<subseteq> based: block_frame E T D "\<lambda>f f'. fa_base (absf f') = fa_base (absf f)" "\<lambda>_. True" for T
  by unfold_locales (auto simp: fa_flush_def fa_rollback_def)

section \<open>Assets\<close>

text \<open>The entries named \<open>k\<close> are those of \<open>s0\<close>, in what the fork holds and in what a rollback goes back to.\<close>

definition guards :: "string \<Rightarrow> store \<Rightarrow> fork_abs \<Rightarrow> bool" where
  "guards k s0 a \<longleftrightarrow> ids_ok (fa_view a) \<and> ids_ok (fa_ckpt a) \<and>
     (\<forall>aid. asset_of (fa_view a) aid k = asset_of s0 aid k \<and> asset_of (fa_ckpt a) aid k = asset_of s0 aid k)"

definition spares :: "('f \<Rightarrow> fork_abs) \<Rightarrow> string \<Rightarrow> store \<Rightarrow> 'f \<Rightarrow> 'f \<Rightarrow> bool" where
  "spares absf k s0 f f' \<longleftrightarrow> (guards k s0 (absf f) \<longrightarrow> guards k s0 (absf f'))"

text \<open>Storing an account under its identifier with the entry \<open>k\<close> it had.\<close>

lemma guards_store_account:
  "guards k s0 a \<Longrightarrow> account_load_asset acc k = asset_of s0 (ac_id acc) k \<Longrightarrow>
   guards k s0 (fa_write (st_store_account acc) a)"
  by (auto simp: guards_def fa_write_def st_store_account_def ids_ok_def asset_of_def)

lemma guards_writes:
  "guards k s0 a \<Longrightarrow> guards k s0 (fa_write (st_put_account_data own key val) a)"
  "guards k s0 a \<Longrightarrow> guards k s0 (fa_write (st_store_transaction h tx) a)"
  "guards k s0 a \<Longrightarrow> guards k s0 (fa_write (st_store_receipt h rx) a)"
  "guards k s0 a \<Longrightarrow> guards k s0 (fa_flush a)"
  "guards k s0 a \<Longrightarrow> guards k s0 (fa_rollback a)"
  by (simp_all add: guards_def fa_write_def fa_flush_def fa_rollback_def ids_ok_def asset_of_def
      st_put_account_data_def st_store_transaction_def st_store_receipt_def)

context db_contract
begin

lemma guards_loaded:
  assumes "guards k s0 (absf f)"
  shows "ac_id (account_or_new D f aid) = aid \<and> account_load_asset (account_or_new D f aid) k = asset_of s0 aid k"
proof -
  have "account_load_asset (account_or_new D f aid) k = asset_of (fa_view (absf f)) aid k"
    by (simp add: account_or_new_abs asset_of_def account_new_def account_load_asset_def split: option.split)
  with assms show ?thesis by (simp add: guards_def account_or_new_id)
qed

lemma assets_frame:
  assumes "tame T (\<lambda>own. own \<noteq> k)" and "k \<noteq> SERVICE_ACCOUNT_ID"
  shows "block_frame T D (spares absf k s0) (\<lambda>own. own \<noteq> k)"
proof unfold_locales
  fix f g own acc hsh cn
  show "spares absf k s0 f (fk_store_account D f (acc\<lparr>ac_data_hash := hsh\<rparr>))" if "fk_load_account D f own = Some acc"
    using that guards_loaded [of k s0 f own]
    by (auto simp: spares_def account_or_new_def account_load_asset_def intro!: guards_store_account)
  show "spares absf k s0 f (fk_store_account D g ((account_or_new D f own)\<lparr>ac_contract := cn\<rparr>))" if "spares absf k s0 f g"
    using that guards_loaded [of k s0 f own]
    by (auto simp: spares_def account_load_asset_def intro!: guards_store_account)
qed (use assms guards_loaded in \<open>auto simp: spares_def asset_ops guards_writes intro!: guards_store_account\<close>)

lemma exec_block_assets:
  assumes T: "tame T (\<lambda>own. own \<noteq> k)" "k \<noteq> SERVICE_ACCOUNT_ID"
    and x: "inv (ex_db x)" "ids_ok (snap (ex_db x))"
    and txs: "\<forall>h \<in> set hs. \<forall>tx. pl_txs (ex_pool x) h = Some (Some tx) \<longrightarrow> k \<notin> set (tx_accounts tx)"
    and b: "exec_block E D (wm_local_ops E H T D n) closed is_val iv ht hs prev bv x = Some (x', r)"
  shows "ids_ok (snap (ex_db x')) \<and> (\<forall>aid. asset_of (snap (ex_db x')) aid k = asset_of (snap (ex_db x)) aid k)"
proof -
  let ?W = "wm_local_ops E H T D n" and ?f = "db_fork_create D (ex_db x)" and ?s = "snap (ex_db x)"
  from b obtain x1 f1 rxs where
    1: "exec_transactions E D ?W closed ht (bv_timestamp bv) 0 hs x ?f = Some (x1, f1, rxs)"
    by (auto simp: exec_block_def bind_eq_Some_conv)
  have sh: "ex_db x1 = ex_db x" using exec_transactions_shared [OF 1] by (simp add: same_shared_def)
  from txs have "spares absf k ?s ?f f1"
    by (intro block_frame.exec_transactions_R [OF assets_frame [OF T] 1]) blast
  moreover have "guards k ?s (absf ?f)" using x by (simp add: fork_create guards_def fa_new_def)
  ultimately have g: "guards k ?s (absf f1)" by (simp add: spares_def)
  show ?thesis
  proof (cases "seal_block E D is_val (ex_keypair x1) (ex_db x) ht hs rxs prev bv f1")
    case (Inl e)
    with b 1 sh x(2) show ?thesis by (auto simp: exec_block_def)
  next
    case (Inr c)
    obtain db' block where c: "c = (db', block)" by (cases c)
    have base: "fa_base (absf f1) = ?s"
      using based.exec_transactions_R [OF 1] by (simp add: fork_create [OF x(1)])
    from wm_contract.seal_block_sealed [OF wm_local_contract x(1) base Inr [unfolded c]]
    have "st_accounts (snap db') = st_accounts (fa_view (absf f1))"
      by (simp add: sealed_def st_store_block_def st_store_receipts_hashes_def st_store_transactions_hashes_def)
    moreover from b 1 Inr c sh have "ex_db x' = db'"
      by (auto simp: exec_block_def Let_def frame_simps split: if_splits)
    ultimately show ?thesis using g by (simp add: guards_def ids_ok_def asset_of_def)
  qed
qed

end

text \<open>C17. Assets are confined. Let a block be executed on the contract machine, with an engine whose code never asks to
  call account \<open>k\<close>, an account other than the service account, and let no transaction of the block, node or root of a bulk
  transaction, be addressed to \<open>k\<close>. Then, whatever contracts run and however they call each other, store, remove, fail, are rolled
  back or are charged fuel, and whether the block is committed or refused, every account holds the same asset named
  \<open>k\<close> as before. So an asset can only be changed by code that runs for the account of its name. (Accounts are stored
  under their identifier, before and afterwards.)\<close>

theorem assets_confined:
  assumes "db_contract E D snap absf dinv"
    and "tame T (\<lambda>own. own \<noteq> k)" and "k \<noteq> SERVICE_ACCOUNT_ID"
    and "dinv (ex_db x)" and "ids_ok (snap (ex_db x))"
    and "\<forall>h \<in> set hs. \<forall>tx. pl_txs (ex_pool x) h = Some (Some tx) \<longrightarrow> k \<notin> set (tx_accounts tx)"
    and "exec_block E D (wm_local_ops E H T D n) closed is_val iv ht hs prev bv x = Some (x', r)"
  shows "ids_ok (snap (ex_db x')) \<and> (\<forall>aid. asset_of (snap (ex_db x')) aid k = asset_of (snap (ex_db x)) aid k)"
  by (rule db_contract.exec_block_assets [OF assms])

text \<open>A contract that gives the asset of its account to \<open>bob\<close>, who holds \<open>gold\<close>.\<close>

definition coin_wasm :: "(bytes, bytes) wasmtime" where
  "coin_wasm = demo_wasm
     \<lparr>wt_invoke := (\<lambda>i name args.
        if name = ''run'' then Host i (HfStoreAsset 0 3 3 1) (\<lambda>i _. Done i (wslice_create 0 4)) else Done i 0)\<rparr>"

definition coin_store :: store where
  "coin_store = demo_store
     \<lparr>st_accounts := [''acc'' \<mapsto> account_new ''acc'' (Some hash_default),
                      ''bob'' \<mapsto> account_store_asset (account_new ''bob'' None) ''gold'' [7]],
      st_account_data := (\<lambda>_ _. Some (str_bytes ''bob'' @ [9]))\<rparr>"

definition coin_executor :: "(store rocks_db, bytes wm_local) executor" where
  "coin_executor =
     executor_new (pool_default\<lparr>pl_txs := [hash_default \<mapsto> Some (UnitTransaction demo_call_tx)]\<rparr>)
       (rocks_new mem_merkledb coin_store) \<lparr>wl_cache = [], wl_cache_max = 1, wl_reads = 0\<rparr> pubsub_new (KpEd25519 [] [])
       (seed_source_new [] [] hash_default hash_default hash_default)"

lemma coin_tame: "tame coin_wasm (\<lambda>own. own \<noteq> ''gold'')"
  by (simp add: tame_def coin_wasm_def demo_wasm_def calls_allowed_def)

abbreviation coin_machine :: "(bytes wm_local, fork_abs) wm_ops" where
  "coin_machine \<equiv> wm_local_ops demo_env demo_host coin_wasm demo_D (Suc (Suc 0))"

abbreviation coin_mach :: "(bytes wm_local, fork_abs) mach" where
  "coin_mach \<equiv> get_mach coin_executor (fk_flush demo_D (fa_new coin_store))"

lemma coin_check:
  "wm_app_hash_check coin_machine (get_contract (st_data demo_call_tx)) (tx_ctx_args demo_env (st_data demo_call_tx)) 0 coin_mach =
     Some (coin_mach, Inr hash_default)"
  by (simp add: wm_local_app_hash_check_def Let_def account_or_new_def demo_D_def mem_merkledb_def get_mach_def
      fa_new_def fa_flush_def coin_store_def demo_call_tx_def tx_ctx_args_def account_new_def)

lemma coin_wasm_simps [simp]:
  "wt_module_new coin_wasm = Inr" "wt_imports coin_wasm md = []" "wt_instance coin_wasm md fuel = Done md 0"
  "wt_typed coin_wasm i name ft" "wt_invoke coin_wasm i ''alloc'' args = Done i 0"
  "wt_invoke coin_wasm i ''run'' args = Host i (HfStoreAsset 0 3 3 1) (\<lambda>i _. Done i (wslice_create 0 4))"
  "wt_memory coin_wasm i = Some i" "wt_write coin_wasm i offset data = Inr i" "wt_fuel_consumed coin_wasm i = 7"
  by (simp_all add: coin_wasm_def demo_wasm_def)

definition coin_code :: bytes where "coin_code = str_bytes ''bob'' @ [9]"

lemma coin_args:
  "arg_lossy coin_wasm coin_code 0 3 = Inr ''bob''" "arg_bytes coin_wasm coin_code 3 1 = Inr [9]"
  "wslice_split (wslice_create 0 4) = (0, 4)" "get_range 0 4 coin_code = Some coin_code"
  by (code_simp, code_simp, code_simp, code_simp)

lemma coin_output: "he_de_app_output demo_host bs = Inr (True, bs)"
  by (simp add: demo_host_def)

lemma coin_module:
  "get_module demo_env demo_host coin_wasm demo_D (mc_fork coin_mach) hash_default (mc_wm coin_mach) =
     (touch demo_host hash_default \<lparr>cm_module = coin_code, cm_last_used = 0\<rparr>
       \<lparr>wl_cache = [(hash_default, \<lparr>cm_module = coin_code, cm_last_used = 0\<rparr>)], wl_cache_max = 1, wl_reads = 0\<rparr>, Inr coin_code)"
  by (simp add: get_module_def load_module_def evict_def Let_def demo_D_def mem_merkledb_def get_mach_def coin_executor_def
      executor_new_def fa_new_def fa_flush_def coin_store_def coin_code_def)

lemma coin_stored:
  "asset_of (fa_view (fk_store_account demo_D (mc_fork coin_mach) (account_store_asset
     (account_or_new demo_D (mc_fork coin_mach) ''bob'') (get_account (st_data demo_call_tx)) [9]))) ''bob'' ''acc'' = [9]"
  by (simp add: demo_D_def mem_merkledb_def get_mach_def fa_new_def fa_flush_def coin_store_def account_or_new_def
      account_new_def demo_call_tx_def fork_store_account_def fa_write_def st_store_account_def asset_of_def
      account_store_asset_def account_load_asset_def)

lemma coin_call:
  "\<exists>m2 evs fuel v. wm_call coin_machine (tx_call_args demo_env (st_data demo_call_tx) hash_default 0) [] coin_mach =
     Some (m2, evs, fuel, Inr v) \<and> asset_of (fa_view (mc_fork m2)) ''bob'' ''acc'' = [9]"
  by (simp add: wm_local_call_def invoke_def run_entry_def Let_def coin_module tx_call_args_def or_return_def check_def
      host_functions_register_def faulting_def write_mem_def alloc_mem_def tr_store_asset_def with_args_def coin_args
      call_ctx_def update_data_hash_def hf_store_asset_def hf_emit_def set_fork_def coin_output coin_stored)

lemma coin_transaction:
  "\<exists>x' f' rx. exec_transaction demo_env demo_D coin_machine closed (UnitTransaction demo_call_tx) 0 0 [] 0 coin_executor
     (fa_new coin_store) = Some (x', f', rx) \<and> asset_of (fa_view f') ''bob'' ''acc'' = [9]"
proof -
  obtain m2 evs fuel v where "wm_call coin_machine (tx_call_args demo_env (st_data demo_call_tx) hash_default 0) [] coin_mach =
     Some (m2, evs, fuel, Inr v)" and a: "asset_of (fa_view (mc_fork m2)) ''bob'' ''acc'' = [9]"
    using coin_call by blast
  then have "\<exists>ret. handle_unit_transaction demo_env demo_D coin_machine demo_call_tx 0 0 [] 0 coin_mach = Some (m2, ret)"
    using coin_check by (simp add: handle_unit_transaction_def Let_def)
  with a show ?thesis by (auto simp: exec_transaction_def Let_def try_burn_fuel_def)
qed

theorem assets_confined_witness:
  "\<exists>x' r. exec_block demo_env demo_D coin_machine (\<lambda>_. False) (\<lambda>_ _. Inr True) False 0 [hash_default] hash_default
      \<lparr>bv_exp_hash = None, bv_signature = None, bv_validator = None, bv_timestamp = 0\<rparr> coin_executor = Some (x', Inr r) \<and>
    asset_of (rd_snap (ex_db x')) ''bob'' ''gold'' = [7] \<and> asset_of (rd_snap (ex_db x')) ''bob'' ''acc'' = [9]"
proof -
  let ?bv = "\<lparr>bv_exp_hash = None, bv_signature = None, bv_validator = None, bv_timestamp = 0\<rparr> :: block_values"
  let ?x = coin_executor
  obtain x1 f1 rx where 1: "exec_transaction demo_env demo_D coin_machine (\<lambda>_. False) (UnitTransaction demo_call_tx) 0 0 [] 0
      ?x (fa_new coin_store) = Some (x1, f1, rx)" and a: "asset_of (fa_view f1) ''bob'' ''acc'' = [9]"
    using coin_transaction by blast
  have x: "db_fork_create demo_D (ex_db ?x) = fa_new coin_store" "ex_burn_fuel_method ?x = []" "rd_snap (ex_db ?x) = coin_store"
    "pl_txs (ex_pool ?x) = [hash_default \<mapsto> Some (UnitTransaction demo_call_tx)]" "rocks_inv mem_merkledb (ex_db ?x)"
    by (simp_all add: coin_executor_def executor_new_def rocks_new_def demo_D_def mem_merkledb_def rocks_fork_create_def
        rocks_inv_def)
  have ids: "ids_ok (rd_snap (ex_db ?x))"
    by (simp add: x ids_ok_def coin_store_def account_new_def account_store_asset_def)
  have "\<exists>x' r. exec_block demo_env demo_D coin_machine (\<lambda>_. False) (\<lambda>_ _. Inr True) False 0 [hash_default] hash_default
      ?bv ?x = Some (x', Inr r) \<and> asset_of (rd_snap (ex_db x')) ''bob'' ''acc'' = [9]"
    using 1 a x
    by (simp add: exec_block_def Let_def seal_block_def verify_block_def block_signature_def check_hash_def demo_D_def
        mem_merkledb_def rocks_fork_merge_def fork_store_block_def fork_store_transaction_def fork_store_receipt_def
        fork_store_transactions_hashes_def fork_store_receipts_hashes_def fa_write_def asset_of_def st_store_block_def
        st_store_transaction_def st_store_receipt_def st_store_transactions_hashes_def st_store_receipts_hashes_def)
  then obtain x' r where b: "exec_block demo_env demo_D coin_machine (\<lambda>_. False) (\<lambda>_ _. Inr True) False 0 [hash_default]
      hash_default ?bv ?x = Some (x', Inr r)" and c: "asset_of (rd_snap (ex_db x')) ''bob'' ''acc'' = [9]" by blast
  from assets_confined [OF demo_db coin_tame _ x(5) ids _ b] x
  have "asset_of (rd_snap (ex_db x')) ''bob'' ''gold'' = asset_of coin_store ''bob'' ''gold''"
    by (simp add: tx_accounts_def demo_call_tx_def SERVICE_ACCOUNT_ID_def)
  with b c show ?thesis
    by (auto simp: asset_of_def coin_store_def account_new_def account_store_asset_def account_load_asset_def)
qed

end
