(* ===== verification/ReadOnly.thy ===== *)
theory ReadOnly
  imports Machine Dispatching
begin

text \<open>
  \<^verbatim>\<open>src/blockchain/read_only_executor.rs\<close> (feature \<open>ro-exec\<close>): one call of a contract on a fork that is thrown
  away, for \<open>ExecReadOnlyTransaction\<close>. The executor is made for each request, with a machine of its own. The clock
  is a parameter. The fork is left as it was found, and the receipt is the one the block executor would give to a
  transaction with the same fields as long as the fuel can be burned, which a read-only call does not do.
\<close>

section \<open>Definitions\<close>

text \<open>The seed is a constant of the source, less its first four digits.\<close>

definition read_only_hash :: "env \<Rightarrow> hash option" where
  "read_only_hash E =
     (case hash_from_hex E (drop 4 ''c4221220879ecb0adedfa6a8aa19d972d225c3ce74d95619fda302ab4090fcff2ab45e6f'') of
        Inl _ \<Rightarrow> None
      | Inr h \<Rightarrow> Some h)"

definition read_only_seed :: "string \<Rightarrow> hash \<Rightarrow> seed_source" where
  "read_only_seed network hash = seed_source_new network (hash_as_bytes hash) hash hash hash"

definition read_only_burned_fuel :: "u64 \<Rightarrow> u64" where
  "read_only_burned_fuel wm_fuel = (if wm_fuel = 0 then 0 else FUEL_LIMIT)"

definition read_only_fuel_limit :: "u64 \<Rightarrow> u64" where
  "read_only_fuel_limit fuel_limit = MAX_FUEL"

definition read_only_exec ::
    "env \<Rightarrow> ('d, 'f) db_ops \<Rightarrow> ('w, 'f) wm_ops \<Rightarrow> u64 \<Rightarrow> u64 \<Rightarrow> string \<Rightarrow> string \<Rightarrow> hash option \<Rightarrow> string \<Rightarrow> bytes \<Rightarrow>
     string \<Rightarrow> 'w \<Rightarrow> 'f \<Rightarrow> (('w, 'f) mach \<times> receipt) option" where
  "read_only_exec E D W now max_fuel origin target contract mthd args network wm f = do {
     let f1 = fk_flush D f;
     let initial_fuel = read_only_fuel_limit max_fuel;
     hash \<leftarrow> read_only_hash E;
     let m = \<lparr>mc_wm = wm, mc_fork = f1, mc_seed = read_only_seed network hash\<rparr>;
     (m1, app_hash) \<leftarrow> wm_app_hash_check W contract \<lparr>cx_origin = origin, cx_owner = target, cx_caller = origin\<rparr> now m;
     (case app_hash of
        Inr h \<Rightarrow> do {
          (m2, events, fuel_consumed, result) \<leftarrow> wm_call W
             \<lparr>ca_depth = 0, ca_network = network, ca_origin = origin, ca_owner = target, ca_caller = origin,
              ca_contract = h, ca_method = mthd, ca_args = args, ca_initial_fuel = initial_fuel,
              ca_block_timestamp = now\<rparr> [] m1;
          let m3 = (case result of Inl _ \<Rightarrow> m2\<lparr>mc_fork := fk_rollback D (mc_fork m2)\<rparr> | Inr _ \<Rightarrow> m2);
          (success, returns) \<leftarrow>
            (case result of
               Inr value \<Rightarrow> Some (True, value)
             | Inl err \<Rightarrow> map_option (\<lambda>msg. (False, str_bytes msg)) (failure_message err));
          Some (m3\<lparr>mc_fork := fk_rollback D (mc_fork m3)\<rparr>,
            \<lparr>rx_height = 0, rx_index = 0, rx_burned_fuel = read_only_burned_fuel fuel_consumed,
             rx_success = success, rx_returns = returns,
             rx_events = (if events = [] then None else Some events)\<rparr>)
        }
      | Inl e \<Rightarrow> do {
          msg \<leftarrow> error_to_string_full e;
          Some (m1\<lparr>mc_fork := fk_rollback D (mc_fork m1)\<rparr>,
            \<lparr>rx_height = 0, rx_index = 0, rx_burned_fuel = get_fuel_consumed_for_error,
             rx_success = False, rx_returns = str_bytes msg, rx_events = None\<rparr>)
        })
   }"

text \<open>The handler of the dispatcher: a new executor, whose machine is new too, on a new fork.\<close>

definition exec_read_only_transaction_handler ::
    "env \<Rightarrow> ('d, 'f) db_ops \<Rightarrow> ('m wm_local, 'f) wm_ops \<Rightarrow> u64 \<Rightarrow> string \<Rightarrow> string \<Rightarrow> bytes \<Rightarrow> string \<Rightarrow> hash option \<Rightarrow> u64 \<Rightarrow>
     string \<Rightarrow> 'd \<Rightarrow> message option" where
  "exec_read_only_transaction_handler E D W now target mthd args origin contract max_fuel network db = do {
     wm \<leftarrow> wm_local_new 10;
     (m, rx) \<leftarrow> read_only_exec E D W now max_fuel origin target contract mthd args network wm (db_fork_create D db);
     Some (GetReceiptResponse rx)
   }"

text \<open>The build with the feature: what the dispatcher runs for \<open>ExecReadOnlyTransaction\<close>.\<close>

definition ro_build ::
    "env \<Rightarrow> ('d, 'f) db_ops \<Rightarrow> ('m wm_local, 'f) wm_ops \<Rightarrow> u64 \<Rightarrow> 'd codec \<Rightarrow> 'd codec" where
  "ro_build E D W now C =
     C\<lparr>cd_ro := Some (\<lambda>db target mthd args origin contract max_fuel network.
         exec_read_only_transaction_handler E D W now target mthd args origin contract max_fuel network db)\<rparr>"

section \<open>Properties\<close>

context wm_contract
begin

lemma read_only_view:
  assumes "read_only_exec E D W now max_fuel origin target contract mthd args network wm f = Some (m', rx)"
  shows "fa_view (absf (mc_fork m')) = fa_view (absf f) \<and> rx_height rx = 0 \<and> rx_index rx = 0 \<and>
    rx_burned_fuel rx \<in> {0, FUEL_LIMIT}"
proof -
  note abs = f_run_op [of FFlush, simplified] f_run_op [of FRollback, simplified]
  have restored: "fa_view (fa_rollback (absf g)) = fa_view (absf f) \<and>
      fa_view (fa_rollback (fa_rollback (absf g))) = fa_view (absf f)"
    if "accounts_step (fa_flush (absf f)) (absf g)" for g
    using accounts_step_frame [OF that] by (simp add: fa_rollback_def fa_flush_def)
  from assms obtain hash m1 app_hash where hash: "read_only_hash E = Some hash" and
    1: "wm_app_hash_check W contract \<lparr>cx_origin = origin, cx_owner = target, cx_caller = origin\<rparr> now
      \<lparr>mc_wm = wm, mc_fork = fk_flush D f, mc_seed = read_only_seed network hash\<rparr> = Some (m1, app_hash)"
    by (auto simp: read_only_exec_def Let_def bind_eq_Some_conv)
  note step1 = app_hash_frame [OF 1, simplified, unfolded abs]
  show ?thesis
  proof (cases app_hash)
    case (Inl e)
    with assms restored [OF step1] show ?thesis
      by (auto simp: read_only_exec_def Let_def bind_eq_Some_conv hash 1 abs get_fuel_consumed_for_error_def)
  next
    case (Inr h)
    from assms obtain m2 events fuel result where
      2: "wm_call W
        \<lparr>ca_depth = 0, ca_network = network, ca_origin = origin, ca_owner = target, ca_caller = origin, ca_contract = h,
         ca_method = mthd, ca_args = args, ca_initial_fuel = read_only_fuel_limit max_fuel, ca_block_timestamp = now\<rparr>
        [] m1 = Some (m2, events, fuel, result)"
      by (auto simp: read_only_exec_def Let_def bind_eq_Some_conv hash 1 Inr)
    from restored [OF accounts_step_trans [OF step1 call_frame [OF 2]]] assms show ?thesis
      by (auto simp: read_only_exec_def Let_def bind_eq_Some_conv hash 1 2 Inr abs read_only_burned_fuel_def
          split: sum.splits)
  qed
qed

end

text \<open>C21. A read-only call changes nothing. Whatever the contract writes, and however the call ends, every index of
  the fork reads afterwards what it read before; the receipt has height and index 0, and burns either
  nothing or the fixed fuel.
\<close>

theorem read_only_leaves_fork:
  assumes "merkledb_api M absf"
    and "read_only_exec E (rocks_ops E M) (wm_local_ops E H T (rocks_ops E M) n) now max_fuel origin target contract
      mthd args network wm f = Some (m', rx)"
  shows "md_view M (mc_fork m') = md_view M f \<and> rx_height rx = 0 \<and> rx_index rx = 0 \<and>
    rx_burned_fuel rx \<in> {0, FUEL_LIMIT}"
proof -
  have "wm_contract E (rocks_ops E M) rd_snap absf (rocks_inv M) (wm_local_ops E H T (rocks_ops E M) n)"
    by (rule db_contract.wm_local_contract [OF merkledb_api.rocks_contract [OF assms(1)]])
  from wm_contract.read_only_view [OF this assms(2)] show ?thesis
    by (simp add: merkledb_api.view_abs [OF assms(1)])
qed

text \<open>The parameters of the other examples, with hexadecimal digits read as they are written.\<close>

definition hex_digit :: "char \<Rightarrow> nat" where
  "hex_digit c = (let n = of_char c in if n < 58 then n - 48 else n - 87)"

fun unhex :: "string \<Rightarrow> bytes option" where
  "unhex [] = Some []"
| "unhex [c] = None"
| "unhex (c # d # s) = map_option ((#) (of_nat (16 * hex_digit c + hex_digit d))) (unhex s)"

definition hex_env :: env where
  "hex_env = demo_env\<lparr>e_unhex := unhex\<rparr>"

definition hex_ops :: "(store rocks_db, fork_abs) db_ops" where
  "hex_ops = rocks_ops hex_env mem_merkledb"

abbreviation hex_machine :: "(bytes wm_local, fork_abs) wm_ops" where
  "hex_machine \<equiv> wm_local_ops hex_env demo_host demo_wasm hex_ops (Suc 0)"

abbreviation new_machine :: "bytes wm_local" where
  "new_machine \<equiv> \<lparr>wl_cache = [], wl_cache_max = 10, wl_reads = 0\<rparr>"

lemma hex_hash: "\<exists>h. read_only_hash hex_env = Some h"
proof -
  have "hash_from_hex hex_env (drop 4 ''c4221220879ecb0adedfa6a8aa19d972d225c3ce74d95619fda302ab4090fcff2ab45e6f'') =
      Inr (hash_pack 0x12 (drop 2 (the (unhex (drop 4 ''c4221220879ecb0adedfa6a8aa19d972d225c3ce74d95619fda302ab4090fcff2ab45e6f'')))))"
    by code_simp
  then show ?thesis by (simp add: read_only_hash_def)
qed

abbreviation hex_mach :: "seed_source \<Rightarrow> (bytes wm_local, fork_abs) mach" where
  "hex_mach seed \<equiv> \<lparr>mc_wm = new_machine, mc_fork = fk_flush hex_ops (fa_new demo_store), mc_seed = seed\<rparr>"

lemma hex_check:
  "wm_app_hash_check hex_machine (Some hash_default) \<lparr>cx_origin = origin, cx_owner = ''acc'', cx_caller = origin\<rparr>
     0 (hex_mach seed) = Some (hex_mach seed, Inr hash_default)"
  by (simp add: wm_local_app_hash_check_def Let_def account_or_new_def hex_ops_def mem_merkledb_def
      fa_new_def fa_flush_def demo_store_def account_new_def)

lemma hex_fault:
  "\<exists>m2 evs fuel e. wm_call hex_machine \<lparr>ca_depth = 0, ca_network = nw, ca_origin = origin, ca_owner = ''acc'',
     ca_caller = origin, ca_contract = hash_default, ca_method = mthd, ca_args = [],
     ca_initial_fuel = MAX_FUEL, ca_block_timestamp = 0\<rparr> [] (hex_mach seed) = Some (m2, evs, fuel, Inl e) \<and>
     err_kind e = WasmMachineFault \<and> err_source e = Some ''unreachable''"
  by (simp add: wm_local_call_def invoke_def run_entry_def get_module_def load_module_def evict_def Let_def
      hex_ops_def mem_merkledb_def fa_new_def fa_flush_def demo_store_def touch_def demo_wasm_def or_return_def check_def
      host_functions_register_def faulting_def write_mem_def alloc_mem_def error_new_ext_def)

lemma hex_call:
  "\<exists>m' rx. read_only_exec hex_env hex_ops hex_machine 0 0 ''me'' ''acc'' (Some hash_default) ''m'' [] ''skynet'' new_machine
     (fa_new demo_store) = Some (m', rx) \<and> \<not> rx_success rx"
proof -
  obtain hash where hash: "read_only_hash hex_env = Some hash" using hex_hash by blast
  obtain m2 evs fuel e where "wm_call hex_machine \<lparr>ca_depth = 0, ca_network = ''skynet'', ca_origin = ''me'', ca_owner = ''acc'',
     ca_caller = ''me'', ca_contract = hash_default, ca_method = ''m'', ca_args = [],
     ca_initial_fuel = MAX_FUEL, ca_block_timestamp = 0\<rparr> [] (hex_mach (read_only_seed ''skynet'' hash)) = Some (m2, evs, fuel, Inl e)"
    "err_kind e = WasmMachineFault"
    using hex_fault by blast
  with hash hex_check [of "''me''" "read_only_seed ''skynet'' hash"] show ?thesis
    by (auto simp: read_only_exec_def Let_def read_only_fuel_limit_def failure_message_def)
qed



theorem read_only_leaves_fork_witness:
  "\<exists>m' rx. read_only_exec hex_env hex_ops hex_machine 0 0 ''me'' ''acc'' (Some hash_default) ''m'' [] ''skynet'' new_machine
      (fa_new demo_store) = Some (m', rx) \<and> \<not> rx_success rx \<and> md_view mem_merkledb (mc_fork m') = demo_store"
proof -
  from hex_call obtain m' rx where call: "read_only_exec hex_env hex_ops hex_machine 0 0 ''me'' ''acc''
      (Some hash_default) ''m'' [] ''skynet'' new_machine (fa_new demo_store) = Some (m', rx)" "\<not> rx_success rx" by blast
  from read_only_leaves_fork [OF mem.merkledb_api_axioms call(1) [unfolded hex_ops_def]]
  have "md_view mem_merkledb (mc_fork m') = demo_store" by (simp add: mem_merkledb_def fa_new_def)
  with call show ?thesis by blast
qed





text \<open>The dispatcher of the build with the feature answers with that receipt and keeps its state.\<close>

lemma read_only_message:
  "message_handler E (ro_build E D W now C) D closed chan (ExecReadOnlyTransaction target mthd args origin contract max_fuel
     network) l s =
   map_option (\<lambda>res. (s, Some res))
     (exec_read_only_transaction_handler E D W now target mthd args origin contract max_fuel network (dp_db s))"
  by (simp add: message_handler.simps ro_build_def)

end
