(* ===== verification/Bridge.thy ===== *)
theory Bridge
  imports Dispatching "HOL-Library.Sublist"
begin

text \<open>
  \<^verbatim>\<open>src/bridge/worker.rs\<close>: clients connect over TCP and exchange datagrams, a four byte big-endian length and
  a body. Each body is a packed message for the blockchain service, whose packed answer is written back.

  A connection is its remaining input up to the point where the client closes it, its output so far, and the number of
  bytes of this writer that still go through before the client is gone. A request to the service is handled by the
  dispatcher; a request that gets no answer has its response channel dropped, which is an error at the receiver (only
  \<open>Subscribe\<close> keeps a sender, and it is answered). \<open>up\<close> tells whether the service runs.

  A response channel that is still open after the first message is handed to a task of its own, which writes what
  comes later to a clone of the same stream. The two writers take no lock, so the client reads some interleaving of the
  bytes of the connection's task and of the subscription tasks. What other tasks send to the channel of a request,
  before and after its answer, whether it is found closed, and where the clone's writes stop, is the argument
  \<open>w\<close>.
\<close>

section \<open>Definitions\<close>

record tcp_stream =
  tc_in :: bytes
  tc_out :: bytes
  tc_room :: nat

datatype bridge_error = ReadError | WriteError | ServiceError error

text \<open>\<open>u32::to_be_bytes\<close> and \<open>u32::from_be_bytes\<close>.\<close>

definition u32_to_be_bytes :: "u32 \<Rightarrow> bytes" where
  "u32_to_be_bytes n = [ucast (drop_bit 24 n), ucast (drop_bit 16 n), ucast (drop_bit 8 n), ucast n]"

definition u32_from_be_bytes :: "bytes \<Rightarrow> u32" where
  "u32_from_be_bytes bs = foldl (\<lambda>n b. push_bit 8 n OR ucast b) 0 bs"

definition read_exact :: "nat \<Rightarrow> tcp_stream \<Rightarrow> (bytes \<times> tcp_stream) option" where
  "read_exact n st =
     (if length (tc_in st) < n then None else Some (take n (tc_in st), st\<lparr>tc_in := drop n (tc_in st)\<rparr>))"

definition write_all :: "bytes \<Rightarrow> tcp_stream \<Rightarrow> tcp_stream \<times> bool" where
  "write_all buf st =
     (st\<lparr>tc_out := tc_out st @ take (tc_room st) buf, tc_room := tc_room st - length buf\<rparr>, length buf \<le> tc_room st)"

definition read_datagram :: "tcp_stream \<Rightarrow> (bytes \<times> tcp_stream) option" where
  "read_datagram st =
     Option.bind (read_exact 4 st) (\<lambda>(head, st1). read_exact (unat (u32_from_be_bytes head)) st1)"

definition write_datagram :: "bytes \<Rightarrow> tcp_stream \<Rightarrow> tcp_stream \<times> bool" where
  "write_datagram buf st =
     (case write_all (u32_to_be_bytes (of_nat (length buf))) st of
        (st1, False) \<Rightarrow> (st1, False)
      | (st1, True) \<Rightarrow> write_all buf st1)"

text \<open>What a subscriber is sent, until the channel closes, something else than a packed message comes or the
  client is gone.\<close>

fun subscription_handler :: "message list \<Rightarrow> tcp_stream \<Rightarrow> tcp_stream" where
  "subscription_handler (Packed buf # msgs) st =
     (case write_datagram buf st of (st1, ok) \<Rightarrow> if ok then subscription_handler msgs st1 else st1)"
| "subscription_handler _ st = st"

text \<open>What happens to a response channel besides the answer of the dispatcher: the messages sent to it ahead of the answer and
  after it (events, once it is subscribed), whether a sender is left when the receiver looks, and the bytes that a
  subscription task gets through.\<close>

record chan_world =
  cw_before :: "message list"
  cw_after :: "message list"
  cw_open :: bool
  cw_room :: nat

text \<open>The result has what the spawned task writes, if one is spawned.\<close>

definition send_recv ::
    "env \<Rightarrow> 'd codec \<Rightarrow> ('d, 'f) db_ops \<Rightarrow> (nat \<Rightarrow> bool) \<Rightarrow> bool \<Rightarrow> (nat \<Rightarrow> chan_world) \<Rightarrow> nat \<Rightarrow> message \<Rightarrow> 'd dispatcher \<Rightarrow>
     ('d dispatcher \<times> message result \<times> bytes list) option" where
  "send_recv E C D closed up w chan request s =
     (if \<not> up then Some (s, Inl (error_new_ext Other ''blockchain service seems down 1''), [])
      else case message_handler E C D closed chan request 0 s of
             None \<Rightarrow> None
           | Some (s1, None) \<Rightarrow> Some (s1, Inl (error_new_ext Other ''blockchain service seems down 2''), [])
           | Some (s1, Some answer) \<Rightarrow>
               (let arrivals = cw_before (w chan) @ answer # cw_after (w chan);
                    clone = \<lparr>tc_in = [], tc_out = [], tc_room = cw_room (w chan)\<rparr>
                in Some (s1, Inr (hd arrivals),
                     if cw_open (w chan) then [tc_out (subscription_handler (tl arrivals) clone)] else [])))"

lemma read_exact_length: "read_exact n st = Some (bs, st1) \<Longrightarrow> length (tc_in st) = n + length (tc_in st1) \<and> length bs = n"
  by (auto simp: read_exact_def split: if_splits)

lemma read_datagram_length: "read_datagram st = Some (bs, st1) \<Longrightarrow> length (tc_in st1) < length (tc_in st)"
  by (auto simp: read_datagram_def bind_eq_Some_conv dest!: read_exact_length)

lemma write_all_in [simp]: "tc_in (fst (write_all bs st)) = tc_in st"
  by (simp add: write_all_def)

lemma write_datagram_in [simp]: "tc_in (fst (write_datagram bs st)) = tc_in st"
  by (simp add: write_datagram_def write_all_def split: bool.split)

text \<open>An answer that is not packed is dropped.\<close>

definition write_reply :: "message \<Rightarrow> tcp_stream \<Rightarrow> tcp_stream \<times> bool" where
  "write_reply res st = (case res of Packed buf \<Rightarrow> write_datagram buf st | _ \<Rightarrow> (st, True))"

lemma write_reply_in [simp]: "tc_in (fst (write_reply res st)) = tc_in st"
  by (simp add: write_reply_def split: message.split)

text \<open>One connection: the requests in turn, each with a response channel of its own, until the client closes it or
  something fails. The channels are numbered from \<open>chan\<close> on.\<close>

function connection_handler ::
    "env \<Rightarrow> 'd codec \<Rightarrow> ('d, 'f) db_ops \<Rightarrow> (nat \<Rightarrow> bool) \<Rightarrow> bool \<Rightarrow> (nat \<Rightarrow> chan_world) \<Rightarrow> nat \<Rightarrow> tcp_stream \<Rightarrow> 'd dispatcher \<Rightarrow>
     ('d dispatcher \<times> tcp_stream \<times> bytes list \<times> bridge_error) option" where
  "connection_handler E C D closed up w chan st s =
     (case read_datagram st of
        None \<Rightarrow> Some (s, st, [], ReadError)
      | Some (buf, st1) \<Rightarrow>
          (case send_recv E C D closed up w chan (Packed buf) s of
             None \<Rightarrow> None
           | Some (s1, Inl e, spawned) \<Rightarrow> Some (s1, st1, spawned, ServiceError e)
           | Some (s1, Inr res, spawned) \<Rightarrow>
               (let written = write_reply res st1
                in if \<not> snd written then Some (s1, fst written, spawned, WriteError)
                   else map_option (\<lambda>(s', st', more, e). (s', st', spawned @ more, e))
                          (connection_handler E C D closed up w (Suc chan) (fst written) s1))))"
  by pat_completeness auto
termination
  by (relation "measure (\<lambda>(_, _, _, _, _, _, _, st, _). length (tc_in st))") (auto simp: Let_def dest: read_datagram_length)

declare connection_handler.simps [simp del]

text \<open>The bytes the client can get: some interleaving of what the tasks of the connection write.\<close>

fun interleavings :: "'a list list \<Rightarrow> 'a list set" where
  "interleavings [] = {[]}"
| "interleavings (xs # xss) = (\<Union>ys \<in> interleavings xss. shuffles xs ys)"

text \<open>The listener starts a task for each connection it could accept; \<open>incoming\<close> are the connections with the first number of
  their channels. It panics when the address is taken.\<close>

definition bridge_run ::
    "env \<Rightarrow> 'd codec \<Rightarrow> ('d, 'f) db_ops \<Rightarrow> (nat \<Rightarrow> bool) \<Rightarrow> bool \<Rightarrow> (nat \<Rightarrow> chan_world) \<Rightarrow> bool \<Rightarrow> (nat \<times> tcp_stream option) list \<Rightarrow>
     ('d dispatcher \<Rightarrow> ('d dispatcher \<times> tcp_stream \<times> bytes list \<times> bridge_error) option) list option" where
  "bridge_run E C D closed up w bound incoming =
     (if bound
      then Some (List.map_filter (\<lambda>(chan, stream). map_option (connection_handler E C D closed up w chan) stream) incoming)
      else None)"

section \<open>Datagrams\<close>

definition frame :: "bytes \<Rightarrow> bytes" where
  "frame buf = u32_to_be_bytes (of_nat (length buf)) @ buf"

lemma length_u32_to_be_bytes [simp]: "length (u32_to_be_bytes n) = 4"
  by (simp add: u32_to_be_bytes_def)

lemma be_bytes_roundtrip [simp]: "u32_from_be_bytes (u32_to_be_bytes n) = n"
proof (rule bit_word_eqI)
  fix i
  assume "i < LENGTH(32)"
  then consider "i < 8" | "8 \<le> i" "i < 16" | "16 \<le> i" "i < 24" | "24 \<le> i" "i < 32" by fastforce
  then show "bit (u32_from_be_bytes (u32_to_be_bytes n)) i = bit n i"
    by cases (simp_all add: u32_from_be_bytes_def u32_to_be_bytes_def bit_simps, auto)
qed

text \<open>Reading a datagram, whatever its announced and its actual length.\<close>

lemma read_frame:
  assumes "length buf < 2 ^ 32"
  shows "read_datagram (st\<lparr>tc_in := frame buf @ rest\<rparr>) = Some (buf, st\<lparr>tc_in := rest\<rparr>)"
proof -
  have "unat (of_nat (length buf) :: u32) = length buf" using assms by (simp add: unat_of_nat)
  then show ?thesis by (simp add: read_datagram_def read_exact_def frame_def)
qed

lemma write_frame:
  "length (frame buf) \<le> tc_room st \<Longrightarrow>
   write_datagram buf st = (st\<lparr>tc_out := tc_out st @ frame buf, tc_room := tc_room st - length (frame buf)\<rparr>, True)"
  by (simp add: write_datagram_def write_all_def frame_def split: bool.split)

text \<open>A subscription task writes the frames of its messages, if they are packed and the client stays.\<close>

lemma subscription_frames:
  "length (concat (map frame bufs)) \<le> tc_room st \<Longrightarrow>
   tc_out (subscription_handler (map Packed bufs) st) = tc_out st @ concat (map frame bufs)"
proof (induction bufs arbitrary: st)
  case (Cons buf bufs)
  then have "length (frame buf) \<le> tc_room st" by simp
  with Cons show ?case by (simp add: write_frame)
qed simp

section \<open>Interleavings\<close>

lemma shuffles_left_subseq: "zs \<in> shuffles xs ys \<Longrightarrow> subseq xs zs"
  by (induction xs ys arbitrary: zs rule: shuffles.induct) auto

lemma interleavings_subseq: "zs \<in> interleavings xss \<Longrightarrow> xs \<in> set xss \<Longrightarrow> subseq xs zs"
proof (induction xss arbitrary: zs)
  case (Cons ys xss)
  then obtain us where us: "us \<in> interleavings xss" "zs \<in> shuffles ys us" by auto
  then have "subseq us zs" using shuffles_left_subseq [of zs us ys] by (simp add: shuffles_commutes)
  with Cons.IH [OF us(1)] Cons.prems(2) shuffles_left_subseq [OF us(2)] show ?case
    by (auto intro: subseq_order.order_trans)
qed simp

lemma interleavings_silent: "concat xss = [] \<Longrightarrow> interleavings xss = {[]}"
  by (induction xss) auto

section \<open>A connection at the level of messages\<close>

text \<open>What the connection promises: each body is handled as a packed request, in order; a packed answer is returned, any
  other answer is dropped; a request without an answer ends the connection. The number of answered requests is
  counted.\<close>

fun serve ::
    "env \<Rightarrow> 'd codec \<Rightarrow> ('d, 'f) db_ops \<Rightarrow> (nat \<Rightarrow> bool) \<Rightarrow> nat \<Rightarrow> bytes list \<Rightarrow> 'd dispatcher \<Rightarrow>
     ('d dispatcher \<times> bytes list \<times> nat \<times> bool) option" where
  "serve E C D closed chan [] s = Some (s, [], 0, True)"
| "serve E C D closed chan (buf # bufs) s =
     (case message_handler E C D closed chan (Packed buf) 0 s of
        None \<Rightarrow> None
      | Some (s1, None) \<Rightarrow> Some (s1, [], 0, False)
      | Some (s1, Some answer) \<Rightarrow>
          map_option (\<lambda>(s2, replies, n, alive).
              (s2, (case answer of Packed reply \<Rightarrow> reply # replies | _ \<Rightarrow> replies), Suc n, alive))
            (serve E C D closed (Suc chan) bufs s1))"

abbreviation frames :: "bytes list \<Rightarrow> bytes" where
  "frames bufs \<equiv> concat (map frame bufs)"

text \<open>What the subscription tasks of the first \<open>n\<close> channels write.\<close>

definition subscription_writes :: "(nat \<Rightarrow> chan_world) \<Rightarrow> nat \<Rightarrow> nat \<Rightarrow> bytes list" where
  "subscription_writes w chan n =
     map (\<lambda>c. tc_out (subscription_handler (cw_after (w c)) \<lparr>tc_in = [], tc_out = [], tc_room = cw_room (w c)\<rparr>))
       (filter (\<lambda>c. cw_open (w c)) [chan..<chan + n])"

lemma subscription_writes_simps [simp]:
  "subscription_writes w chan 0 = []"
  "subscription_writes w chan (Suc n) =
     (if cw_open (w chan)
      then [tc_out (subscription_handler (cw_after (w chan)) \<lparr>tc_in = [], tc_out = [], tc_room = cw_room (w chan)\<rparr>)] else []) @
     subscription_writes w (Suc chan) n"
  by (simp_all add: subscription_writes_def upt_conv_Cons del: upt_Suc)

lemma connection_serves:
  assumes "serve E C D closed chan bufs s = Some (s', replies, n, alive)"
    and "\<forall>buf \<in> set bufs. length buf < 2 ^ 32"
    and "read_datagram \<lparr>tc_in = rest, tc_out = [], tc_room = 0\<rparr> = None"
    and "length (frames replies) \<le> tc_room st"
    and "\<forall>c. cw_before (w c) = []"
  shows "\<exists>st' e. connection_handler E C D closed True w chan (st\<lparr>tc_in := frames bufs @ rest\<rparr>) s =
      Some (s', st', subscription_writes w chan n, e) \<and>
    tc_out st' = tc_out st @ frames replies \<and> (alive \<longleftrightarrow> e = ReadError)"
  using assms
proof (induction bufs arbitrary: chan s s' replies n alive st)
  case Nil
  have "read_datagram (st\<lparr>tc_in := rest\<rparr>) = None"
    using Nil.prems(3) by (auto simp: read_datagram_def read_exact_def split: if_splits)
  with Nil.prems show ?case by (simp add: connection_handler.simps [of _ _ _ _ _ _ _ "st\<lparr>tc_in := rest\<rparr>"])
next
  case (Cons buf bufs)
  let ?st = "st\<lparr>tc_in := frames (buf # bufs) @ rest\<rparr>"
  have read: "read_datagram ?st = Some (buf, st\<lparr>tc_in := frames bufs @ rest\<rparr>)"
    using Cons.prems(2) read_frame [of buf "frames bufs @ rest" st] by simp
  note step = connection_handler.simps [of E C D closed True w chan ?st s, unfolded read send_recv_def, simplified]
  from Cons.prems(1) obtain s1 r where h: "message_handler E C D closed chan (Packed buf) 0 s = Some (s1, r)"
    by (auto split: option.splits)
  show ?case
  proof (cases r)
    case None
    with h Cons.prems(1) show ?thesis by (simp add: step)
  next
    case (Some answer)
    with h Cons.prems(1) obtain replies1 n1 where r: "serve E C D closed (Suc chan) bufs s1 = Some (s', replies1, n1, alive)"
      "n = Suc n1" and rs: "replies = (case answer of Packed reply \<Rightarrow> reply # replies1 | _ \<Rightarrow> replies1)" by auto
    define st1 where "st1 = (case answer of
        Packed reply \<Rightarrow> st\<lparr>tc_out := tc_out st @ frame reply, tc_room := tc_room st - length (frame reply)\<rparr> | _ \<Rightarrow> st)"
    have st1: "length (frames replies1) \<le> tc_room st1" "tc_out st1 @ frames replies1 = tc_out st @ frames replies"
      "write_reply answer (st\<lparr>tc_in := frames bufs @ rest\<rparr>) = (st1\<lparr>tc_in := frames bufs @ rest\<rparr>, True)"
      using Cons.prems(4) by (auto simp: st1_def rs write_frame write_reply_def split: message.splits)
    from Cons.IH [OF r(1) _ Cons.prems(3) st1(1) Cons.prems(5)] Cons.prems(2,5) show ?thesis
      by (auto simp: step h Some Let_def st1 r(2))
  qed
qed

text \<open>C25. The bridge serves the requests of a client. Let a client send framed requests and close the connection in the
  middle of a datagram or after one, and let no event overtake an answer on the channel of its request. Then the connection's task
  writes exactly the framed answers of the dispatcher, in order, and the service ends in the state the dispatcher has
  after these requests; a request without an answer ends the connection with an error. Each channel that
  stays open after its answer has a task that writes the later messages of the channel, and no other channel has one. The
  answers are a subsequence of the bytes the client gets from these writers together, and all of them if the
  subscription tasks write nothing.
\<close>

theorem bridge_serves:
  assumes "serve E C D closed chan bufs s = Some (s', replies, n, alive)"
    and "\<forall>buf \<in> set bufs. length buf < 2 ^ 32"
    and "read_datagram \<lparr>tc_in = rest, tc_out = [], tc_room = 0\<rparr> = None"
    and "length (frames replies) \<le> tc_room st"
    and "\<forall>c. cw_before (w c) = []"
  shows "\<exists>st' spawned e. connection_handler E C D closed True w chan (st\<lparr>tc_in := frames bufs @ rest, tc_out := []\<rparr>) s =
      Some (s', st', spawned, e) \<and>
    tc_out st' = frames replies \<and> spawned = subscription_writes w chan n \<and> (alive \<longleftrightarrow> e = ReadError) \<and>
    (\<forall>wire \<in> interleavings (tc_out st' # spawned).
      subseq (frames replies) wire \<and> (concat spawned = [] \<longrightarrow> wire = frames replies))"
proof -
  have "st\<lparr>tc_in := i, tc_out := []\<rparr> = (st\<lparr>tc_out := []\<rparr>)\<lparr>tc_in := i\<rparr>" for i by simp
  with connection_serves [OF assms(1-3) _ assms(5), of "st\<lparr>tc_out := []\<rparr>"] assms(4) obtain st' e where
    "connection_handler E C D closed True w chan (st\<lparr>tc_in := frames bufs @ rest, tc_out := []\<rparr>) s =
      Some (s', st', subscription_writes w chan n, e)"
    "tc_out st' = frames replies" "alive \<longleftrightarrow> e = ReadError"
    by fastforce
  moreover have "subseq (frames replies) wire \<and> (concat spawned = [] \<longrightarrow> wire = frames replies)"
    if "wire \<in> interleavings (frames replies # spawned)" for wire spawned
    using that interleavings_subseq [OF that] by (auto simp: interleavings_silent)
  ultimately show ?thesis by auto
qed

text \<open>A client that subscribes to events and then asks for the statistics, while an event is published.\<close>

definition bridge_codec :: "'d codec" where
  "bridge_codec =
     \<lparr>cd_multi = (\<lambda>buf. Some (Simple (if buf = [0x91] then Subscribe ''me'' EV_BLOCK else GetCoreStatsRequest))),
      cd_settings = (\<lambda>_. None), cd_ro = None\<rparr>"

definition bridge_world :: "nat \<Rightarrow> chan_world" where
  "bridge_world c = \<lparr>cw_before = [], cw_after = (if c = 0 then [Packed [5]] else []), cw_open = (c = 0), cw_room = 100\<rparr>"

theorem bridge_serves_witness:
  "\<exists>s' st' e. connection_handler demo_env bridge_codec demo_ops (\<lambda>_. False) True bridge_world 0
      \<lparr>tc_in = [0, 0, 0, 1, 0x91, 0, 0, 0, 1, 0x92, 0, 0], tc_out = [], tc_room = 20\<rparr> demo_dispatcher =
      Some (s', st', [[0, 0, 0, 1, 5]], e) \<and> tc_out st' = [0, 0, 0, 7, 2, 3, 50, 53, 53, 1, 0, 0, 0, 0, 0] \<and> e = ReadError \<and>
    (\<forall>wire \<in> interleavings [tc_out st', [0, 0, 0, 1, 5]]. subseq [0, 0, 0, 7, 2, 3, 50, 53, 53, 1, 0, 0, 0, 0, 0] wire)"
proof -
  note eval = message_handler.simps packed_message_handler.simps Let_def MAX_PACK_LEVEL_def bridge_codec_def
    get_stats_handler_def mp_multi_message_def mp_message_def rmp_or_default_def ARRAY_HIGH_NIBBLE_def
  obtain s1 where 1: "message_handler demo_env bridge_codec demo_ops (\<lambda>_. False) 0 (Packed [0x91]) 0 demo_dispatcher =
      Some (s1, Some (Packed [2, 3, 50, 53, 53, 1, 0]))" by (simp add: eval demo_env_def str_bytes_def)
  have 2: "message_handler demo_env bridge_codec demo_ops (\<lambda>_. False) 1 (Packed [0x92]) 0 s1 = Some (s1, Some (Packed []))"
    by (simp add: eval)
  have serve: "serve demo_env bridge_codec demo_ops (\<lambda>_. False) 0 [[0x91], [0x92]] demo_dispatcher = Some (s1, [[2, 3, 50, 53, 53, 1, 0], []], 2, True)"
    by (simp add: 1 2 [simplified])
  have short: "\<forall>buf \<in> set [[0x91 :: u8], [0x92]]. length buf < 2 ^ 32" by simp
  have rest: "read_datagram \<lparr>tc_in = [0, 0], tc_out = [], tc_room = 0\<rparr> = None" by (simp add: read_datagram_def read_exact_def)
  have room: "length (frames [[2 :: u8, 3, 50, 53, 53, 1, 0], []]) \<le> tc_room \<lparr>tc_in = [], tc_out = [], tc_room = 20\<rparr>"
    by (simp add: frame_def u32_to_be_bytes_def)
  have before: "\<forall>c. cw_before (bridge_world c) = []" by (simp add: bridge_world_def)
  from bridge_serves [OF serve short rest room before] obtain st' spawned e where
    run: "connection_handler demo_env bridge_codec demo_ops (\<lambda>_. False) True bridge_world 0
      (\<lparr>tc_in = [], tc_out = [], tc_room = 20\<rparr>\<lparr>tc_in := frames [[0x91], [0x92]] @ [0, 0], tc_out := []\<rparr>) demo_dispatcher =
      Some (s1, st', spawned, e)"
    and out: "tc_out st' = frames [[2, 3, 50, 53, 53, 1, 0], []]" "spawned = subscription_writes bridge_world 0 2"
      "True \<longleftrightarrow> e = ReadError"
    and wires: "\<forall>wire \<in> interleavings (tc_out st' # spawned). subseq (frames [[2, 3, 50, 53, 53, 1, 0], []]) wire \<and>
      (concat spawned = [] \<longrightarrow> wire = frames [[2, 3, 50, 53, 53, 1, 0], []])"
    by (elim exE conjE) (rule that)
  have f: "frames [[2 :: u8, 3, 50, 53, 53, 1, 0], []] = [0, 0, 0, 7, 2, 3, 50, 53, 53, 1, 0, 0, 0, 0, 0]"
    "frames [[0x91 :: u8], [0x92]] @ [0, 0] = [0, 0, 0, 1, 0x91, 0, 0, 0, 1, 0x92, 0, 0]"
    by (simp_all add: frame_def u32_to_be_bytes_def)
  have "subscription_writes bridge_world 0 (Suc (Suc 0)) = [[0, 0, 0, 1, 5]]"
    by (simp add: u32_to_be_bytes_def bridge_world_def write_datagram_def write_all_def)
  then have g: "subscription_writes bridge_world 0 2 = [[0, 0, 0, 1, 5]]" by (simp only: numeral_2_eq_2)
  show ?thesis
    using run [unfolded f] out [unfolded f g] wires [unfolded f] unfolding tcp_stream.simps by blast
qed

text \<open>The writers take no lock. Of an answer and an event, both of one byte, the client may get bytes that read as an
  empty datagram, which nobody wrote.\<close>

lemma torn_datagram:
  "\<exists>wire \<in> interleavings [frame [7], frame [9]].
     read_datagram \<lparr>tc_in = wire, tc_out = [], tc_room = 0\<rparr> =
       Some ([], \<lparr>tc_in = [1, 7, 0, 0, 1, 9], tc_out = [], tc_room = 0\<rparr>)"
proof -
  have "[0, 0, 0, 0, 1, 7, 0, 0, 1, 9] \<in> interleavings [frame [7], frame [9]]"
    by (simp add: frame_def u32_to_be_bytes_def Cons_in_shuffles_iff)
  moreover have "read_datagram \<lparr>tc_in = [0, 0, 0, 0, 1, 7, 0, 0, 1, 9], tc_out = [], tc_room = 0\<rparr> =
      Some ([], \<lparr>tc_in = [1, 7, 0, 0, 1, 9], tc_out = [], tc_room = 0\<rparr>)"
    by (simp add: read_datagram_def read_exact_def u32_from_be_bytes_def)
  ultimately show ?thesis by blast
qed

text \<open>An event that is published between the subscription and its answer is taken for the answer; the answer itself
  is written by the subscription task, or lost if the channel is found closed.\<close>

lemma event_overtakes_answer:
  assumes "message_handler E C D closed chan request 0 s = Some (s1, Some answer)" and "cw_before (w chan) = event # events"
  shows "send_recv E C D closed True w chan request s =
    Some (s1, Inr event,
      if cw_open (w chan)
      then [tc_out (subscription_handler (events @ answer # cw_after (w chan)) \<lparr>tc_in = [], tc_out = [], tc_room = cw_room (w chan)\<rparr>)]
      else [])"
  using assms by (simp add: send_recv_def Let_def)

text \<open>A body of \<open>2 ^ 32\<close> bytes or more is announced with its length modulo \<open>2 ^ 32\<close>, and the receiver takes the rest of it
  for further datagrams.\<close>

lemma long_datagram:
  assumes "2 ^ 32 \<le> length buf" and "length buf < 2 ^ 33"
  shows "read_datagram (st\<lparr>tc_in := frame buf @ rest\<rparr>) =
    Some (take (length buf - 2 ^ 32) buf, st\<lparr>tc_in := drop (length buf - 2 ^ 32) buf @ rest\<rparr>)"
proof -
  have "unat (of_nat (length buf) :: u32) = length buf - 2 ^ 32" using assms
    by (simp add: unat_of_nat mod_if)
  then show ?thesis using assms by (simp add: read_datagram_def read_exact_def frame_def)
qed

text \<open>The state of the service stays in order.\<close>

lemma connection_handler_step:
  "connection_handler E C D closed up w chan st s = Some (s', st', spawned, e) \<Longrightarrow> disp_step D s s'"
proof (induction "length (tc_in st)" arbitrary: chan st s st' spawned rule: less_induct)
  case less
  note run = less.prems [unfolded connection_handler.simps [of E C D closed up w chan st s]]
  show ?case
  proof (cases "read_datagram st")
    case (Some r)
    then obtain buf st1 where read: "read_datagram st = Some (buf, st1)" by (cases r) simp
    note shorter = read_datagram_length [OF read]
    from run read obtain s1 res spawned1 where
      sr: "send_recv E C D closed up w chan (Packed buf) s = Some (s1, res, spawned1)"
      by (auto split: option.splits)
    have s1: "disp_step D s s1"
      using sr handlers_step(1) by (fastforce simp: send_recv_def Let_def split: if_splits option.splits)
    show ?thesis
    proof (cases res)
      case (Inr msg)
      with less.hyps [of "fst (write_reply msg st1)" "Suc chan" s1] run shorter s1 show ?thesis
        by (auto simp: read sr Let_def split: if_splits intro: disp_step_trans)
    qed (use run read sr s1 in simp)
  qed (use run in simp)
qed

text \<open>So do the tasks of all clients, in any order.\<close>

lemma bridge_tasks_step:
  assumes "bridge_run E C D closed up w bound incoming = Some tasks" and "task \<in> set tasks" and "task s = Some (s', st', spawned, e)"
  shows "disp_step D s s'"
  using assms by (auto simp: bridge_run_def map_filter_def split: if_split_asm dest!: connection_handler_step)

end
