(* ===== verification/Rest.thy ===== *)
theory Rest
  imports Dispatching Utf8
begin

text \<open>
  \<^verbatim>\<open>src/rest/worker.rs\<close>: the HTTP interface. A handler turns a request into a message for the blockchain service,
  and the answer into a response. Routing, HTTP and JSON are the tide crate's: a request is its body, if it can be read, and
  the parameter of its path; the decoders of bodies are the record \<open>rest_codec\<close>. An error that a handler passes on with \<open>?\<close> is \<open>Inl\<close>:
  tide answers with a status of its own. \<open>None\<close> is a panic.
\<close>

section \<open>Definitions\<close>

datatype status_code =
    StOk | StBadRequest | StUnauthorized | StNotFound | StConflict | StInternalServerError | StNotImplemented | StImATeapot

datatype mime = ByteStream | PlainText

record http_request =
  rq_body :: "bytes option"
  rq_param :: "string option"

record http_response =
  rs_status :: status_code
  rs_body :: bytes
  rs_mime :: mime

datatype tide_error = BodyError | JsonError | CoreError error

type_synonym 'd reply = "('d dispatcher \<times> (tide_error + http_response)) option"

record read_only_args =
  ra_target :: string
  ra_method :: string
  ra_origin :: string
  ra_max_fuel :: u64
  ra_args :: bytes
  ra_network :: string
  ra_contract :: "hash option"

record rest_codec =
  rc_transaction :: "bytes \<Rightarrow> string + transaction"
  rc_read_only :: "bytes \<Rightarrow> read_only_args option"

text \<open>\<open>From<ErrorKind> for StatusCode\<close>.\<close>

fun status_of_kind :: "error_kind \<Rightarrow> status_code" where
  "status_of_kind MalformedData = StBadRequest"
| "status_of_kind BadNetwork = StNotFound"
| "status_of_kind InvalidSignature = StUnauthorized"
| "status_of_kind DuplicatedUnconfirmedTx = StConflict"
| "status_of_kind DuplicatedConfirmedTx = StConflict"
| "status_of_kind ResourceNotFound = StNotFound"
| "status_of_kind InvalidContract = StInternalServerError"
| "status_of_kind WasmMachineFault = StInternalServerError"
| "status_of_kind DatabaseFault = StInternalServerError"
| "status_of_kind FuelError = StInternalServerError"
| "status_of_kind TooLargeTx = StInternalServerError"
| "status_of_kind SmartContractFault = StBadRequest"
| "status_of_kind NotImplemented = StNotImplemented"
| "status_of_kind Tpm2Error = StInternalServerError"
| "status_of_kind WrongTxType = StConflict"
| "status_of_kind BrokenIntegrity = StUnauthorized"
| "status_of_kind Other = StImATeapot"

definition rest_send_recv ::
    "env \<Rightarrow> 'd codec \<Rightarrow> ('d, 'f) db_ops \<Rightarrow> (nat \<Rightarrow> bool) \<Rightarrow> bool \<Rightarrow> nat \<Rightarrow> message \<Rightarrow> 'd dispatcher \<Rightarrow>
     ('d dispatcher \<times> message result) option" where
  "rest_send_recv E C D closed up chan request s =
     (if \<not> up then Some (s, Inl (error_new_ext Other ''blockchain service seems down''))
      else case message_handler E C D closed chan request 0 s of
             None \<Rightarrow> None
           | Some (s1, None) \<Rightarrow> Some (s1, Inl (error_new_ext Other ''blockchain service seems down''))
           | Some (s1, Some response) \<Rightarrow> Some (s1, Inr response))"

definition tide_result :: "bytes result \<Rightarrow> http_response option" where
  "tide_result result =
     (case result of
        Inr buf \<Rightarrow> Some \<lparr>rs_status = StOk, rs_body = buf, rs_mime = ByteStream\<rparr>
      | Inl err \<Rightarrow>
          map_option (\<lambda>msg. \<lparr>rs_status = status_of_kind (err_kind err), rs_body = str_bytes msg, rs_mime = ByteStream\<rparr>)
            (error_to_string_full err))"

definition unexpected_response :: error where
  "unexpected_response = error_new_ext Other ''unexpected response from block service''"

text \<open>What every handler does with its message: send it, take the answer apart, answer the client.\<close>

definition rest_ask ::
    "env \<Rightarrow> 'd codec \<Rightarrow> ('d, 'f) db_ops \<Rightarrow> (nat \<Rightarrow> bool) \<Rightarrow> bool \<Rightarrow> nat \<Rightarrow> message \<Rightarrow> (message \<Rightarrow> bytes result) \<Rightarrow> 'd dispatcher \<Rightarrow>
     'd reply" where
  "rest_ask E C D closed up chan msg answer s =
     (case rest_send_recv E C D closed up chan msg s of
        None \<Rightarrow> None
      | Some (s1, Inl e) \<Rightarrow> Some (s1, Inl (CoreError e))
      | Some (s1, Inr res) \<Rightarrow> map_option (\<lambda>resp. (s1, Inr resp)) (tide_result (answer res)))"

definition rest_message_handler ::
    "env \<Rightarrow> 'd codec \<Rightarrow> ('d, 'f) db_ops \<Rightarrow> (nat \<Rightarrow> bool) \<Rightarrow> bool \<Rightarrow> nat \<Rightarrow> http_request \<Rightarrow> 'd dispatcher \<Rightarrow> 'd reply" where
  "rest_message_handler E C D closed up chan req s =
     (case rq_body req of
        None \<Rightarrow> Some (s, Inl BodyError)
      | Some body \<Rightarrow>
          rest_ask E C D closed up chan (Packed body)
            (\<lambda>res. case res of Packed buf \<Rightarrow> Inr buf | _ \<Rightarrow> Inl unexpected_response) s)"

definition rest_put_transaction ::
    "env \<Rightarrow> 'd codec \<Rightarrow> ('d, 'f) db_ops \<Rightarrow> rest_codec \<Rightarrow> (nat \<Rightarrow> bool) \<Rightarrow> bool \<Rightarrow> nat \<Rightarrow> http_request \<Rightarrow> 'd dispatcher \<Rightarrow> 'd reply" where
  "rest_put_transaction E C D R closed up chan req s =
     (case rq_body req of
        None \<Rightarrow> Some (s, Inl BodyError)
      | Some body \<Rightarrow>
          (case rc_transaction R body of
             Inl err \<Rightarrow> Some (s, Inl (CoreError (error_new_ext MalformedData err)))
           | Inr tx \<Rightarrow>
               rest_ask E C D closed up chan (PutTransactionRequest True tx)
                 (\<lambda>res. case res of PutTransactionResponse hash \<Rightarrow> Inr (hash_as_bytes hash) | Exception err \<Rightarrow> Inl err
                        | _ \<Rightarrow> Inl unexpected_response) s))"

text \<open>\<open>req.param("0").unwrap_or_default()\<close>, and the hash in it.\<close>

definition param0 :: "http_request \<Rightarrow> string" where
  "param0 req = (case rq_param req of Some p \<Rightarrow> p | None \<Rightarrow> [])"

definition hash_param :: "env \<Rightarrow> http_request \<Rightarrow> hash" where
  "hash_param E req = (case hash_from_hex E (param0 req) of Inr h \<Rightarrow> h | Inl _ \<Rightarrow> hash_default)"

definition rest_get_transaction ::
    "env \<Rightarrow> 'd codec \<Rightarrow> ('d, 'f) db_ops \<Rightarrow> (nat \<Rightarrow> bool) \<Rightarrow> bool \<Rightarrow> nat \<Rightarrow> http_request \<Rightarrow> 'd dispatcher \<Rightarrow> 'd reply" where
  "rest_get_transaction E C D closed up chan req s =
     rest_ask E C D closed up chan (GetTransactionRequest (hash_param E req) None)
       (\<lambda>res. case res of GetTransactionResponse tx _ \<Rightarrow> Inr (e_rmp E (mp_transaction tx)) | Exception err \<Rightarrow> Inl err
              | _ \<Rightarrow> Inl unexpected_response) s"

definition read_only_sync_exec ::
    "env \<Rightarrow> 'd codec \<Rightarrow> ('d, 'f) db_ops \<Rightarrow> rest_codec \<Rightarrow> (nat \<Rightarrow> bool) \<Rightarrow> bool \<Rightarrow> nat \<Rightarrow> http_request \<Rightarrow> 'd dispatcher \<Rightarrow> 'd reply" where
  "read_only_sync_exec E C D R closed up chan req s =
     (case Option.bind (rq_body req) (rc_read_only R) of
        None \<Rightarrow> Some (s, Inl JsonError)
      | Some a \<Rightarrow>
          rest_ask E C D closed up chan
            (ExecReadOnlyTransaction (ra_target a) (ra_method a) (ra_args a) (ra_origin a) (ra_contract a) (ra_max_fuel a)
               (ra_network a))
            (\<lambda>res. case res of GetReceiptResponse rx \<Rightarrow> Inr (e_rmp E (mp_receipt rx)) | Exception err \<Rightarrow> Inl err
                   | _ \<Rightarrow> Inl unexpected_response) s)"

definition rest_get_receipt ::
    "env \<Rightarrow> 'd codec \<Rightarrow> ('d, 'f) db_ops \<Rightarrow> (nat \<Rightarrow> bool) \<Rightarrow> bool \<Rightarrow> nat \<Rightarrow> http_request \<Rightarrow> 'd dispatcher \<Rightarrow> 'd reply" where
  "rest_get_receipt E C D closed up chan req s =
     rest_ask E C D closed up chan (GetReceiptRequest (hash_param E req))
       (\<lambda>res. case res of GetReceiptResponse rx \<Rightarrow> Inr (e_rmp E (mp_receipt rx)) | Exception err \<Rightarrow> Inl err
              | _ \<Rightarrow> Inl unexpected_response) s"

text \<open>\<open>str::parse::<u64>\<close>: an optional plus sign, at least one digit, nothing else, and no overflow.\<close>

fun parse_digits :: "string \<Rightarrow> nat \<Rightarrow> nat option" where
  "parse_digits [] n = Some n"
| "parse_digits (c # cs) n =
     (if 48 \<le> (of_char c :: nat) \<and> (of_char c :: nat) \<le> 57 then parse_digits cs (10 * n + (of_char c - 48)) else None)"

definition parse_u64 :: "string \<Rightarrow> u64 option" where
  "parse_u64 str =
     (let digits = (case str of [] \<Rightarrow> [] | c # cs \<Rightarrow> if c = CHR ''+'' then cs else str)
      in if digits = [] then None
         else case parse_digits digits 0 of
                None \<Rightarrow> None
              | Some n \<Rightarrow> if n < 2 ^ 64 then Some (of_nat n) else None)"

definition rest_get_block ::
    "env \<Rightarrow> 'd codec \<Rightarrow> ('d, 'f) db_ops \<Rightarrow> (nat \<Rightarrow> bool) \<Rightarrow> bool \<Rightarrow> nat \<Rightarrow> http_request \<Rightarrow> 'd dispatcher \<Rightarrow> 'd reply" where
  "rest_get_block E C D closed up chan req s =
     rest_ask E C D closed up chan
       (GetBlockRequest (case parse_u64 (param0 req) of Some height \<Rightarrow> height | None \<Rightarrow> 0) False None)
       (\<lambda>res. case res of GetBlockResponse block _ _ \<Rightarrow> Inr (e_rmp E (mp_block block)) | Exception err \<Rightarrow> Inl err
              | _ \<Rightarrow> Inl unexpected_response) s"

definition rest_get_account ::
    "env \<Rightarrow> 'd codec \<Rightarrow> ('d, 'f) db_ops \<Rightarrow> (nat \<Rightarrow> bool) \<Rightarrow> bool \<Rightarrow> nat \<Rightarrow> http_request \<Rightarrow> 'd dispatcher \<Rightarrow> 'd reply" where
  "rest_get_account E C D closed up chan req s =
     rest_ask E C D closed up chan (GetAccountRequest (param0 req) [])
       (\<lambda>res. case res of GetAccountResponse acc _ \<Rightarrow> Inr (e_rmp E (mp_account acc)) | Exception err \<Rightarrow> Inl err
              | _ \<Rightarrow> Inl unexpected_response) s"

definition rest_get_p2p_id ::
    "env \<Rightarrow> 'd codec \<Rightarrow> ('d, 'f) db_ops \<Rightarrow> (nat \<Rightarrow> bool) \<Rightarrow> bool \<Rightarrow> nat \<Rightarrow> http_request \<Rightarrow> 'd dispatcher \<Rightarrow> 'd reply" where
  "rest_get_p2p_id E C D closed up chan req s =
     (case rest_send_recv E C D closed up chan GetP2pIdRequest s of
        None \<Rightarrow> None
      | Some (s1, Inl e) \<Rightarrow> Some (s1, Inl (CoreError e))
      | Some (s1, Inr res) \<Rightarrow>
          Some (s1, Inr \<lparr>rs_status = StOk,
            rs_body = str_bytes (case res of GetP2pIdResponse i \<Rightarrow> i | _ \<Rightarrow> ''ERR''), rs_mime = PlainText\<rparr>))"

section \<open>Properties\<close>

lemma status_of_kind_not_ok [simp]: "status_of_kind k \<noteq> StOk"
  by (cases k) simp_all

lemma tide_result_ok: "tide_result r = Some resp \<Longrightarrow> rs_status resp = StOk \<Longrightarrow> r = Inr (rs_body resp)"
  by (auto simp: tide_result_def split: sum.splits)

text \<open>A submission that is answered with success.\<close>

lemma rest_put_ok:
  assumes "rest_put_transaction E C D R closed up chan req s = Some (s', Inr resp)" and "rs_status resp = StOk"
  shows "\<exists>body tx h s1. rq_body req = Some body \<and> rc_transaction R body = Inr tx \<and>
    put_transaction_internal E D tx s = (s1, Inr h) \<and> s' = broadcast_attempt E closed tx s1 \<and> rs_body resp = hash_as_bytes h"
proof -
  from assms(1) obtain body tx where b: "rq_body req = Some body" "rc_transaction R body = Inr tx"
    by (auto simp: rest_put_transaction_def split: option.splits sum.splits)
  obtain s1 r where p: "put_transaction_internal E D tx s = (s1, r)" by force
  from assms(1) b have up: "up" by (intro ccontr [of up]) (simp add: rest_put_transaction_def rest_ask_def rest_send_recv_def)
  show ?thesis
  proof (cases r)
    case (Inl e)
    with assms b p up have False
      by (auto simp: rest_put_transaction_def rest_ask_def rest_send_recv_def message_handler.simps
          put_transaction_handler_def tide_result_def)
    then show ?thesis ..
  next
    case (Inr h)
    with assms b p up show ?thesis
      by (auto simp: rest_put_transaction_def rest_ask_def rest_send_recv_def message_handler.simps
          put_transaction_handler_def tide_result_def)
  qed
qed

lemma put_internal_ok:
  assumes "put_transaction_internal E D tx s = (s1, Inr h)"
  shows "h = tx_get_primary_hash E tx \<and> pl_txs (dp_pool s1) h = Some (Some tx) \<and> dp_db s1 = dp_db s \<and>
    \<not> db_contains_transaction D (dp_db s) h"
proof -
  from assms have "admit_transaction E D s tx = Inr h"
    by (auto simp: put_transaction_internal_def Let_def split: sum.splits option.splits if_splits)
  from assms this admit_not_stored [OF this] show ?thesis
    by (auto simp: put_transaction_internal_def Let_def admit_transaction_def try_bind_Inr_iff split: option.splits if_splits)
qed

lemma broadcast_frames [frame_simps]:
  "dp_db (broadcast_attempt E closed tx s) = dp_db s" "dp_pool (broadcast_attempt E closed tx s) = dp_pool s"
  by (simp_all add: broadcast_attempt_def split: prod.split)

text \<open>C26. A transaction submitted over HTTP can be fetched. When a submission is answered with success, a query with the
  answered ticket, in hexadecimal, is answered with the transaction that was submitted, and it changes nothing. That hexadecimal text is
  decoded to the bytes it was made from is what the hex crate documents.
\<close>

theorem rest_submit_then_get:
  assumes "rest_put_transaction E C (rocks_ops E M) R closed up chan req s = Some (s', Inr resp)"
    and "rs_status resp = StOk" and "\<forall>bs. e_unhex E (e_hex E bs) = Some bs"
  shows "\<exists>body tx. rq_body req = Some body \<and> rc_transaction R body = Inr tx \<and>
    rest_get_transaction E C (rocks_ops E M) closed True chan' \<lparr>rq_body = None, rq_param = Some (e_hex E (rs_body resp))\<rparr> s' =
      Some (s', Inr \<lparr>rs_status = StOk, rs_body = e_rmp E (mp_transaction tx), rs_mime = ByteStream\<rparr>)"
proof -
  from rest_put_ok [OF assms(1,2)] obtain body tx h s1 where
    b: "rq_body req = Some body" "rc_transaction R body = Inr tx"
    and p: "put_transaction_internal E (rocks_ops E M) tx s = (s1, Inr h)"
    and s': "s' = broadcast_attempt E closed tx s1" and r: "rs_body resp = hash_as_bytes h" by blast
  note ok = put_internal_ok [OF p]
  then have "wf_hash h" by (simp add: tx_get_primary_hash_def data_hash_def)
  then have "hash_from_bytes (hash_as_bytes h) = Inr h" by (rule wf_hash_cases) (simp add: hash_from_bytes_pack)
  with assms(3) r have "hash_param E \<lparr>rq_body = None, rq_param = Some (e_hex E (rs_body resp))\<rparr> = h"
    by (simp add: hash_param_def param0_def hash_from_hex_def)
  moreover from ok s' have "db_load_transaction (rocks_ops E M) (dp_db s') h = None" "pl_txs (dp_pool s') h = Some (Some tx)"
    by (auto simp: frame_simps rocks_contains_transaction_def)
  ultimately show ?thesis
    using b by (simp add: rest_get_transaction_def rest_ask_def rest_send_recv_def message_handler.simps
        get_transaction_handler_def tide_result_def)
qed

lemma demo_unhex: "e_unhex demo_env (e_hex demo_env bs) = Some bs"
  by (simp add: demo_env_def str_bytes_def comp_def of_char_unat)

definition demo_rest :: rest_codec where
  "demo_rest = \<lparr>rc_transaction = (\<lambda>_. Inr demo_signed_tx), rc_read_only = (\<lambda>_. None)\<rparr>"

theorem rest_submit_then_get_witness:
  "\<exists>s' resp. let C = \<lparr>cd_multi = (\<lambda>_. None), cd_settings = (\<lambda>_. None), cd_ro = None\<rparr>; closed = (\<lambda>_. False) in
     rest_put_transaction demo_env C demo_ops demo_rest closed True 0 \<lparr>rq_body = Some [], rq_param = None\<rparr> demo_dispatcher =
       Some (s', Inr resp) \<and> rs_status resp = StOk \<and>
     rest_get_transaction demo_env C demo_ops closed True 1 \<lparr>rq_body = None, rq_param = Some (e_hex demo_env (rs_body resp))\<rparr> s' =
       Some (s', Inr \<lparr>rs_status = StOk, rs_body = e_rmp demo_env (mp_transaction demo_signed_tx), rs_mime = ByteStream\<rparr>)"
proof -
  let ?C = "\<lparr>cd_multi = (\<lambda>_. None), cd_settings = (\<lambda>_. None), cd_ro = None\<rparr>" and ?closed = "\<lambda>_ :: nat. False"
  let ?put = "put_transaction_internal demo_env demo_ops demo_signed_tx demo_dispatcher"
  let ?resp = "\<lparr>rs_status = StOk, rs_body = hash_as_bytes (tx_get_primary_hash demo_env demo_signed_tx), rs_mime = ByteStream\<rparr>"
  have "put_transaction_handler demo_env demo_ops ?closed demo_signed_tx demo_dispatcher =
      (broadcast_attempt demo_env ?closed demo_signed_tx (fst ?put), PutTransactionResponse (tx_get_primary_hash demo_env demo_signed_tx))"
    by (simp add: put_transaction_handler_def put_transaction_internal_def demo_admit Let_def)
       (simp add: demo_dispatcher_def pool_default_def)
  then have put: "rest_put_transaction demo_env ?C demo_ops demo_rest ?closed True 0 \<lparr>rq_body = Some [], rq_param = None\<rparr> demo_dispatcher =
      Some (broadcast_attempt demo_env ?closed demo_signed_tx (fst ?put), Inr ?resp)"
    by (simp add: rest_put_transaction_def demo_rest_def rest_ask_def rest_send_recv_def message_handler.simps tide_result_def)
  have unhex: "\<forall>bs. e_unhex demo_env (e_hex demo_env bs) = Some bs" by (simp add: demo_unhex)
  have "rs_status ?resp = StOk" by simp
  from rest_submit_then_get [OF put [unfolded demo_ops_def] this unhex, of 1, folded demo_ops_def] put show ?thesis
    unfolding Let_def by (intro exI [of _ ?resp] exI) (simp add: demo_rest_def)
qed

text \<open>A height that is not a number is the height of the first block.\<close>

lemma rest_bad_height:
  assumes "parse_u64 (param0 req) = None" and "parse_u64 (param0 req') = Some 0"
  shows "rest_get_block E C D closed up chan req s = rest_get_block E C D closed up chan req' s"
  using assms by (simp add: rest_get_block_def)

lemma rest_bad_height_example: "parse_u64 ''latest'' = None \<and> parse_u64 ''+0'' = Some 0"
  by (simp add: parse_u64_def)

end
