(* ===== verification/Routes.thy ===== *)
theory Routes
  imports Rest
begin

text \<open>
  The rest of \<^verbatim>\<open>src/rest/worker.rs\<close>: the table of routes that \<open>run\<close> registers with the tide crate, and the handlers that do
  not ask the blockchain service. Matching a path with the patterns is tide's: \<open>rest_serve\<close> gets the pattern it has
  chosen. \<open>node_info\<close> is the JSON text of the node's data and \<open>file\<close> the bootstrap file, if it can be read.
\<close>

section \<open>Definitions\<close>

datatype http_method = Get | Post

datatype endpoint =
    EpMessage | EpSubmit | EpReadOnly | EpAccount | EpTransaction | EpReceipt | EpBlock | EpP2pId | EpBootstrap | EpVisa | EpIndex

text \<open>\<open>From<Error> for Response\<close>.\<close>

definition response_of_error :: "error \<Rightarrow> http_response" where
  "response_of_error err = \<lparr>rs_status = status_of_kind (err_kind err), rs_body = [], rs_mime = ByteStream\<rparr>"

definition rest_get_index :: "string \<Rightarrow> http_response" where
  "rest_get_index version = \<lparr>rs_status = StOk, rs_body = str_bytes (''TRINCI v'' @ version), rs_mime = PlainText\<rparr>"

definition rest_routes :: "(string \<times> http_method \<times> endpoint) list" where
  "rest_routes =
     [(''/api/v1/message'', Post, EpMessage), (''/api/v1/submit'', Post, EpSubmit), (''/api/v1/ro/exec'', Post, EpReadOnly),
      (''/api/v1/account/:0'', Get, EpAccount), (''/api/v1/transaction/:0'', Get, EpTransaction),
      (''/api/v1/receipt/:0'', Get, EpReceipt), (''/api/v1/block/:0'', Get, EpBlock), (''/api/v1/p2p/id'', Get, EpP2pId),
      (''/api/v1/bootstrap'', Get, EpBootstrap), (''/api/v1/visa'', Get, EpVisa), (''/'', Get, EpIndex)]"

text \<open>The inner \<open>None\<close>: tide answers by itself, because nothing is registered or the file cannot be served.\<close>

definition rest_endpoint ::
    "env \<Rightarrow> 'd codec \<Rightarrow> ('d, 'f) db_ops \<Rightarrow> rest_codec \<Rightarrow> string \<Rightarrow> string \<Rightarrow> bytes option \<Rightarrow> (nat \<Rightarrow> bool) \<Rightarrow> bool \<Rightarrow> nat \<Rightarrow>
     endpoint \<Rightarrow> http_request \<Rightarrow> 'd dispatcher \<Rightarrow> ('d dispatcher \<times> (tide_error + http_response) option) option" where
  "rest_endpoint E C D R version node_info file closed up chan ep req s =
     (let asked = map_option (\<lambda>(s1, r). (s1, Some r));
          text = (\<lambda>str. \<lparr>rs_status = StOk, rs_body = str_bytes str, rs_mime = PlainText\<rparr>)
      in case ep of
           EpMessage \<Rightarrow> asked (rest_message_handler E C D closed up chan req s)
         | EpSubmit \<Rightarrow> asked (rest_put_transaction E C D R closed up chan req s)
         | EpReadOnly \<Rightarrow> asked (read_only_sync_exec E C D R closed up chan req s)
         | EpAccount \<Rightarrow> asked (rest_get_account E C D closed up chan req s)
         | EpTransaction \<Rightarrow> asked (rest_get_transaction E C D closed up chan req s)
         | EpReceipt \<Rightarrow> asked (rest_get_receipt E C D closed up chan req s)
         | EpBlock \<Rightarrow> asked (rest_get_block E C D closed up chan req s)
         | EpP2pId \<Rightarrow> asked (rest_get_p2p_id E C D closed up chan req s)
         | EpBootstrap \<Rightarrow> Some (s, map_option (\<lambda>content. Inr \<lparr>rs_status = StOk, rs_body = content, rs_mime = ByteStream\<rparr>) file)
         | EpVisa \<Rightarrow> Some (s, Some (Inr (text node_info)))
         | EpIndex \<Rightarrow> Some (s, Some (Inr (rest_get_index version))))"

definition rest_serve ::
    "env \<Rightarrow> 'd codec \<Rightarrow> ('d, 'f) db_ops \<Rightarrow> rest_codec \<Rightarrow> string \<Rightarrow> string \<Rightarrow> bytes option \<Rightarrow> (nat \<Rightarrow> bool) \<Rightarrow> bool \<Rightarrow> nat \<Rightarrow>
     string \<Rightarrow> http_method \<Rightarrow> http_request \<Rightarrow> 'd dispatcher \<Rightarrow> ('d dispatcher \<times> (tide_error + http_response) option) option" where
  "rest_serve E C D R version node_info file closed up chan pattern meth req s =
     (case List.find (\<lambda>(p, m, _). p = pattern \<and> m = meth) rest_routes of
        Some (_, _, ep) \<Rightarrow> rest_endpoint E C D R version node_info file closed up chan ep req s
      | None \<Rightarrow> Some (s, None))"

section \<open>Properties\<close>


lemma tide_result_total [simp]:
  "\<exists>resp. tide_result (Inr buf) = Some resp"
  "\<exists>resp. tide_result (Inl (error_new k)) = Some resp"
  "\<exists>resp. tide_result (Inl unexpected_response) = Some resp"
  by (simp_all add: tide_result_def error_to_string_full_def error_new_def unexpected_response_def error_new_ext_def
      is_char_boundary_def MAX_ERROR_SOURCE_STRING_LENGTH_def Let_def)



text \<open>Built without the feature for read-only transactions, the service drops the request, and the client is told that
  the service seems down.\<close>

lemma read_only_seems_down:
  assumes "Option.bind (rq_body req) (rc_read_only R) = Some a" and "cd_ro C = None"
  shows "rest_serve E C D R version node_info file closed up chan ''/api/v1/ro/exec'' Post req s =
    Some (s, Some (Inl (CoreError (error_new_ext Other ''blockchain service seems down''))))"
  by (simp add: rest_serve_def rest_routes_def rest_endpoint_def Let_def read_only_sync_exec_def assms rest_ask_def
      rest_send_recv_def message_handler.simps)

text \<open>The patterns are distinct, so that the order of registration does not matter.\<close>

lemma rest_routes_distinct: "distinct (map fst rest_routes)"
  by (simp add: rest_routes_def)

end
