(* ===== verification/P2p.thy ===== *)
theory P2p
  imports Aligner
begin

text \<open>
  \<^verbatim>\<open>src/p2p/behaviour.rs\<close> and \<^verbatim>\<open>src/p2p/worker.rs\<close>: between the peer-to-peer network, which is the libp2p crate's, and
  the blockchain service. The handlers of network events and of the messages the service publishes are functions that
  return what they ask of libp2p, a list of actions, and, for the events, the state of the service after the messages they sent to it.
  Peers are written by their identifier; \<open>is_peer_id\<close> tells which texts \<open>PeerId::from_str\<close> accepts. The decoder of a multi-message is that
  of the dispatcher, \<open>de_msg\<close> is that of a single message. \<open>None\<close> is a panic. The monitor feature is off.
\<close>

section \<open>Definitions\<close>

datatype p2p_action =
    GossipAddExplicitPeer string
  | GossipRemoveExplicitPeer string
  | GossipPublish bytes
  | KadAddAddress string string
  | ReqResAddAddress string string
  | ReqResRemoveAddress string string
  | SendRequest string bytes
  | SendResponse nat bytes
  | IdentifyPush "string list"

datatype identify_event = IdentifyReceived string string "string list" | IdentifyOther
datatype mdns_event = MdnsDiscovered "(string \<times> string) list" | MdnsExpired "(string \<times> string) list"
datatype kad_event = KadClosestPeers "string list" | KadOther
datatype gossip_event = GossipMessage "string option" bytes | GossipOther
datatype reqres_event = ReqResRequest string nat bytes | ReqResResponse bytes | ReqResOther

datatype composed_event =
    Identify identify_event
  | Kademlia kad_event
  | Gossip gossip_event
  | Mdns mdns_event
  | ReqRes reqres_event

text \<open>\<open>read_request\<close> and \<open>read_response\<close>, after the frame has been read by libp2p.\<close>

definition MAX_TRANSMIT_SIZE :: nat where "MAX_TRANSMIT_SIZE = MAX_TRANSACTION_SIZE"

definition read_message :: "bytes \<Rightarrow> bytes option" where
  "read_message vec = (if vec = [] then None else Some vec)"

definition network_name_new :: "string \<Rightarrow> string" where
  "network_name_new nw_name = ''trinci/'' @ nw_name @ ''/1.0.0''"

text \<open>\<open>bc_chan.send_sync\<close> followed by \<open>recv_sync\<close>. The inner \<open>None\<close> is a failure: the service is down, or it dropped the response
  channel. The code puts the message into the channel of the service and blocks on the answer; the worker's loop takes it out later and a
  task of its own handles it. Here the handler runs at once, on the state \<open>s\<close>: the definitions below describe a node in
  which nothing else happens between a request of the network and its answer. What may happen in between is the subject of
  \<open>Concurrent\<close>, where a submission and a received block are cut at their locks.\<close>

definition ask_service ::
    "env \<Rightarrow> 'd codec \<Rightarrow> ('d, 'f) db_ops \<Rightarrow> (nat \<Rightarrow> bool) \<Rightarrow> bool \<Rightarrow> nat \<Rightarrow> message \<Rightarrow> 'd dispatcher \<Rightarrow>
     ('d dispatcher \<times> message option) option" where
  "ask_service E C D closed up chan msg s =
     (if up then message_handler E C D closed chan msg 0 s else Some (s, None))"

fun identify_addresses ::
    "env \<Rightarrow> 'd codec \<Rightarrow> ('d, 'f) db_ops \<Rightarrow> (nat \<Rightarrow> bool) \<Rightarrow> bool \<Rightarrow> nat \<Rightarrow> string \<Rightarrow> string list \<Rightarrow> 'd dispatcher \<Rightarrow>
     ('d dispatcher \<times> p2p_action list) option" where
  "identify_addresses E C D closed up chan peer [] s = Some (s, [])"
| "identify_addresses E C D closed up chan peer (addr # addrs) s =
     (case ask_service E C D closed up chan (GetBlockRequest u64_max False (Some peer)) s of
        None \<Rightarrow> None
      | Some (s1, res) \<Rightarrow>
          map_option
            (\<lambda>(s2, actions).
               (s2, [KadAddAddress peer addr, ReqResAddAddress peer addr] @
                    (case res of
                       Some (GetBlockResponse block txs origin) \<Rightarrow>
                         [SendRequest peer (rmp_or_default E (mp_message (GetBlockResponse block txs origin)))]
                     | _ \<Rightarrow> []) @ actions))
            (identify_addresses E C D closed up (Suc chan) peer addrs s1))"

definition identify_event_handler ::
    "env \<Rightarrow> 'd codec \<Rightarrow> ('d, 'f) db_ops \<Rightarrow> (nat \<Rightarrow> bool) \<Rightarrow> bool \<Rightarrow> nat \<Rightarrow> string \<Rightarrow> identify_event \<Rightarrow> 'd dispatcher \<Rightarrow>
     ('d dispatcher \<times> p2p_action list) option" where
  "identify_event_handler E C D closed up chan network_name event s =
     (case event of
        IdentifyReceived peer protocol_version addrs \<Rightarrow>
          if protocol_version = network_name
          then map_option (\<lambda>(s1, actions). (s1, GossipAddExplicitPeer peer # actions))
                 (identify_addresses E C D closed up chan peer addrs s)
          else Some (s, [])
      | IdentifyOther \<Rightarrow> Some (s, []))"

definition mdsn_event_handler :: "mdns_event \<Rightarrow> p2p_action list" where
  "mdsn_event_handler event =
     (case event of
        MdnsDiscovered nodes \<Rightarrow>
          concat (map (\<lambda>(peer, addr). [GossipAddExplicitPeer peer, ReqResAddAddress peer addr]) nodes)
      | MdnsExpired nodes \<Rightarrow>
          concat (map (\<lambda>(peer, addr). [GossipRemoveExplicitPeer peer, ReqResRemoveAddress peer addr]) nodes))"

definition kad_event_handler :: "kad_event \<Rightarrow> p2p_action list" where
  "kad_event_handler event = (case event of KadClosestPeers peers \<Rightarrow> [IdentifyPush peers] | KadOther \<Rightarrow> [])"

text \<open>The answer to a gossiped request goes to its author, \<open>message.source.unwrap()\<close>.\<close>

definition gossip_event_handler ::
    "env \<Rightarrow> 'd codec \<Rightarrow> ('d, 'f) db_ops \<Rightarrow> (nat \<Rightarrow> bool) \<Rightarrow> bool \<Rightarrow> nat \<Rightarrow> gossip_event \<Rightarrow> 'd dispatcher \<Rightarrow>
     ('d dispatcher \<times> p2p_action list) option" where
  "gossip_event_handler E C D closed up chan event s =
     (case event of
        GossipMessage source data \<Rightarrow>
          (case ask_service E C D closed up chan (Packed data) s of
             None \<Rightarrow> None
           | Some (s1, Some (Packed buf)) \<Rightarrow>
               (case cd_multi C buf of
                  Some (Simple (GetTransactionResponse _ _)) \<Rightarrow> map_option (\<lambda>peer. (s1, [SendRequest peer buf])) source
                | Some (Simple (GetBlockResponse _ _ _)) \<Rightarrow> map_option (\<lambda>peer. (s1, [SendRequest peer buf])) source
                | _ \<Rightarrow> Some (s1, []))
           | Some (s1, _) \<Rightarrow> Some (s1, []))
      | GossipOther \<Rightarrow> Some (s, []))"

text \<open>A request of a peer, answered on \<open>channel\<close>: what the service answers goes back; a proposed block is acknowledged.\<close>

definition reqres_request ::
    "env \<Rightarrow> 'd codec \<Rightarrow> ('d, 'f) db_ops \<Rightarrow> (nat \<Rightarrow> bool) \<Rightarrow> bool \<Rightarrow> nat \<Rightarrow> nat \<Rightarrow> bytes \<Rightarrow> 'd dispatcher \<Rightarrow>
     ('d dispatcher \<times> p2p_action list) option" where
  "reqres_request E C D closed up chan channel buf s =
     (case cd_multi C buf of
        Some (Simple (GetTransactionRequest _ _)) \<Rightarrow>
          map_option
            (\<lambda>(s1, res). (s1, case res of Some (Packed reply) \<Rightarrow> [SendResponse channel reply] | _ \<Rightarrow> []))
            (ask_service E C D closed up chan (Packed buf) s)
      | Some (Simple (GetBlockRequest height txs destination)) \<Rightarrow>
          map_option
            (\<lambda>(s1, res). (s1,
               case res of
                 Some (GetBlockResponse block hashes origin) \<Rightarrow>
                   [SendResponse channel (rmp_or_default E (mp_message (GetBlockResponse block hashes origin)))]
               | _ \<Rightarrow> []))
            (ask_service E C D closed up chan (GetBlockRequest height txs destination) s)
      | Some (Simple (GetBlockResponse _ _ _)) \<Rightarrow>
          map_option
            (\<lambda>(s1, res). (s1, if up then [SendResponse channel (rmp_or_default E (mp_message Ack))] else []))
            (ask_service E C D closed up chan (Packed buf) s)
      | _ \<Rightarrow> Some (s, []))"

text \<open>The response of a peer is handed to the service.\<close>

definition reqres_response ::
    "env \<Rightarrow> 'd codec \<Rightarrow> ('d, 'f) db_ops \<Rightarrow> (nat \<Rightarrow> bool) \<Rightarrow> bool \<Rightarrow> nat \<Rightarrow> bytes \<Rightarrow> 'd dispatcher \<Rightarrow>
     ('d dispatcher \<times> p2p_action list) option" where
  "reqres_response E C D closed up chan buf s =
     (case cd_multi C buf of
        Some (Simple (GetTransactionResponse _ _)) \<Rightarrow>
          map_option (\<lambda>(s1, res). (s1, [])) (ask_service E C D closed up chan (Packed buf) s)
      | Some (Simple (GetBlockResponse _ _ _)) \<Rightarrow>
          map_option (\<lambda>(s1, res). (s1, [])) (ask_service E C D closed up chan (Packed buf) s)
      | _ \<Rightarrow> Some (s, []))"

definition reqres_event_handler ::
    "env \<Rightarrow> 'd codec \<Rightarrow> ('d, 'f) db_ops \<Rightarrow> (nat \<Rightarrow> bool) \<Rightarrow> bool \<Rightarrow> nat \<Rightarrow> reqres_event \<Rightarrow> 'd dispatcher \<Rightarrow>
     ('d dispatcher \<times> p2p_action list) option" where
  "reqres_event_handler E C D closed up chan event s =
     (case event of
        ReqResRequest peer channel buf \<Rightarrow> reqres_request E C D closed up chan channel buf s
      | ReqResResponse buf \<Rightarrow> reqres_response E C D closed up chan buf s
      | ReqResOther \<Rightarrow> Some (s, []))"

lemmas reqres_defs = reqres_event_handler_def reqres_request_def reqres_response_def

definition p2p_event_handler ::
    "env \<Rightarrow> 'd codec \<Rightarrow> ('d, 'f) db_ops \<Rightarrow> (nat \<Rightarrow> bool) \<Rightarrow> bool \<Rightarrow> nat \<Rightarrow> string \<Rightarrow> composed_event \<Rightarrow> 'd dispatcher \<Rightarrow>
     ('d dispatcher \<times> p2p_action list) option" where
  "p2p_event_handler E C D closed up chan network_name event s =
     (case event of
        Identify ev \<Rightarrow> identify_event_handler E C D closed up chan network_name ev s
      | Kademlia ev \<Rightarrow> Some (s, kad_event_handler ev)
      | Gossip ev \<Rightarrow> gossip_event_handler E C D closed up chan ev s
      | Mdns ev \<Rightarrow> Some (s, mdsn_event_handler ev)
      | ReqRes ev \<Rightarrow> reqres_event_handler E C D closed up chan ev s)"

text \<open>A message of the service, published to the subscriber \<open>p2p\<close>: a request with a destination goes to it, one without to all.\<close>

definition route_request :: "env \<Rightarrow> (string \<Rightarrow> bool) \<Rightarrow> message \<Rightarrow> string option \<Rightarrow> p2p_action list option" where
  "route_request E is_peer_id msg destination =
     Option.bind (mp_message msg) (\<lambda>v.
       case destination of
         Some peer \<Rightarrow> if is_peer_id peer then Some [SendRequest peer (e_rmp E v)] else None
       | None \<Rightarrow> Some [GossipPublish (e_rmp E v)])"

definition p2p_forward ::
    "env \<Rightarrow> (bytes \<Rightarrow> message option) \<Rightarrow> (string \<Rightarrow> bool) \<Rightarrow> message \<Rightarrow> p2p_action list option" where
  "p2p_forward E de_msg is_peer_id published =
     (case published of
        Packed buf \<Rightarrow>
          (case de_msg buf of
             None \<Rightarrow> None
           | Some (GetBlockRequest height txs destination) \<Rightarrow>
               route_request E is_peer_id (GetBlockRequest height txs destination) destination
           | Some (GetTransactionRequest hash destination) \<Rightarrow>
               route_request E is_peer_id (GetTransactionRequest hash destination) destination
           | Some (GetTransactionResponse tx origin) \<Rightarrow>
               if origin = None
               then map_option (\<lambda>v. [GossipPublish (e_rmp E v)]) (mp_message (GetTransactionResponse tx origin))
               else Some []
           | Some (GetBlockResponse block txs origin) \<Rightarrow>
               if origin = None
               then map_option (\<lambda>v. [GossipPublish (e_rmp E v)]) (mp_message (GetBlockResponse block txs origin))
               else Some []
           | Some _ \<Rightarrow> Some [])
      | _ \<Rightarrow> Some [])"

section \<open>Properties\<close>

text \<open>The bytes of a message on the wire, and that a message is understood: it is decoded to itself, and its encoding starts
  as that of a short array.\<close>

definition wire :: "env \<Rightarrow> message \<Rightarrow> bytes" where
  "wire E m = rmp_or_default E (mp_message m)"

definition wire_ok :: "env \<Rightarrow> 'd codec \<Rightarrow> message \<Rightarrow> bool" where
  "wire_ok E C m \<longleftrightarrow> cd_multi C (wire E m) = Some (Simple m) \<and>
     (case wire E m of [] \<Rightarrow> 0 | b # _ \<Rightarrow> b) AND ARRAY_HIGH_NIBBLE = ARRAY_HIGH_NIBBLE"

lemma packed_wire:
  assumes "wire_ok E C m"
  shows "message_handler E C D closed chan (Packed (wire E m)) 0 s =
    map_option (\<lambda>(s', res). (s', map_option (\<lambda>r. Packed (rmp_or_default E (mp_multi_message (Simple r)))) res))
      (message_handler E C D closed chan m 1 s)"
  using assms
  by (simp add: wire_ok_def message_handler.simps [of E C D closed chan "Packed (wire E m)"]
      packed_message_handler.simps [of E C D closed chan "wire E m"] Let_def MAX_PACK_LEVEL_def split: option.split)

text \<open>The block the other node has, and how it answers.\<close>

lemma serves_block:
  assumes "wire_ok E C (GetBlockRequest height True dest)" and "db_load_block D (dp_db s) height = Some block"
  shows "reqres_event_handler E C D closed True chan (ReqResRequest peer ch (wire E (GetBlockRequest height True dest))) s =
    Some (s, [SendResponse ch (wire E (GetBlockResponse block
      (db_load_transactions_hashes D (dp_db s) (bd_height (blk_data block))) (Some (dp_p2p_id s))))])"
  using assms
  by (simp add: reqres_defs wire_ok_def ask_service_def message_handler.simps get_block_handler_def wire_def)

text \<open>A misaligned node hands the block to its aligner.\<close>

lemma receives_block:
  assumes "wire_ok E C (GetBlockResponse block txs origin)" and "\<not> dp_aligned s"
    and "missing_start D (dp_db s) \<le> bd_height (blk_data block)"
  shows "reqres_event_handler E C D closed True chan (ReqResResponse (wire E (GetBlockResponse block txs origin))) s =
    Some (s\<lparr>dp_aligner := dp_aligner s @ [GetBlockResponse block txs origin]\<rparr>, [])"
  using assms packed_wire [OF assms(1), of D closed chan s]
  by (simp add: reqres_defs wire_ok_def ask_service_def message_handler.simps [of _ _ _ _ _ "GetBlockResponse block txs origin"]
      get_block_res_handler_def Let_def)

text \<open>C23. Two nodes exchange a block. The aligner's request for a block to a peer, as published by the service of a misaligned node
  \<open>a\<close>, is sent to that peer; the peer \<open>b\<close> answers with its block at that height, with the hashes of its transactions and under
  its own name, and stays as it is; and the answer ends in the channel of the aligner of \<open>a\<close>, with nothing else of \<open>a\<close> changed. Assumed is that the two
  messages are decoded as they were encoded.
\<close>

theorem p2p_block_exchange:
  assumes "\<not> dp_aligned a" and "is_peer_id peer"
    and "db_load_block D (dp_db b) height = Some block"
    and "missing_start D (dp_db a) \<le> bd_height (blk_data block)"
    and "request = GetBlockRequest height True (Some peer)"
    and "response = GetBlockResponse block (db_load_transactions_hashes D (dp_db b) (bd_height (blk_data block)))
      (Some (dp_p2p_id b))"
    and "de_msg (wire E request) = Some request" and "wire_ok E C request" and "wire_ok E C response"
  shows "p2p_forward E de_msg is_peer_id (Packed (wire E request)) = Some [SendRequest peer (wire E request)] \<and>
    reqres_event_handler E C D closed True chan (ReqResRequest from ch (wire E request)) b =
      Some (b, [SendResponse ch (wire E response)]) \<and>
    reqres_event_handler E C D closed True chan' (ReqResResponse (wire E response)) a =
      Some (a\<lparr>dp_aligner := dp_aligner a @ [response]\<rparr>, [])"
proof -
  have "p2p_forward E de_msg is_peer_id (Packed (wire E request)) = Some [SendRequest peer (wire E request)]"
    using assms(2,7) unfolding assms(5)
    by (simp add: p2p_forward_def route_request_def) (simp add: wire_def rmp_or_default_def mp_message_def)
  with serves_block [of E C height "Some peer" D b block closed chan "from" ch] receives_block [of E C block _ _ a D closed chan'] assms
  show ?thesis by simp
qed

definition array_env :: env where
  "array_env = demo_env\<lparr>e_rmp := (\<lambda>v. 0x94 # demo_rmp v)\<rparr>"

definition peer_dispatcher :: "store rocks_db dispatcher" where
  "peer_dispatcher = demo_dispatcher\<lparr>dp_db := rocks_new mem_merkledb (store_empty\<lparr>st_blocks := [demo_block]\<rparr>), dp_p2p_id := ''b''\<rparr>"

abbreviation demo_request :: message where
  "demo_request \<equiv> GetBlockRequest 0 True (Some ''b'')"

abbreviation demo_response :: message where
  "demo_response \<equiv> GetBlockResponse demo_block None (Some ''b'')"

definition array_codec :: "'d codec" where
  "array_codec =
     \<lparr>cd_multi = (\<lambda>buf. Some (Simple (if buf = wire array_env demo_request then demo_request else demo_response))),
      cd_settings = (\<lambda>_. None), cd_ro = None\<rparr>"

theorem p2p_block_exchange_witness:
  "p2p_forward array_env (\<lambda>_. Some demo_request) (\<lambda>p. p \<noteq> []) (Packed (wire array_env demo_request)) =
     Some [SendRequest ''b'' (wire array_env demo_request)] \<and>
   reqres_event_handler array_env array_codec demo_ops (\<lambda>_. False) True 0
     (ReqResRequest ''a'' 5 (wire array_env demo_request)) peer_dispatcher =
     Some (peer_dispatcher, [SendResponse 5 (wire array_env demo_response)]) \<and>
   reqres_event_handler array_env array_codec demo_ops (\<lambda>_. False) True 1 (ReqResResponse (wire array_env demo_response))
     (demo_dispatcher\<lparr>dp_aligned := False\<rparr>) =
     Some (demo_dispatcher\<lparr>dp_aligned := False, dp_aligner := [demo_response]\<rparr>, [])"
proof -
  have ne: "wire array_env demo_response \<noteq> wire array_env demo_request"
    by (simp add: wire_def array_env_def rmp_or_default_def mp_message_def str_bytes_def)
  have ok: "wire_ok array_env array_codec demo_request" "wire_ok array_env array_codec demo_response"
    using ne by (simp_all add: wire_ok_def array_codec_def)
      (simp_all add: wire_def array_env_def rmp_or_default_def mp_message_def ARRAY_HIGH_NIBBLE_def)
  have load: "db_load_block demo_ops (dp_db peer_dispatcher) 0 = Some demo_block"
    and hashes: "db_load_transactions_hashes demo_ops (dp_db peer_dispatcher) (bd_height (blk_data demo_block)) = None"
    by (simp_all add: demo_ops_def peer_dispatcher_def rocks_new_def mem_merkledb_def rocks_load_block_def st_load_block_def
        rocks_load_transactions_hashes_def st_load_transactions_hashes_def store_empty_def u64_max_def)
  have start: "missing_start demo_ops (dp_db (demo_dispatcher\<lparr>dp_aligned := False\<rparr>)) \<le> bd_height (blk_data demo_block)"
    by (simp add: missing_start_def demo_ops_def demo_dispatcher_def rocks_new_def mem_merkledb_def rocks_load_block_def
        st_load_block_def store_empty_def)
  have resp: "demo_response = GetBlockResponse demo_block
      (db_load_transactions_hashes demo_ops (dp_db peer_dispatcher) (bd_height (blk_data demo_block))) (Some (dp_p2p_id peer_dispatcher))"
    unfolding hashes by (simp add: peer_dispatcher_def)
  have misaligned: "\<not> dp_aligned (demo_dispatcher\<lparr>dp_aligned := False\<rparr>)" and b: "''b'' \<noteq> []" by simp_all
  from p2p_block_exchange [where is_peer_id = "\<lambda>p. p \<noteq> []" and de_msg = "\<lambda>_. Some demo_request",
      OF misaligned b load start refl resp refl ok, of "\<lambda>_. False" 0 "''a''" 5 1]
  show ?thesis by (simp add: demo_dispatcher_def)
qed

text \<open>No event of the network breaks the pool or touches the database.\<close>

lemma ask_service_step: "ask_service E C D closed up chan msg s = Some (s', r) \<Longrightarrow> disp_step D s s'"
  by (auto simp: ask_service_def handlers_step(1) split: if_splits)

lemma identify_addresses_step:
  "identify_addresses E C D closed up chan peer addrs s = Some (s', actions) \<Longrightarrow> disp_step D s s'"
proof (induction addrs arbitrary: chan s actions)
  case (Cons addr addrs)
  then obtain s1 r actions' where "ask_service E C D closed up chan (GetBlockRequest u64_max False (Some peer)) s = Some (s1, r)"
    "identify_addresses E C D closed up (Suc chan) peer addrs s1 = Some (s', actions')"
    by (auto split: option.splits)
  with Cons.IH ask_service_step disp_step_trans show ?case by blast
qed simp

lemma asked_step:
  "map_option (\<lambda>(s1, res). (s1, f res)) (ask_service E C D closed up chan msg s) = Some (s', actions) \<Longrightarrow> disp_step D s s'"
  using ask_service_step by fastforce

lemma reqres_step:
  assumes "reqres_event_handler E C D closed up chan ev s = Some (s', actions)"
  shows "disp_step D s s'"
proof (cases ev)
  case (ReqResRequest peer ch buf)
  show ?thesis
  proof (cases "cd_multi C buf")
    case (Some mm)
    show ?thesis
    proof (cases mm)
      case (Simple msg)
      with assms ReqResRequest Some show ?thesis
        by (cases msg) (simp_all add: reqres_defs asked_step, auto intro: ask_service_step)
    qed (use assms ReqResRequest Some in \<open>simp add: reqres_defs\<close>)
  qed (use assms ReqResRequest in \<open>simp add: reqres_defs\<close>)
next
  case (ReqResResponse buf)
  show ?thesis
  proof (cases "cd_multi C buf")
    case (Some mm)
    show ?thesis
    proof (cases mm)
      case (Simple msg)
      with assms ReqResResponse Some show ?thesis
        by (cases msg) (simp_all add: reqres_defs, auto intro: ask_service_step)
    qed (use assms ReqResResponse Some in \<open>simp add: reqres_defs\<close>)
  qed (use assms ReqResResponse in \<open>simp add: reqres_defs\<close>)
qed (use assms in \<open>simp add: reqres_defs\<close>)

lemma gossip_step:
  assumes "gossip_event_handler E C D closed up chan ev s = Some (s', actions)"
  shows "disp_step D s s'"
proof (cases ev)
  case (GossipMessage source data)
  show ?thesis
  proof (cases "ask_service E C D closed up chan (Packed data) s")
    case (Some r)
    then obtain s1 res where asked: "ask_service E C D closed up chan (Packed data) s = Some (s1, res)" by (cases r) simp
    have "s' = s1"
      using assms
      by (auto simp: gossip_event_handler_def GossipMessage asked
          split: option.splits message.splits multi_message.splits)
    with ask_service_step [OF asked] show ?thesis by simp
  qed (use assms GossipMessage in \<open>simp add: gossip_event_handler_def\<close>)
qed (use assms in \<open>simp add: gossip_event_handler_def\<close>)

lemma p2p_event_step:
  assumes "p2p_event_handler E C D closed up chan nw event s = Some (s', actions)"
  shows "disp_step D s s'"
proof (cases event)
  case (Identify ev)
  with assms show ?thesis
    by (auto simp: p2p_event_handler_def identify_event_handler_def dest!: identify_addresses_step
        split: identify_event.splits if_splits)
qed (use assms gossip_step reqres_step in \<open>auto simp: p2p_event_handler_def\<close>)

text \<open>The destination of a request is the origin that the peer wrote into its own proposal. If that is no identifier, the
  request makes the worker panic.\<close>

lemma forged_origin_panics:
  assumes "collect_peer E (GetBlockResponse block None (Some origin)) [] = trusted" and "\<not> is_peer_id origin"
    and "choose_peer r (al\<lparr>al_trusted_peers := trusted\<rparr>) = Some peer"
    and "de_msg (wire E (GetBlockRequest height True (Some peer))) = Some (GetBlockRequest height True (Some peer))"
  shows "p2p_forward E de_msg is_peer_id (Packed (wire E (GetBlockRequest height True (Some peer)))) = None"
proof -
  from assms(1,3) have "peer = origin" by (auto simp: collect_peer_def choose_peer_def Let_def)
  with assms(2,4) show ?thesis by (simp add: p2p_forward_def route_request_def mp_message_def)
qed

end
