(* ===== verification/P2pWorker.thy ===== *)
theory P2pWorker
  imports P2p "HOL-Library.Monad_Syntax"
begin

text \<open>
  The rest of \<^verbatim>\<open>src/p2p/behaviour.rs\<close> and \<^verbatim>\<open>src/p2p/worker.rs\<close>: the codec of unicast messages, making the
  behaviour, starting the worker, and its polling loops. libp2p is the argument \<open>P\<close>: how it frames bytes,
  which texts it accepts as identifiers and addresses, and whether its constructors succeed.
\<close>

section \<open>libp2p\<close>

record libp2p =
  lp_frame :: "bytes \<Rightarrow> bytes"                                  \<comment> \<open>what \<open>write_length_prefixed\<close> writes\<close>
  lp_read :: "bytes \<Rightarrow> nat \<Rightarrow> string + bytes"                  \<comment> \<open>\<open>read_length_prefixed\<close>\<close>
  lp_peer_id :: "string \<Rightarrow> string + string"                    \<comment> \<open>\<open>PeerId::from_str\<close>\<close>
  lp_multiaddr :: "string \<Rightarrow> string + string"                  \<comment> \<open>\<open>Multiaddr::from_str\<close>\<close>
  lp_mdns :: "string + unit"                                     \<comment> \<open>\<open>Mdns::new\<close>\<close>
  lp_gossip_config :: "nat \<Rightarrow> string + unit"                   \<comment> \<open>\<open>GossipsubConfigBuilder::build\<close>\<close>
  lp_gossip :: "string + unit"                                   \<comment> \<open>\<open>Gossipsub::new\<close>\<close>
  lp_subscribe :: "string \<Rightarrow> string + unit"                    \<comment> \<open>\<open>Gossipsub::subscribe\<close>\<close>
  lp_keypair_decode :: "bytes \<Rightarrow> string option"                \<comment> \<open>\<open>ed25519::Keypair::decode\<close>, to its peer\<close>
  lp_random_peer :: string                                       \<comment> \<open>\<open>Keypair::generate_ed25519\<close>, its peer\<close>

section \<open>The codec\<close>

definition TRINCI_PROTOCOL :: string where "TRINCI_PROTOCOL = ''/trinci/1''"

text \<open>A stream: what was written, whether it was closed, and whether writing and closing succeed.\<close>

record io_stream =
  io_written :: bytes
  io_closed :: bool
  io_write_error :: "string option"
  io_close_error :: "string option"

definition read_unicast :: "libp2p \<Rightarrow> bytes \<Rightarrow> string + bytes" where
  "read_unicast P io =
     (case lp_read P io MAX_TRANSMIT_SIZE of
        Inl err \<Rightarrow> Inl err
      | Inr vec \<Rightarrow> (case read_message vec of None \<Rightarrow> Inl ''unexpected end of file'' | Some v \<Rightarrow> Inr v))"

definition write_unicast :: "libp2p \<Rightarrow> bytes \<Rightarrow> io_stream \<Rightarrow> io_stream \<times> (string + unit)" where
  "write_unicast P data io =
     (case io_write_error io of
        Some err \<Rightarrow> (io, Inl err)
      | None \<Rightarrow>
          (let io1 = io\<lparr>io_written := io_written io @ lp_frame P data\<rparr>
           in case io_close_error io1 of
                Some err \<Rightarrow> (io1, Inl err)
              | None \<Rightarrow> (io1\<lparr>io_closed := True\<rparr>, Inr ())))"

section \<open>Making the behaviour\<close>

text \<open>\<open>str::split_once\<close>.\<close>

fun split_once :: "char \<Rightarrow> string \<Rightarrow> (string \<times> string) option" where
  "split_once c [] = None"
| "split_once c (x # xs) = (if x = c then Some ([], xs) else map_option (apfst (Cons x)) (split_once c xs))"

datatype kad_call = KadBootAddress string string | KadGetClosestPeers string

definition identify_protocol :: "string \<Rightarrow> string" where
  "identify_protocol nw_name = ''trinci/'' @ nw_name @ ''/1.0.0''"

definition mdns_new :: "libp2p \<Rightarrow> unit result" where
  "mdns_new P = (case lp_mdns P of Inl err \<Rightarrow> Inl (error_new_ext Other err) | Inr _ \<Rightarrow> Inr ())"

definition kad_new :: "libp2p \<Rightarrow> string option \<Rightarrow> kad_call list result" where
  "kad_new P bootaddr =
     (case bootaddr of
        None \<Rightarrow> Inr []
      | Some text \<Rightarrow>
          (case split_once CHR ''@'' text of
             None \<Rightarrow> Inl (error_new_ext MalformedData ''address format should be <peer@multiaddr>'')
           | Some (boot_peer, boot_addr) \<Rightarrow>
               (case lp_peer_id P boot_peer of
                  Inl err \<Rightarrow> Inl (error_new_ext MalformedData err)
                | Inr peer \<Rightarrow>
                    (case lp_multiaddr P boot_addr of
                       Inl err \<Rightarrow> Inl (error_new_ext MalformedData err)
                     | Inr addr \<Rightarrow> Inr [KadBootAddress peer addr, KadGetClosestPeers (lp_random_peer P)]))))"

definition gossip_new :: "libp2p \<Rightarrow> string \<Rightarrow> unit result" where
  "gossip_new P topic =
     (case lp_gossip_config P MAX_TRANSMIT_SIZE of
        Inl err \<Rightarrow> Inl (error_new_ext Other err)
      | Inr _ \<Rightarrow>
          (case lp_gossip P of
             Inl err \<Rightarrow> Inl (error_new_ext Other err)
           | Inr _ \<Rightarrow> (case lp_subscribe P topic of Inl err \<Rightarrow> Inl (error_new_ext Other err) | Inr _ \<Rightarrow> Inr ())))"

record behavior =
  bh_identify :: string
  bh_topic :: string
  bh_kad :: "kad_call list"
  bh_network_name :: string
  bh_peer_id :: string

definition behavior_new :: "libp2p \<Rightarrow> string \<Rightarrow> string \<Rightarrow> string \<Rightarrow> string option \<Rightarrow> behavior result" where
  "behavior_new P peer_id topic nw_name bootaddr =
     try_bind (gossip_new P topic) (\<lambda>_.
     try_bind (mdns_new P) (\<lambda>_.
     try_bind (kad_new P bootaddr) (\<lambda>kad.
       Inr \<lparr>bh_identify = identify_protocol nw_name, bh_topic = topic, bh_kad = kad,
            bh_network_name = network_name_new nw_name, bh_peer_id = peer_id\<rparr>)))"

section \<open>Starting\<close>

definition NODE_TOPIC :: string where "NODE_TOPIC = ''node''"

record peer_config =
  pc_addr :: string
  pc_port :: u16
  pc_network :: string
  pc_bootstrap_addr :: "string option"
  pc_p2p_keypair :: "bytes option"
  pc_active :: bool

definition listen_addr :: "peer_config \<Rightarrow> string" where
  "listen_addr cfg = ''/ip4/'' @ pc_addr cfg @ ''/tcp/'' @ decimal (unat (pc_port cfg))"

definition p2p_subscription :: message where
  "p2p_subscription = Subscribe ''p2p'' (EV_BLOCK OR EV_TRANSACTION OR EV_GOSSIP_REQUEST OR EV_UNICAST_REQUEST)"

text \<open>Up to the event loop. The outer \<open>None\<close> is a panic; the inner one the return when the channel of the service is
  closed. Failing to listen is only logged.\<close>

definition p2p_start ::
    "env \<Rightarrow> libp2p \<Rightarrow> bool \<Rightarrow> peer_config \<Rightarrow> (message \<times> behavior \<times> string) option option" where
  "p2p_start E P up cfg =
     (case (case pc_p2p_keypair cfg of Some bs \<Rightarrow> lp_keypair_decode P bs | None \<Rightarrow> Some (lp_random_peer P)) of
        None \<Rightarrow> None
      | Some peer_id \<Rightarrow>
          (case mp_message p2p_subscription of
             None \<Rightarrow> None
           | Some v \<Rightarrow>
               if \<not> up then Some None
               else (case behavior_new P peer_id NODE_TOPIC (pc_network cfg) (pc_bootstrap_addr cfg) of
                       Inl _ \<Rightarrow> None
                     | Inr b \<Rightarrow>
                         (case lp_multiaddr P (listen_addr cfg) of
                            Inl _ \<Rightarrow> None
                          | Inr addr \<Rightarrow> Some (Some (Packed (e_rmp E v), b, addr))))))"

section \<open>The event loop\<close>

text \<open>One poll: first what the service has published, then what the network has, each until nothing is ready.
  The flags say that a stream has ended, which ends the worker (\<open>True\<close> in the results).\<close>

fun poll_messages ::
    "env \<Rightarrow> (bytes \<Rightarrow> message option) \<Rightarrow> (string \<Rightarrow> bool) \<Rightarrow> message list \<Rightarrow> bool \<Rightarrow> (p2p_action list \<times> bool) option" where
  "poll_messages E de_msg is_peer_id [] ended = Some ([], ended)"
| "poll_messages E de_msg is_peer_id (msg # msgs) ended = do {
     actions \<leftarrow> p2p_forward E de_msg is_peer_id msg;
     (rest, exit) \<leftarrow> poll_messages E de_msg is_peer_id msgs ended;
     Some (actions @ rest, exit)
   }"

text \<open>An event of the swarm other than one of the behaviour is ignored (\<open>None\<close> in the list). Every event handled
  may use response channels from \<open>chan\<close> on.\<close>

fun poll_events ::
    "env \<Rightarrow> 'd codec \<Rightarrow> ('d, 'f) db_ops \<Rightarrow> (nat \<Rightarrow> bool) \<Rightarrow> bool \<Rightarrow> (nat \<Rightarrow> nat) \<Rightarrow> string \<Rightarrow> composed_event option list \<Rightarrow>
     bool \<Rightarrow> 'd dispatcher \<Rightarrow> ('d dispatcher \<times> p2p_action list \<times> bool) option" where
  "poll_events E C D closed up chan network_name [] ended s = Some (s, [], ended)"
| "poll_events E C D closed up chan network_name (event # events) ended s = do {
     (s1, actions) \<leftarrow>
       (case event of
          None \<Rightarrow> Some (s, [])
        | Some ev \<Rightarrow> p2p_event_handler E C D closed up (chan (length events)) network_name ev s);
     (s2, rest, exit) \<leftarrow> poll_events E C D closed up chan network_name events ended s1;
     Some (s2, actions @ rest, exit)
   }"

definition p2p_poll ::
    "env \<Rightarrow> 'd codec \<Rightarrow> ('d, 'f) db_ops \<Rightarrow> (bytes \<Rightarrow> message option) \<Rightarrow> (string \<Rightarrow> bool) \<Rightarrow> (nat \<Rightarrow> bool) \<Rightarrow> bool \<Rightarrow> (nat \<Rightarrow> nat) \<Rightarrow>
     string \<Rightarrow> message list \<Rightarrow> bool \<Rightarrow> composed_event option list \<Rightarrow> bool \<Rightarrow> 'd dispatcher \<Rightarrow>
     ('d dispatcher \<times> p2p_action list \<times> bool) option" where
  "p2p_poll E C D de_msg is_peer_id closed up chan network_name msgs ended events swarm_ended s = do {
     (actions, exit) \<leftarrow> poll_messages E de_msg is_peer_id msgs ended;
     (if exit then Some (s, actions, True)
      else do {
        (s', rest, exit') \<leftarrow> poll_events E C D closed up chan network_name events swarm_ended s;
        Some (s', actions @ rest, exit')
      })
   }"

section \<open>Properties\<close>

lemma poll_events_step:
  "poll_events E C D closed up chan nw events ended s = Some (s', actions, exit) \<Longrightarrow> disp_step D s s'"
proof (induction events arbitrary: s actions)
  case (Cons event events)
  then obtain s1 a1 rest where ev: "(case event of None \<Rightarrow> Some (s, [])
      | Some ev \<Rightarrow> p2p_event_handler E C D closed up (chan (length events)) nw ev s) = Some (s1, a1)"
    and "poll_events E C D closed up chan nw events ended s1 = Some (s', rest, exit)"
    by (auto simp: bind_eq_Some_conv)
  moreover from ev have "disp_step D s s1" by (auto intro: p2p_event_step split: option.splits)
  ultimately show ?case using Cons.IH disp_step_trans by blast
qed simp

text \<open>A poll of the worker whose requests are handled at once, one after the other, with nothing in between: the database and
  the configuration of the node stay as they are and the invariant of the pool is kept. (With other tasks in between, a copy of a
  transaction may be admitted while it is stored: theory \<open>Races\<close>.)
\<close>

lemma network_events_keep_node:
  assumes "p2p_poll E C D de_msg is_peer_id closed up chan nw msgs ended events swarm_ended s = Some (s', actions, exit)"
    and "pool_inv (db_contains_transaction D (dp_db s)) (dp_pool s)"
  shows "dp_db s' = dp_db s \<and> dp_config s' = dp_config s \<and>
    pool_inv (db_contains_transaction D (dp_db s')) (dp_pool s')"
proof -
  have "disp_step D s s'"
    using assms(1) poll_events_step [of E C D closed up chan nw events swarm_ended s s']
    by (auto simp: p2p_poll_def bind_eq_Some_conv split: if_splits)
  with assms(2) show ?thesis by (simp add: disp_step_def)
qed

lemma network_events_keep_node_example:
  "\<exists>s' actions. p2p_poll array_env array_codec demo_ops (\<lambda>_. Some demo_request) (\<lambda>p. p \<noteq> []) (\<lambda>_. False) True (\<lambda>n. n) ''nw''
     [Packed (wire array_env demo_request)] False
     [Some (ReqRes (ReqResResponse (wire array_env demo_response))), None] False (demo_dispatcher\<lparr>dp_aligned := False\<rparr>) =
       Some (s', actions, False) \<and>
   dp_aligner s' = [demo_response] \<and> pool_inv (db_contains_transaction demo_ops (dp_db s')) (dp_pool s')"
proof -
  let ?s = "demo_dispatcher\<lparr>dp_aligned := False\<rparr>"
  have ne: "wire array_env demo_response \<noteq> wire array_env demo_request"
    by (simp add: wire_def array_env_def rmp_or_default_def mp_message_def str_bytes_def)
  have ok: "wire_ok array_env array_codec demo_response"
    using ne by (simp add: wire_ok_def array_codec_def)
      (simp add: wire_def array_env_def rmp_or_default_def mp_message_def ARRAY_HIGH_NIBBLE_def)
  have start: "missing_start demo_ops (dp_db ?s) \<le> bd_height (blk_data demo_block)"
    by (simp add: missing_start_def demo_ops_def demo_dispatcher_def rocks_new_def mem_merkledb_def rocks_load_block_def
        st_load_block_def store_empty_def)
  have r: "p2p_event_handler array_env array_codec demo_ops (\<lambda>_. False) True ch ''nw''
      (ReqRes (ReqResResponse (wire array_env demo_response))) ?s = Some (?s\<lparr>dp_aligner := [demo_response]\<rparr>, [])" for ch
    using receives_block [OF ok _ start, of "\<lambda>_. False" ch] by (simp add: p2p_event_handler_def demo_dispatcher_def)
  have f: "p2p_forward array_env (\<lambda>_. Some demo_request) (\<lambda>p. p \<noteq> []) (Packed (wire array_env demo_request)) =
      Some [SendRequest ''b'' (e_rmp array_env (the (mp_message demo_request)))]"
    by (simp add: p2p_forward_def route_request_def mp_message_def)
  have p: "p2p_poll array_env array_codec demo_ops (\<lambda>_. Some demo_request) (\<lambda>p. p \<noteq> []) (\<lambda>_. False) True (\<lambda>n. n) ''nw''
     [Packed (wire array_env demo_request)] False
     [Some (ReqRes (ReqResResponse (wire array_env demo_response))), None] False ?s =
       Some (?s\<lparr>dp_aligner := [demo_response]\<rparr>, [SendRequest ''b'' (e_rmp array_env (the (mp_message demo_request)))], False)"
    by (simp add: p2p_poll_def r f)
  have "pool_inv (db_contains_transaction demo_ops (dp_db ?s)) (dp_pool ?s)"
    by (simp add: demo_dispatcher_def pool_inv_default)
  from network_events_keep_node [OF p this] p show ?thesis by auto
qed

text \<open>libp2p's framing: what was framed is read back, unless it is longer than the reader allows.\<close>

locale framing =
  fixes P :: libp2p and too_long :: string
  assumes framed: "lp_read P (lp_frame P d) n = (if length d \<le> n then Inr d else Inl too_long)"
begin

lemma unicast_read:
  "read_unicast P (lp_frame P d) =
     (if length d > MAX_TRANSMIT_SIZE then Inl too_long else if d = [] then Inl ''unexpected end of file'' else Inr d)"
  by (simp add: read_unicast_def framed read_message_def)

end

definition demo_libp2p :: libp2p where
  "demo_libp2p =
     \<lparr>lp_frame = (\<lambda>d. d), lp_read = (\<lambda>d n. if length d \<le> n then Inr d else Inl ''too long''), lp_peer_id = Inr,
      lp_multiaddr = (\<lambda>a. if a = [] then Inl ''empty'' else Inr a), lp_mdns = Inr (), lp_gossip_config = (\<lambda>_. Inr ()), lp_gossip = Inr (),
      lp_subscribe = (\<lambda>_. Inr ()), lp_keypair_decode = (\<lambda>bs. if bs = [] then None else Some ''peer''),
      lp_random_peer = ''random''\<rparr>"

interpretation demo_framing: framing demo_libp2p "''too long''"
  by unfold_locales (simp add: demo_libp2p_def)

definition io_fresh :: io_stream where
  "io_fresh = \<lparr>io_written = [], io_closed = False, io_write_error = None, io_close_error = None\<rparr>"

text \<open>Messages in MessagePack: an array is longer than its parts together, and no value is empty.\<close>

definition rmp_sizes :: "env \<Rightarrow> bool" where
  "rmp_sizes E \<longleftrightarrow>
     (\<forall>v. e_rmp E v \<noteq> []) \<and> (\<forall>vs. length (e_rmp E (MpArr vs)) > sum_list (map (\<lambda>v. length (e_rmp E v)) vs))"

lemma wire_transaction_longer:
  assumes "rmp_sizes E"
  shows "length (wire E (GetTransactionResponse tx origin)) \<ge> length (e_rmp E (mp_transaction tx)) + 3"
proof -
  have pos: "length (e_rmp E v) \<ge> 1" for v using assms by (simp add: rmp_sizes_def Suc_le_eq)
  have "length (e_rmp E (MpArr [MpStr ''6'', mp_transaction tx, mp_option MpStr origin])) >
      length (e_rmp E (MpStr ''6'')) + (length (e_rmp E (mp_transaction tx)) + length (e_rmp E (mp_option MpStr origin)))"
    using assms unfolding rmp_sizes_def by (metis (no_types, lifting) list.map(1,2) sum_list.Nil sum_list_simps(2) add_0_right)
  with pos [of "MpStr ''6''"] pos [of "mp_option MpStr origin"] show ?thesis
    by (simp add: wire_def rmp_or_default_def mp_message_def)
qed

text \<open>C24. Unicast messages. What is written to a stream is read back by the peer exactly when it is not empty and not
  longer than \<open>MAX_TRANSMIT_SIZE\<close>; otherwise writing succeeds and reading fails. That limit is the limit on the encoding of
  a transaction, so a transaction that is admitted with an encoding of at most two bytes less cannot be handed to a peer
  that asks for it: the message around it is too long.
\<close>

theorem unicast_limit:
  assumes "framing P too_long" and "rmp_sizes E"
  shows "(case write_unicast P data io_fresh of (io, r) \<Rightarrow>
      r = Inr () \<and> io_closed io \<and>
      (read_unicast P (io_written io) = Inr data \<longleftrightarrow> data \<noteq> [] \<and> length data \<le> MAX_TRANSMIT_SIZE)) \<and>
    (MAX_TRANSACTION_SIZE \<le> length (e_rmp E (mp_transaction tx)) + 2 \<longrightarrow>
      read_unicast P (lp_frame P (wire E (GetTransactionResponse tx origin))) = Inl too_long)"
proof -
  have "read_unicast P (lp_frame P (wire E (GetTransactionResponse tx origin))) = Inl too_long"
    if "MAX_TRANSACTION_SIZE \<le> length (e_rmp E (mp_transaction tx)) + 2"
    using that wire_transaction_longer [OF assms(2), of tx origin]
    by (simp add: framing.unicast_read [OF assms(1)] MAX_TRANSMIT_SIZE_def)
  then show ?thesis
    by (simp add: write_unicast_def io_fresh_def Let_def framing.unicast_read [OF assms(1)])
qed

lemma demo_rmp_pos: "demo_rmp v \<noteq> []"
  by (cases v) auto

lemma length_demo_rmps: "length (demo_rmps vs) = sum_list (map (\<lambda>v. length (demo_rmp v)) vs)"
  by (induction vs) auto

lemma demo_rmp_sizes: "rmp_sizes demo_env"
  by (simp add: rmp_sizes_def demo_env_def demo_rmp_pos length_demo_rmps)

definition demo_big_tx :: transaction where
  "demo_big_tx = UnitTransaction (SignedTransaction (V1 (demo_v1\<lparr>td_args := replicate MAX_TRANSACTION_SIZE 0\<rparr>)) [])"

theorem unicast_limit_witness:
  "read_unicast demo_libp2p (lp_frame demo_libp2p (wire demo_env (GetTransactionResponse demo_big_tx None))) =
     Inl ''too long'' \<and>
   read_unicast demo_libp2p (io_written (fst (write_unicast demo_libp2p [7] io_fresh))) = Inr [7]"
proof -
  have big: "MAX_TRANSACTION_SIZE \<le> length (e_rmp demo_env (mp_transaction demo_big_tx)) + 2"
    by (simp add: demo_big_tx_def demo_env_def mp_transaction_def v1_fields_def demo_v1_def)
  have small: "length [7 :: u8] \<le> MAX_TRANSMIT_SIZE" by (simp add: MAX_TRANSMIT_SIZE_def MAX_TRANSACTION_SIZE_def)
  from unicast_limit [OF demo_framing.framing_axioms demo_rmp_sizes, of "[7]" demo_big_tx None] big small
  show ?thesis by (auto split: prod.splits)
qed

section \<open>Starting\<close>

lemma split_once_join: "c \<notin> set p \<Longrightarrow> split_once c (p @ c # a) = Some (p, a)"
  by (induction p) auto

text \<open>A bootstrap address is \<open>peer@multiaddr\<close>; the first \<open>@\<close> separates.\<close>

lemma kad_new_boot:
  assumes "CHR ''@'' \<notin> set p" and "lp_peer_id P p = Inr peer" and "lp_multiaddr P a = Inr addr"
  shows "kad_new P (Some (p @ CHR ''@'' # a)) = Inr [KadBootAddress peer addr, KadGetClosestPeers (lp_random_peer P)]"
  using assms by (simp add: kad_new_def split_once_join)

text \<open>A malformed bootstrap address, a wrong key or a wrong listening address stops the node with a panic, but only if
  the service is up; a node that starts announces the protocol it accepts from others.\<close>

lemma p2p_start_panics: "p2p_start E P True (cfg\<lparr>pc_bootstrap_addr := Some p\<rparr>) = None" if "CHR ''@'' \<notin> set p"
proof -
  have "split_once c q = None" if "c \<notin> set q" for c q using that by (induction q) auto
  with that show ?thesis
    by (auto simp: p2p_start_def behavior_new_def kad_new_def try_bind_def split: option.splits sum.splits)
qed

lemma p2p_start_protocol:
  assumes "p2p_start E P up cfg = Some (Some (msg, b, addr))"
  shows "bh_identify b = bh_network_name b \<and> bh_network_name b = network_name_new (pc_network cfg)"
  using assms
  by (auto simp: p2p_start_def behavior_new_def try_bind_Inr_iff identify_protocol_def network_name_new_def
      split: option.splits sum.splits if_splits)

end
