(* ===== verification/Replica.thy ===== *)
theory Replica
  imports Ledger Dispatching
begin

text \<open>
  Two nodes that agree on the database, the machine, the seed and the fuel method: the executor of
  \<^verbatim>\<open>src/blockchain/executor.rs\<close> is a function of these and of the payloads of the block, so a node
  that runs the block another one has made and served arrives at the same state, if it takes the signer for a
  validator. Its own key, its subscribers, its queue and the other payloads of its pool do not matter.
\<close>

section \<open>Agreement\<close>

definition replicas :: "hash list \<Rightarrow> ('d, 'w) executor \<Rightarrow> ('d, 'w) executor \<Rightarrow> bool" where
  "replicas hs x y \<longleftrightarrow>
     ex_db y = ex_db x \<and> ex_wm y = ex_wm x \<and> ex_seed y = ex_seed x \<and>
     ex_burn_fuel_method y = ex_burn_fuel_method x \<and>
     list_all (\<lambda>h. pl_txs (ex_pool y) h = pl_txs (ex_pool x) h) hs"

lemma get_mach_replicas: "replicas hs x y \<Longrightarrow> get_mach y f = get_mach x f"
  by (simp add: replicas_def get_mach_def)

lemma emit_events_wm: "ex_wm (emit_events E closed evs x) = ex_wm x \<and> ex_seed (emit_events E closed evs x) = ex_seed x"
proof -
  have "ex_wm (fold (\<lambda>ev. publish_msg E closed EV_CONTRACT_EVENTS (GetContractEvent ev)) evs x) = ex_wm x \<and>
    ex_seed (fold (\<lambda>ev. publish_msg E closed EV_CONTRACT_EVENTS (GetContractEvent ev)) evs x) = ex_seed x"
    by (induction evs arbitrary: x) (auto simp: publish_msg_def split: prod.splits)
  then show ?thesis by (simp add: emit_events_def)
qed

lemma exec_transaction_replicas:
  assumes "exec_transaction E D W closed tx ht i mthd ts x f = Some (x', f', rx)" and "replicas hs x y"
  shows "\<exists>y'. exec_transaction E D W closed' tx ht i mthd ts y f = Some (y', f', rx) \<and> replicas hs x' y'"
proof -
  note mach = get_mach_replicas [OF assms(2), of "fk_flush D f"]
  obtain y' where y': "exec_transaction E D W closed' tx ht i mthd ts y f = Some (y', f', rx)"
    "ex_wm y' = ex_wm x'" "ex_seed y' = ex_seed x'"
    using assms(1)
  proof (cases rule: exec_transaction_cases)
    case (Burned m1 res m2 burned)
    then have "ex_wm x' = mc_wm m2" "ex_seed x' = mc_seed m2"
      by (simp_all add: emit_events_wm put_mach_def split: option.splits)
    with Burned mach that show ?thesis
      by (simp add: exec_transaction_def Let_def emit_events_wm put_mach_def split: option.splits)
  next
    case (Failed m1 res m2 burned m4 fuel r)
    with mach that show ?thesis by (simp add: exec_transaction_def Let_def put_mach_def)
  qed
  with exec_transaction_shared [OF assms(1)] exec_transaction_shared [OF y'(1)] assms(2)
  show ?thesis by (auto simp: replicas_def same_shared_def)
qed

lemma exec_transactions_replicas:
  assumes "exec_transactions E D W closed ht ts i hs x f = Some (x', f', rxs)" and "replicas hs x y"
  shows "\<exists>y'. exec_transactions E D W closed' ht ts i hs y f = Some (y', f', rxs) \<and>
    ex_wm y' = ex_wm x' \<and> ex_seed y' = ex_seed x'"
  using assms
proof (induction hs arbitrary: i x y f rxs)
  case Nil
  then show ?case by (simp add: replicas_def)
next
  case (Cons h hs)
  from Cons.prems(1) show ?case
  proof (cases rule: exec_transactions_Cons)
    case (1 tx x1 f1 rx rxs')
    from exec_transaction_replicas [OF 1(2) Cons.prems(2)]
    obtain y1 where y1: "exec_transaction E D W closed' tx ht (of_nat i) (ex_burn_fuel_method x) ts y f = Some (y1, f1, rx)"
      "replicas (h # hs) x1 y1" by blast
    then have "replicas hs x1 y1" by (simp add: replicas_def)
    from Cons.IH [OF 1(3) this] obtain y' where "exec_transactions E D W closed' ht ts (Suc i) hs y1
       (fk_store_receipt D (fk_store_transaction D f1 h tx) h rx) = Some (y', f', rxs')"
      "ex_wm y' = ex_wm x'" "ex_seed y' = ex_seed x'" by blast
    moreover have "pl_txs (ex_pool y) h = Some (Some tx)" "ex_burn_fuel_method y = ex_burn_fuel_method x"
      using Cons.prems(2) 1(1) by (simp_all add: replicas_def)
    ultimately show ?thesis using y1(1) 1(4) by (simp add: Let_def)
  qed
qed

section \<open>Sealing again\<close>

text \<open>The follower checks what the leader has put into the block: the leader's own signature over the same
  data, by a key the follower takes for a validator's, and the same hash.\<close>

definition accepts :: "env \<Rightarrow> (string \<Rightarrow> bool result) \<Rightarrow> key_pair \<Rightarrow> u64 \<Rightarrow> bool" where
  "accepts E is_val kp ht \<longleftrightarrow> ht = 0 \<or> is_val (to_account_id E (kp_public_key kp)) = Inr True"

lemma seal_block_replicas:
  assumes "seal_block E D is_val kp db ht hs rxs prev bv f = Inr (db', block)"
    and "bv_validator bv = None" "bv_signature bv = None"
    and "sound_keypair E kp" and "accepts E (is_val' db) kp ht"
  shows "seal_block E D is_val' kp' db ht hs rxs prev
    (block_values_of (received_block_info E block (Some hs))) f = Inr (db', block)"
proof -
  obtain f1 th where 1: "fk_store_transactions_hashes D f ht hs = (f1, th)" by force
  obtain f2 rh where 2: "fk_store_receipts_hashes D f1 ht rxs = (f2, rh)" by force
  let ?d = "\<lparr>bd_validator = block_validator kp bv ht, bd_height = ht, bd_size = of_nat (length hs),
    bd_prev_hash = prev, bd_txs_hash = th, bd_rxs_hash = rh, bd_state_hash = fk_state_hash D f2 [],
    bd_timestamp = bv_timestamp bv\<rparr>"
  let ?bv = "block_values_of (received_block_info E block (Some hs))"
  from assms(1) 1 2 have sg: "block_signature E kp bv ?d = Inr (blk_signature block)"
    and bd: "blk_data block = ?d" and mg: "db_fork_merge D db (fk_store_block D f2 block) = Inr db'"
    by (auto simp: seal_block_def Let_def try_bind_Inr_iff)
  have vals: "bv_timestamp ?bv = bv_timestamp bv" "block_validator kp' ?bv ht = block_validator kp bv ht"
    "bv_validator ?bv = block_validator kp bv ht" "bv_signature ?bv = Some (blk_signature block)"
    using assms(2) by (simp_all add: block_values_of_def received_block_info_def bd block_validator_def)
  have "check_hash ?bv (primary_hash E (mp_block_data ?d)) = Inr ()"
    by (simp add: check_hash_def block_values_of_def received_block_info_def block_hash_def bd)
  moreover have "block_signature E kp' ?bv ?d = Inr (blk_signature block)"
    using sg vals by (cases "ht = 0") (simp_all add: block_signature_def)
  moreover have "verify_block E (is_val' db) ?bv ?d = Inr ()"
  proof (cases "ht = 0")
    case True
    with assms(2) vals show ?thesis by (simp add: verify_block_def block_validator_def)
  next
    case False
    with sg assms(3) have "kp_sign E kp (e_rmp E (mp_block_data ?d)) = Inr (blk_signature block)"
      by (simp add: block_signature_def)
    from sound_keypairD [OF assms(4) this] False assms(2,5) vals show ?thesis
      by (simp add: verify_block_def accepts_def block_validator_def)
  qed
  moreover have "\<lparr>blk_data = ?d, blk_signature = blk_signature block\<rparr> = block" using bd by simp
  ultimately show ?thesis using 1 2 mg vals by (simp add: seal_block_def Let_def)
qed

lemma seal_block_timestamp:
  "seal_block E D is_val kp db ht hs rxs prev bv f = Inr (db', block) \<Longrightarrow> bd_timestamp (blk_data block) = bv_timestamp bv"
  by (auto simp: seal_block_def Let_def try_bind_Inr_iff split: prod.splits)

lemma publish_msg_wm: "ex_wm (publish_msg E closed ev msg x) = ex_wm x"
  by (simp add: publish_msg_def split: prod.splits)

text \<open>What of a successful block the next one depends on.\<close>

lemma exec_block_success:
  assumes "exec_transactions E D W closed ht (bv_timestamp bv) 0 hs x (db_fork_create D (ex_db x)) = Some (x1, f1, rxs)"
    and "seal_block E D is_val (ex_keypair x) (ex_db x) ht hs rxs prev bv f1 = Inr (db', block)"
  shows "\<exists>x'. exec_block E D W closed is_val iv ht hs prev bv x = Some (x', Inr (block_hash E block)) \<and>
    ex_db x' = db' \<and> ex_wm x' = ex_wm x1 \<and> ex_seed x' = ex_seed x1"
proof -
  have "ex_keypair x1 = ex_keypair x" "ex_db x1 = ex_db x"
    using exec_transactions_shared [OF assms(1)] by (simp_all add: same_shared_def)
  with assms show ?thesis by (simp add: exec_block_def Let_def frame_simps publish_msg_wm)
qed

lemma exec_block_successE:
  assumes "exec_block E D W closed is_val iv ht hs prev bv x = Some (x', Inr h)"
  obtains x1 f1 rxs db' block where
    "exec_transactions E D W closed ht (bv_timestamp bv) 0 hs x (db_fork_create D (ex_db x)) = Some (x1, f1, rxs)"
    "seal_block E D is_val (ex_keypair x) (ex_db x) ht hs rxs prev bv f1 = Inr (db', block)"
    "h = block_hash E block" "ex_db x' = db'" "ex_wm x' = ex_wm x1" "ex_seed x' = ex_seed x1"
proof -
  from assms obtain x1 f1 rxs where
    1: "exec_transactions E D W closed ht (bv_timestamp bv) 0 hs x (db_fork_create D (ex_db x)) = Some (x1, f1, rxs)"
    by (auto simp: exec_block_def bind_eq_Some_conv)
  have sh: "ex_keypair x1 = ex_keypair x" "ex_db x1 = ex_db x"
    using exec_transactions_shared [OF 1] by (simp_all add: same_shared_def)
  from assms 1 sh obtain db' block where
    2: "seal_block E D is_val (ex_keypair x) (ex_db x) ht hs rxs prev bv f1 = Inr (db', block)"
    by (cases "seal_block E D is_val (ex_keypair x) (ex_db x) ht hs rxs prev bv f1") (auto simp: exec_block_def)
  from exec_block_success [OF 1 2, where iv = iv] assms
  have "h = block_hash E block" "ex_db x' = db'" "ex_wm x' = ex_wm x1" "ex_seed x' = ex_seed x1" by auto
  from that [OF 1 2 this] show thesis .
qed

section \<open>One block each\<close>

text \<open>The pool names one block to run next and none after it.\<close>

definition one_block :: "u64 \<Rightarrow> block_info \<Rightarrow> hash list \<Rightarrow> pool \<Rightarrow> bool" where
  "one_block ht bi hs p \<longleftrightarrow> map_of (pl_confirmed p) ht = Some bi \<and> bi_txs_hashes bi = Some hs \<and>
     map_of (pl_confirmed p) (ht + 1) = None"

lemma map_of_bt_remove_None: "map_of m k = None \<Longrightarrow> map_of (bt_remove j m) k = None"
  by (induction m) (auto simp: bt_remove_def)

lemma update_seed_infos_cong: "ex_db x = ex_db y \<Longrightarrow> ex_seed x = ex_seed y \<Longrightarrow>
   ex_seed (after_block E D closed ht hs x) = ex_seed (after_block E D closed' ht hs' y)"
  by (simp add: after_block_def Let_def frame_simps split: option.splits)

lemma after_block_wm: "ex_wm (after_block E D closed ht hs x) = ex_wm x"
  by (simp add: after_block_def Let_def publish_msg_wm split: option.splits)

lemma replicas_pool:
  "replicas hs (x\<lparr>ex_pool := steal_block ht bi (ex_pool x)\<rparr>) (y\<lparr>ex_pool := steal_block ht' bi' (ex_pool y)\<rparr>) \<longleftrightarrow>
   replicas hs x y"
  by (simp add: replicas_def steal_block_def)

context wm_contract
begin

lemma exec_block_made:
  assumes "exec_block E D W closed is_val iv ht hs prev bv x = Some (x', Inr h)" and "inv (ex_db x)"
  obtains x1 f1 rxs block where
    "exec_transactions E D W closed ht (bv_timestamp bv) 0 hs x (db_fork_create D (ex_db x)) = Some (x1, f1, rxs)"
    "seal_block E D is_val (ex_keypair x) (ex_db x) ht hs rxs prev bv f1 = Inr (ex_db x', block)"
    "ex_wm x' = ex_wm x1" "ex_seed x' = ex_seed x1"
    "db_load_block D (ex_db x') u64_max = Some block" "bd_height (blk_data block) = ht"
proof -
  from assms(1) obtain x1 f1 rxs block where
    1: "exec_transactions E D W closed ht (bv_timestamp bv) 0 hs x (db_fork_create D (ex_db x)) = Some (x1, f1, rxs)"
    and 2: "seal_block E D is_val (ex_keypair x) (ex_db x) ht hs rxs prev bv f1 = Inr (ex_db x', block)"
    and 3: "ex_wm x' = ex_wm x1" "ex_seed x' = ex_seed x1"
    by (elim exec_block_successE) simp
  from exec_transactions_ran [OF 1] fork_create [OF assms(2)] have "fa_base (absf f1) = snap (ex_db x)" by simp
  from seal_block_sealed [OF assms(2) this 2] have "sealed E (is_val (ex_db x)) (ex_keypair x) ht hs rxs prev bv
    (fa_view (absf f1)) block (snap (ex_db x'))" by simp
  from sealed_blocks [OF this] have "db_load_block D (ex_db x') u64_max = Some block" "bd_height (blk_data block) = ht"
    by (simp_all add: load_block st_load_block_def)
  with that 1 2 3 show thesis by blast
qed

text \<open>A run over one block is the execution of that block.\<close>

lemma executor_run_one:
  assumes "inv (ex_db x)" and "tip E (st_blocks (snap (ex_db x))) = (prev, ht)" and "one_block ht bi hs (ex_pool x)"
    and b: "exec_block E D W closed is_val iv ht hs prev (block_values_of bi)
      (x\<lparr>ex_pool := steal_block ht bi (ex_pool x)\<rparr>) = Some (x1, r)"
  shows "executor_run E D W closed is_val iv x =
    (case r of
       Inr h \<Rightarrow> Some (after_block E D closed ht hs x1)
     | Inl err \<Rightarrow> map_option (\<lambda>_. x1\<lparr>ex_pool := restore_pool ht bi (ex_pool x1)\<rparr>) (error_to_string_full err))"
proof -
  let ?x2 = "after_block E D closed ht hs x1"
  have "\<not> executor_can_run D (ht + 1) (ex_db ?x2) (ex_pool ?x2)" if r: "r = Inr h" for h
  proof -
    obtain block where "db_load_block D (ex_db x1) u64_max = Some block" "bd_height (blk_data block) = ht"
      by (rule exec_block_made [OF b [unfolded r]]) (use assms(1) in auto)
    then have "next_height D (ex_db ?x2) = ht + 1" by (simp add: next_height_def frame_simps)
    moreover have "map_of (pl_confirmed (ex_pool ?x2)) (ht + 1) = None"
      using exec_block_pool [OF b] assms(3)
      by (simp add: frame_simps finish_pool_def steal_block_def one_block_def map_of_bt_remove_None)
    ultimately show ?thesis by (cases "ht + 1 = u64_max") (simp_all add: executor_can_run_def Let_def)
  qed
  then show ?thesis
    using assms(2,3) b
    by (simp add: executor_run_loop exec_loop.simps [of _ _ _ _ _ _ prev ht x] one_block_def Let_def
        split: sum.splits)
qed

lemma executor_run_oneE:
  assumes "inv (ex_db x)" and "tip E (st_blocks (snap (ex_db x))) = (prev, ht)" and "one_block ht bi hs (ex_pool x)"
    and "executor_run E D W closed is_val iv x = Some x'" and "snap (ex_db x') \<noteq> snap (ex_db x)"
  obtains x1 h where "exec_block E D W closed is_val iv ht hs prev (block_values_of bi)
      (x\<lparr>ex_pool := steal_block ht bi (ex_pool x)\<rparr>) = Some (x1, Inr h)"
    "x' = after_block E D closed ht hs x1"
proof -
  let ?b = "exec_block E D W closed is_val iv ht hs prev (block_values_of bi)
    (x\<lparr>ex_pool := steal_block ht bi (ex_pool x)\<rparr>)"
  from assms(2-4) obtain x1 r where b: "?b = Some (x1, r)"
    by (cases ?b) (auto simp: executor_run_loop exec_loop.simps [of _ _ _ _ _ _ prev ht x] one_block_def)
  note run = executor_run_one [OF assms(1-3) b]
  show thesis
  proof (cases r)
    case (Inl e)
    with run assms(4) have "ex_db x' = ex_db x1" by (cases "error_to_string_full e") auto
    with exec_block_cases [OF b] assms(1,5) Inl show ?thesis by simp
  next
    case (Inr h)
    with run assms(4) b that show ?thesis by simp
  qed
qed

end

text \<open>C3. Nodes stay in step. Let a node with a sound key (its signatures verify) run a block that it has built itself and store it,
  as the only block it has ready, and let another node agree with it on the database, the machine, the seed, the fuel method and the payloads of
  that block. If the other node has the block in its pool as the first one serves it, has no block for
  the height after it, and its validator check says yes to the account of the first one's key (not asked for the genesis block), then
  its executor runs the block without a panic, accepts the signature and the hash, and its database, machine and seed are the
  first one's again. Its own key, subscribers, validator flag, queue and other payloads do not matter.
\<close>

theorem follower_reproduces_block:
  assumes "wm_contract E D snap absf dinv W" and "dinv (ex_db x)"
    and "tip E (st_blocks (snap (ex_db x))) = (prev, ht)"
    and "one_block ht bi hs (ex_pool x)" and "bi_validator bi = None" "bi_signature bi = None"
    and "sound_keypair E (ex_keypair x)"
    and "executor_run E D W closed is_val iv x = Some x'" and "snap (ex_db x') \<noteq> snap (ex_db x)"
    and "db_load_block D (ex_db x') u64_max = Some block"
    and "replicas hs x y" and "one_block ht (received_block_info E block (Some hs)) hs (ex_pool y)"
    and "accepts E (is_val' (ex_db x)) (ex_keypair x) ht"
  shows "\<exists>y'. executor_run E D W closed' is_val' iv' y = Some y' \<and>
    ex_db y' = ex_db x' \<and> ex_wm y' = ex_wm x' \<and> ex_seed y' = ex_seed x'"
proof -
  let ?x0 = "x\<lparr>ex_pool := steal_block ht bi (ex_pool x)\<rparr>"
  let ?bi = "received_block_info E block (Some hs)"
  let ?y0 = "y\<lparr>ex_pool := steal_block ht ?bi (ex_pool y)\<rparr>"
  have y: "ex_db y = ex_db x" using assms(11) by (simp add: replicas_def)
  obtain x1 h where b: "exec_block E D W closed is_val iv ht hs prev (block_values_of bi) ?x0 = Some (x1, Inr h)"
    and x': "x' = after_block E D closed ht hs x1"
    by (rule wm_contract.executor_run_oneE [OF assms(1-4,8,9)])
  obtain x2 f2 rxs where
    1: "exec_transactions E D W closed ht (bi_timestamp bi) 0 hs ?x0 (db_fork_create D (ex_db x)) = Some (x2, f2, rxs)"
    and 2: "seal_block E D is_val (ex_keypair x) (ex_db x) ht hs rxs prev (block_values_of bi) f2 = Inr (ex_db x1, block)"
    and h: "ex_wm x1 = ex_wm x2" "ex_seed x1 = ex_seed x2"
    by (rule wm_contract.exec_block_made [OF assms(1) b]) (use assms(2,10) x' in \<open>auto simp: block_values_of_def frame_simps\<close>)
  have ts: "bv_timestamp (block_values_of ?bi) = bi_timestamp bi"
    using seal_block_timestamp [OF 2] by (simp add: block_values_of_def received_block_info_def)
  have "replicas hs ?x0 ?y0" using assms(11) by (simp add: replicas_pool)
  from exec_transactions_replicas [OF 1 this] obtain y2 where
    y2: "exec_transactions E D W closed' ht (bv_timestamp (block_values_of ?bi)) 0 hs ?y0
      (db_fork_create D (ex_db ?y0)) = Some (y2, f2, rxs)" "ex_wm y2 = ex_wm x2" "ex_seed y2 = ex_seed x2"
    using y ts by auto
  have "seal_block E D is_val' (ex_keypair ?y0) (ex_db ?y0) ht hs rxs prev (block_values_of ?bi) f2 = Inr (ex_db x1, block)"
    using seal_block_replicas [where is_val' = is_val', OF 2 _ _ assms(7,13)] assms(5,6) y by (simp add: block_values_of_def)
  from exec_block_success [OF y2(1) this, where iv = iv'] obtain y1 where
    c: "exec_block E D W closed' is_val' iv' ht hs prev (block_values_of ?bi) ?y0 = Some (y1, Inr (block_hash E block))"
    and y1: "ex_db y1 = ex_db x1" "ex_wm y1 = ex_wm y2" "ex_seed y1 = ex_seed y2" by blast
  have "executor_run E D W closed' is_val' iv' y = Some (after_block E D closed' ht hs y1)"
    using wm_contract.executor_run_one [OF assms(1) _ _ assms(12) c] assms(2,3) y by simp
  moreover have "ex_seed (after_block E D closed' ht hs y1) = ex_seed x'"
    unfolding x' by (rule update_seed_infos_cong) (simp_all add: y1 y2 h)
  ultimately show ?thesis using x' y1 y2 h by (simp add: frame_simps after_block_wm)
qed

text \<open>A node with one block that makes the next one, and a node with another key that takes the first one's account, and
  no other, for a validator's.\<close>

definition demo_leader :: "(store rocks_db, unit) executor" where
  "demo_leader = demo_executor\<lparr>ex_db := rocks_new mem_merkledb (store_empty\<lparr>st_blocks := [demo_block]\<rparr>),
     ex_pool := demo_confirmed\<lparr>pl_confirmed := [(1, demo_block_info)]\<rparr>\<rparr>"

definition demo_follower :: "block \<Rightarrow> (store rocks_db, unit) executor" where
  "demo_follower block = demo_leader\<lparr>ex_keypair := KpEd25519 [7] [8], ex_pool := demo_confirmed\<lparr>pl_confirmed :=
     [(1, received_block_info demo_env block (Some [hash_default]))]\<rparr>\<rparr>"

definition demo_validators :: "store rocks_db \<Rightarrow> string \<Rightarrow> bool result" where
  "demo_validators db a = Inr (a = to_account_id demo_env (kp_public_key (ex_keypair demo_leader)))"

lemma demo_leader_inv: "rocks_inv mem_merkledb (ex_db demo_leader)"
  by (simp add: demo_leader_def demo_executor_def executor_new_def rocks_inv_def rocks_new_def)

lemma demo_leader_block:
  assumes "pl_txs p = pl_txs demo_confirmed"
  shows "\<exists>x' h. exec_block demo_env demo_D (demo_wm demo_D) (\<lambda>_. False) is_val iv 1 [hash_default] prev
    (block_values_of demo_block_info) (demo_leader\<lparr>ex_pool := p\<rparr>) = Some (x', Inr h)"
proof -
  obtain x1 f1 rxs where 1: "exec_transactions demo_env demo_D (demo_wm demo_D) (\<lambda>_. False) 1 0 0 [hash_default]
      (demo_leader\<lparr>ex_pool := p\<rparr>) (db_fork_create demo_D (ex_db demo_leader)) = Some (x1, f1, rxs)"
    using assms by (simp add: demo_leader_def demo_eval Let_def)
  have k: "ex_keypair x1 = KpEd25519 [] []"
    using exec_transactions_shared [OF 1] by (simp add: same_shared_def demo_leader_def demo_executor_def executor_new_def)
  have "\<exists>db' block. seal_block demo_env demo_D is_val (ex_keypair x1) (ex_db x1) 1 [hash_default] rxs prev
      (block_values_of demo_block_info) f1 = Inr (db', block)"
    by (simp add: seal_block_def Let_def block_values_of_def demo_block_info_def k kp_sign_def
        verify_block_def block_signature_def check_hash_def demo_D_def rocks_fork_merge_def mem_merkledb_def split: prod.splits)
  moreover have "bv_timestamp (block_values_of demo_block_info) = 0" by (simp add: block_values_of_def demo_block_info_def)
  ultimately show ?thesis using 1 by (auto simp: exec_block_def Let_def)
qed

theorem follower_reproduces_block_witness:
  "\<exists>x' y' block. executor_run demo_env demo_D (demo_wm demo_D) (\<lambda>_. False) (\<lambda>_ _. Inr True) True demo_leader = Some x' \<and>
     db_load_block demo_D (ex_db x') u64_max = Some block \<and> bd_height (blk_data block) = 1 \<and>
     executor_run demo_env demo_D (demo_wm demo_D) (\<lambda>_. True) demo_validators False (demo_follower block) = Some y' \<and>
     ex_db y' = ex_db x'"
proof -
  have p: "ex_pool demo_leader = demo_confirmed\<lparr>pl_confirmed := [(1, demo_block_info)]\<rparr>"
    and s0: "rd_snap (ex_db demo_leader) = store_empty\<lparr>st_blocks := [demo_block]\<rparr>"
    by (simp_all add: demo_leader_def rocks_new_def mem_merkledb_def)
  have tp: "tip demo_env (st_blocks (rd_snap (ex_db demo_leader))) = (block_hash demo_env demo_block, 1)"
    by (simp add: s0 tip_def demo_block_def)
  have one: "one_block 1 demo_block_info [hash_default] (ex_pool demo_leader)"
    by (simp add: one_block_def p demo_block_info_def)
  have "pl_txs (steal_block 1 demo_block_info (ex_pool demo_leader)) = pl_txs demo_confirmed"
    by (simp add: steal_block_def p)
  from demo_leader_block [OF this] obtain x1 h where
    b: "exec_block demo_env demo_D (demo_wm demo_D) (\<lambda>_. False) (\<lambda>_ _. Inr True) True 1
      [hash_default] (block_hash demo_env demo_block) (block_values_of demo_block_info)
      (demo_leader\<lparr>ex_pool := steal_block 1 demo_block_info (ex_pool demo_leader)\<rparr>) = Some (x1, Inr h)"
    by blast
  let ?x' = "after_block demo_env demo_D (\<lambda>_. False) 1 [hash_default] x1"
  have run: "executor_run demo_env demo_D (demo_wm demo_D) (\<lambda>_. False) (\<lambda>_ _. Inr True) True demo_leader = Some ?x'"
    using wm_contract.executor_run_one [OF demo_contract demo_leader_inv tp one b] by simp
  obtain block where blk: "db_load_block demo_D (ex_db ?x') u64_max = Some block" and ht: "bd_height (blk_data block) = 1"
    by (rule wm_contract.exec_block_made [OF demo_contract b]) (auto simp: frame_simps demo_leader_inv)
  then have "rd_snap (ex_db ?x') \<noteq> rd_snap (ex_db demo_leader)"
    by (auto simp: s0 demo_D_def rocks_load_block_def st_load_block_def store_empty_def demo_block_def)
  from follower_reproduces_block [where y = "demo_follower block" and closed' = "\<lambda>_. True" and iv' = False
      and is_val' = demo_validators, OF demo_contract demo_leader_inv tp one _ _ sound_keypair_demo run this blk]
  show ?thesis
    using run blk ht
    by (auto simp: demo_block_info_def replicas_def demo_follower_def demo_leader_def
        one_block_def demo_confirmed_def received_block_info_def accepts_def demo_validators_def)
qed

end
