(* ===== verification/Progress.thy ===== *)
theory Progress
  imports Ledger Dispatching Worker
begin

text \<open>
  Where a transaction is between its admission and the chain: in the queue, in a confirmed block of the
  pool, or in the database with its receipt. The builder and the executor move transactions from one to
  the next and lose none; a block received at an occupied height does lose some.
\<close>

section \<open>Keeping track\<close>

definition executed_in :: "store \<Rightarrow> hash \<Rightarrow> bool" where
  "executed_in s h \<longleftrightarrow> st_transactions s h \<noteq> None \<and> st_receipts s h \<noteq> None"

definition tracked :: "store \<Rightarrow> pool \<Rightarrow> hash \<Rightarrow> bool" where
  "tracked s p h \<longleftrightarrow>
     h \<in> set (qs_fifo (pl_unconfirmed p)) \<or> h \<in> confirmed_hashes (pl_confirmed p) \<or> executed_in s h"

lemma bt_wf_map_of: "bt_wf m \<Longrightarrow> (k, v) \<in> set m \<Longrightarrow> map_of m k = Some v"
  by (induction m) (auto simp: bt_wf_Cons)

lemma confirmed_hashes_finish:
  assumes "map_of (pl_confirmed p) ht = Some bi" "bi_txs_hashes bi = Some hs" and "bt_wf (pl_confirmed p)"
  shows "confirmed_hashes (pl_confirmed p) \<subseteq>
    set hs \<union> confirmed_hashes (pl_confirmed (finish_pool ht hs (steal_block ht bi p)))"
proof
  fix h assume "h \<in> confirmed_hashes (pl_confirmed p)"
  then obtain k bk ks where k: "(k, bk) \<in> set (pl_confirmed p)" "bi_txs_hashes bk = Some ks" "h \<in> set ks"
    by (auto simp: confirmed_hashes_def)
  show "h \<in> set hs \<union> confirmed_hashes (pl_confirmed (finish_pool ht hs (steal_block ht bi p)))"
  proof (cases "k = ht")
    case True
    with k(1) assms have "bk = bi" using bt_wf_map_of by fastforce
    with k assms show ?thesis by simp
  next
    case False
    with k have "h \<in> confirmed_hashes (bt_remove ht (pl_confirmed p))"
      by (auto simp: confirmed_hashes_def bt_remove_def)
    then show ?thesis by (simp add: finish_pool_def steal_block_def bt_remove_insert)
  qed
qed

context wm_contract
begin

lemma exec_block_executed:
  assumes "exec_block E D W closed is_val iv ht hs prev bv x = Some (x1, Inr h)" and "inv (ex_db x)"
  shows "(\<forall>h \<in> set hs. executed_in (snap (ex_db x1)) h) \<and>
    (\<forall>h. executed_in (snap (ex_db x)) h \<longrightarrow> executed_in (snap (ex_db x1)) h)"
proof -
  from exec_block_cases [OF assms] obtain s block rxs
    where all: "\<forall>h \<in> set hs. \<exists>tx. pl_txs (ex_pool x) h = Some (Some tx)"
      and ran: "ran_transactions hs (\<lambda>h. the (pl_txs (ex_pool x) h)) (snap (ex_db x)) s"
      and sealed: "sealed E (is_val (ex_db x)) (ex_keypair x) ht hs rxs prev bv s block (snap (ex_db x1))"
    by auto
  from sealed_blocks [OF sealed] ran all show ?thesis
    by (fastforce simp: executed_in_def ran_transactions_def)
qed

lemma exec_loop_tracks:
  assumes "exec_loop E D W closed is_val iv prev ht x = Some x'" and "inv (ex_db x)"
    and "pool_inv (stored_in (snap (ex_db x))) (ex_pool x)"
  shows "(\<forall>h \<in> confirmed_hashes (pl_confirmed (ex_pool x)). h \<in> confirmed_hashes (pl_confirmed (ex_pool x')) \<or>
      executed_in (snap (ex_db x')) h) \<and>
    (\<forall>h. executed_in (snap (ex_db x)) h \<longrightarrow> executed_in (snap (ex_db x')) h)"
proof -
  define I where "I prev ht y \<longleftrightarrow> inv (ex_db y) \<and> pool_inv (stored_in (snap (ex_db y))) (ex_pool y) \<and>
    (\<forall>h \<in> confirmed_hashes (pl_confirmed (ex_pool x)). h \<in> confirmed_hashes (pl_confirmed (ex_pool y)) \<or>
      executed_in (snap (ex_db y)) h) \<and>
    (\<forall>h. executed_in (snap (ex_db x)) h \<longrightarrow> executed_in (snap (ex_db y)) h)"
    for prev :: hash and ht :: u64 and y :: "('d, 'w) executor"
  have "\<exists>prev' ht'. I prev' ht' x'"
  proof (rule exec_loop_rule [OF assms(1), of I])
    show "I prev ht x" using assms by (simp add: I_def)
  next
    fix prev ht y bi hs y1 h
    assume I: "I prev ht y" and bi: "map_of (pl_confirmed (ex_pool y)) ht = Some bi" "bi_txs_hashes bi = Some hs"
      and b: "exec_block E D W closed is_val iv ht hs prev (block_values_of bi)
        (y\<lparr>ex_pool := steal_block ht bi (ex_pool y)\<rparr>) = Some (y1, Inr h)"
    let ?y2 = "after_block E D closed ht hs y1"
    from I have i: "inv (ex_db y)" "bt_wf (pl_confirmed (ex_pool y))" by (simp_all add: I_def pool_inv_def)
    from exec_block_cases [OF b] i have "inv (ex_db y1)" by simp
    moreover have "pool_inv (stored_in (snap (ex_db y1))) (finish_pool ht hs (ex_pool y1))"
      using exec_block_stored [OF b] exec_block_pool [OF b] finish_pool_inv [OF _ bi] I by (simp add: I_def)
    moreover have "confirmed_hashes (pl_confirmed (ex_pool y)) \<subseteq>
        set hs \<union> confirmed_hashes (pl_confirmed (ex_pool ?y2))"
      using confirmed_hashes_finish [OF bi i(2)] exec_block_pool [OF b] by (simp add: frame_simps)
    moreover have "(\<forall>h \<in> set hs. executed_in (snap (ex_db ?y2)) h) \<and>
        (\<forall>h. executed_in (snap (ex_db y)) h \<longrightarrow> executed_in (snap (ex_db ?y2)) h)"
      using exec_block_executed [OF b] i by (simp add: frame_simps)
    ultimately show "I h (ht + 1) ?y2" using I unfolding I_def by (simp add: frame_simps) blast
  next
    fix prev ht y bi hs y1 e
    assume I: "I prev ht y" and bi: "map_of (pl_confirmed (ex_pool y)) ht = Some bi"
      and b: "exec_block E D W closed is_val iv ht hs prev (block_values_of bi)
        (y\<lparr>ex_pool := steal_block ht bi (ex_pool y)\<rparr>) = Some (y1, Inl e)"
    have "restore_pool ht bi (ex_pool y1) = ex_pool y"
      using exec_block_pool [OF b] restore_steal [OF _ bi] I by (simp add: I_def pool_inv_def)
    with exec_block_cases [OF b] I show "I prev ht (y1\<lparr>ex_pool := restore_pool ht bi (ex_pool y1)\<rparr>)"
      by (simp add: I_def)
  qed
  then show ?thesis by (auto simp: I_def)
qed

end

section \<open>The builder\<close>

lemma confirmed_hashes_append: "confirmed_hashes (m @ m') = confirmed_hashes m \<union> confirmed_hashes m'"
  by (auto simp: confirmed_hashes_def)

lemma confirmed_hashes_Cons:
  "confirmed_hashes ((k, bi) # m) = (case bi_txs_hashes bi of None \<Rightarrow> {} | Some hs \<Rightarrow> set hs) \<union> confirmed_hashes m"
  by (auto simp: confirmed_hashes_def split: option.splits)

lemma confirmed_new_blocks: "confirmed_hashes (new_blocks now ht cs) = set (concat cs)"
proof (induction cs arbitrary: ht)
  case Nil
  then show ?case by (simp add: confirmed_hashes_def)
qed (simp add: confirmed_hashes_Cons new_block_info_def)

text \<open>C7. From the queue to the chain nothing is lost. Let the builder run on a pool and the executor on
  its result: every transaction that was waiting in the queue or in a confirmed block, or was executed
  before, is now in the database with its receipt, or is still in a confirmed block (because an earlier
  block failed or lacks a payload). The executor never puts one back into the queue or drops one.
\<close>

theorem pipeline_loses_nothing:
  assumes "wm_contract E D snap absf dinv W" and "dinv (ex_db x)"
    and "pool_inv (stored_in (snap (ex_db x))) (ex_pool x)"
    and "bu_threshold b > 0" and "u64_max \<notin> fst ` set (pl_confirmed (ex_pool x))"
    and "unat (builder_height D (ex_db x) (ex_pool x)) +
           length (chunks (bu_threshold b) (qs_fifo (pl_unconfirmed (ex_pool x)))) < 2 ^ 64"
    and "builder_run D b now (ex_db x) (ex_pool x) = Some p"
    and "executor_run E D W closed is_val iv (x\<lparr>ex_pool := p\<rparr>) = Some x'"
    and "tracked (snap (ex_db x)) (ex_pool x) h"
  shows "qs_fifo (pl_unconfirmed (ex_pool x')) = [] \<and>
    (h \<in> confirmed_hashes (pl_confirmed (ex_pool x')) \<or> executed_in (snap (ex_db x')) h)"
proof -
  let ?x = "x\<lparr>ex_pool := p\<rparr>"
  have q: "qs_inv (pl_unconfirmed (ex_pool x))" "bt_wf (pl_confirmed (ex_pool x))"
    using assms(3) by (simp_all add: pool_inv_def)
  from builder_run_result [OF assms(4) q assms(5,6), of now] assms(7)
  have p: "qs_fifo (pl_unconfirmed p) = []"
    and c: "pl_confirmed p = pl_confirmed (ex_pool x) @ new_blocks now (builder_height D (ex_db x) (ex_pool x))
      (chunks (bu_threshold b) (qs_fifo (pl_unconfirmed (ex_pool x))))" by auto
  from assms(9) have h: "h \<in> confirmed_hashes (pl_confirmed p) \<or> executed_in (snap (ex_db x)) h"
    by (auto simp: tracked_def c confirmed_hashes_append confirmed_new_blocks concat_chunks [OF assms(4)]
        simp del: set_concat)
  have inv: "pool_inv (stored_in (snap (ex_db ?x))) (ex_pool ?x)" using builder_run_inv [OF assms(7,3)] by simp
  obtain prev ht where t: "tip E (st_blocks (snap (ex_db ?x))) = (prev, ht)" by (meson surj_pair)
  have l: "exec_loop E D W closed is_val iv prev ht ?x = Some x'"
    using assms(8) unfolding wm_contract.executor_run_loop [OF assms(1)] t by simp
  have "dinv (ex_db ?x)" using assms(2) by simp
  from wm_contract.exec_loop_tracks [OF assms(1) l this inv] wm_contract.exec_loop_pool [OF assms(1) l this inv] h p
  show ?thesis by auto
qed

section \<open>A replaced block\<close>

lemma note_hash_txs: "pl_txs p h = Some v \<Longrightarrow> pl_txs (note_hash k p) h = Some v"
  by (auto simp: note_hash_def Let_def)

lemma note_hashes_txs: "pl_txs p h = Some v \<Longrightarrow> pl_txs (fold note_hash hs p) h = Some v"
  by (induction hs arbitrary: p) (simp_all add: note_hash_txs)


lemma confirmed_hashes_bt_insert:
  assumes "bt_wf m"
  shows "confirmed_hashes (bt_insert k bi m) =
    (case bi_txs_hashes bi of None \<Rightarrow> {} | Some hs \<Rightarrow> set hs) \<union> confirmed_hashes (bt_remove k m)"
  using assms
proof (induction m)
  case Nil
  then show ?case by (simp add: confirmed_hashes_Cons bt_remove_def)
next
  case (Cons e m)
  obtain j bj where e: "e = (j, bj)" by (cases e)
  have "bt_remove k m = m" if "\<not> j < k" using that Cons.prems
    by (auto simp: bt_remove_def bt_wf_Cons e filter_id_conv)
  with Cons show ?case by (auto simp: e confirmed_hashes_Cons bt_wf_Cons bt_remove_def)
qed

lemma admit_hash: "admit_transaction E D s tx = Inr h \<Longrightarrow> h = tx_get_primary_hash E tx"
  by (auto simp: admit_transaction_def Let_def try_bind_Inr_iff split: if_splits)

text \<open>The builder takes its hashes from the queue.\<close>

lemma build_block_names:
  assumes "pool_inv stored (snd (snd s))" and "h \<notin> set (qs_fifo (pl_unconfirmed (snd (snd s))))"
    and "h \<notin> confirmed_hashes (pl_confirmed (snd (snd s)))"
  shows "h \<notin> set (qs_fifo (pl_unconfirmed (snd (snd (build_block t n s))))) \<and>
    h \<notin> confirmed_hashes (pl_confirmed (snd (snd (build_block t n s))))"
proof -
  obtain count ht pool where s: "s = (count, ht, pool)" by (cases s)
  obtain hs q where pop: "pop_upto t (pl_unconfirmed pool) = (hs, q)" by force
  have inv: "qs_inv (pl_unconfirmed pool)" "bt_wf (pl_confirmed pool)" using assms(1) by (simp_all add: s pool_inv_def)
  from pop_upto_spec [OF inv(1) pop] assms(2)
  have "h \<notin> set hs" "h \<notin> set (qs_fifo q)" by (auto simp: s dest: in_set_takeD in_set_dropD)
  moreover have "h \<notin> confirmed_hashes (bt_remove ht (pl_confirmed pool))"
    using assms(3) by (auto simp: s confirmed_hashes_def bt_remove_def)
  ultimately show ?thesis
    by (simp add: s build_block_def pop Let_def confirmed_hashes_bt_insert [OF inv(2)] new_block_info_def)
qed

lemma builder_run_names:
  assumes "builder_run D b now db pool = Some pool'" and "pool_inv stored pool"
    and "h \<notin> set (qs_fifo (pl_unconfirmed pool))" and "h \<notin> confirmed_hashes (pl_confirmed pool)"
  shows "h \<notin> confirmed_hashes (pl_confirmed pool')"
proof -
  have "pool_inv stored pool' \<and> h \<notin> set (qs_fifo (pl_unconfirmed pool')) \<and> h \<notin> confirmed_hashes (pl_confirmed pool')"
    by (rule builder_run_keeps [where Q = "\<lambda>p. pool_inv stored p \<and> h \<notin> set (qs_fifo (pl_unconfirmed p)) \<and>
        h \<notin> confirmed_hashes (pl_confirmed p)", OF _ assms(1)])
       (use assms build_block_inv build_block_names in blast)+
  then show ?thesis by blast
qed

text \<open>C12. A replaced block strands its transactions. Let a node that is aligned receive a block at the height after
  \<open>missing_start\<close>, the only height at which it takes a block directly, while its pool already has another block for that height.
  The new block replaces the old one, and a transaction that only the old one names, and that is not in the
  database, is stranded: it is in no queue and in no confirmed block, no run of the node's own builder puts it into one, and as its payload stays in the
  pool, submitting it again, whatever copy, is refused without effect. Only a block of a peer that names it can still
  bring it into the chain.
\<close>

theorem replaced_block_strands_transactions:
  assumes "pool_inv (db_contains_transaction D (dp_db s)) (dp_pool s)" and "dp_aligned s"
    and "missing_start D (dp_db s) + 1 = bd_height (blk_data block)"
    and "map_of (pl_confirmed (dp_pool s)) (bd_height (blk_data block)) = Some bi"
    and "bi_txs_hashes bi = Some hs" and "h \<in> set hs" and "h \<notin> set new"
    and "h \<notin> confirmed_hashes (bt_remove (bd_height (blk_data block)) (pl_confirmed (dp_pool s)))"
    and "\<not> db_contains_transaction D (dp_db s) h" and "pl_txs (dp_pool s) h = Some (Some tx)"
    and "s' = get_block_res_handler E D block (Some new) origin s"
  shows "h \<notin> set (qs_fifo (pl_unconfirmed (dp_pool s'))) \<and> h \<notin> confirmed_hashes (pl_confirmed (dp_pool s')) \<and>
    \<not> db_contains_transaction D (dp_db s') h \<and>
    (\<forall>b now p. builder_run D b now (dp_db s') (dp_pool s') = Some p \<longrightarrow> h \<notin> confirmed_hashes (pl_confirmed p)) \<and>
    (\<forall>tx'. tx_get_primary_hash E tx' = h \<longrightarrow>
      (\<exists>e. put_transaction_internal E D tx' s' = (s', Inl e)))"
proof -
  let ?ht = "bd_height (blk_data block)" and ?p = "fold note_hash new (dp_pool s)"
  have s': "s' = s\<lparr>dp_pool := ?p\<lparr>pl_confirmed := bt_insert ?ht (received_block_info E block (Some new))
      (pl_confirmed ?p)\<rparr>\<rparr>"
    using assms(2,3) by (simp add: assms(11) get_block_res_handler_def add_received_block_def Let_def)
  note n = note_hashes_spec [OF assms(1), of new]
  have wf: "bt_wf (pl_confirmed (dp_pool s))" using assms(1) by (simp add: pool_inv_def)
  have c: "h \<in> confirmed_hashes (pl_confirmed (dp_pool s))"
    using confirmed_hashes_map_of [OF assms(4,5)] assms(6) by blast
  then have q: "h \<notin> set (qs_fifo (pl_unconfirmed ?p))" using assms(1) n by (auto simp: pool_inv_def)
  have nc: "h \<notin> confirmed_hashes (pl_confirmed (dp_pool s'))"
    using n assms(7,8) by (simp add: s' confirmed_hashes_bt_insert [OF wf] received_block_info_def)
  have "pl_txs (dp_pool s') h = Some (Some tx)" using note_hashes_txs [OF assms(10), of new] by (simp add: s')
  then have "\<exists>e. put_transaction_internal E D tx' s' = (s', Inl e)" if "tx_get_primary_hash E tx' = h" for tx'
    using that admit_hash [of E D s' tx']
    by (auto simp: put_transaction_internal_def Let_def split: sum.splits)
  moreover have "h \<notin> confirmed_hashes (pl_confirmed p)" if "builder_run D b now (dp_db s') (dp_pool s') = Some p" for b now p
  proof -
    have "pool_inv (db_contains_transaction D (dp_db s)) (dp_pool s')"
      using add_received_block_inv [OF assms(1)] assms(2,3) by (simp add: assms(11) get_block_res_handler_def Let_def)
    from builder_run_names [OF that this _ nc] q show ?thesis by (simp add: s')
  qed
  ultimately show ?thesis using q nc assms(9) by (simp add: s')
qed

text \<open>Concrete runs: the pool of \<open>Ledger\<close> with its genesis block; and a node that has built blocks 0 and 1
  and receives another block 1.\<close>

theorem pipeline_loses_nothing_witness:
  "\<exists>x'. executor_run demo_env demo_D (demo_wm demo_D) (\<lambda>_. False) (\<lambda>_ _. Inr True) True demo_executor = Some x' \<and>
     (hash_default \<in> confirmed_hashes (pl_confirmed (ex_pool x')) \<or> executed_in (rd_snap (ex_db x')) hash_default)"
proof -
  have p: "ex_pool demo_executor = demo_confirmed" and s0: "rd_snap (ex_db demo_executor) = store_empty"
    by (simp_all add: demo_executor_def executor_new_def rocks_new_def mem_merkledb_def)
  have pi: "pool_inv (stored_in (rd_snap (ex_db demo_executor))) (ex_pool demo_executor)"
    by (simp add: p pool_inv_def demo_confirmed_def demo_block_info_def confirmed_hashes_def qs_new_def qs_inv_def bt_wf_def)
  have h: "builder_height demo_D (ex_db demo_executor) (ex_pool demo_executor) = 1"
    by (simp add: p demo_confirmed_def builder_height_def bt_last_def)
  have c: "chunks 1 (qs_fifo (pl_unconfirmed (ex_pool demo_executor))) = []"
    by (simp add: p demo_confirmed_def qs_new_def)
  have "builder_run demo_D \<lparr>bu_threshold = 1\<rparr> (\<lambda>_. 9) (ex_db demo_executor) (ex_pool demo_executor) = Some demo_confirmed"
    by (simp add: builder_run_def builder_loop.simps builder_while.simps p demo_confirmed_def qs_new_def qs_len_def)
  moreover have x: "demo_executor\<lparr>ex_pool := demo_confirmed\<rparr> = demo_executor"
    by (simp add: demo_executor_def executor_new_def)
  moreover obtain x' where "executor_run demo_env demo_D (demo_wm demo_D) (\<lambda>_. False) (\<lambda>_ _. Inr True) True
      demo_executor = Some x'" using demo_run by blast
  moreover have "tracked (rd_snap (ex_db demo_executor)) (ex_pool demo_executor) hash_default"
    by (simp add: tracked_def p demo_confirmed_def confirmed_hashes_def demo_block_info_def)
  moreover have "u64_max \<notin> fst ` set (pl_confirmed (ex_pool demo_executor))"
    by (simp add: p demo_confirmed_def u64_max_def)
  ultimately show ?thesis
    using pipeline_loses_nothing [OF demo_contract demo_inv pi, of "\<lparr>bu_threshold = 1\<rparr>" "\<lambda>_. 9" demo_confirmed
      "\<lambda>_. False" "\<lambda>_ _. Inr True" True x' hash_default] h c
    by auto
qed

definition demo_two_blocks :: "store rocks_db dispatcher" where
  "demo_two_blocks = demo_dispatcher\<lparr>dp_pool :=
     \<lparr>pl_txs = [Hash [1] \<mapsto> Some demo_signed_tx], pl_unconfirmed = qs_new,
      pl_confirmed = [(1, new_block_info [Hash [1]] 0)]\<rparr>\<rparr>"

definition demo_other_block :: block where
  "demo_other_block = \<lparr>blk_data = \<lparr>bd_validator = None, bd_height = 1, bd_size = 0, bd_prev_hash = hash_default,
     bd_txs_hash = hash_default, bd_rxs_hash = hash_default, bd_state_hash = hash_default, bd_timestamp = 0\<rparr>,
     blk_signature = []\<rparr>"

theorem replaced_block_strands_transactions_witness:
  "Hash [1] \<in> confirmed_hashes (pl_confirmed (dp_pool demo_two_blocks)) \<and>
   Hash [1] \<notin> confirmed_hashes (pl_confirmed (dp_pool
     (get_block_res_handler demo_env demo_ops demo_other_block (Some []) None demo_two_blocks)))"
proof -
  have 0: "rd_snap (dp_db demo_two_blocks) = store_empty" "dp_aligned demo_two_blocks"
    by (simp_all add: demo_two_blocks_def demo_dispatcher_def rocks_new_def mem_merkledb_def)
  then have "missing_start demo_ops (dp_db demo_two_blocks) + 1 = bd_height (blk_data demo_other_block)"
    by (simp add: missing_start_def demo_ops_def rocks_load_block_def st_load_block_def store_empty_def demo_other_block_def)
  moreover have "\<not> db_contains_transaction demo_ops (dp_db demo_two_blocks) h" for h
    using 0 by (simp add: demo_ops_def rocks_contains_transaction_def store_empty_def)
  moreover have "pool_inv stored (dp_pool demo_two_blocks)" for stored
    by (simp add: pool_inv_def demo_two_blocks_def new_block_info_def confirmed_hashes_def qs_new_def qs_inv_def bt_wf_def)
  ultimately show ?thesis
    using replaced_block_strands_transactions [of demo_ops demo_two_blocks demo_other_block
      "new_block_info [Hash [1]] 0" "[Hash [1]]" "Hash [1]" "[]" demo_signed_tx _ demo_env None] 0
    by (simp add: demo_two_blocks_def demo_other_block_def new_block_info_def bt_remove_def confirmed_hashes_def)
qed

end
