(* ===== verification/Services.thy ===== *)
theory Services
  imports Worker Ledger
begin

text \<open>
  The services: \<^verbatim>\<open>src/blockchain/service.rs\<close>, \<^verbatim>\<open>src/bridge/service.rs\<close>, \<^verbatim>\<open>src/kafka/service.rs\<close>,
  \<^verbatim>\<open>src/rest/service.rs\<close> and \<^verbatim>\<open>src/p2p/service.rs\<close>. Each runs its worker in a thread and tells whether that is
  alive by the number of references to a shared value. The count is part of the state: it is one when the service is
  made, a thread that starts gets a clone, and drops it when its closure ends, by returning or by a panic. A thread
  that was started can end at any time (\<open>block_thread_end\<close> and its like); joining it waits for that.
\<close>

section \<open>Threads\<close>

datatype thread_status = Running | Finished | Panicked

section \<open>The blockchain service\<close>

text \<open>\<open>sv_core\<close> is the worker, with the structures it shares; \<open>sv_worker\<close> says whether the service holds it
  (\<open>Some\<close> in the code) or it was moved to a thread, and \<open>sv_handler\<close> is the handle of that thread. \<open>sv_chan\<close>
  is the content of the channel to the worker, whose receiver lives in the worker, so it stays open.\<close>

record ('d, 'w) block_service =
  sv_core :: "('d, 'w) worker"
  sv_worker :: bool
  sv_handler :: "thread_status option"
  sv_chan :: "message list"
  sv_canary :: nat                            \<comment> \<open>the strong count of \<open>canary\<close>\<close>
  sv_account_id :: string

definition block_service_new ::
    "string \<Rightarrow> block_config \<Rightarrow> 'd \<Rightarrow> 'w \<Rightarrow> seed_source \<Rightarrow> string \<Rightarrow> ('d, 'w) block_service" where
  "block_service_new account_id config db wm seed p2p_id =
     \<lparr>sv_core = worker_new config db wm seed p2p_id, sv_worker = True, sv_handler = None, sv_chan = [],
      sv_canary = 1, sv_account_id = account_id\<rparr>"

definition block_service_start :: "('d, 'w) block_service \<Rightarrow> ('d, 'w) block_service" where
  "block_service_start s =
     (if sv_worker s then s\<lparr>sv_worker := False, sv_handler := Some Running, sv_canary := sv_canary s + 1\<rparr> else s)"

text \<open>The end of the thread: the worker as it leaves it, the messages left in the channel, one reference less.\<close>

definition block_thread_end ::
    "thread_status \<Rightarrow> ('d, 'w) worker \<Rightarrow> message list \<Rightarrow> ('d, 'w) block_service \<Rightarrow> ('d, 'w) block_service" where
  "block_thread_end ended w left s =
     s\<lparr>sv_handler := Some ended, sv_core := w, sv_chan := left, sv_canary := sv_canary s - 1\<rparr>"

text \<open>What joining a thread that still runs brings: how it ends, the worker it returns and the messages it has left in the
  channel. A thread that has ended before leaves the new message \<open>Stop\<close> there. \<open>None\<close> is the panic of
  \<open>join().unwrap()\<close>.\<close>

definition block_service_stop ::
    "thread_status \<Rightarrow> ('d, 'w) worker \<Rightarrow> message list \<Rightarrow> ('d, 'w) block_service \<Rightarrow> ('d, 'w) block_service option" where
  "block_service_stop ends w left s =
     (case sv_handler s of
        None \<Rightarrow> Some s
      | Some Running \<Rightarrow>
          if ends = Finished
          then Some ((block_thread_end Finished w left s)\<lparr>sv_handler := None, sv_worker := True\<rparr>) else None
      | Some Finished \<Rightarrow> Some (s\<lparr>sv_handler := None, sv_chan := sv_chan s @ [Stop], sv_worker := True\<rparr>)
      | Some Panicked \<Rightarrow> None)"

definition block_service_is_running :: "('d, 'w) block_service \<Rightarrow> bool" where
  "block_service_is_running s \<longleftrightarrow> sv_canary s = 2 \<and> \<not> sv_worker s"

definition request_channel_send :: "message \<Rightarrow> ('d, 'w) block_service \<Rightarrow> ('d, 'w) block_service" where
  "request_channel_send msg s = s\<lparr>sv_chan := sv_chan s @ [msg]\<rparr>"

definition db_arc :: "('d, 'w) block_service \<Rightarrow> 'd" where
  "db_arc s = dp_db (wk_dispatcher (sv_core s))"

definition wm_arc :: "('d, 'w) block_service \<Rightarrow> 'w" where
  "wm_arc s = wk_wm (sv_core s)"

text \<open>The setters: \<open>None\<close> is the panic of a service that is started.\<close>

definition set_block_config ::
    "string \<Rightarrow> nat \<Rightarrow> u16 \<Rightarrow> ('d, 'w) block_service \<Rightarrow> ('d, 'w) block_service option" where
  "set_block_config network threshold timeout s =
     (if sv_worker s then Some (s\<lparr>sv_core := worker_set_config network threshold timeout (sv_core s)\<rparr>) else None)"

definition mp_settings :: "blockchain_settings \<Rightarrow> mp_value" where
  "mp_settings c =
     MpArr [MpBool (se_accept_broadcast c), MpUInt (se_block_threshold c), MpUInt (unat (se_block_timeout c)),
            MpStr (se_burning_fuel_method c), mp_option MpStr (se_network_name c), MpBool (se_is_production c),
            MpStr (se_min_node_version c)]"

definition store_config_into_db ::
    "env \<Rightarrow> ('d, 'f) db_ops \<Rightarrow> blockchain_settings \<Rightarrow> ('d, 'w) block_service \<Rightarrow> ('d, 'w) block_service option" where
  "store_config_into_db E D config s =
     (let w = sv_core s; d = wk_dispatcher w;
          fork = fk_store_configuration D (db_fork_create D (dp_db d)) ''blockchain:settings'' (e_rmp E (mp_settings config))
      in case db_fork_merge D (dp_db d) fork of
           Inl _ \<Rightarrow> None
         | Inr db \<Rightarrow> Some (s\<lparr>sv_core := w\<lparr>wk_dispatcher := d\<lparr>dp_db := db\<rparr>\<rparr>\<rparr>))"

text \<open>The validator closure is an argument of the definitions that call it: the result is the one to use from here
  on.\<close>

definition service_set_validator ::
    "('d \<Rightarrow> string \<Rightarrow> bool result) \<Rightarrow> ('d, 'w) block_service \<Rightarrow> ('d \<Rightarrow> string \<Rightarrow> bool result) option" where
  "service_set_validator is_val s = (if sv_worker s then Some is_val else None)"

definition service_put_txs ::
    "env \<Rightarrow> ('d, 'f) db_ops \<Rightarrow> transaction list \<Rightarrow> ('d, 'w) block_service \<Rightarrow> ('d, 'w) block_service option" where
  "service_put_txs E D txs s =
     (if sv_worker s
      then map_option (\<lambda>d. s\<lparr>sv_core := (sv_core s)\<lparr>wk_dispatcher := d\<rparr>\<rparr>)
             (worker_put_txs E D txs (wk_dispatcher (sv_core s)))
      else None)"

definition service_set_burn_fuel_method ::
    "string \<Rightarrow> ('d, 'w) block_service \<Rightarrow> ('d, 'w) block_service option" where
  "service_set_burn_fuel_method mthd s =
     (if sv_worker s then Some (s\<lparr>sv_core := worker_set_burn_fuel_method mthd (sv_core s)\<rparr>) else None)"

section \<open>The event loop of the worker\<close>

text \<open>One poll of \<open>BlockWorker::run\<close> over the messages that are ready: the worker after it, the requests for which a
  task was spawned, the messages left in the channel, and whether the loop is done.\<close>

fun poll_requests ::
    "('d, 'f) db_ops \<Rightarrow> bool \<Rightarrow> nat \<Rightarrow> message list \<Rightarrow> bool \<Rightarrow> ('d, 'w) worker \<Rightarrow>
     ('d, 'w) worker \<times> message list \<times> message list \<times> bool" where
  "poll_requests D locked threshold [] ended w = (w, [], [], ended)"
| "poll_requests D locked threshold (msg # msgs) ended w =
     (if msg = Stop then (w, [], msgs, True)
      else case poll_requests D locked threshold msgs ended (worker_received D locked threshold w) of
             (w', handled, left, done) \<Rightarrow> (w', msg # handled, left, done))"

text \<open>The timer that is ready \<open>ticks\<close> times comes first.\<close>

definition worker_poll ::
    "('d, 'f) db_ops \<Rightarrow> bool \<Rightarrow> nat \<Rightarrow> nat \<Rightarrow> message list \<Rightarrow> bool \<Rightarrow> ('d, 'w) worker \<Rightarrow>
     ('d, 'w) worker \<times> message list \<times> message list \<times> bool" where
  "worker_poll D locked threshold ticks msgs ended w =
     poll_requests D locked threshold msgs ended ((worker_tick D locked ^^ ticks) w)"

text \<open>The start of \<open>BlockWorker::run\<close>: the validator closure decides once what kind of node this is.\<close>

definition worker_begin :: "('d \<Rightarrow> string \<Rightarrow> bool result) \<Rightarrow> string \<Rightarrow> ('d, 'w) worker \<Rightarrow> ('d, 'w) worker" where
  "worker_begin is_val account_id w =
     w\<lparr>wk_is_validator := (case is_val (dp_db (wk_dispatcher w)) account_id of Inr v \<Rightarrow> v | Inl _ \<Rightarrow> False)\<rparr>"

section \<open>The other services\<close>

text \<open>The bridge and the Kafka service hold a worker and never take it back: stopping is not implemented.\<close>

record worker_service =
  ws_addr :: string
  ws_port :: u16
  ws_worker :: bool
  ws_handler :: "thread_status option"
  ws_canary :: nat

definition bridge_service_new :: "string \<Rightarrow> u16 \<Rightarrow> worker_service" where
  "bridge_service_new addr port = \<lparr>ws_addr = addr, ws_port = port, ws_worker = True, ws_handler = None, ws_canary = 1\<rparr>"

definition bridge_service_start :: "worker_service \<Rightarrow> worker_service" where
  "bridge_service_start s =
     (if ws_worker s then s\<lparr>ws_worker := False, ws_handler := Some Running, ws_canary := ws_canary s + 1\<rparr> else s)"

definition bridge_service_stop :: "worker_service \<Rightarrow> worker_service" where
  "bridge_service_stop s = s"

definition bridge_service_is_running :: "worker_service \<Rightarrow> bool" where
  "bridge_service_is_running s \<longleftrightarrow> ws_canary s = 2"

definition worker_thread_end :: "thread_status \<Rightarrow> worker_service \<Rightarrow> worker_service" where
  "worker_thread_end ended s = s\<lparr>ws_handler := Some ended, ws_canary := ws_canary s - 1\<rparr>"

text \<open>\<open>created\<close> tells whether the Kafka producer could be made; its failure is a panic.\<close>

definition kafka_service_new :: "bool \<Rightarrow> string \<Rightarrow> u16 \<Rightarrow> worker_service option" where
  "kafka_service_new created addr port =
     (if created then Some \<lparr>ws_addr = addr, ws_port = port, ws_worker = True, ws_handler = None, ws_canary = 1\<rparr> else None)"

definition kafka_service_start :: "worker_service \<Rightarrow> worker_service" where
  "kafka_service_start s =
     (if ws_worker s then s\<lparr>ws_worker := False, ws_handler := Some Running, ws_canary := ws_canary s + 1\<rparr> else s)"

definition kafka_service_stop :: "worker_service \<Rightarrow> worker_service" where
  "kafka_service_stop s = s"

definition kafka_service_is_running :: "worker_service \<Rightarrow> bool" where
  "kafka_service_is_running s \<longleftrightarrow> ws_canary s = 2"

text \<open>The REST service spawns its server anew; dropping the handle leaves the thread alone, so the thread
  (\<open>rs_thread\<close>) and the handle (\<open>rs_handle\<close>) are two things.\<close>

record rest_service =
  rs_addr :: string
  rs_port :: u16
  rs_thread :: "thread_status option"
  rs_handle :: bool
  rs_canary :: nat

definition rest_service_new :: "string \<Rightarrow> u16 \<Rightarrow> rest_service" where
  "rest_service_new addr port = \<lparr>rs_addr = addr, rs_port = port, rs_thread = None, rs_handle = False, rs_canary = 1\<rparr>"

definition rest_service_is_running :: "rest_service \<Rightarrow> bool" where
  "rest_service_is_running s \<longleftrightarrow> rs_canary s = 2"

definition rest_service_start :: "rest_service \<Rightarrow> rest_service" where
  "rest_service_start s =
     (if rest_service_is_running s then s
      else s\<lparr>rs_thread := Some Running, rs_handle := True, rs_canary := rs_canary s + 1\<rparr>)"

definition rest_thread_end :: "thread_status \<Rightarrow> rest_service \<Rightarrow> rest_service" where
  "rest_thread_end ended s = s\<lparr>rs_thread := Some ended, rs_canary := rs_canary s - 1\<rparr>"

definition rest_service_stop :: "rest_service \<Rightarrow> rest_service" where
  "rest_service_stop s = s\<lparr>rs_handle := False\<rparr>"

text \<open>The peer-to-peer service counts the references to its configuration. Its \<open>stop\<close> joins a thread that nothing asks
  to end: \<open>ends\<close> is how that thread ends, \<open>None\<close> if it does not; the result \<open>None\<close> is a call that panics or never
  returns.\<close>

record peer_service =
  ps_active :: bool
  ps_network :: string
  ps_handle :: "thread_status option"
  ps_refs :: nat                              \<comment> \<open>the strong count of \<open>config\<close>\<close>

definition peer_service_new :: "bool \<Rightarrow> string \<Rightarrow> peer_service" where
  "peer_service_new active network = \<lparr>ps_active = active, ps_network = network, ps_handle = None, ps_refs = 1\<rparr>"

definition peer_service_is_running :: "peer_service \<Rightarrow> bool" where
  "peer_service_is_running s \<longleftrightarrow> ps_refs s = 2"

definition peer_service_start :: "peer_service \<Rightarrow> peer_service" where
  "peer_service_start s =
     (if peer_service_is_running s \<or> \<not> ps_active s then s
      else s\<lparr>ps_handle := Some Running, ps_refs := ps_refs s + 1\<rparr>)"

definition peer_thread_end :: "thread_status \<Rightarrow> peer_service \<Rightarrow> peer_service" where
  "peer_thread_end ended s = s\<lparr>ps_handle := Some ended, ps_refs := ps_refs s - 1\<rparr>"

definition peer_service_stop :: "thread_status option \<Rightarrow> peer_service \<Rightarrow> peer_service option" where
  "peer_service_stop ends s =
     (case ps_handle s of
        None \<Rightarrow> Some s
      | Some status \<Rightarrow>
          if status = Running
          then (if ends = Some Finished then Some ((peer_thread_end Finished s)\<lparr>ps_handle := None\<rparr>) else None)
          else if status = Finished then Some (s\<lparr>ps_handle := None\<rparr>)
          else None)"

definition set_network_name :: "string \<Rightarrow> peer_service \<Rightarrow> peer_service" where
  "set_network_name network_name s = s\<lparr>ps_network := network_name\<rparr>"

section \<open>What they have in common\<close>

text \<open>What a service reports and what its thread does: it reports to be running exactly while its thread is
  alive. A running service is left as it is by a start, one that can be started runs afterwards, and any other is left
  alone too.\<close>

locale service =
  fixes ok :: "'s \<Rightarrow> bool" and startable :: "'s \<Rightarrow> bool" and start :: "'s \<Rightarrow> 's" and is_running :: "'s \<Rightarrow> bool"
    and thread :: "'s \<Rightarrow> thread_status option" and thread_end :: "'e \<Rightarrow> 's \<Rightarrow> 's" and how :: "'e \<Rightarrow> thread_status"
  assumes alive: "ok s \<Longrightarrow> is_running s \<longleftrightarrow> thread s = Some Running"
    and running_not_startable: "ok s \<Longrightarrow> is_running s \<Longrightarrow> \<not> startable s"
    and starts: "ok s \<Longrightarrow> startable s \<Longrightarrow> ok (start s) \<and> thread (start s) = Some Running"
    and leaves: "ok s \<Longrightarrow> \<not> startable s \<Longrightarrow> start s = s"
    and ends: "ok s \<Longrightarrow> thread s = Some Running \<Longrightarrow> how e \<noteq> Running \<Longrightarrow>
      ok (thread_end e s) \<and> thread (thread_end e s) = Some (how e)"
begin

lemma start_idempotent: "ok s \<Longrightarrow> start (start s) = start s"
  using leaves running_not_startable starts alive by metis

lemma running_after_start: "ok s \<Longrightarrow> is_running (start s) \<longleftrightarrow> is_running s \<or> startable s"
  using leaves starts alive by metis

lemma start_ok: "ok s \<Longrightarrow> ok (start s)"
  using leaves starts by metis

lemma crash_detected: "ok s \<Longrightarrow> is_running s \<Longrightarrow> how e \<noteq> Running \<Longrightarrow> \<not> is_running (thread_end e s)"
  using ends alive by (metis option.inject)

end

definition alive_count :: "thread_status option \<Rightarrow> nat" where
  "alive_count t = (if t = Some Running then 2 else 1)"

definition block_service_ok :: "('d, 'w) block_service \<Rightarrow> bool" where
  "block_service_ok s \<longleftrightarrow> (sv_worker s \<longleftrightarrow> sv_handler s = None) \<and> sv_canary s = alive_count (sv_handler s)"

definition worker_service_ok :: "worker_service \<Rightarrow> bool" where
  "worker_service_ok s \<longleftrightarrow> (ws_worker s \<longleftrightarrow> ws_handler s = None) \<and> ws_canary s = alive_count (ws_handler s)"

definition rest_service_ok :: "rest_service \<Rightarrow> bool" where
  "rest_service_ok s \<longleftrightarrow> rs_canary s = alive_count (rs_thread s)"

definition peer_service_ok :: "peer_service \<Rightarrow> bool" where
  "peer_service_ok s \<longleftrightarrow> ps_refs s = alive_count (ps_handle s)"

lemmas service_defs = alive_count_def block_service_ok_def block_service_start_def block_service_is_running_def block_thread_end_def
  worker_service_ok_def worker_thread_end_def bridge_service_start_def bridge_service_is_running_def kafka_service_start_def
  kafka_service_is_running_def rest_service_ok_def rest_service_start_def rest_service_is_running_def rest_thread_end_def
  peer_service_ok_def peer_service_start_def peer_service_is_running_def peer_thread_end_def

interpretation block_svc: service block_service_ok sv_worker block_service_start block_service_is_running sv_handler
  "\<lambda>(ended, w, left). block_thread_end ended w left" fst
  by unfold_locales (auto simp: service_defs split: if_splits)

interpretation bridge_svc: service worker_service_ok ws_worker bridge_service_start bridge_service_is_running ws_handler
  worker_thread_end "\<lambda>e. e"
  by unfold_locales (auto simp: service_defs split: if_splits)

interpretation kafka_svc: service worker_service_ok ws_worker kafka_service_start kafka_service_is_running ws_handler
  worker_thread_end "\<lambda>e. e"
  by unfold_locales (auto simp: service_defs split: if_splits)

interpretation rest_svc: service rest_service_ok "\<lambda>s. \<not> rest_service_is_running s" rest_service_start rest_service_is_running
  rs_thread rest_thread_end "\<lambda>e. e"
  by unfold_locales (auto simp: service_defs split: if_splits)

interpretation peer_svc: service peer_service_ok "\<lambda>s. \<not> peer_service_is_running s \<and> ps_active s" peer_service_start
  peer_service_is_running ps_handle peer_thread_end "\<lambda>e. e"
  by unfold_locales (auto simp: service_defs split: if_splits)

section \<open>Polling\<close>

lemma poll_requests_spec:
  "poll_requests D locked threshold msgs ended w =
     ((worker_received D locked threshold ^^ length (takeWhile (\<lambda>m. m \<noteq> Stop) msgs)) w,
      takeWhile (\<lambda>m. m \<noteq> Stop) msgs, tl (dropWhile (\<lambda>m. m \<noteq> Stop) msgs), Stop \<in> set msgs \<or> ended)"
  by (induction msgs arbitrary: w) (auto simp: funpow_Suc_right simp del: funpow.simps)

section \<open>The life of the blockchain service\<close>

inductive block_service_reach ::
    "env \<Rightarrow> ('d, 'f) db_ops \<Rightarrow> ('d, 'w) block_service \<Rightarrow> ('d, 'w) block_service \<Rightarrow> bool" for E D s0 where
  New: "block_service_reach E D s0 s0"
| Start: "block_service_reach E D s0 s \<Longrightarrow> block_service_reach E D s0 (block_service_start s)"
| Stop: "block_service_reach E D s0 s \<Longrightarrow> block_service_stop ends w left s = Some s' \<Longrightarrow> block_service_reach E D s0 s'"
| ThreadEnd: "block_service_reach E D s0 s \<Longrightarrow> sv_handler s = Some Running \<Longrightarrow> ended \<noteq> Running \<Longrightarrow>
    block_service_reach E D s0 (block_thread_end ended w left s)"
| Request: "block_service_reach E D s0 s \<Longrightarrow> block_service_reach E D s0 (request_channel_send msg s)"
| SetConfig: "block_service_reach E D s0 s \<Longrightarrow> set_block_config nw th ti s = Some s' \<Longrightarrow> block_service_reach E D s0 s'"
| SetBurnFuel: "block_service_reach E D s0 s \<Longrightarrow> service_set_burn_fuel_method mthd s = Some s' \<Longrightarrow> block_service_reach E D s0 s'"
| PutTxs: "block_service_reach E D s0 s \<Longrightarrow> service_put_txs E D txs s = Some s' \<Longrightarrow> block_service_reach E D s0 s'"
| StoreConfig: "block_service_reach E D s0 s \<Longrightarrow> store_config_into_db E D settings s = Some s' \<Longrightarrow> block_service_reach E D s0 s'"

lemma block_service_stop_ok:
  "block_service_stop ends w left s = Some s' \<Longrightarrow> block_service_ok s \<Longrightarrow>
   block_service_ok s' \<and> sv_worker s' \<and> \<not> block_service_is_running s'"
  by (auto simp: block_service_stop_def service_defs split: option.splits thread_status.splits if_splits)

lemma block_service_reach_ok:
  "block_service_reach E D s0 s \<Longrightarrow> block_service_ok s0 \<Longrightarrow> block_service_ok s"
proof (induction rule: block_service_reach.induct)
  case (Start s)
  then show ?case using block_svc.start_ok by blast
next
  case (Stop s ends w left s')
  then show ?case using block_service_stop_ok by blast
next
  case (ThreadEnd s ended w left)
  with block_svc.ends [of s "(ended, w, left)"] show ?case by simp
qed (auto simp: block_service_ok_def request_channel_send_def set_block_config_def service_set_burn_fuel_method_def
      service_put_txs_def store_config_into_db_def Let_def split: if_splits sum.splits)

text \<open>C29. The life of the blockchain service. However a new service is started, stopped, configured and sent requests, and
  whenever its thread ends: the count of references it looks at is 2 exactly while its thread is alive, so it reports to be running
  exactly then; starting twice is starting once; a stop that returns leaves it stopped, and it can be started
  again; and the four setters (configuration, validator check, burning method, initial transactions) are refused, with a
  panic, from a start to the next stop, even if the thread has ended. Otherwise they are not, apart from initial transactions that the
  worker itself refuses.
\<close>

theorem block_service_lifecycle:
  assumes "block_service_reach E D (block_service_new account config db wm seed p2p) s"
  shows "(block_service_is_running s \<longleftrightarrow> sv_handler s = Some Running) \<and>
    block_service_start (block_service_start s) = block_service_start s \<and>
    (\<forall>ends w left s'. block_service_stop ends w left s = Some s' \<longrightarrow>
       \<not> block_service_is_running s' \<and> block_service_is_running (block_service_start s')) \<and>
    (set_block_config nw th ti s = None \<longleftrightarrow> sv_handler s \<noteq> None) \<and>
    (service_set_validator is_val s = None \<longleftrightarrow> sv_handler s \<noteq> None) \<and>
    (service_set_burn_fuel_method mthd s = None \<longleftrightarrow> sv_handler s \<noteq> None) \<and>
    (service_put_txs E D txs s = None \<longleftrightarrow>
       sv_handler s \<noteq> None \<or> worker_put_txs E D txs (wk_dispatcher (sv_core s)) = None)"
proof -
  have ok: "block_service_ok s"
    using assms by (rule block_service_reach_ok) (simp add: service_defs block_service_new_def)
  have "\<not> block_service_is_running s' \<and> block_service_is_running (block_service_start s')"
    if "block_service_stop ends w left s = Some s'" for ends w left s'
    using block_service_stop_ok [OF that ok] block_svc.running_after_start by blast
  moreover have "sv_worker s \<longleftrightarrow> sv_handler s = None" using ok by (simp add: block_service_ok_def)
  ultimately show ?thesis
    using block_svc.alive [OF ok] block_svc.start_idempotent [OF ok]
    by (auto simp: set_block_config_def service_set_validator_def service_set_burn_fuel_method_def service_put_txs_def)
qed

definition demo_service :: "(store rocks_db, unit) block_service" where
  "demo_service = block_service_new ''me'' \<lparr>bc_threshold = 1, bc_timeout = 1, bc_network = ''skynet'',
     bc_keypair = KpEd25519 [] []\<rparr> (rocks_new mem_merkledb store_empty) ()
     (seed_source_new [] [] hash_default hash_default hash_default) ''p''"

theorem block_service_lifecycle_witness:
  "block_service_is_running (block_service_start demo_service) \<and>
   service_put_txs demo_env demo_D [] (block_service_start demo_service) = None \<and>
   (\<exists>s'. block_service_stop Finished (sv_core demo_service) [] (block_service_start demo_service) = Some s' \<and> \<not> block_service_is_running s')"
proof -
  have r: "block_service_reach demo_env demo_D demo_service (block_service_start demo_service)"
    by (rule block_service_reach.Start [OF block_service_reach.New])
  have h: "sv_handler (block_service_start demo_service) = Some Running"
    by (simp add: demo_service_def block_service_new_def block_service_start_def)
  then obtain s' where "block_service_stop Finished (sv_core demo_service) [] (block_service_start demo_service) = Some s'"
    by (auto simp: block_service_stop_def)
  with h block_service_lifecycle [OF r [unfolded demo_service_def], folded demo_service_def] show ?thesis by blast
qed

text \<open>A message \<open>Stop\<close> that a client sends ends the thread; the \<open>stop\<close> that follows sends another one, to nobody. It is
  still in the channel when the service is started again, and ends the new thread before it has handled a request.\<close>

lemma restart_after_client_stop:
  assumes "sv_handler s = Some Finished" and "sv_chan s = []"
  shows "\<exists>s1. block_service_stop ends w left s = Some s1 \<and>
    worker_poll D locked threshold ticks (sv_chan (request_channel_send msg (block_service_start s1))) False w' =
      ((worker_tick D locked ^^ ticks) w', [], [msg], True)"
proof -
  let ?s1 = "s\<lparr>sv_handler := None, sv_chan := [Stop], sv_worker := True\<rparr>"
  have "block_service_stop ends w left s = Some ?s1" using assms by (simp add: block_service_stop_def)
  then show ?thesis
    by (simp add: worker_poll_def request_channel_send_def block_service_start_def)
qed

text \<open>The other services. A bridge or Kafka service whose thread has ended cannot be started again, though it says it
  is not running; and stopping the REST service stops nothing.\<close>

lemma bridge_never_restarts:
  assumes "worker_service_ok s" and "ws_handler s = Some ended" and "ended \<noteq> Running"
  shows "\<not> bridge_service_is_running (bridge_service_start s) \<and> \<not> kafka_service_is_running (kafka_service_start s)"
  using assms by (cases ended) (simp_all add: service_defs)

lemma rest_stop_keeps_running: "rest_service_is_running (rest_service_stop s) = rest_service_is_running s"
  by (simp add: rest_service_stop_def rest_service_is_running_def)

lemma peer_stop_waits: "peer_service_ok s \<Longrightarrow> peer_service_is_running s \<Longrightarrow> peer_service_stop None s = None"
  by (auto simp: peer_service_stop_def service_defs split: if_splits)

section \<open>Settings\<close>

text \<open>C30. The settings stored at the start of a node are the ones its dispatcher serves: after
  \<open>store_config_into_db\<close> a request for the network name is answered with the name in those settings. (The settings must be
  decoded as they were encoded, and name a network.)
\<close>

theorem stored_settings_are_served:
  assumes "db_contract E D snap absf dinv" and "dinv (db_arc s)"
    and "store_config_into_db E D config s = Some s'"
    and "cd_settings C (e_rmp E (mp_settings config)) = Some config" and "se_network_name config = Some network"
  shows "get_network_id_handler C D (wk_dispatcher (sv_core s')) = Some (GetNetworkIdResponse network) \<and>
    st_blocks (snap (db_arc s')) = st_blocks (snap (db_arc s))"
proof -
  let ?d = "wk_dispatcher (sv_core s)"
  let ?f = "fk_store_configuration D (db_fork_create D (dp_db ?d)) ''blockchain:settings'' (e_rmp E (mp_settings config))"
  from assms(3) obtain db where m: "db_fork_merge D (dp_db ?d) ?f = Inr db"
    and s': "s' = s\<lparr>sv_core := (sv_core s)\<lparr>wk_dispatcher := ?d\<lparr>dp_db := db\<rparr>\<rparr>\<rparr>"
    by (auto simp: store_config_into_db_def Let_def split: sum.splits)
  have inv: "dinv (dp_db ?d)" using assms(2) by (simp add: db_arc_def)
  have a: "absf ?f = fa_write (st_store_configuration ''blockchain:settings'' (e_rmp E (mp_settings config)))
      (fa_new (snap (dp_db ?d)))"
    using db_contract.f_run_op [OF assms(1), of "FStoreConfiguration ''blockchain:settings'' (e_rmp E (mp_settings config))"]
      db_contract.fork_create [OF assms(1) inv] by simp
  from db_contract.fork_merge [OF assms(1) inv _ m] a
  have snap: "snap db = st_store_configuration ''blockchain:settings'' (e_rmp E (mp_settings config)) (snap (dp_db ?d))"
    by simp
  then show ?thesis
    using assms(4,5) db_contract.load_configuration [OF assms(1), of db]
    by (simp add: s' get_network_id_handler_def db_arc_def st_store_configuration_def)
qed

definition demo_settings :: blockchain_settings where
  "demo_settings = \<lparr>se_accept_broadcast = False, se_block_threshold = 1, se_block_timeout = 3, se_burning_fuel_method = [],
     se_network_name = Some ''skynet'', se_is_production = False, se_min_node_version = ''0.2.6''\<rparr>"

definition settings_codec :: "'d codec" where
  "settings_codec = \<lparr>cd_multi = (\<lambda>_. None), cd_settings = (\<lambda>_. Some demo_settings), cd_ro = None\<rparr>"

theorem stored_settings_are_served_witness:
  "\<exists>s'. store_config_into_db demo_env demo_D demo_settings demo_service = Some s' \<and>
     get_network_id_handler settings_codec demo_D (wk_dispatcher (sv_core s')) = Some (GetNetworkIdResponse ''skynet'')"
proof -
  have c: "db_contract demo_env demo_D rd_snap (\<lambda>f. f) (rocks_inv mem_merkledb)"
    unfolding demo_D_def by (rule mem.rocks_contract)
  have i: "rocks_inv mem_merkledb (db_arc demo_service)"
    by (simp add: db_arc_def demo_service_def block_service_new_def worker_new_def rocks_inv_def rocks_new_def)
  obtain s' where s': "store_config_into_db demo_env demo_D demo_settings demo_service = Some s'"
    by (simp add: store_config_into_db_def Let_def demo_D_def rocks_fork_merge_def mem_merkledb_def)
  from stored_settings_are_served [OF c i s', of settings_codec "''skynet''"] s' show ?thesis
    by (simp add: settings_codec_def demo_settings_def)
qed

end
