(* ===== verification/Kafka.thy ===== *)
theory Kafka
  imports PubSub Db "HOL-Library.Monad_Syntax"
begin

text \<open>
  \<^verbatim>\<open>src/kafka/worker.rs\<close>: a subscriber of the blockchain service that passes contract events and executed blocks on
  to a Kafka server, as records of a topic and a text. \<open>None\<close> is a panic.
\<close>

section \<open>Definitions\<close>

definition SMARTCONTRACT_EVENT :: string where "SMARTCONTRACT_EVENT = ''trinci_messages_transaction_event''"
definition BLOCK_EVENT :: string where "BLOCK_EVENT = ''trinci_messages_get_block_response''"

text \<open>A record handed to the producer: its topic and its value.\<close>

type_synonym kafka_record = "string \<times> string"

definition send_to_kafka :: "env \<Rightarrow> string \<Rightarrow> message \<Rightarrow> kafka_record option" where
  "send_to_kafka E topic payload = do {
     v \<leftarrow> mp_message payload;
     Some (topic, e_hex E (e_rmp E v))
   }"

definition handle_msg :: "env \<Rightarrow> message \<Rightarrow> kafka_record list option" where
  "handle_msg E msg =
     (case msg of
        GetContractEvent _ \<Rightarrow> map_option (\<lambda>r. [r]) (send_to_kafka E SMARTCONTRACT_EVENT msg)
      | GetBlockResponse _ _ _ \<Rightarrow> map_option (\<lambda>r. [r]) (send_to_kafka E BLOCK_EVENT msg)
      | _ \<Rightarrow> Some [])"

definition kafka_subscription :: message where
  "kafka_subscription = Subscribe ''kafka'' (EV_CONTRACT_EVENTS OR EV_BLOCK_EXEC)"

text \<open>One poll over the messages that are ready; \<open>ended\<close> says that the channel was closed, which ends the
  worker.\<close>

fun kafka_poll :: "env \<Rightarrow> message list \<Rightarrow> bool \<Rightarrow> (kafka_record list \<times> bool) option" where
  "kafka_poll E [] ended = Some ([], ended)"
| "kafka_poll E (msg # msgs) ended = do {
     rs \<leftarrow> handle_msg E msg;
     (rest, exit) \<leftarrow> kafka_poll E msgs ended;
     Some (rs @ rest, exit)
   }"

definition kafka_event :: "message \<Rightarrow> bool" where
  "kafka_event msg = (case msg of GetContractEvent _ \<Rightarrow> True | GetBlockResponse _ _ _ \<Rightarrow> True | _ \<Rightarrow> False)"

definition kafka_record_of :: "env \<Rightarrow> message \<Rightarrow> kafka_record" where
  "kafka_record_of E msg =
     ((case msg of GetContractEvent _ \<Rightarrow> SMARTCONTRACT_EVENT | _ \<Rightarrow> BLOCK_EVENT), e_hex E (e_rmp E (the (mp_message msg))))"

lemma handle_msg_spec: "handle_msg E msg = Some (if kafka_event msg then [kafka_record_of E msg] else [])"
  by (cases msg) (simp_all add: handle_msg_def kafka_event_def kafka_record_of_def send_to_kafka_def mp_message_def)

lemma kafka_poll_spec: "kafka_poll E msgs ended = Some (map (kafka_record_of E) (filter kafka_event msgs), ended)"
  by (induction msgs) (simp_all add: handle_msg_spec)

text \<open>Subscribed as the worker subscribes, at the top level, an open channel is sent exactly the messages of the
  two events, as they are.\<close>

lemma kafka_subscribed:
  "subscribe pubsub_new ''kafka'' (EV_CONTRACT_EVENTS OR EV_BLOCK_EXEC) 0 chan =
     \<lparr>ps_events_sub = [(EV_CONTRACT_EVENTS, [(''kafka'', \<lparr>si_pack_level = 0, si_chan = chan\<rparr>)]),
        (EV_BLOCK_EXEC, [(''kafka'', \<lparr>si_pack_level = 0, si_chan = chan\<rparr>)])]\<rparr>"
proof -
  have "events_of 40 = [8, 32]" by (simp add: events_of_def EVENTS_NUM_def event_flag_def upt_rec)
  then show ?thesis
    by (simp add: subscribe_fold EV_CONTRACT_EVENTS_def EV_BLOCK_EXEC_def subscribe_one_def pubsub_new_def)
qed

text \<open>What is published reaches the Kafka server. With the subscription of the worker, whatever is published is
  passed on as one record, in hexadecimal under the topic of its kind, if it is a contract event published as such
  or a block published when it was executed; nothing else is passed on, and no message makes the worker panic.
\<close>

theorem kafka_passes_events_on:
  assumes "\<not> closed chan"
    and "publish E closed (subscribe pubsub_new ''kafka'' (EV_CONTRACT_EVENTS OR EV_BLOCK_EXEC) 0 chan) event msg = (p, sent)"
  shows "kafka_poll E (map snd sent) ended =
    Some (if (event = EV_CONTRACT_EVENTS \<or> event = EV_BLOCK_EXEC) \<and> kafka_event msg then [kafka_record_of E msg] else [], ended)"
proof -
  from assms have "sent = (if event = EV_CONTRACT_EVENTS \<or> event = EV_BLOCK_EXEC then [(chan, msg)] else [])"
    by (auto simp: publish_def kafka_subscribed Let_def split: if_splits option.splits)
  then show ?thesis by (simp add: kafka_poll_spec)
qed

theorem kafka_passes_events_on_witness:
  "\<exists>p sent. publish demo_env (\<lambda>_. False) (subscribe pubsub_new ''kafka'' (EV_CONTRACT_EVENTS OR EV_BLOCK_EXEC) 0 4)
     EV_BLOCK_EXEC (GetBlockResponse demo_block (Some []) None) = (p, sent) \<and>
   kafka_poll demo_env (map snd sent) False = Some ([kafka_record_of demo_env (GetBlockResponse demo_block (Some []) None)], False)"
proof -
  obtain p sent where p: "publish demo_env (\<lambda>_. False) (subscribe pubsub_new ''kafka'' (EV_CONTRACT_EVENTS OR EV_BLOCK_EXEC) 0 4)
     EV_BLOCK_EXEC (GetBlockResponse demo_block (Some []) None) = (p, sent)" by force
  from kafka_passes_events_on [OF _ p, of False] p show ?thesis by (simp add: kafka_event_def)
qed

end
