(* ===== verification/Monitor.thy ===== *)
theory Monitor
  imports Dispatching "HOL-Library.Monad_Syntax"
begin

text \<open>
  The feature \<open>rt-monitor\<close>: \<^verbatim>\<open>src/network_monitor\<close>, which posts what a node does to a web service, and the blocks of the
  dispatcher, the executor and the network that call it. serde\_json and isahc are the argument \<open>M\<close>.
\<close>

section \<open>The tools\<close>

datatype monitor_action = BlockProduced | BlockRecieved | TransactionProduced | TransactionRecieved

record monitor_event =
  me_peer_id :: string
  me_action :: monitor_action
  me_payload :: string
  me_network :: string

record node_topology =
  nt_peer_id :: string
  nt_neighbours :: "string list"
  nt_network :: string

definition ADDRESS_ACTION :: string where
  "ADDRESS_ACTION = ''https://monitor.affidaty.net/api/v1/nodesMonitor/sendAction''"

definition ADDRESS_TOPOLOGY :: string where
  "ADDRESS_TOPOLOGY = ''https://monitor.affidaty.net/api/v1/nodesMonitor/sendTopology''"

text \<open>The texts of the structures, if they can be written, and which requests can be made.\<close>

record monitor_env =
  mo_event_json :: "monitor_event \<Rightarrow> string option"
  mo_topology_json :: "node_topology \<Rightarrow> string option"
  mo_transaction_json :: "transaction \<Rightarrow> string option"
  mo_block_json :: "block \<Rightarrow> string option"
  mo_request_ok :: "string \<Rightarrow> string \<Rightarrow> bool"

text \<open>The request that is sent, if any; every failure is only logged.\<close>

definition send_update :: "monitor_env \<Rightarrow> monitor_event \<Rightarrow> (string \<times> string) option" where
  "send_update M message = do {
     request \<leftarrow> mo_event_json M message;
     (if mo_request_ok M ADDRESS_ACTION request then Some (ADDRESS_ACTION, request) else None)
   }"

definition send_topology :: "monitor_env \<Rightarrow> node_topology \<Rightarrow> (string \<times> string) option" where
  "send_topology M message = do {
     request \<leftarrow> mo_topology_json M message;
     (if mo_request_ok M ADDRESS_TOPOLOGY request then Some (ADDRESS_TOPOLOGY, request) else None)
   }"

section \<open>Who calls them\<close>

text \<open>The outer \<open>None\<close> is a panic: each of the three \<open>unwrap\<close>s fails when the settings are missing.\<close>

definition monitored_network :: "'d codec \<Rightarrow> ('d, 'f) db_ops \<Rightarrow> 'd \<Rightarrow> string option" where
  "monitored_network C D db = do {
     buf \<leftarrow> db_load_configuration D db ''blockchain:settings'';
     config \<leftarrow> cd_settings C buf;
     se_network_name config
   }"

definition monitor_action_update ::
    "monitor_env \<Rightarrow> 'd codec \<Rightarrow> ('d, 'f) db_ops \<Rightarrow> 'd \<Rightarrow> string \<Rightarrow> monitor_action \<Rightarrow> string option \<Rightarrow> (string \<times> string) option option" where
  "monitor_action_update M C D db peer_id action json = do {
     network_name \<leftarrow> monitored_network C D db;
     payload \<leftarrow> json;
     Some (send_update M \<lparr>me_peer_id = peer_id, me_action = action, me_payload = payload, me_network = network_name\<rparr>)
   }"

text \<open>\<open>put_transaction_handler\<close> after an admission, \<open>get_transaction_res_handler\<close>, \<open>get_block_res_handler\<close>, and \<open>exec_block\<close>.\<close>

definition monitor_put_transaction :: "monitor_env \<Rightarrow> 'd codec \<Rightarrow> ('d, 'f) db_ops \<Rightarrow> transaction \<Rightarrow> 'd dispatcher \<Rightarrow>
    (string \<times> string) option option" where
  "monitor_put_transaction M C D tx s =
     monitor_action_update M C D (dp_db s) (dp_p2p_id s) TransactionProduced (mo_transaction_json M tx)"

definition monitor_get_transaction :: "monitor_env \<Rightarrow> 'd codec \<Rightarrow> ('d, 'f) db_ops \<Rightarrow> transaction \<Rightarrow> 'd dispatcher \<Rightarrow>
    (string \<times> string) option option" where
  "monitor_get_transaction M C D tx s =
     monitor_action_update M C D (dp_db s) (dp_p2p_id s) TransactionRecieved (mo_transaction_json M tx)"

definition monitor_get_block :: "monitor_env \<Rightarrow> 'd codec \<Rightarrow> ('d, 'f) db_ops \<Rightarrow> block \<Rightarrow> 'd dispatcher \<Rightarrow>
    (string \<times> string) option option" where
  "monitor_get_block M C D block s =
     monitor_action_update M C D (dp_db s) (dp_p2p_id s) BlockRecieved (mo_block_json M block)"

definition monitor_exec_block :: "monitor_env \<Rightarrow> 'd codec \<Rightarrow> ('d, 'f) db_ops \<Rightarrow> 'd \<Rightarrow> string \<Rightarrow> u64 \<Rightarrow> block \<Rightarrow>
    (string \<times> string) option option" where
  "monitor_exec_block M C D db p2p_id height block =
     (if height > 0 then monitor_action_update M C D db p2p_id BlockProduced (mo_block_json M block) else Some None)"

text \<open>The network's handlers of gossip subscriptions and of lost peers; \<open>peers\<close> are the peers gossip knows.\<close>

definition monitor_topology :: "monitor_env \<Rightarrow> string \<Rightarrow> string \<Rightarrow> string list \<Rightarrow> (string \<times> string) option" where
  "monitor_topology M peer_id network_name peers =
     send_topology M \<lparr>nt_peer_id = peer_id, nt_neighbours = peers, nt_network = network_name\<rparr>"

section \<open>Properties\<close>

text \<open>Reporting an event succeeds exactly when the settings name a network and the payload can be written; the genesis
  block alone is not reported. Before the settings are stored every transaction and block that comes in is a panic.\<close>

lemma monitor_action_update_iff:
  "monitor_action_update M C D db i act json = None \<longleftrightarrow> monitored_network C D db = None \<or> json = None"
  by (auto simp: monitor_action_update_def bind_eq_None_conv)

lemma monitor_panics_before_settings:
  assumes "db_load_configuration D (dp_db s) ''blockchain:settings'' = None"
  shows "monitor_put_transaction M C D tx s = None" "monitor_get_transaction M C D tx s = None"
    "monitor_get_block M C D block s = None" "height > 0 \<Longrightarrow> monitor_exec_block M C D (dp_db s) i height block = None"
    "monitor_exec_block M C D (dp_db s) i 0 block = Some None"
  using assms
  by (simp_all add: monitor_put_transaction_def monitor_get_transaction_def monitor_get_block_def monitor_exec_block_def
      monitor_action_update_def monitored_network_def)

end
