(* ===== verification/Indexer.thy ===== *)
theory Indexer
  imports Crypto
begin

text \<open>
  \<^verbatim>\<open>src/blockchain/indexer.rs\<close>, the optional feature that writes every asset update of a block to an external
  database, as one bulk request of JSON documents; and \<^verbatim>\<open>src/base/serialize.rs\<close>. The crates serde\_json, uuid, curl
  and rmp-serde's reader are the argument \<open>X\<close>; the two \<open>static mut\<close> variables and the identifiers drawn
  so far are explicit state.
\<close>

section \<open>MessagePack\<close>

text \<open>\<open>to_vec\<close> and \<open>from_slice\<close> are rmp-serde's, at the type in question.\<close>

definition rmp_serialize :: "('a \<Rightarrow> string + bytes) \<Rightarrow> 'a \<Rightarrow> bytes result" where
  "rmp_serialize to_vec val = (case to_vec val of Inl err \<Rightarrow> Inl (error_new_ext MalformedData err) | Inr bs \<Rightarrow> Inr bs)"

definition rmp_deserialize :: "(bytes \<Rightarrow> string + 'a) \<Rightarrow> bytes \<Rightarrow> 'a result" where
  "rmp_deserialize from_slice buf =
     (case from_slice buf of Inl err \<Rightarrow> Inl (error_new_ext MalformedData err) | Inr val \<Rightarrow> Inr val)"

text \<open>The methods of the trait \<open>MessagePack\<close>; \<open>None\<close> is a panic.\<close>

definition messagepack_serialize :: "('a \<Rightarrow> string + bytes) \<Rightarrow> 'a \<Rightarrow> bytes option" where
  "messagepack_serialize to_vec val = (case rmp_serialize to_vec val of Inl _ \<Rightarrow> None | Inr bs \<Rightarrow> Some bs)"

definition messagepack_deserialize :: "(bytes \<Rightarrow> string + 'a) \<Rightarrow> bytes \<Rightarrow> 'a result" where
  "messagepack_deserialize from_slice buf = rmp_deserialize from_slice buf"

section \<open>Documents\<close>

datatype json = JNull | JBool bool | JNum nat | JStr string | JArr "json list" | JObj "(string \<times> json) list"

record store_asset_db =
  sa_account :: string
  sa_origin :: string
  sa_asset :: string
  sa_prev_amount :: bytes
  sa_amount :: bytes
  sa_method :: string
  sa_tx_hash :: hash
  sa_smartcontract_hash :: hash
  sa_block_height :: u64
  sa_block_hash :: hash
  sa_block_timestamp :: u64

record indexer_env =
  ix_from_slice :: "bytes \<Rightarrow> string + json"
  ix_to_string :: "json \<Rightarrow> string"
  ix_uuid :: "nat \<Rightarrow> string"
  ix_curl :: "string \<Rightarrow> string \<Rightarrow> bytes \<Rightarrow> string + unit"

record indexer_statics =
  is_prev_hash :: "hash option"
  is_sequence :: u64
  is_uuids :: nat

definition get_amount :: "indexer_env \<Rightarrow> bytes \<Rightarrow> json" where
  "get_amount X buf =
     (if buf = [] then JNull
      else let source = JArr (map (\<lambda>b. JNum (unat b)) buf)
           in case rmp_deserialize (ix_from_slice X) buf of
                Inr val \<Rightarrow> JObj [(''source'', source), (''value'', val), (''decoded'', JBool True)]
              | Inl e \<Rightarrow> JObj [(''source'', source), (''value'', JStr (error_to_string e)), (''decoded'', JBool False)])"

text \<open>The number of a document within its transaction. The addition wraps around, as it does without overflow checks.\<close>

definition next_sequence :: "hash \<Rightarrow> indexer_statics \<Rightarrow> indexer_statics \<times> u64" where
  "next_sequence h st =
     (case is_prev_hash st of
        Some prev_hash \<Rightarrow>
          if prev_hash = h then (st\<lparr>is_sequence := is_sequence st + 1\<rparr>, is_sequence st + 1)
          else (st\<lparr>is_sequence := 0, is_prev_hash := Some h\<rparr>, 0)
      | None \<Rightarrow> (st\<lparr>is_sequence := 0, is_prev_hash := Some h\<rparr>, 0))"

definition asset_document :: "env \<Rightarrow> indexer_env \<Rightarrow> string \<Rightarrow> u64 \<Rightarrow> store_asset_db \<Rightarrow> json" where
  "asset_document E X uuid sequence data =
     JObj [(''_id'', JStr uuid), (''account'', JStr (sa_account data)), (''origin'', JStr (sa_origin data)),
       (''asset'', JStr (sa_asset data)), (''prev_amount'', get_amount X (sa_prev_amount data)),
       (''amount'', get_amount X (sa_amount data)), (''method'', JStr (sa_method data)),
       (''sequence_number'', JNum (unat sequence)), (''tx_hash'', JStr (e_hex E (hash_as_bytes (sa_tx_hash data)))),
       (''smartcontract_hash'', JStr (e_hex E (hash_as_bytes (sa_smartcontract_hash data)))),
       (''block_height'', JNum (unat (sa_block_height data))),
       (''block_hash'', JStr (e_hex E (hash_as_bytes (sa_block_hash data)))),
       (''block_timestamp'', JNum (unat (sa_block_timestamp data)))]"

definition json_string_from_store_asset_db ::
    "env \<Rightarrow> indexer_env \<Rightarrow> store_asset_db \<Rightarrow> indexer_statics \<Rightarrow> indexer_statics \<times> string" where
  "json_string_from_store_asset_db E X data st =
     (case next_sequence (sa_tx_hash data) (st\<lparr>is_uuids := Suc (is_uuids st)\<rparr>) of
        (st', sequence) \<Rightarrow> (st', ix_to_string X (asset_document E X (ix_uuid X (is_uuids st)) sequence data)))"

section \<open>The indexer\<close>

record indexer_config =
  ic_host :: string
  ic_port :: u16
  ic_db_name :: string
  ic_user :: string
  ic_password :: string

record indexer =
  ix_config :: indexer_config
  ix_data :: "store_asset_db list"

definition indexer_new :: "indexer_config \<Rightarrow> indexer" where
  "indexer_new config = \<lparr>ix_config = config, ix_data = []\<rparr>"

definition clear_data :: "indexer \<Rightarrow> indexer" where
  "clear_data x = x\<lparr>ix_data := []\<rparr>"

definition indexer_config_default :: indexer_config where
  "indexer_config_default =
     \<lparr>ic_host = ''localhost'', ic_port = 5984, ic_db_name = ''trinci'', ic_user = ''admin'', ic_password = ''password''\<rparr>"

text \<open>The loop that appends the documents, each after the prefix, which is empty once.\<close>

fun push_documents ::
    "env \<Rightarrow> indexer_env \<Rightarrow> store_asset_db list \<Rightarrow> string \<Rightarrow> string \<Rightarrow> indexer_statics \<Rightarrow> indexer_statics \<times> string" where
  "push_documents E X [] prefix template st = (st, template)"
| "push_documents E X (d # ds) prefix template st =
     (case json_string_from_store_asset_db E X d st of
        (st', data_str) \<Rightarrow>
          push_documents E X ds (if prefix = [] then '','' else prefix) (template @ prefix @ data_str) st')"

definition prepare_json_for_db :: "env \<Rightarrow> indexer_env \<Rightarrow> indexer \<Rightarrow> indexer_statics \<Rightarrow> indexer_statics \<times> string" where
  "prepare_json_for_db E X x st =
     (case push_documents E X (ix_data x) [] ([CHR ''{'', CHR 0x22] @ ''docs'' @ [CHR 0x22] @ '': ['') st of
        (st', template) \<Rightarrow> (st', template @ '']}''))"

definition db_url :: "indexer_config \<Rightarrow> string" where
  "db_url c =
     ''http://'' @ ic_user c @ '':'' @ ic_password c @ ''@'' @ ic_host c @ '':'' @ decimal (unat (ic_port c)) @ ''/'' @ ic_db_name c @
     ''/_bulk_docs''"

definition write_data_to_db :: "indexer_env \<Rightarrow> bytes \<Rightarrow> indexer_config \<Rightarrow> unit result" where
  "write_data_to_db X data config =
     (case ix_curl X (db_url config) ''Content-Type:application/json'' data of
        Inl err \<Rightarrow> Inl (error_new_ext Other err) | Inr _ \<Rightarrow> Inr ())"

text \<open>\<open>store_data\<close>: the documents are made at once, and a thread is started with them and the configuration. All the
  thread does is \<open>write_data_to_db\<close>; it only logs a failure.\<close>

type_synonym index_write = "bytes \<times> indexer_config"

definition store_data :: "env \<Rightarrow> indexer_env \<Rightarrow> indexer \<Rightarrow> indexer_statics \<Rightarrow> indexer_statics \<times> index_write" where
  "store_data E X x st =
     (case prepare_json_for_db E X x st of (st', text) \<Rightarrow> (st', str_bytes text, ix_config x))"

definition run_index_write :: "indexer_env \<Rightarrow> index_write \<Rightarrow> unit result" where
  "run_index_write X w = (case w of (data, config) \<Rightarrow> write_data_to_db X data config)"

section \<open>What is written\<close>

text \<open>The sequence numbers of a list of updates.\<close>

fun sequences :: "hash list \<Rightarrow> indexer_statics \<Rightarrow> indexer_statics \<times> u64 list" where
  "sequences [] st = (st, [])"
| "sequences (h # hs) st = (case next_sequence h st of (st1, n) \<Rightarrow> apsnd (Cons n) (sequences hs st1))"

lemma next_sequence_uuids: "next_sequence h (st\<lparr>is_uuids := n\<rparr>) = apfst (\<lambda>s. s\<lparr>is_uuids := n\<rparr>) (next_sequence h st)"
  by (simp add: next_sequence_def split: option.splits)

lemma sequences_uuids: "snd (sequences hs (st\<lparr>is_uuids := n\<rparr>)) = snd (sequences hs st)"
  by (induction hs arbitrary: st) (simp_all add: next_sequence_uuids split: prod.splits)

text \<open>The texts of the documents, in order.\<close>

definition documents :: "env \<Rightarrow> indexer_env \<Rightarrow> store_asset_db list \<Rightarrow> indexer_statics \<Rightarrow> string list" where
  "documents E X ds st =
     map (\<lambda>(i, n, d). ix_to_string X (asset_document E X (ix_uuid X i) n d))
       (zip [is_uuids st..<is_uuids st + length ds] (zip (snd (sequences (map sa_tx_hash ds) st)) ds))"

lemma length_sequences: "length (snd (sequences hs st)) = length hs"
  by (induction hs arbitrary: st) (simp_all split: prod.splits)

lemma next_sequence_keeps_uuids: "is_uuids (fst (next_sequence h st)) = is_uuids st"
  by (simp add: next_sequence_def split: option.splits)

lemma documents_Cons:
  assumes "json_string_from_store_asset_db E X d st = (st', text)"
  shows "documents E X (d # ds) st = text # documents E X ds st'"
proof -
  obtain st1 n where n: "next_sequence (sa_tx_hash d) st = (st1, n)" by force
  have u: "is_uuids st1 = is_uuids st" using next_sequence_keeps_uuids [of "sa_tx_hash d" st] n by simp
  from assms n have st': "st' = st1\<lparr>is_uuids := Suc (is_uuids st)\<rparr>"
    and t: "text = ix_to_string X (asset_document E X (ix_uuid X (is_uuids st)) n d)"
    by (auto simp: json_string_from_store_asset_db_def next_sequence_uuids)
  have "[is_uuids st..<is_uuids st + length (d # ds)] = is_uuids st # [Suc (is_uuids st)..<Suc (is_uuids st) + length ds]"
    by (simp add: upt_rec)
  then show ?thesis
    by (simp add: documents_def st' t n sequences_uuids split: prod.splits del: upt_Suc)
qed

definition comma_separated :: "string list \<Rightarrow> string" where
  "comma_separated ts = (case ts of [] \<Rightarrow> [] | u # us \<Rightarrow> u @ concat (map (Cons CHR '','') us))"

lemma documents_Nil [simp]: "documents E X [] st = []"
  by (simp add: documents_def)

lemma push_documents_comma:
  "snd (push_documents E X ds '','' template st) = template @ concat (map (Cons CHR '','') (documents E X ds st))"
proof (induction ds arbitrary: template st)
  case (Cons d ds)
  obtain st' s where j: "json_string_from_store_asset_db E X d st = (st', s)" by force
  show ?case by (simp add: j documents_Cons [OF j] Cons.IH)
qed simp

lemma prepare_json_spec:
  "snd (prepare_json_for_db E X x st) =
     [CHR ''{'', CHR 0x22] @ ''docs'' @ [CHR 0x22] @ '': ['' @ comma_separated (documents E X (ix_data x) st) @ '']}''"
proof (cases "ix_data x")
  case Nil
  then show ?thesis by (simp add: prepare_json_for_db_def comma_separated_def)
next
  case (Cons d ds)
  obtain st' s where j: "json_string_from_store_asset_db E X d st = (st', s)" by force
  obtain st2 u where p: "push_documents E X ds '','' ([CHR ''{'', CHR 0x22] @ ''docs'' @ [CHR 0x22] @ '': ['' @ s) st' = (st2, u)"
    by force
  have "u = [CHR ''{'', CHR 0x22] @ ''docs'' @ [CHR 0x22] @ '': ['' @ s @ concat (map (Cons CHR '','') (documents E X ds st'))"
    using push_documents_comma [of E X ds _ st'] p by (metis append.assoc snd_conv)
  with Cons j p show ?thesis
    by (simp add: prepare_json_for_db_def documents_Cons [OF j] comma_separated_def)
qed

text \<open>The numbers within one transaction grow, if its updates follow each other.\<close>

lemma sequences_from:
  assumes "distinct (remdups_adj (p # hs))" and "is_prev_hash st = Some p"
    and "unat (is_sequence st) + length hs < 2 ^ 64"
  shows "distinct (zip hs (snd (sequences hs st))) \<and>
    (\<forall>k. (p, k) \<in> set (zip hs (snd (sequences hs st))) \<longrightarrow> is_sequence st < k)"
  using assms
proof (induction hs arbitrary: p st)
  case (Cons h hs)
  show ?case
  proof (cases "h = p")
    case True
    let ?st = "st\<lparr>is_sequence := is_sequence st + 1\<rparr>"
    have n: "next_sequence h st = (?st, is_sequence st + 1)" using True Cons.prems(2) by (simp add: next_sequence_def)
    have "is_sequence st \<noteq> u64_max" using Cons.prems(3) by (auto simp: unat_u64_max)
    then have suc: "unat (is_sequence st + 1) = Suc (unat (is_sequence st))" by (rule unat_Suc_u64)
    then have lt: "is_sequence st < is_sequence st + 1" by (simp add: word_less_nat_alt)
    have IH: "distinct (zip hs (snd (sequences hs ?st))) \<and>
      (\<forall>k. (p, k) \<in> set (zip hs (snd (sequences hs ?st))) \<longrightarrow> is_sequence st + 1 < k)"
      using Cons.IH [of p ?st] Cons.prems True suc by simp
    with lt n True show ?thesis by (auto split: prod.splits dest: less_trans)
  next
    case False
    let ?st = "st\<lparr>is_sequence := 0, is_prev_hash := Some h\<rparr>"
    have n: "next_sequence h st = (?st, 0)" using False Cons.prems(2) by (simp add: next_sequence_def)
    from Cons.prems(1) False have d: "distinct (remdups_adj (h # hs))" and p: "p \<notin> set (h # hs)" by auto
    have IH: "distinct (zip hs (snd (sequences hs ?st))) \<and>
      (\<forall>k. (h, k) \<in> set (zip hs (snd (sequences hs ?st))) \<longrightarrow> 0 < k)"
      using Cons.IH [OF d, of ?st] Cons.prems(3) by simp
    with n p show ?thesis by (auto split: prod.splits dest: set_zip_leftD)
  qed
qed simp

text \<open>The documents of a block. The bulk request holds one document for every asset update, in order; and when the
  updates of a transaction follow each other, the hash of its transaction and its sequence number identify a document
  among them.
\<close>

lemma sequences_distinct:
  assumes "distinct (remdups_adj hs)" and "unat (is_sequence st) + length hs < 2 ^ 64"
  shows "distinct (zip hs (snd (sequences hs st)))"
proof (cases hs)
  case (Cons h hs')
  show ?thesis
  proof (cases "is_prev_hash st = Some h")
    case True
    from assms(1) have "distinct (remdups_adj (h # hs))" by (simp add: Cons)
    from sequences_from [OF this True assms(2)] show ?thesis by blast
  next
    case False
    let ?st = "st\<lparr>is_sequence := 0, is_prev_hash := Some h\<rparr>"
    have n: "next_sequence h st = (?st, 0)" using False by (auto simp: next_sequence_def split: option.splits)
    from sequences_from [of h hs' ?st] assms
    have "distinct (zip hs' (snd (sequences hs' ?st)))" "\<forall>k. (h, k) \<in> set (zip hs' (snd (sequences hs' ?st))) \<longrightarrow> 0 < k"
      by (simp_all add: Cons)
    then show ?thesis unfolding Cons by (auto simp: n split: prod.splits)
  qed
qed simp

theorem indexed_documents:
  assumes "distinct (remdups_adj (map sa_tx_hash (ix_data x)))" and "unat (is_sequence st) + length (ix_data x) < 2 ^ 64"
  shows "snd (prepare_json_for_db E X x st) =
      [CHR ''{'', CHR 0x22] @ ''docs'' @ [CHR 0x22] @ '': ['' @ comma_separated (documents E X (ix_data x) st) @ '']}'' \<and>
    length (documents E X (ix_data x) st) = length (ix_data x) \<and>
    distinct (zip (map sa_tx_hash (ix_data x)) (snd (sequences (map sa_tx_hash (ix_data x)) st)))"
  using sequences_distinct [OF assms(1), of st] assms(2) by (simp add: prepare_json_spec documents_def length_sequences)

definition demo_indexer :: indexer where
  "demo_indexer = (indexer_new indexer_config_default)\<lparr>ix_data := replicate 2
     \<lparr>sa_account = ''a'', sa_origin = ''o'', sa_asset = ''x'', sa_prev_amount = [], sa_amount = [42], sa_method = ''m'',
      sa_tx_hash = hash_default, sa_smartcontract_hash = hash_default, sa_block_height = 1, sa_block_hash = hash_default,
      sa_block_timestamp = 0\<rparr>\<rparr>"

theorem indexed_documents_witness:
  "snd (sequences (map sa_tx_hash (ix_data demo_indexer)) \<lparr>is_prev_hash = None, is_sequence = 7, is_uuids = 0\<rparr>) = [0, 1] \<and>
   distinct (zip (map sa_tx_hash (ix_data demo_indexer))
     (snd (sequences (map sa_tx_hash (ix_data demo_indexer)) \<lparr>is_prev_hash = None, is_sequence = 7, is_uuids = 0\<rparr>)))"
  using indexed_documents [of demo_indexer "\<lparr>is_prev_hash = None, is_sequence = 7, is_uuids = 0\<rparr>"]
  by (simp add: demo_indexer_def numeral_2_eq_2 next_sequence_def)

end
