(* ===== verification/Wire.thy ===== *)
theory Wire
  imports PubSub Db
begin

text \<open>
  Reading back what was written: the serde readers of \<^verbatim>\<open>src/crypto/hash.rs\<close>, \<^verbatim>\<open>src/blockchain/pubsub.rs\<close> and
  \<^verbatim>\<open>src/macros.rs\<close>, the keys and values of \<^verbatim>\<open>src/db/rocks.rs\<close>, and the conversions of \<^verbatim>\<open>src/error.rs\<close>. An
  error of a reader is its text.
\<close>

section \<open>Hashes, events and variants\<close>

definition hash_deserialize :: "mp_value \<Rightarrow> string + hash" where
  "hash_deserialize v =
     (case v of
        MpBin bs \<Rightarrow> (case hash_from_bytes bs of Inl _ \<Rightarrow> Inl ''Invalid multihash'' | Inr h \<Rightarrow> Inr h)
      | _ \<Rightarrow> Inl ''expecting byte array.'')"

text \<open>The visitor takes an integer of eight bits and nothing else.\<close>

definition event_deserialize :: "mp_value \<Rightarrow> string + u8" where
  "event_deserialize v =
     (case v of
        MpUInt n \<Rightarrow>
          if n < 256 then (case event_from_bits (of_nat n) of Some event \<Rightarrow> Inr event | None \<Rightarrow> Inl ''invalid bits'')
          else Inl ''u8''
      | _ \<Rightarrow> Inl ''u8'')"

text \<open>The macro \<open>named_unit_variant\<close>, for the variant of this name.\<close>

definition variant_serialize :: "string \<Rightarrow> mp_value" where
  "variant_serialize variant = MpStr variant"

definition variant_deserialize :: "string \<Rightarrow> mp_value \<Rightarrow> string + unit" where
  "variant_deserialize variant v =
     (case v of
        MpStr s \<Rightarrow> if s = variant then Inr () else Inl ([CHR 0x22] @ variant @ [CHR 0x22])
      | _ \<Rightarrow> Inl ([CHR 0x22] @ variant @ [CHR 0x22]))"

text \<open>\<open>CurveId\<close> is untagged: the first variant that reads the value.\<close>

definition curve_deserialize :: "mp_value \<Rightarrow> curve_id option" where
  "curve_deserialize v =
     (case variant_deserialize (curve_name Secp256R1) v of
        Inr _ \<Rightarrow> Some Secp256R1
      | Inl _ \<Rightarrow> (case variant_deserialize (curve_name Secp384R1) v of Inr _ \<Rightarrow> Some Secp384R1 | Inl _ \<Rightarrow> None))"

section \<open>The database\<close>

text \<open>A hash as a key: \<open>clone_from_slice\<close> panics (\<open>None\<close>) unless the buffer has its size, and so does \<open>read\<close> on
  anything that is no hash.\<close>

definition key_size :: "hash \<Rightarrow> nat" where
  "key_size h = hash_size h"

definition key_write :: "hash \<Rightarrow> bytes \<Rightarrow> (bytes \<times> nat) option" where
  "key_write h buffer =
     (if length buffer = length (hash_as_bytes h) then Some (hash_as_bytes h, key_size h) else None)"

definition key_read :: "bytes \<Rightarrow> hash option" where
  "key_read buffer = (case hash_from_bytes buffer of Inl _ \<Rightarrow> None | Inr h \<Rightarrow> Some h)"

definition hash_value_to_bytes :: "hash \<Rightarrow> bytes" where
  "hash_value_to_bytes h = hash_as_bytes h"

definition hash_value_from_bytes :: "bytes \<Rightarrow> hash result" where
  "hash_value_from_bytes bs = (case hash_from_bytes bs of Inl _ \<Rightarrow> Inl (error_new MalformedData) | Inr h \<Rightarrow> Inr h)"

text \<open>The other values are written with \<open>rmp_serialize\<close> and read with \<open>rmp_deserialize\<close>, which is rmp-serde's
  \<open>from_slice\<close> with its errors mapped.\<close>

definition value_from_bytes :: "(bytes \<Rightarrow> string + 'a) \<Rightarrow> bytes \<Rightarrow> 'a result" where
  "value_from_bytes from_slice bs =
     (case from_slice bs of Inl err \<Rightarrow> Inl (error_new_ext MalformedData err) | Inr v \<Rightarrow> Inr v)"

definition transaction_to_bytes :: "env \<Rightarrow> transaction \<Rightarrow> bytes" where
  "transaction_to_bytes E tx = e_rmp E (mp_transaction tx)"

definition receipt_to_bytes :: "env \<Rightarrow> receipt \<Rightarrow> bytes" where
  "receipt_to_bytes E rx = e_rmp E (mp_receipt rx)"

definition account_to_bytes :: "env \<Rightarrow> account \<Rightarrow> bytes" where
  "account_to_bytes E acc = e_rmp E (mp_account acc)"

definition block_to_bytes :: "env \<Rightarrow> block \<Rightarrow> bytes" where
  "block_to_bytes E block = e_rmp E (mp_block block)"

section \<open>Errors\<close>

definition error_from_kind :: "error_kind \<Rightarrow> error" where
  "error_from_kind kind = error_new kind"

definition error_from_string :: "string \<Rightarrow> error" where
  "error_from_string s = error_new_ext Other s"

definition result_from_kind :: "error_kind \<Rightarrow> 'a result" where
  "result_from_kind kind = Inl (error_from_kind kind)"

definition error_source :: "error \<Rightarrow> string option" where
  "error_source e = (case err_source e of None \<Rightarrow> None | Some source \<Rightarrow> Some source)"

section \<open>Properties\<close>

lemma event_bits: "event_from_bits b = Some e \<longleftrightarrow> e = b \<and> b AND NOT 0x3f = 0"
  by (auto simp: event_from_bits_def)

text \<open>C35. Whatever is read is well formed, and is what was written. A hash that is read from a serialized value, from any bytes that
  the database has as a key, or from any bytes it has as a value is a well-formed multihash; an event names declared flags
  only, and a curve is one of the two; each is written back as it was
  read. Conversely every well-formed hash, every set of declared flags and every curve is read back from its
  serialized form, and a well-formed hash from the key or the value the database holds for it.
\<close>

theorem decoded_values_wf:
  "(\<forall>h. hash_deserialize v = Inr h \<longrightarrow> wf_hash h \<and> mp_hash h = v) \<and>
   (\<forall>h. key_read bs = Some h \<longrightarrow> wf_hash h \<and> key_write h (replicate (key_size h) 0) = Some (bs, key_size h)) \<and>
   (\<forall>h. hash_value_from_bytes bs = Inr h \<longrightarrow> wf_hash h \<and> hash_value_to_bytes h = bs) \<and>
   (\<forall>e. event_deserialize v = Inr e \<longrightarrow> e AND NOT 0x3f = 0 \<and> mp_u8 e = v) \<and>
   (\<forall>c. curve_deserialize v = Some c \<longrightarrow> variant_serialize (curve_name c) = v) \<and>
   (wf_hash h \<longrightarrow> hash_deserialize (mp_hash h) = Inr h \<and>
      (\<exists>key. key_write h (replicate (key_size h) 0) = Some (key, key_size h) \<and> key_read key = Some h) \<and>
      hash_value_from_bytes (hash_value_to_bytes h) = Inr h) \<and>
   (e AND NOT 0x3f = 0 \<longrightarrow> event_deserialize (mp_u8 e) = Inr e) \<and>
   curve_deserialize (variant_serialize (curve_name c)) = Some c"
proof -
  have rt: "hash_from_bytes (hash_as_bytes h) = Inr h" if "wf_hash h" for h
    using that by (rule wf_hash_cases) (simp add: hash_from_bytes_pack)
  have len: "length (hash_as_bytes h) = hash_size h" if "wf_hash h" for h
    using that by (rule wf_hash_cases) (simp add: hash_size_def)
  have 1: "wf_hash h \<and> mp_hash h = v" if "hash_deserialize v = Inr h" for h
    using that hash_from_bytes_InrD by (auto simp: hash_deserialize_def mp_hash_def split: mp_value.splits sum.splits)
  have 2: "e AND NOT 0x3f = 0 \<and> mp_u8 e = v" if "event_deserialize v = Inr e" for e
    using that
    by (auto simp: event_deserialize_def event_bits mp_u8_def unat_of_nat take_bit_nat_def
        split: mp_value.splits if_splits option.splits)
  have 3: "variant_serialize (curve_name c) = v" if "curve_deserialize v = Some c" for c
    using that by (auto simp: curve_deserialize_def variant_deserialize_def variant_serialize_def
        split: mp_value.splits if_splits)
  have 4: "event_deserialize (mp_u8 e) = Inr e" if "e AND NOT 0x3f = 0"
  proof -
    have "unat e < 256" using unsigned_less [of e] by simp
    with that show ?thesis by (simp add: event_deserialize_def mp_u8_def event_from_bits_def)
  qed
  have 5: "curve_deserialize (variant_serialize (curve_name c)) = Some c"
    by (cases c) (simp_all add: curve_deserialize_def variant_deserialize_def variant_serialize_def curve_name_def)
  have 6: "wf_hash h \<and> key_write h (replicate (key_size h) 0) = Some (bs, key_size h)" if "key_read bs = Some h" for h
    using that len hash_from_bytes_InrD by (fastforce simp: key_read_def key_write_def key_size_def split: sum.splits)
  have 7: "wf_hash h \<and> hash_value_to_bytes h = bs" if "hash_value_from_bytes bs = Inr h" for h
    using that hash_from_bytes_InrD by (auto simp: hash_value_from_bytes_def hash_value_to_bytes_def split: sum.splits)
  have 8: "\<exists>key. key_write h (replicate (key_size h) 0) = Some (key, key_size h) \<and> key_read key = Some h" if "wf_hash h"
    using that rt len by (simp add: key_write_def key_size_def key_read_def)
  have 9: "hash_deserialize (mp_hash h) = Inr h" "hash_value_from_bytes (hash_value_to_bytes h) = Inr h" if "wf_hash h"
    using that rt by (simp_all add: hash_deserialize_def mp_hash_def hash_value_from_bytes_def hash_value_to_bytes_def)
  show ?thesis
    using 1 2 3 4 5 6 7 8 9 by blast
qed

theorem decoded_values_wf_witness:
  "hash_deserialize (mp_hash hash_default) = Inr hash_default \<and> event_deserialize (mp_u8 40) = Inr 40 \<and>
   event_deserialize (mp_u8 64) = Inl ''invalid bits'' \<and>
   (\<exists>h. key_read [0, 0] = Some h \<and> wf_hash h \<and> key_write h (replicate (key_size h) 0) = Some ([0, 0], key_size h))"
proof -
  have e: "(40 :: u8) AND NOT 0x3f = 0" by simp
  have "\<exists>h. key_read [0, 0] = Some h"
    by (simp add: key_read_def hash_from_bytes_def hash_new_def MULTIHASH_TYPE_IDENTITY_def MULTIHASH_VALUE_LEN_MAX_def Let_def
        split: sum.split)
  with decoded_values_wf [of "MpNil" "[0, 0]" hash_default 40 Secp256R1] e show ?thesis
    by (auto simp: event_deserialize_def mp_u8_def event_from_bits_def)
qed

end
