(* ===== verification/Keys.thy ===== *)
theory Keys
  imports Crypto
begin

text \<open>
  The keys of \<^verbatim>\<open>src/crypto/ecdsa.rs\<close> and \<^verbatim>\<open>src/crypto/ed25519.rs\<close>: loading, signing, verifying and
  serializing, over the crates ring (\<open>R\<close>) and ed25519-dalek (\<open>L\<close>), and what an account identifier says
  about the key it was made from. The feature \<open>tpm2\<close> is off.
\<close>

section \<open>ECDSA\<close>

datatype signing_algorithm = ECDSA_P256_SHA256_FIXED_SIGNING | ECDSA_P384_SHA384_FIXED_SIGNING
datatype verification_algorithm = ECDSA_P256_SHA256_FIXED | ECDSA_P384_SHA384_FIXED

text \<open>ring: a key pair \<open>'k\<close>, the handle \<open>'r\<close> of the system's random numbers, and errors by their text.\<close>

record ('k, 'r) ring =
  rg_random :: 'r
  rg_from_keys :: "signing_algorithm \<Rightarrow> bytes \<Rightarrow> bytes \<Rightarrow> string + 'k"
  rg_from_pkcs8 :: "signing_algorithm \<Rightarrow> bytes \<Rightarrow> string + 'k"
  rg_sign :: "'k \<Rightarrow> 'r \<Rightarrow> bytes \<Rightarrow> string + bytes"
  rg_public_key :: "'k \<Rightarrow> bytes"
  rg_verify :: "verification_algorithm \<Rightarrow> bytes \<Rightarrow> bytes \<Rightarrow> bytes \<Rightarrow> bool"

record ('k, 'r) ecdsa_key_pair =
  ek_curve_id :: curve_id
  ek_imp :: 'k
  ek_rng :: 'r

record ecdsa_public_key =
  ep_curve_id :: curve_id
  ep_value :: bytes

definition signing_alg :: "curve_id \<Rightarrow> signing_algorithm" where
  "signing_alg c =
     (case c of Secp256R1 \<Rightarrow> ECDSA_P256_SHA256_FIXED_SIGNING | Secp384R1 \<Rightarrow> ECDSA_P384_SHA384_FIXED_SIGNING)"

definition verification_alg :: "curve_id \<Rightarrow> verification_algorithm" where
  "verification_alg c = (case c of Secp256R1 \<Rightarrow> ECDSA_P256_SHA256_FIXED | Secp384R1 \<Rightarrow> ECDSA_P384_SHA384_FIXED)"

definition ecdsa_new ::
    "('k, 'r) ring \<Rightarrow> curve_id \<Rightarrow> bytes \<Rightarrow> bytes \<Rightarrow> ('k, 'r) ecdsa_key_pair result" where
  "ecdsa_new R curve private_bytes public_bytes =
     (case rg_from_keys R (signing_alg curve) private_bytes public_bytes of
        Inl err \<Rightarrow> Inl (error_new_ext MalformedData err)
      | Inr imp \<Rightarrow> Inr \<lparr>ek_curve_id = curve, ek_imp = imp, ek_rng = rg_random R\<rparr>)"

definition ecdsa_from_pkcs8_bytes :: "('k, 'r) ring \<Rightarrow> curve_id \<Rightarrow> bytes \<Rightarrow> ('k, 'r) ecdsa_key_pair result" where
  "ecdsa_from_pkcs8_bytes R curve bs =
     (case rg_from_pkcs8 R (signing_alg curve) bs of
        Inl err \<Rightarrow> Inl (error_new_ext Other err)
      | Inr imp \<Rightarrow> Inr \<lparr>ek_curve_id = curve, ek_imp = imp, ek_rng = rg_random R\<rparr>)"

definition ecdsa_sign :: "('k, 'r) ring \<Rightarrow> ('k, 'r) ecdsa_key_pair \<Rightarrow> bytes \<Rightarrow> bytes result" where
  "ecdsa_sign R kp data =
     (case rg_sign R (ek_imp kp) (ek_rng kp) data of
        Inl err \<Rightarrow> Inl (error_new_ext Other err) | Inr sig \<Rightarrow> Inr sig)"

definition ecdsa_public_key_of :: "('k, 'r) ring \<Rightarrow> ('k, 'r) ecdsa_key_pair \<Rightarrow> ecdsa_public_key" where
  "ecdsa_public_key_of R kp = \<lparr>ep_curve_id = ek_curve_id kp, ep_value = rg_public_key R (ek_imp kp)\<rparr>"

definition ecdsa_verify :: "('k, 'r) ring \<Rightarrow> ecdsa_public_key \<Rightarrow> bytes \<Rightarrow> bytes \<Rightarrow> bool" where
  "ecdsa_verify R pk data sig = rg_verify R (verification_alg (ep_curve_id pk)) (ep_value pk) data sig"

section \<open>Ed25519\<close>

text \<open>ed25519-dalek: key pairs \<open>'k\<close>, public keys \<open>'p\<close>, parsed signatures \<open>'s\<close>; \<open>'g\<close> is the source of random
  numbers of the operating system.\<close>

record ('k, 'p, 's, 'g) dalek =
  dk_keypair_from_bytes :: "bytes \<Rightarrow> string + 'k"
  dk_generate :: "'g \<Rightarrow> 'k"
  dk_keypair_to_bytes :: "'k \<Rightarrow> bytes"
  dk_sign :: "'k \<Rightarrow> bytes \<Rightarrow> 's"
  dk_signature_to_bytes :: "'s \<Rightarrow> bytes"
  dk_signature_try_from :: "bytes \<Rightarrow> 's option"
  dk_public :: "'k \<Rightarrow> 'p"
  dk_public_from_bytes :: "bytes \<Rightarrow> string + 'p"
  dk_public_to_bytes :: "'p \<Rightarrow> bytes"
  dk_verify :: "'p \<Rightarrow> bytes \<Rightarrow> 's \<Rightarrow> bool"

definition ed_from_bytes :: "('k, 'p, 's, 'g) dalek \<Rightarrow> bytes \<Rightarrow> 'k result" where
  "ed_from_bytes L bs =
     (case dk_keypair_from_bytes L bs of Inl err \<Rightarrow> Inl (error_new_ext MalformedData err) | Inr k \<Rightarrow> Inr k)"

definition ed_from_random :: "('k, 'p, 's, 'g) dalek \<Rightarrow> 'g \<Rightarrow> 'k" where
  "ed_from_random L csprng = dk_generate L csprng"

definition ed_to_bytes :: "('k, 'p, 's, 'g) dalek \<Rightarrow> 'k \<Rightarrow> bytes" where
  "ed_to_bytes L k = dk_keypair_to_bytes L k"

definition ed_sign :: "('k, 'p, 's, 'g) dalek \<Rightarrow> 'k \<Rightarrow> bytes \<Rightarrow> bytes result" where
  "ed_sign L k data = Inr (dk_signature_to_bytes L (dk_sign L k data))"

definition ed_public_key :: "('k, 'p, 's, 'g) dalek \<Rightarrow> 'k \<Rightarrow> 'p" where
  "ed_public_key L k = dk_public L k"

definition ed_public_from_bytes :: "('k, 'p, 's, 'g) dalek \<Rightarrow> bytes \<Rightarrow> 'p result" where
  "ed_public_from_bytes L bs =
     (case dk_public_from_bytes L bs of Inl err \<Rightarrow> Inl (error_new_ext MalformedData err) | Inr p \<Rightarrow> Inr p)"

definition ed_public_to_bytes :: "('k, 'p, 's, 'g) dalek \<Rightarrow> 'p \<Rightarrow> bytes" where
  "ed_public_to_bytes L p = dk_public_to_bytes L p"

definition ed_verify :: "('k, 'p, 's, 'g) dalek \<Rightarrow> 'p \<Rightarrow> bytes \<Rightarrow> bytes \<Rightarrow> bool" where
  "ed_verify L p data sig =
     (case dk_signature_try_from L sig of None \<Rightarrow> False | Some s \<Rightarrow> dk_verify L p data s)"

text \<open>serde: the key is written as a byte string, and read from one.\<close>

definition ed_serialize :: "('k, 'p, 's, 'g) dalek \<Rightarrow> 'p \<Rightarrow> mp_value" where
  "ed_serialize L p = MpBin (ed_public_to_bytes L p)"

definition ed_deserialize :: "('k, 'p, 's, 'g) dalek \<Rightarrow> mp_value \<Rightarrow> string + 'p" where
  "ed_deserialize L v =
     (case v of
        MpBin bs \<Rightarrow> (case ed_public_from_bytes L bs of Inl _ \<Rightarrow> Inl ''Invalid multihash'' | Inr p \<Rightarrow> Inr p)
      | _ \<Rightarrow> Inl ''expecting byte array.'')"

section \<open>Signatures\<close>

text \<open>What ring promises: a key loaded for a curve signs so that the algorithm of that curve verifies. The
  predicate \<open>loaded\<close> tells which key pairs were loaded for which algorithm.\<close>

locale ring_api =
  fixes R :: "('k, 'r) ring" and loaded :: "verification_algorithm \<Rightarrow> 'k \<Rightarrow> bool"
  assumes from_keys: "rg_from_keys R ECDSA_P256_SHA256_FIXED_SIGNING priv pub = Inr k \<Longrightarrow> loaded ECDSA_P256_SHA256_FIXED k"
    "rg_from_keys R ECDSA_P384_SHA384_FIXED_SIGNING priv pub = Inr k \<Longrightarrow> loaded ECDSA_P384_SHA384_FIXED k"
    and from_pkcs8: "rg_from_pkcs8 R ECDSA_P256_SHA256_FIXED_SIGNING bs = Inr k \<Longrightarrow> loaded ECDSA_P256_SHA256_FIXED k"
    "rg_from_pkcs8 R ECDSA_P384_SHA384_FIXED_SIGNING bs = Inr k \<Longrightarrow> loaded ECDSA_P384_SHA384_FIXED k"
    and sign_verify: "loaded a k \<Longrightarrow> rg_sign R k rng data = Inr sig \<Longrightarrow> rg_verify R a (rg_public_key R k) data sig"
begin

lemma ecdsa_loaded:
  assumes "ecdsa_new R c priv pub = Inr kp \<or> ecdsa_from_pkcs8_bytes R c bs = Inr kp"
  shows "loaded (verification_alg c) (ek_imp kp) \<and> ek_curve_id kp = c"
  using assms from_keys from_pkcs8
  by (cases c)
     (auto simp: ecdsa_new_def ecdsa_from_pkcs8_bytes_def signing_alg_def verification_alg_def split: sum.splits)

lemma ecdsa_sound:
  assumes "ecdsa_new R c priv pub = Inr kp \<or> ecdsa_from_pkcs8_bytes R c bs = Inr kp" and "ecdsa_sign R kp data = Inr sig"
  shows "ecdsa_verify R (ecdsa_public_key_of R kp) data sig"
proof -
  from ecdsa_loaded [OF assms(1)] assms(2) sign_verify [of _ "ek_imp kp" "ek_rng kp" data sig] show ?thesis
    by (auto simp: ecdsa_sign_def ecdsa_verify_def ecdsa_public_key_of_def split: sum.splits)
qed

end

text \<open>What ed25519-dalek promises.\<close>

locale dalek_api =
  fixes L :: "('k, 'p, 's, 'g) dalek"
  assumes signature_bytes: "dk_signature_try_from L (dk_signature_to_bytes L s) = Some s"
    and sign_verify: "dk_verify L (dk_public L k) data (dk_sign L k data)"
    and public_bytes: "dk_public_from_bytes L (dk_public_to_bytes L p) = Inr p"
    and keypair_bytes: "dk_keypair_from_bytes L (dk_keypair_to_bytes L k) = Inr k"
begin

lemma ed_sound: "ed_sign L k data = Inr sig \<Longrightarrow> ed_verify L (ed_public_key L k) data sig"
  by (auto simp: ed_sign_def ed_verify_def ed_public_key_def signature_bytes sign_verify)

lemma ed_bytes: "ed_from_bytes L (ed_to_bytes L k) = Inr k" "ed_public_from_bytes L (ed_public_to_bytes L p) = Inr p"
  "ed_deserialize L (ed_serialize L p) = Inr p"
  by (simp_all add: ed_from_bytes_def ed_to_bytes_def keypair_bytes ed_public_from_bytes_def ed_public_to_bytes_def
      public_bytes ed_deserialize_def ed_serialize_def)

end

text \<open>Crates to evaluate on: a ring key is its curve and public part and signs by appending the data to it; an Ed25519
  key is its public part.\<close>

definition demo_ring :: "(bytes, unit) ring" where
  "demo_ring =
     \<lparr>rg_random = (),
      rg_from_keys = (\<lambda>a priv pub. if pub = [] then Inl ''InvalidEncoding''
        else Inr ((case a of ECDSA_P256_SHA256_FIXED_SIGNING \<Rightarrow> 1 | ECDSA_P384_SHA384_FIXED_SIGNING \<Rightarrow> 2) # pub)),
      rg_from_pkcs8 = (\<lambda>a bs. Inl ''WrongAlgorithm''),
      rg_sign = (\<lambda>k _ data. Inr (k @ data)), rg_public_key = (\<lambda>k. k),
      rg_verify = (\<lambda>a pub data sig. sig = pub @ data \<and>
        hd pub = (case a of ECDSA_P256_SHA256_FIXED \<Rightarrow> 1 | ECDSA_P384_SHA384_FIXED \<Rightarrow> 2))\<rparr>"

definition demo_dalek :: "(bytes, bytes, bytes, bytes) dalek" where
  "demo_dalek =
     \<lparr>dk_keypair_from_bytes = Inr, dk_generate = (\<lambda>g. g), dk_keypair_to_bytes = (\<lambda>k. k), dk_sign = (\<lambda>k d. k @ d),
      dk_signature_to_bytes = (\<lambda>s. s), dk_signature_try_from = Some, dk_public = (\<lambda>k. k),
      dk_public_from_bytes = Inr, dk_public_to_bytes = (\<lambda>p. p), dk_verify = (\<lambda>p d s. s = p @ d)\<rparr>"

interpretation demo_ring: ring_api demo_ring "\<lambda>a k. k \<noteq> [] \<and>
    hd k = (case a of ECDSA_P256_SHA256_FIXED \<Rightarrow> 1 | ECDSA_P384_SHA384_FIXED \<Rightarrow> 2)"
  by unfold_locales (auto simp: demo_ring_def split: if_splits)

interpretation demo_dalek: dalek_api demo_dalek
  by unfold_locales (simp_all add: demo_dalek_def)

text \<open>What a key signs, its public key verifies: for an ECDSA key of either curve, however it was loaded, and for
  an Ed25519 key; and an Ed25519 key, secret or public, is read back from its bytes, and a public one from its
  serialized form.
\<close>

theorem key_signatures_verify:
  assumes "ring_api R loaded" and "dalek_api L"
    and "ecdsa_new R c priv pub = Inr kp \<or> ecdsa_from_pkcs8_bytes R c bs = Inr kp"
  shows "(\<forall>data sig. ecdsa_sign R kp data = Inr sig \<longrightarrow> ecdsa_verify R (ecdsa_public_key_of R kp) data sig) \<and>
    (\<forall>data sig. ed_sign L k data = Inr sig \<longrightarrow> ed_verify L (ed_public_key L k) data sig) \<and>
    ed_from_bytes L (ed_to_bytes L k) = Inr k \<and> ed_public_from_bytes L (ed_public_to_bytes L p) = Inr p \<and>
    ed_deserialize L (ed_serialize L p) = Inr p"
  using ring_api.ecdsa_sound [OF assms(1,3)] dalek_api.ed_sound [OF assms(2)] dalek_api.ed_bytes [OF assms(2)] by blast

theorem key_signatures_verify_witness:
  "\<exists>kp sig. ecdsa_new demo_ring Secp384R1 [9] [5] = Inr kp \<and> ecdsa_sign demo_ring kp [1] = Inr sig \<and>
     ecdsa_verify demo_ring (ecdsa_public_key_of demo_ring kp) [1] sig"
proof -
  let ?kp = "\<lparr>ek_curve_id = Secp384R1, ek_imp = [2, 5], ek_rng = ()\<rparr>"
  have new: "ecdsa_new demo_ring Secp384R1 [9] [5] = Inr ?kp"
    by (simp add: ecdsa_new_def demo_ring_def signing_alg_def)
  moreover have "ecdsa_sign demo_ring ?kp [1] = Inr [2, 5, 1]" by (simp add: ecdsa_sign_def demo_ring_def)
  ultimately show ?thesis
    using key_signatures_verify [OF demo_ring.ring_api_axioms demo_dalek.dalek_api_axioms disjI1 [OF new]] by blast
qed

section \<open>Account identifiers\<close>

lemma add_asn1_inj:
  assumes "add_asn1_x509_header c v = add_asn1_x509_header c' v'"
  shows "c = c' \<and> v = v'"
  using assms by (cases c; cases c') (simp_all add: add_asn1_x509_header_def get_curve_oid_def Let_def)

lemma hash_of_digest_inj: "hash_of_digest d = hash_of_digest d' \<Longrightarrow> digest_bytes d = digest_bytes d'"
  by (simp add: hash_of_digest_def hash_pack_def)

text \<open>C34. An account identifier names one key. Two public keys with the same identifier are the same key, or
  their encodings are two different byte strings with the same SHA-256 digest; for Ed25519 keys no digest is
  involved. (Base58 is assumed to be injective.)
\<close>

theorem account_ids_name_keys:
  assumes "inj (e_b58 E)" and "wf_public_key pk" "wf_public_key pk'" and "to_account_id E pk = to_account_id E pk'"
  shows "pk = pk' \<or>
    (\<exists>c v c' v'. pk = Ecdsa c v \<and> pk' = Ecdsa c' v' \<and>
       (let a = ecdsa_protobuf_header (add_asn1_x509_header c v);
            b = ecdsa_protobuf_header (add_asn1_x509_header c' v')
        in a \<noteq> b \<and> digest_bytes (e_sha256 E a) = digest_bytes (e_sha256 E b)))"
proof -
  define h where "h pk = (case pk of
      Ecdsa c v \<Rightarrow> hash_of_digest (e_sha256 E (ecdsa_protobuf_header (add_asn1_x509_header c v)))
    | Ed25519 pb \<Rightarrow> hash_pack MULTIHASH_TYPE_IDENTITY (ed25519_protobuf_header pb))" for pk
  have id: "to_account_id E pk = e_b58 E (hash_as_bytes (h pk))" if "wf_public_key pk" for pk
    using that
    by (cases pk) (simp_all add: h_def to_account_id_def to_account_id_checked_def hash_from_data_Sha256
        hash_from_data_def hash_new_def wf_public_key_def ed25519_protobuf_header_def MULTIHASH_VALUE_LEN_MAX_def
        hash_of_digest_def)
  have wf: "wf_hash (h pk)" if "wf_public_key pk" for pk
    using that by (cases pk) (simp_all add: h_def wf_public_key_def ed25519_protobuf_header_def wf_hash_pack)
  from assms have "hash_as_bytes (h pk) = hash_as_bytes (h pk')" by (simp add: id inj_eq)
  with wf assms have eq: "h pk = h pk'" by (simp add: hash_as_bytes_inj)
  show ?thesis
  proof (cases pk; cases pk')
    fix c v c' v' assume pk: "pk = Ecdsa c v" "pk' = Ecdsa c' v'"
    have d: "digest_bytes (e_sha256 E (ecdsa_protobuf_header (add_asn1_x509_header c v))) =
      digest_bytes (e_sha256 E (ecdsa_protobuf_header (add_asn1_x509_header c' v')))"
      by (rule hash_of_digest_inj) (use eq in \<open>simp only: pk h_def public_key.case\<close>)
    show ?thesis
    proof (cases "ecdsa_protobuf_header (add_asn1_x509_header c v) = ecdsa_protobuf_header (add_asn1_x509_header c' v')")
      case True
      then have "add_asn1_x509_header c v = add_asn1_x509_header c' v'" by (simp add: ecdsa_protobuf_header_def)
      with add_asn1_inj pk show ?thesis by blast
    qed (use pk d in \<open>auto simp: Let_def\<close>)
  qed (use eq assms in \<open>auto simp: h_def hash_pack_def hash_of_digest_def ed25519_protobuf_header_def
        wf_public_key_def multihash_defs\<close>)
qed

lemma unat_lt2p8: "unat (b :: u8) < 256"
  using unsigned_less [of b] by simp

lemma inj_char_of_u8: "inj (\<lambda>b :: u8. char_of (unat b) :: char)"
proof (rule injI)
  fix a b :: u8
  assume "(char_of (unat a) :: char) = char_of (unat b)"
  then have "unat a mod 256 = unat b mod 256" by (metis of_char_of)
  then show "a = b" using unat_lt2p8 [of a] unat_lt2p8 [of b] by (simp add: word_unat_eq_iff)
qed

theorem account_ids_name_keys_witness:
  "to_account_id demo_env (Ed25519 (replicate 32 7)) \<noteq> to_account_id demo_env (Ed25519 (replicate 32 8))"
proof
  have "inj (e_b58 demo_env)"
    by (simp add: demo_env_def inj_mapI inj_char_of_u8)
  moreover assume "to_account_id demo_env (Ed25519 (replicate 32 7)) = to_account_id demo_env (Ed25519 (replicate 32 8))"
  ultimately show False using account_ids_name_keys [of demo_env "Ed25519 (replicate 32 7)" "Ed25519 (replicate 32 8)"]
    by (simp add: wf_public_key_def numeral_eq_Suc)
qed

end
