(* ===== verification/Tpm.thy ===== *)
theory Tpm
  imports Keys "HOL-Library.Monad_Syntax"
begin

text \<open>
  \<^verbatim>\<open>src/crypto/tpm2.rs\<close>, the optional feature that keeps the key of a node in a TPM 2 module. The crate
  tss-esapi, and the device behind it, are the argument \<open>S\<close>: each call takes the context and may change it. The
  outer \<open>None\<close> of the results is a panic.
\<close>

section \<open>The device\<close>

datatype tpm_signature = EcdsaSignature bytes bytes | OtherSignature

text \<open>A component of a public key: its buffer and its size.\<close>

record ('v, 'c, 's, 'k) tss =
  ts_device :: "string \<Rightarrow> 'v option"
  ts_default_device :: 'v
  ts_context :: "'v \<Rightarrow> 'c option"
  ts_start_auth_session :: "'c \<Rightarrow> 'c \<times> 's option option"
  ts_set_attributes :: "'s \<Rightarrow> 'c \<Rightarrow> 'c \<times> bool"
  ts_set_sessions :: "'s \<Rightarrow> 'c \<Rightarrow> 'c"
  ts_ecc_public_ok :: bool
  ts_create_primary :: "'c \<Rightarrow> 'c \<times> 'k option"
  ts_read_public :: "'k \<Rightarrow> 'c \<Rightarrow> 'c \<times> ((bytes \<times> nat) \<times> (bytes \<times> nat)) option"
  ts_digest_max :: nat
  ts_sign :: "'k \<Rightarrow> bytes \<Rightarrow> 'c \<Rightarrow> 'c \<times> tpm_signature option"

record ('c, 'k) tpm2 =
  tp_context :: 'c
  tp_primary_key :: 'k
  tp_public_key :: ecdsa_public_key

definition tpm_error :: "string \<Rightarrow> 'a result" where
  "tpm_error msg = Inl (error_new_ext Tpm2Error msg)"

section \<open>Making the key\<close>

definition create_context :: "('v, 'c, 's, 'k) tss \<Rightarrow> string option \<Rightarrow> 'c result option" where
  "create_context S optional_device = do {
     device \<leftarrow> (case optional_device of Some d \<Rightarrow> ts_device S d | None \<Rightarrow> Some (ts_default_device S));
     Some (case ts_context S device of None \<Rightarrow> tpm_error ''unuable to find tpm'' | Some c \<Rightarrow> Inr c)
   }"

definition set_session :: "('v, 'c, 's, 'k) tss \<Rightarrow> 'c \<Rightarrow> 'c \<times> unit result" where
  "set_session S c =
     (case ts_start_auth_session S c of
        (c1, None) \<Rightarrow> (c1, tpm_error ''error during start authentication session'')
      | (c1, Some None) \<Rightarrow> (c1, tpm_error ''error during auth session generation'')
      | (c1, Some (Some auth_session)) \<Rightarrow>
          (case ts_set_attributes S auth_session c1 of
             (c2, True) \<Rightarrow> (ts_set_sessions S auth_session c2, Inr ())
           | (c2, False) \<Rightarrow> (c2, tpm_error ''error during sessions attributes setup'')))"

definition create_ecdsa_p256_primary_key_from_context :: "('v, 'c, 's, 'k) tss \<Rightarrow> 'c \<Rightarrow> 'c \<times> 'k result" where
  "create_ecdsa_p256_primary_key_from_context S c =
     (if ts_ecc_public_ok S
      then (case ts_create_primary S c of
              (c1, Some k) \<Rightarrow> (c1, Inr k)
            | (c1, None) \<Rightarrow> (c1, tpm_error ''something went wrong during key handle creation''))
      else (c, tpm_error ''something went wrong during TPM2B_public structure creation''))"

definition retrieve_ecc_public_key ::
    "('v, 'c, 's, 'k) tss \<Rightarrow> 'k \<Rightarrow> 'c \<Rightarrow> 'c \<times> ((bytes \<times> nat) \<times> (bytes \<times> nat)) result" where
  "retrieve_ecc_public_key S k c =
     (case ts_read_public S k c of
        (c1, Some point) \<Rightarrow> (c1, Inr point)
      | (c1, None) \<Rightarrow> (c1, tpm_error ''something went wrong during key handle creation''))"

text \<open>\<open>buffer[..size]\<close> panics past the end.\<close>

definition component :: "bytes \<times> nat \<Rightarrow> bytes option" where
  "component b = (if snd b \<le> length (fst b) then Some (take (snd b) (fst b)) else None)"

definition tpm2_new :: "('v, 'c, 's, 'k) tss \<Rightarrow> string option \<Rightarrow> ('c, 'k) tpm2 result option" where
  "tpm2_new S optional_device = do {
     r \<leftarrow> create_context S optional_device;
     (case r of
        Inl e \<Rightarrow> Some (Inl e)
      | Inr c \<Rightarrow>
          (case set_session S c of
             (c1, Inl e) \<Rightarrow> Some (Inl e)
           | (c1, Inr _) \<Rightarrow>
               (case create_ecdsa_p256_primary_key_from_context S c1 of
                  (c2, Inl e) \<Rightarrow> Some (Inl e)
                | (c2, Inr k) \<Rightarrow>
                    (case retrieve_ecc_public_key S k c2 of
                       (c3, Inl e) \<Rightarrow> Some (Inl e)
                     | (c3, Inr (bx, b_y)) \<Rightarrow> do {
                         x \<leftarrow> component bx;
                         y \<leftarrow> component b_y;
                         Some (Inr \<lparr>tp_context = c3, tp_primary_key = k,
                           tp_public_key = \<lparr>ep_curve_id = Secp256R1, ep_value = [0x04] @ x @ y\<rparr>\<rparr>)
                       }))))
   }"

section \<open>Signing\<close>

definition sign_hash :: "('v, 'c, 's, 'k) tss \<Rightarrow> bytes \<Rightarrow> ('c, 'k) tpm2 \<Rightarrow> (('c, 'k) tpm2 \<times> bytes result) option" where
  "sign_hash S h t =
     (if length h > ts_digest_max S then None
      else Some (case ts_sign S (tp_primary_key t) h (tp_context t) of
                   (c, Some (EcdsaSignature r s)) \<Rightarrow> (t\<lparr>tp_context := c\<rparr>, Inr (r @ s))
                 | (c, Some OtherSignature) \<Rightarrow> (t\<lparr>tp_context := c\<rparr>, tpm_error ''wrong sign elaboration'')
                 | (c, None) \<Rightarrow> (t\<lparr>tp_context := c\<rparr>, tpm_error ''error while signing digest'')))"

definition sign_data ::
    "env \<Rightarrow> ('v, 'c, 's, 'k) tss \<Rightarrow> bytes \<Rightarrow> ('c, 'k) tpm2 \<Rightarrow> (('c, 'k) tpm2 \<times> bytes result) option" where
  "sign_data E S data t = sign_hash S (digest_bytes (e_sha256 E data)) t"

section \<open>As a key pair\<close>

text \<open>The variant of \<open>ecdsa::KeyPair\<close> for the device: the curve it was made with and the module.\<close>

definition new_tpm2 ::
    "('v, 'c, 's, 'k) tss \<Rightarrow> curve_id \<Rightarrow> string \<Rightarrow> (curve_id \<times> ('c, 'k) tpm2) result option" where
  "new_tpm2 S curve_id device = map_option (map_sum id (Pair curve_id)) (tpm2_new S (Some device))"

definition tpm2_key_sign ::
    "env \<Rightarrow> ('v, 'c, 's, 'k) tss \<Rightarrow> bytes \<Rightarrow> curve_id \<times> ('c, 'k) tpm2 \<Rightarrow>
     ((curve_id \<times> ('c, 'k) tpm2) \<times> bytes result) option" where
  "tpm2_key_sign E S data kp = map_option (apfst (Pair (fst kp))) (sign_data E S data (snd kp))"

definition tpm2_key_public_key :: "curve_id \<times> ('c, 'k) tpm2 \<Rightarrow> ecdsa_public_key" where
  "tpm2_key_public_key kp = tp_public_key (snd kp)"

section \<open>What it gives\<close>

text \<open>With a device that takes digests of 32 bytes signing never panics, and what is signed is the digest of the
  data with the key made at the start.\<close>

lemma sign_data_spec:
  assumes "ts_digest_max S \<ge> 32"
  shows "\<exists>r. sign_data E S data t = Some r \<and>
    (\<forall>sig. snd r = Inr sig \<longrightarrow> (\<exists>c a b. sig = a @ b \<and>
       ts_sign S (tp_primary_key t) (digest_bytes (e_sha256 E data)) (tp_context t) = (c, Some (EcdsaSignature a b))))"
  using assms
  by (auto simp: sign_data_def sign_hash_def tpm_error_def split: prod.splits option.splits tpm_signature.splits)

text \<open>The handle that signs is the one whose public point the public key holds, read once the session was set up;
  the value is the tag of an uncompressed point and the two components.\<close>

lemma tpm2_new_public_key:
  assumes "tpm2_new S dev = Some (Inr t)"
  shows "\<exists>c bx b_y. ts_read_public S (tp_primary_key t) c = (tp_context t, Some (bx, b_y)) \<and>
    snd bx \<le> length (fst bx) \<and> snd b_y \<le> length (fst b_y) \<and>
    tp_public_key t = \<lparr>ep_curve_id = Secp256R1,
      ep_value = [0x04] @ take (snd bx) (fst bx) @ take (snd b_y) (fst b_y)\<rparr>"
proof -
  obtain c where c: "create_context S dev = Some (Inr c)"
    using assms by (cases "create_context S dev") (auto simp: tpm2_new_def split: sum.split_asm)
  obtain c1 where c1: "set_session S c = (c1, Inr ())"
    using assms c by (cases "set_session S c") (auto simp: tpm2_new_def split: sum.split_asm)
  obtain c2 k where c2: "create_ecdsa_p256_primary_key_from_context S c1 = (c2, Inr k)"
    using assms c c1
    by (cases "create_ecdsa_p256_primary_key_from_context S c1") (auto simp: tpm2_new_def split: sum.split_asm)
  obtain c3 bx b_y where c3: "retrieve_ecc_public_key S k c2 = (c3, Inr (bx, b_y))"
    using assms c c1 c2
    by (cases "retrieve_ecc_public_key S k c2") (auto simp: tpm2_new_def split: sum.split_asm)
  have "ts_read_public S k c2 = (c3, Some (bx, b_y))"
    using c3 by (auto simp: retrieve_ecc_public_key_def tpm_error_def split: prod.split_asm option.split_asm)
  then show ?thesis
    using assms c c1 c2 c3
    by (intro exI [of _ c2] exI [of _ bx] exI [of _ b_y])
       (auto simp: tpm2_new_def component_def bind_eq_Some_conv split: if_split_asm)
qed

text \<open>The curve that \<open>new_tpm2\<close> is given does not matter: the public key is always one of P-256, and keeps being the
  same key after signing.\<close>

lemma new_tpm2_curve:
  assumes "new_tpm2 S curve_id device = Some (Inr kp)"
  shows "ep_curve_id (tpm2_key_public_key kp) = Secp256R1"
    and "tpm2_key_sign E S data kp = Some (kp', r) \<Longrightarrow> tpm2_key_public_key kp' = tpm2_key_public_key kp"
proof -
  obtain t where t: "tpm2_new S (Some device) = Some (Inr t)" and kp: "kp = (curve_id, t)"
  proof -
    obtain z where z: "tpm2_new S (Some device) = Some z" "map_sum id (Pair curve_id) z = Inr kp"
      using assms by (auto simp: new_tpm2_def)
    then show ?thesis using that by (cases z) auto
  qed
  from tpm2_new_public_key [OF t] show "ep_curve_id (tpm2_key_public_key kp) = Secp256R1"
    by (auto simp: kp tpm2_key_public_key_def)
  assume "tpm2_key_sign E S data kp = Some (kp', r)"
  then show "tpm2_key_public_key kp' = tpm2_key_public_key kp"
    by (auto simp: kp tpm2_key_public_key_def tpm2_key_sign_def sign_data_def sign_hash_def
      split: if_split_asm prod.split_asm option.split_asm tpm_signature.split_asm)
qed

end
