(* ===== verification/Concurrent.thy ===== *)
theory Concurrent
  imports Progress
begin

text \<open>
  The blockchain worker at the granularity of its locks. In \<^verbatim>\<open>src/blockchain/worker.rs\<close> the event loop, the
  handlers, the builder and the executor run as separate tasks; they share the pool and the database, each
  behind a lock that is released between two accesses. Here one step is one region of the code under a
  lock (or one transaction of a block, whose payload is fetched under the pool's lock), so the regions of
  all tasks can interleave in any order; the state of a task between two regions is its phase, with the
  local variables that live there. A turn of the aligner's thread is one step.

  It shows which guarantees of the atomic view of theory \<open>Worker\<close> survive every interleaving, and two
  that do not.
\<close>

section \<open>The executor's task\<close>

text \<open>Local variables of \<open>run\<close> while a block is executed.\<close>

record exec_job =
  ej_is_validator :: bool
  ej_prev_hash :: hash
  ej_height :: u64
  ej_info :: block_info
  ej_txs_hashes :: "hash list"

datatype 'f exec_phase =
    ExIdle
  | ExStart bool
  | ExSteal bool hash u64
  | ExStolen exec_job
  | ExTxs exec_job nat 'f "hash list"
  | ExMerged exec_job hash
  | ExFailed exec_job error
  | ExCheck bool hash u64
  | ExPanicked

text \<open>The end of \<open>exec_block\<close>, after the transactions: the block is sealed, merged and published.\<close>

definition exec_seal ::
    "env \<Rightarrow> ('d, 'f) db_ops \<Rightarrow> (nat \<Rightarrow> bool) \<Rightarrow> ('d \<Rightarrow> string \<Rightarrow> bool result) \<Rightarrow> exec_job \<Rightarrow> hash list \<Rightarrow> 'f \<Rightarrow>
     ('d, 'w) executor \<Rightarrow> ('d, 'w) executor \<times> hash result" where
  "exec_seal E D closed is_val j rxs_hashes f x1 =
     (case seal_block E D is_val (ex_keypair x1) (ex_db x1) (ej_height j) (ej_txs_hashes j) rxs_hashes
             (ej_prev_hash j) (block_values_of (ej_info j)) f of
        Inl e \<Rightarrow> (x1, Inl e)
      | Inr (db', block) \<Rightarrow>
          (let x2 = x1\<lparr>ex_db := db'\<rparr>;
               x3 = (if ej_is_validator j \<and> has_subscribers (ex_pubsub x2) EV_BLOCK
                     then publish_msg E closed EV_BLOCK (GetBlockResponse block (Some (ej_txs_hashes j)) None) x2
                     else x2);
               x4 = (if ej_is_validator j
                     then x3\<lparr>ex_is_validator :=
                            (case is_val db' (to_account_id E (kp_public_key (ex_keypair x3))) of
                               Inr valid \<Rightarrow> valid | Inl _ \<Rightarrow> False)\<rparr>
                     else x3)
           in (x4, Inr (block_hash E block))))"

text \<open>What the executor changes of the shared state.\<close>

definition exec_on :: "('d, 'w) executor \<Rightarrow> ('d, 'w) worker \<Rightarrow> ('d, 'w) worker" where
  "exec_on x w = (worker_executed x w)\<lparr>wk_executing := wk_executing w\<rparr>"

definition on_pool :: "(pool \<Rightarrow> pool) \<Rightarrow> ('d, 'w) worker \<Rightarrow> ('d, 'w) worker" where
  "on_pool f w = w\<lparr>wk_dispatcher := (wk_dispatcher w)\<lparr>dp_pool := f (dp_pool (wk_dispatcher w))\<rparr>\<rparr>"

text \<open>The task is over: \<open>executing.store(false)\<close>.\<close>

definition exec_over :: "('d, 'w) worker \<Rightarrow> 'f exec_phase \<times> ('d, 'w) worker" where
  "exec_over w = (ExIdle, w\<lparr>wk_executing := False\<rparr>)"

text \<open>One region of \<open>run\<close>; \<open>None\<close>: there is no task, or it panicked.\<close>

definition exec_step ::
    "env \<Rightarrow> ('d, 'f) db_ops \<Rightarrow> ('w, 'f) wm_ops \<Rightarrow> (nat \<Rightarrow> bool) \<Rightarrow> ('d \<Rightarrow> string \<Rightarrow> bool result) \<Rightarrow>
     'f exec_phase \<Rightarrow> ('d, 'w) worker \<Rightarrow> ('f exec_phase \<times> ('d, 'w) worker) option" where
  "exec_step E D W closed is_val ph w =
     (let s = wk_dispatcher w; x = worker_executor w
      in case ph of
           ExIdle \<Rightarrow> None
         | ExPanicked \<Rightarrow> None
         | ExStart iv \<Rightarrow>
             Some (case db_load_block D (dp_db s) u64_max of
                     Some block \<Rightarrow> ExSteal iv (block_hash E block) (bd_height (blk_data block) + 1)
                   | None \<Rightarrow> ExSteal iv hash_default 0, w)
         | ExSteal iv prev_hash height \<Rightarrow>
             Some (case map_of (pl_confirmed (dp_pool s)) height of
                     None \<Rightarrow> exec_over w
                   | Some bi \<Rightarrow>
                       (case bi_txs_hashes bi of
                          None \<Rightarrow> exec_over w
                        | Some hashes \<Rightarrow>
                            (ExStolen \<lparr>ej_is_validator = iv, ej_prev_hash = prev_hash, ej_height = height,
                                       ej_info = bi, ej_txs_hashes = hashes\<rparr>,
                             on_pool (steal_block height bi) w)))
         | ExStolen j \<Rightarrow> Some (ExTxs j 0 (db_fork_create D (dp_db s)) [], w)
         | ExTxs j i f rxs \<Rightarrow>
             Some (if i < length (ej_txs_hashes j)
                   then (case exec_transactions E D W closed (ej_height j) (bi_timestamp (ej_info j)) i
                                [ej_txs_hashes j ! i] x f of
                           None \<Rightarrow> (ExPanicked, w)
                         | Some (x1, f1, rx) \<Rightarrow> (ExTxs j (Suc i) f1 (rxs @ rx), exec_on x1 w))
                   else (case exec_seal E D closed is_val j rxs f x of
                           (x1, Inl e) \<Rightarrow> (ExFailed j e, exec_on x1 w)
                         | (x1, Inr h) \<Rightarrow> (ExMerged j h, exec_on x1 w)))
         | ExMerged j h \<Rightarrow>
             Some (ExCheck (ej_is_validator j) h (ej_height j + 1),
                   exec_on (after_block E D closed (ej_height j) (ej_txs_hashes j) x) w)
         | ExFailed j e \<Rightarrow>
             Some (let w1 = on_pool (restore_pool (ej_height j) (ej_info j)) w
                   in case error_to_string_full e of None \<Rightarrow> (ExPanicked, w1) | Some _ \<Rightarrow> exec_over w1)
         | ExCheck iv h height \<Rightarrow>
             Some (if executor_can_run D height (dp_db s) (dp_pool s) then (ExSteal iv h height, w) else exec_over w))"

section \<open>The builder's task\<close>

datatype build_phase =
    BuIdle
  | BuStart
  | BuCount u64
  | BuWhile nat u64

text \<open>The height is read with the pool locked, then the length of the queue, then each block is cut under
  one lock. With nothing left to cut the length is read again.\<close>

definition build_step ::
    "('d, 'f) db_ops \<Rightarrow> u64 \<Rightarrow> build_phase \<Rightarrow> ('d, 'w) worker \<Rightarrow> (build_phase \<times> ('d, 'w) worker) option" where
  "build_step D now ph w =
     (let s = wk_dispatcher w; pool = dp_pool s; threshold = bu_threshold (wk_builder w)
      in case ph of
           BuIdle \<Rightarrow> None
         | BuStart \<Rightarrow> Some (BuCount (builder_height D (dp_db s) pool), w)
         | BuCount height \<Rightarrow> Some (BuWhile (qs_len (pl_unconfirmed pool)) height, w)
         | BuWhile count height \<Rightarrow>
             Some (if count > 0
                   then (case build_block threshold (\<lambda>_. now) (count, height, pool) of
                           (count', height', pool') \<Rightarrow> (BuWhile count' height', on_pool (\<lambda>_. pool') w))
                   else if qs_len (pl_unconfirmed pool) < threshold then (BuIdle, w\<lparr>wk_building := False\<rparr>)
                   else (BuWhile (qs_len (pl_unconfirmed pool)) height, w)))"

section \<open>The handlers' tasks\<close>

text \<open>The two regions of \<open>put_transaction_internal\<close>: the tests up to the look into the database are
  \<open>admit_transaction\<close>, this is the part with the pool locked.\<close>

definition put_in_pool :: "hash \<Rightarrow> transaction \<Rightarrow> pool \<Rightarrow> pool \<times> hash result" where
  "put_in_pool hash tx pool =
     (case pl_txs pool hash of
        None \<Rightarrow>
          (pool\<lparr>pl_txs := (pl_txs pool)(hash \<mapsto> Some tx),
                pl_unconfirmed := fst (qs_push (pl_unconfirmed pool) hash)\<rparr>, Inr hash)
      | Some None \<Rightarrow> (pool\<lparr>pl_txs := (pl_txs pool)(hash \<mapsto> Some tx)\<rparr>, Inr hash)
      | Some (Some _) \<Rightarrow>
          (pool, if qs_contains (pl_unconfirmed pool) hash then Inl (error_new DuplicatedUnconfirmedTx)
                 else Inl (error_new DuplicatedConfirmedTx)))"

text \<open>Who submitted a transaction decides what follows: it is broadcast if it was accepted from a client, and the
  aligner, if active, is told of one that a peer sent.\<close>

datatype put_source = FromClient | FromPeer "string option"

definition put_done ::
    "env \<Rightarrow> (nat \<Rightarrow> bool) \<Rightarrow> put_source \<Rightarrow> transaction \<Rightarrow> hash result \<Rightarrow> 'd dispatcher \<Rightarrow> 'd dispatcher" where
  "put_done E closed src tx r s =
     (case src of
        FromClient \<Rightarrow> (case r of Inr _ \<Rightarrow> broadcast_attempt E closed tx s | Inl _ \<Rightarrow> s)
      | FromPeer origin \<Rightarrow>
          if \<not> dp_aligned s then s\<lparr>dp_aligner := dp_aligner s @ [GetTransactionResponse tx origin]\<rparr> else s)"

text \<open>A received block is queued when it is one above the next height and the node is aligned; what is read from the
  database is old when the pool is locked.\<close>

definition block_is_next :: "('d, 'f) db_ops \<Rightarrow> block \<Rightarrow> 'd dispatcher \<Rightarrow> bool" where
  "block_is_next D block s \<longleftrightarrow> missing_start D (dp_db s) + 1 = bd_height (blk_data block) \<and> dp_aligned s"

text \<open>The other requests neither touch the pool nor the database. The parts of a packed request are handled one by one, each in steps of
  its own.\<close>

fun simple_request :: "message \<Rightarrow> bool" where
  "simple_request (PutTransactionRequest _ _) = False"
| "simple_request (GetTransactionResponse _ _) = False"
| "simple_request (GetBlockResponse _ _ _) = False"
| "simple_request (Packed _) = False"
| "simple_request _ = True"

section \<open>The node\<close>

text \<open>\<open>cn_probe\<close>, \<open>cn_build_probe\<close>: how far the event loop is in \<open>try_exec_block\<close> and \<open>try_build_block\<close>;
  \<open>cn_puts\<close>, \<open>cn_blocks\<close>: the handlers between their two regions.\<close>

datatype probe = PrIdle | PrHeight u64 | PrReady

record ('d, 'w, 'f) cnode =
  cn_worker :: "('d, 'w) worker"
  cn_exec :: "'f exec_phase"
  cn_build :: build_phase
  cn_probe :: probe
  cn_build_probe :: bool
  cn_puts :: "(put_source \<times> transaction \<times> hash) list"
  cn_blocks :: "(block \<times> hash list option) list"

definition cnode_start :: "('d, 'w) worker \<Rightarrow> ('d, 'w, 'f) cnode" where
  "cnode_start w =
     \<lparr>cn_worker = w, cn_exec = ExIdle, cn_build = BuIdle, cn_probe = PrIdle, cn_build_probe = False, cn_puts = [],
      cn_blocks = []\<rparr>"

abbreviation cn_disp :: "('d, 'w, 'f) cnode \<Rightarrow> 'd dispatcher" where
  "cn_disp c \<equiv> wk_dispatcher (cn_worker c)"

abbreviation cn_pool :: "('d, 'w, 'f) cnode \<Rightarrow> pool" where
  "cn_pool c \<equiv> dp_pool (cn_disp c)"

abbreviation cn_db :: "('d, 'w, 'f) cnode \<Rightarrow> 'd" where
  "cn_db c \<equiv> dp_db (cn_disp c)"

definition on_disp :: "'d dispatcher \<Rightarrow> ('d, 'w, 'f) cnode \<Rightarrow> ('d, 'w, 'f) cnode" where
  "on_disp s c = c\<lparr>cn_worker := (cn_worker c)\<lparr>wk_dispatcher := s\<rparr>\<rparr>"

text \<open>\<open>can_run(u64::MAX)\<close> reads the height, then the pool; only a positive answer leads to the swap.\<close>

definition probe_step :: "('d, 'f) db_ops \<Rightarrow> ('d, 'w, 'f) cnode \<Rightarrow> ('d, 'w, 'f) cnode" where
  "probe_step D c =
     (case cn_probe c of
        PrIdle \<Rightarrow> c\<lparr>cn_probe := PrHeight (next_height D (cn_db c))\<rparr>
      | PrHeight height \<Rightarrow>
          c\<lparr>cn_probe := (if executor_can_run D height (cn_db c) (cn_pool c) then PrReady else PrIdle)\<rparr>
      | PrReady \<Rightarrow>
          if wk_executing (cn_worker c) then c\<lparr>cn_probe := PrIdle\<rparr>
          else c\<lparr>cn_probe := PrIdle, cn_worker := (cn_worker c)\<lparr>wk_executing := True\<rparr>,
                 cn_exec := ExStart (wk_is_validator (cn_worker c))\<rparr>)"

definition build_probe_step :: "bool \<Rightarrow> nat \<Rightarrow> ('d, 'w, 'f) cnode \<Rightarrow> ('d, 'w, 'f) cnode" where
  "build_probe_step locked threshold c =
     (if \<not> cn_build_probe c then c\<lparr>cn_build_probe := builder_can_run locked (cn_pool c) threshold\<rparr>
      else if wk_building (cn_worker c) then c\<lparr>cn_build_probe := False\<rparr>
      else c\<lparr>cn_build_probe := False, cn_worker := (cn_worker c)\<lparr>wk_building := True\<rparr>, cn_build := BuStart\<rparr>)"

definition admit_step ::
    "env \<Rightarrow> ('d, 'f) db_ops \<Rightarrow> (nat \<Rightarrow> bool) \<Rightarrow> put_source \<Rightarrow> transaction \<Rightarrow> ('d, 'w, 'f) cnode \<Rightarrow> ('d, 'w, 'f) cnode" where
  "admit_step E D closed src tx c =
     (case admit_transaction E D (cn_disp c) tx of
        Inl e \<Rightarrow> on_disp (put_done E closed src tx (Inl e) (cn_disp c)) c
      | Inr hash \<Rightarrow> c\<lparr>cn_puts := cn_puts c @ [(src, tx, hash)]\<rparr>)"

definition put_step ::
    "env \<Rightarrow> (nat \<Rightarrow> bool) \<Rightarrow> put_source \<times> transaction \<times> hash \<Rightarrow> ('d, 'w, 'f) cnode \<Rightarrow> ('d, 'w, 'f) cnode" where
  "put_step E closed p c =
     (case p of (src, tx, hash) \<Rightarrow>
        case put_in_pool hash tx (cn_pool c) of (pool, r) \<Rightarrow>
          (on_disp (put_done E closed src tx r ((cn_disp c)\<lparr>dp_pool := pool\<rparr>)) c)
            \<lparr>cn_puts := remove1 p (cn_puts c)\<rparr>)"

definition receive_step ::
    "env \<Rightarrow> ('d, 'f) db_ops \<Rightarrow> block \<Rightarrow> hash list option \<Rightarrow> string option \<Rightarrow> ('d, 'w, 'f) cnode \<Rightarrow> ('d, 'w, 'f) cnode" where
  "receive_step E D block txs origin c =
     (if block_is_next D block (cn_disp c) then c\<lparr>cn_blocks := cn_blocks c @ [(block, txs)]\<rparr>
      else on_disp (get_block_res_handler E D block txs origin (cn_disp c)) c)"

definition queue_block_step :: "env \<Rightarrow> block \<times> hash list option \<Rightarrow> ('d, 'w, 'f) cnode \<Rightarrow> ('d, 'w, 'f) cnode" where
  "queue_block_step E b c =
     c\<lparr>cn_worker := on_pool (add_received_block E (fst b) (snd b)) (cn_worker c), cn_blocks := remove1 b (cn_blocks c)\<rparr>"

datatype actor = EventLoop | Handler | PeerBlock | BuilderTask | ExecutorTask | AlignerThread

inductive fine_step ::
    "env \<Rightarrow> 'd codec \<Rightarrow> ('d, 'f) db_ops \<Rightarrow> ('w, 'f) wm_ops \<Rightarrow> ('d \<Rightarrow> string \<Rightarrow> bool result) \<Rightarrow>
     actor \<Rightarrow> ('d, 'w, 'f) cnode \<Rightarrow> ('d, 'w, 'f) cnode \<Rightarrow> bool"
  for E :: env and C :: "'d codec" and D :: "('d, 'f) db_ops" and W :: "('w, 'f) wm_ops" and is_val where
  ProbeExec: "fine_step E C D W is_val EventLoop c (probe_step D c)"
| ProbeBuild: "fine_step E C D W is_val EventLoop c (build_probe_step locked threshold c)"
| Admit: "fine_step E C D W is_val Handler c (admit_step E D closed src tx c)"
| Put: "p \<in> set (cn_puts c) \<Longrightarrow> fine_step E C D W is_val Handler c (put_step E closed p c)"
| Receive: "fine_step E C D W is_val PeerBlock c (receive_step E D block txs origin c)"
| QueueBlock: "b \<in> set (cn_blocks c) \<Longrightarrow> fine_step E C D W is_val PeerBlock c (queue_block_step E b c)"
| Request: "simple_request req \<Longrightarrow> handle_message E C D closed chan req (cn_disp c) = Some s \<Longrightarrow>
    fine_step E C D W is_val Handler c (on_disp s c)"
| Build: "build_step D now (cn_build c) (cn_worker c) = Some (ph, w) \<Longrightarrow>
    fine_step E C D W is_val BuilderTask c (c\<lparr>cn_build := ph, cn_worker := w\<rparr>)"
| Exec: "exec_step E D W closed is_val (cn_exec c) (cn_worker c) = Some (ph, w) \<Longrightarrow>
    fine_step E C D W is_val ExecutorTask c (c\<lparr>cn_exec := ph, cn_worker := w\<rparr>)"
| Align: "al_step E D iter closed t (fst (wk_aligner (cn_worker c)), snd (wk_aligner (cn_worker c)), cn_disp c) =
      Some (ph, al, s) \<Longrightarrow>
    fine_step E C D W is_val AlignerThread c
      (c\<lparr>cn_worker := (cn_worker c)\<lparr>wk_dispatcher := s, wk_aligner := (ph, al)\<rparr>\<rparr>)"

text \<open>Runs in which every step, with the actor that takes it and the state it leads to, is allowed.\<close>

inductive fine_reach ::
    "env \<Rightarrow> 'd codec \<Rightarrow> ('d, 'f) db_ops \<Rightarrow> ('w, 'f) wm_ops \<Rightarrow> ('d \<Rightarrow> string \<Rightarrow> bool result) \<Rightarrow>
     (actor \<Rightarrow> ('d, 'w, 'f) cnode \<Rightarrow> bool) \<Rightarrow> ('d, 'w, 'f) cnode \<Rightarrow> ('d, 'w, 'f) cnode \<Rightarrow> bool"
  for E :: env and C :: "'d codec" and D :: "('d, 'f) db_ops" and W :: "('w, 'f) wm_ops" and is_val and allowed where
  Here: "fine_reach E C D W is_val allowed c c"
| Then: "fine_reach E C D W is_val allowed c c' \<Longrightarrow> fine_step E C D W is_val a c' c'' \<Longrightarrow> allowed a c'' \<Longrightarrow>
    fine_reach E C D W is_val allowed c c''"

section \<open>What the regions leave alone\<close>

lemma put_done_frame [frame_simps]:
  "dp_pool (put_done E closed src tx r s) = dp_pool s" "dp_db (put_done E closed src tx r s) = dp_db s"
  by (simp_all add: put_done_def broadcast_attempt_def split: put_source.splits sum.splits prod.splits)

lemma exec_on_frame [frame_simps]:
  "dp_pool (wk_dispatcher (exec_on x w)) = ex_pool x" "dp_db (wk_dispatcher (exec_on x w)) = ex_db x"
  "wk_executing (exec_on x w) = wk_executing w"
  by (simp_all add: exec_on_def worker_executed_def)

lemma worker_executor_frame [frame_simps]:
  "ex_pool (worker_executor w) = dp_pool (wk_dispatcher w)" "ex_db (worker_executor w) = dp_db (wk_dispatcher w)"
  by (simp_all add: worker_executor_def Let_def)

lemma on_pool_frame [frame_simps]:
  "dp_pool (wk_dispatcher (on_pool g w)) = g (dp_pool (wk_dispatcher w))"
  "dp_db (wk_dispatcher (on_pool g w)) = dp_db (wk_dispatcher w)" "wk_executing (on_pool g w) = wk_executing w"
  by (simp_all add: on_pool_def)

lemma exec_seal_pool: "ex_pool (fst (exec_seal E D closed is_val j rxs f x)) = ex_pool x"
  by (simp add: exec_seal_def Let_def frame_simps split: sum.splits prod.splits)

text \<open>\<open>exec_block\<close> is the transactions, one after the other, and the end.\<close>

lemma exec_block_seal:
  "exec_block E D W closed is_val (ej_is_validator j) (ej_height j) (ej_txs_hashes j) (ej_prev_hash j)
     (block_values_of (ej_info j)) x =
   map_option (\<lambda>(x1, f1, rxs). exec_seal E D closed is_val j rxs f1 x1)
     (exec_transactions E D W closed (ej_height j) (bi_timestamp (ej_info j)) 0 (ej_txs_hashes j) x
        (db_fork_create D (ex_db x)))"
proof -
  have ts: "bv_timestamp (block_values_of (ej_info j)) = bi_timestamp (ej_info j)" by (simp add: block_values_of_def)
  show ?thesis
    unfolding exec_block_def exec_seal_def ts
    by (cases "exec_transactions E D W closed (ej_height j) (bi_timestamp (ej_info j)) 0 (ej_txs_hashes j) x
        (db_fork_create D (ex_db x))") (simp_all add: split_beta)
qed

lemma put_step_pool: "cn_pool (put_step E closed p c) = fst (put_in_pool (snd (snd p)) (fst (snd p)) (cn_pool c))"
  by (simp add: put_step_def on_disp_def frame_simps split: prod.splits)

lemma put_in_pool_confirmed: "pl_confirmed (fst (put_in_pool k tx p)) = pl_confirmed p"
  by (simp add: put_in_pool_def split: option.splits)

end
