(* ===== verification/Atomic.thy ===== *)
theory Atomic
  imports Concurrent
begin

text \<open>
  The atomic tasks of theory \<open>Worker\<close> are runs of the interleaved model: a run of the executor or of the builder that is not
  interrupted, taken region by region, gives the result of \<open>executor_run\<close> and \<open>builder_run\<close>, and the two regions of a
  submission give that of the handler. So the interleaved model only adds behaviours.
\<close>

section \<open>Runs\<close>

lemma fine_reach_one: "fine_step E C D W is_val a c c' \<Longrightarrow> allowed a c' \<Longrightarrow> fine_reach E C D W is_val allowed c c'"
  using fine_reach.Then [OF fine_reach.Here] .

lemma fine_reach_trans:
  assumes "fine_reach E C D W is_val allowed b c" and "fine_reach E C D W is_val allowed a b"
  shows "fine_reach E C D W is_val allowed a c"
  using assms by (induction rule: fine_reach.induct) (blast intro: fine_reach.Then)+

text \<open>Some steps of the executor alone, on its phase and the worker.\<close>

inductive exec_steps ::
    "env \<Rightarrow> ('d, 'f) db_ops \<Rightarrow> ('w, 'f) wm_ops \<Rightarrow> (nat \<Rightarrow> bool) \<Rightarrow> ('d \<Rightarrow> string \<Rightarrow> bool result) \<Rightarrow>
     'f exec_phase \<Rightarrow> ('d, 'w) worker \<Rightarrow> 'f exec_phase \<Rightarrow> ('d, 'w) worker \<Rightarrow> bool"
  for E :: env and D :: "('d, 'f) db_ops" and W :: "('w, 'f) wm_ops" and closed and is_val where
  NoStep: "exec_steps E D W closed is_val ph w ph w"
| MoreSteps: "exec_step E D W closed is_val ph w = Some (ph1, w1) \<Longrightarrow> exec_steps E D W closed is_val ph1 w1 ph2 w2 \<Longrightarrow>
    exec_steps E D W closed is_val ph w ph2 w2"

lemma exec_steps_trans:
  "exec_steps E D W closed is_val ph w ph1 w1 \<Longrightarrow> exec_steps E D W closed is_val ph1 w1 ph2 w2 \<Longrightarrow>
   exec_steps E D W closed is_val ph w ph2 w2"
  by (induction rule: exec_steps.induct) (blast intro: exec_steps.MoreSteps)+

lemma exec_steps_snoc:
  "exec_steps E D W closed is_val ph w ph1 w1 \<Longrightarrow> exec_step E D W closed is_val ph1 w1 = Some (ph2, w2) \<Longrightarrow>
   exec_steps E D W closed is_val ph w ph2 w2"
  using exec_steps_trans [OF _ exec_steps.MoreSteps [OF _ exec_steps.NoStep]] .

lemma exec_steps_reach:
  assumes "exec_steps E D W closed is_val ph w ph' w'" and "\<And>c. allowed ExecutorTask c"
  shows "fine_reach E C D W is_val allowed (c\<lparr>cn_exec := ph, cn_worker := w\<rparr>) (c\<lparr>cn_exec := ph', cn_worker := w'\<rparr>)"
  using assms(1)
proof (induction rule: exec_steps.induct)
  case (MoreSteps ph w ph1 w1 ph2 w2)
  from MoreSteps.hyps(1) have "fine_step E C D W is_val ExecutorTask (c\<lparr>cn_exec := ph, cn_worker := w\<rparr>) (c\<lparr>cn_exec := ph1, cn_worker := w1\<rparr>)"
    using fine_step.Exec [of E D W closed is_val "c\<lparr>cn_exec := ph, cn_worker := w\<rparr>" ph1 w1] by simp
  then have "fine_reach E C D W is_val allowed (c\<lparr>cn_exec := ph, cn_worker := w\<rparr>) (c\<lparr>cn_exec := ph1, cn_worker := w1\<rparr>)"
    by (rule fine_reach_one) (rule assms(2))
  with MoreSteps.IH show ?case by (rule fine_reach_trans)
qed (rule fine_reach.Here)

lemma cnode_same: "cn_exec c = ph \<Longrightarrow> c\<lparr>cn_exec := ph\<rparr> = c" "cn_build c = bph \<Longrightarrow> c\<lparr>cn_build := bph\<rparr> = c"
  by (cases c; simp)+

section \<open>The executor\<close>

text \<open>The worker's view of an executor that works on its clone of the settings.\<close>

definition clone_of :: "('d, 'w) worker \<Rightarrow> ('d, 'w) executor \<Rightarrow> bool" where
  "clone_of w x \<longleftrightarrow>
     ex_keypair x = bc_keypair (dp_config (wk_dispatcher w)) \<and> ex_burn_fuel_method x = wk_burn_fuel_method w"

abbreviation anon :: "('d, 'w) executor \<Rightarrow> ('d, 'w) executor" where
  "anon x \<equiv> x\<lparr>ex_is_validator := False\<rparr>"

lemma worker_executor_exec_on: "clone_of w x \<Longrightarrow> worker_executor (exec_on x w) = anon x"
  by (simp add: clone_of_def worker_executor_def exec_on_def worker_executed_def Let_def)

lemma exec_on_simps [simp]:
  "exec_on x (exec_on y w) = exec_on x w" "exec_on (anon x) w = exec_on x w" "clone_of (exec_on y w) x \<longleftrightarrow> clone_of w x"
  "clone_of w (worker_executor w)" "exec_on (worker_executor w) w = w" "wk_executing (exec_on x w) = wk_executing w"
  by (simp_all add: exec_on_def worker_executed_def clone_of_def worker_executor_def Let_def)

lemma exec_over_exec_on: "exec_over (exec_on x w) = (ExIdle, worker_executed x w)"
  by (simp add: exec_over_def exec_on_def worker_executed_def)

text \<open>The flag \<open>is_validator\<close> of the clone is written, never read.\<close>

lemma publish_msg_anon: "publish_msg E closed ev msg (anon x) = anon (publish_msg E closed ev msg x)"
  by (simp add: publish_msg_def split: prod.splits)

lemma emit_events_anon: "emit_events E closed evs (anon x) = anon (emit_events E closed evs x)"
proof -
  have "fold (\<lambda>ev. publish_msg E closed EV_CONTRACT_EVENTS (GetContractEvent ev)) evs (anon x) =
    anon (fold (\<lambda>ev. publish_msg E closed EV_CONTRACT_EVENTS (GetContractEvent ev)) evs x)"
    by (induction evs arbitrary: x) (simp_all add: publish_msg_anon)
  then show ?thesis by (simp add: emit_events_def)
qed

lemma mach_anon [simp]: "get_mach (anon x) f = get_mach x f" "put_mach m (anon x) = anon (put_mach m x)"
  by (simp_all add: get_mach_def put_mach_def)

lemma exec_transaction_anon:
  assumes "exec_transaction E D W closed tx ht i mthd ts x f = Some (x', f', rx)"
  shows "exec_transaction E D W closed tx ht i mthd ts (anon x) f = Some (anon x', f', rx)"
  using assms
proof (cases rule: exec_transaction_cases)
  case (Burned m1 res m2 burned)
  then show ?thesis by (simp add: exec_transaction_def emit_events_anon Let_def split: option.splits)
next
  case (Failed m1 res m2 burned m4 fuel r)
  then show ?thesis by (simp add: exec_transaction_def Let_def)
qed

lemma exec_transactions_anon:
  "exec_transactions E D W closed ht ts i hs x f = Some (x', r) \<Longrightarrow>
   exec_transactions E D W closed ht ts i hs (anon x) f = Some (anon x', r)"
proof (induction hs arbitrary: i x f r)
  case (Cons h hs)
  obtain f' rxs where r: "r = (f', rxs)" by (cases r)
  from Cons.prems [unfolded r] show ?case
  proof (cases rule: exec_transactions_Cons)
    case (1 tx x1 f1 rx rxs')
    with exec_transaction_anon [OF 1(2)] Cons.IH [OF 1(3)] show ?thesis by (simp add: r Let_def)
  qed
qed simp

lemma exec_seal_anon:
  assumes "exec_seal E D closed is_val j rxs f x = (x', r)"
  shows "\<exists>y. exec_seal E D closed is_val j rxs f (anon x) = (y, r) \<and> anon y = anon x'"
  using assms
  by (auto simp: exec_seal_def Let_def publish_msg_def split: sum.splits prod.splits if_splits)

lemma after_block_anon: "after_block E D closed ht hs (anon x) = anon (after_block E D closed ht hs x)"
  by (simp add: after_block_def Let_def publish_msg_def split: option.splits prod.splits)

text \<open>The transactions of a block, one at a time.\<close>

lemma exec_transactions_split:
  assumes "exec_transactions E D W closed ht ts i (h # hs) x f = Some (x', f', rxs)"
  obtains x1 f1 rx rxs' where "exec_transactions E D W closed ht ts i [h] x f = Some (x1, f1, [rx])"
    "exec_transactions E D W closed ht ts (Suc i) hs x1 f1 = Some (x', f', rxs')" "rxs = rx # rxs'"
  using assms
proof (cases rule: exec_transactions_Cons)
  case (1 tx x1 f1 rx rxs')
  then show thesis using that [of x1] by (simp add: Let_def)
qed

lemma clone_of_shared: "clone_of w x \<Longrightarrow> same_shared x x' \<Longrightarrow> clone_of w x'"
  by (simp add: clone_of_def same_shared_def)

lemma exec_txs_steps:
  assumes "exec_transactions E D W closed (ej_height j) (bi_timestamp (ej_info j)) i hs x f = Some (x', f', rxs')"
    and "hs = drop i (ej_txs_hashes j)" and "i \<le> length (ej_txs_hashes j)" and "clone_of w x"
  shows "exec_steps E D W closed is_val (ExTxs j i f rxs) (exec_on x w)
    (ExTxs j (length (ej_txs_hashes j)) f' (rxs @ rxs')) (exec_on x' w)"
  using assms
proof (induction hs arbitrary: i x f rxs rxs')
  case Nil
  then have "i = length (ej_txs_hashes j)" by simp
  with Nil show ?case by (simp add: exec_steps.NoStep)
next
  case (Cons h hs)
  from Cons.prems(2) have i: "i < length (ej_txs_hashes j)" "h = ej_txs_hashes j ! i" "hs = drop (Suc i) (ej_txs_hashes j)"
    by (metis drop_all list.distinct(1) not_less, metis hd_drop_conv_nth list.sel(1) drop_all list.distinct(1) not_less,
        metis drop_Suc list.sel(3) tl_drop)
  from Cons.prems(1) show ?case
  proof (cases rule: exec_transactions_split)
    case (1 x1 f1 rx rxs1)
    from exec_transactions_anon [OF 1(1)] i Cons.prems(4)
    have "exec_step E D W closed is_val (ExTxs j i f rxs) (exec_on x w) = Some (ExTxs j (Suc i) f1 (rxs @ [rx]), exec_on x1 w)"
      by (simp add: exec_step_def Let_def worker_executor_exec_on del: exec_transactions.simps)
    moreover have "clone_of w x1" using Cons.prems(4) exec_transactions_shared [OF 1(1)] by (rule clone_of_shared)
    from Cons.IH [OF 1(2) i(3) _ this, of "rxs @ [rx]"] i(1) have "exec_steps E D W closed is_val (ExTxs j (Suc i) f1 (rxs @ [rx])) (exec_on x1 w)
        (ExTxs j (length (ej_txs_hashes j)) f' ((rxs @ [rx]) @ rxs1)) (exec_on x' w)" by simp
    ultimately show ?thesis using 1(3) exec_steps.MoreSteps by simp
  qed
qed

text \<open>A block that was stolen.\<close>

lemma exec_block_steps:
  assumes "exec_block E D W closed is_val (ej_is_validator j) (ej_height j) (ej_txs_hashes j) (ej_prev_hash j)
      (block_values_of (ej_info j)) x = Some (x', r)" and "clone_of w x"
  shows "exec_steps E D W closed is_val (ExStolen j) (exec_on x w)
    (case r of Inl e \<Rightarrow> ExFailed j e | Inr h \<Rightarrow> ExMerged j h) (exec_on x' w)"
proof -
  let ?hs = "ej_txs_hashes j"
  from assms(1) obtain x1 f1 rxs where
    t: "exec_transactions E D W closed (ej_height j) (bi_timestamp (ej_info j)) 0 ?hs x (db_fork_create D (ex_db x)) = Some (x1, f1, rxs)"
    and s: "exec_seal E D closed is_val j rxs f1 x1 = (x', r)"
    by (auto simp: exec_block_seal)
  have "exec_step E D W closed is_val (ExStolen j) (exec_on x w) = Some (ExTxs j 0 (db_fork_create D (ex_db x)) [], exec_on x w)"
    by (simp add: exec_step_def Let_def frame_simps)
  moreover have "exec_steps E D W closed is_val (ExTxs j 0 (db_fork_create D (ex_db x)) []) (exec_on x w)
      (ExTxs j (length ?hs) f1 rxs) (exec_on x1 w)"
    using exec_txs_steps [OF t _ _ assms(2), of _ "[]"] by simp
  moreover have c: "clone_of w x1" using assms(2) exec_transactions_shared [OF t] by (rule clone_of_shared)
  from exec_seal_anon [OF s] obtain y where y: "exec_seal E D closed is_val j rxs f1 (anon x1) = (y, r)" "anon y = anon x'" by blast
  have "exec_on y w = exec_on x' w" using y(2) exec_on_simps(2) by metis
  then have "exec_step E D W closed is_val (ExTxs j (length ?hs) f1 rxs) (exec_on x1 w) =
      Some (case r of Inl e \<Rightarrow> ExFailed j e | Inr h \<Rightarrow> ExMerged j h, exec_on x' w)"
    by (cases r) (simp_all add: exec_step_def Let_def worker_executor_exec_on [OF c] y(1))
  ultimately show ?thesis by (blast intro: exec_steps.intros exec_steps_trans)
qed

lemma on_pool_exec_on: "on_pool g (exec_on x w) = exec_on (x\<lparr>ex_pool := g (ex_pool x)\<rparr>) w"
  by (simp add: on_pool_def exec_on_def worker_executed_def)

lemma exec_loop_head:
  assumes "map_of (pl_confirmed (ex_pool x)) (ej_height j) = Some (ej_info j)" and "bi_txs_hashes (ej_info j) = Some (ej_txs_hashes j)"
    and "exec_block E D W closed is_val (ej_is_validator j) (ej_height j) (ej_txs_hashes j) (ej_prev_hash j)
      (block_values_of (ej_info j)) (x\<lparr>ex_pool := steal_block (ej_height j) (ej_info j) (ex_pool x)\<rparr>) = Some (x1, r)"
    and "clone_of w x"
  shows "exec_steps E D W closed is_val (ExSteal (ej_is_validator j) (ej_prev_hash j) (ej_height j)) (exec_on x w)
      (case r of Inl e \<Rightarrow> ExFailed j e | Inr h \<Rightarrow> ExMerged j h) (exec_on x1 w) \<and> clone_of w x1"
proof -
  let ?x = "x\<lparr>ex_pool := steal_block (ej_height j) (ej_info j) (ex_pool x)\<rparr>"
  have cl: "clone_of w ?x" using assms(4) by (simp add: clone_of_def)
  have "exec_step E D W closed is_val (ExSteal (ej_is_validator j) (ej_prev_hash j) (ej_height j)) (exec_on x w) =
      Some (ExStolen j, exec_on ?x w)"
    by (simp add: exec_step_def Let_def frame_simps assms(1,2) on_pool_exec_on)
  from exec_steps.MoreSteps [OF this exec_block_steps [OF assms(3) cl]] cl exec_block_pool [OF assms(3)] show ?thesis
    by (simp add: clone_of_def)
qed

lemma clone_of_after: "clone_of w x \<Longrightarrow> clone_of w (after_block E D closed ht hs x)"
  by (simp add: clone_of_def after_block_def Let_def frame_simps split: option.splits)

text \<open>A block up to the next check.\<close>

lemma exec_loop_merged:
  assumes "map_of (pl_confirmed (ex_pool x)) ht = Some bi" and "bi_txs_hashes bi = Some hs"
    and "exec_block E D W closed is_val iv ht hs prev (block_values_of bi) (x\<lparr>ex_pool := steal_block ht bi (ex_pool x)\<rparr>) = Some (x1, Inr h)"
    and "clone_of w x"
  shows "exec_steps E D W closed is_val (ExSteal iv prev ht) (exec_on x w) (ExCheck iv h (ht + 1))
      (exec_on (after_block E D closed ht hs x1) w) \<and> clone_of w (after_block E D closed ht hs x1)"
proof -
  define j where "j = \<lparr>ej_is_validator = iv, ej_prev_hash = prev, ej_height = ht, ej_info = bi, ej_txs_hashes = hs\<rparr>"
  have run: "exec_steps E D W closed is_val (ExSteal iv prev ht) (exec_on x w) (ExMerged j h) (exec_on x1 w)" and c1: "clone_of w x1"
    using exec_loop_head [of x j E D W closed is_val x1 "Inr h" w] assms by (simp_all add: j_def)
  have "exec_step E D W closed is_val (ExMerged j h) (exec_on x1 w) = Some (ExCheck iv h (ht + 1), exec_on (after_block E D closed ht hs x1) w)"
    by (simp add: exec_step_def Let_def worker_executor_exec_on [OF c1] after_block_anon j_def)
  with run clone_of_after [OF c1] show ?thesis by (blast intro: exec_steps_snoc)
qed

lemma exec_loop_steps:
  assumes "exec_loop E D W closed is_val iv prev ht x = Some x'" and "clone_of w x"
  shows "exec_steps E D W closed is_val (ExSteal iv prev ht) (exec_on x w) ExIdle (worker_executed x' w)"
  using assms
proof (induction "length (pl_confirmed (ex_pool x))" arbitrary: prev ht x rule: less_induct)
  case less
  from less.prems(1) show ?case
  proof (cases rule: exec_loop_cases)
    case Stop
    then have "exec_step E D W closed is_val (ExSteal iv prev ht) (exec_on x w) = Some (ExIdle, worker_executed x' w)"
      by (auto simp: exec_step_def Let_def frame_simps exec_over_exec_on split: option.splits)
    then show ?thesis by (blast intro: exec_steps.intros)
  next
    case (Failed bi hs x1 e)
    define j where "j = \<lparr>ej_is_validator = iv, ej_prev_hash = prev, ej_height = ht, ej_info = bi, ej_txs_hashes = hs\<rparr>"
    have "exec_steps E D W closed is_val (ExSteal iv prev ht) (exec_on x w) (ExFailed j e) (exec_on x1 w)"
      using exec_loop_head [of x j E D W closed is_val x1 "Inl e" w] Failed less.prems(2) by (simp add: j_def)
    moreover have "exec_step E D W closed is_val (ExFailed j e) (exec_on x1 w) = Some (ExIdle, worker_executed x' w)"
      using Failed(4,5) by (auto simp: exec_step_def Let_def on_pool_exec_on exec_over_exec_on j_def)
    ultimately show ?thesis by (rule exec_steps_snoc)
  next
    case (Last bi hs x1 h)
    then have "exec_step E D W closed is_val (ExCheck iv h (ht + 1)) (exec_on x' w) = Some (ExIdle, worker_executed x' w)"
      by (simp add: exec_step_def Let_def exec_on_frame exec_over_exec_on)
    with exec_loop_merged [OF Last(1-3) less.prems(2)] Last(4) show ?thesis by (blast intro: exec_steps_snoc)
  next
    case (Next bi hs x1 h)
    let ?x2 = "after_block E D closed ht hs x1"
    from exec_loop_merged [OF Next(1-3) less.prems(2)] have
      run: "exec_steps E D W closed is_val (ExSteal iv prev ht) (exec_on x w) (ExCheck iv h (ht + 1)) (exec_on ?x2 w)" "clone_of w ?x2" by simp_all
    have "exec_step E D W closed is_val (ExCheck iv h (ht + 1)) (exec_on ?x2 w) = Some (ExSteal iv h (ht + 1), exec_on ?x2 w)"
      using Next(4) by (simp add: exec_step_def Let_def exec_on_frame)
    from exec_steps_trans [OF exec_steps_snoc [OF run(1) this]] less.hyps [OF after_block_shorter [OF Next(1,3)] Next(5) run(2)]
    show ?thesis by blast
  qed
qed

lemma executor_run_steps:
  assumes "executor_run E D W closed is_val iv (worker_executor w) = Some x'"
  shows "exec_steps E D W closed is_val (ExStart iv) w ExIdle (worker_executed x' w)"
proof (cases "db_load_block D (dp_db (wk_dispatcher w)) u64_max")
  case None
  with assms have "exec_loop E D W closed is_val iv hash_default 0 (worker_executor w) = Some x'"
    by (simp add: executor_run_def worker_executor_frame)
  from exec_loop_steps [OF this, of w] None show ?thesis
    by (intro exec_steps.MoreSteps [of E D W closed is_val "ExStart iv" w "ExSteal iv hash_default 0" w])
       (simp_all add: exec_step_def Let_def)
next
  case (Some b)
  with assms have "exec_loop E D W closed is_val iv (block_hash E b) (bd_height (blk_data b) + 1) (worker_executor w) = Some x'"
    by (simp add: executor_run_def worker_executor_frame)
  from exec_loop_steps [OF this, of w] Some show ?thesis
    by (intro exec_steps.MoreSteps [of E D W closed is_val "ExStart iv" w
          "ExSteal iv (block_hash E b) (bd_height (blk_data b) + 1)" w])
       (simp_all add: exec_step_def Let_def)
qed

section \<open>The builder\<close>

inductive build_steps ::
    "('d, 'f) db_ops \<Rightarrow> build_phase \<Rightarrow> ('d, 'w) worker \<Rightarrow> build_phase \<Rightarrow> ('d, 'w) worker \<Rightarrow> bool" for D :: "('d, 'f) db_ops" where
  NoBuild: "build_steps D ph w ph w"
| MoreBuild: "build_step D now ph w = Some (ph1, w1) \<Longrightarrow> build_steps D ph1 w1 ph2 w2 \<Longrightarrow> build_steps D ph w ph2 w2"

lemma build_steps_trans: "build_steps D ph w ph1 w1 \<Longrightarrow> build_steps D ph1 w1 ph2 w2 \<Longrightarrow> build_steps D ph w ph2 w2"
  by (induction rule: build_steps.induct) (blast intro: build_steps.MoreBuild)+

lemma build_steps_reach:
  assumes "build_steps D ph w ph' w'" and "\<And>c. allowed BuilderTask c"
  shows "fine_reach E C D W is_val allowed (c\<lparr>cn_build := ph, cn_worker := w\<rparr>) (c\<lparr>cn_build := ph', cn_worker := w'\<rparr>)"
  using assms(1)
proof (induction rule: build_steps.induct)
  case (MoreBuild now ph w ph1 w1 ph2 w2)
  from MoreBuild.hyps(1) have "fine_step E C D W is_val BuilderTask (c\<lparr>cn_build := ph, cn_worker := w\<rparr>) (c\<lparr>cn_build := ph1, cn_worker := w1\<rparr>)"
    using fine_step.Build [of D now "c\<lparr>cn_build := ph, cn_worker := w\<rparr>" ph1 w1] by simp
  then have "fine_reach E C D W is_val allowed (c\<lparr>cn_build := ph, cn_worker := w\<rparr>) (c\<lparr>cn_build := ph1, cn_worker := w1\<rparr>)"
    by (rule fine_reach_one) (rule assms(2))
  with MoreBuild.IH show ?case by (rule fine_reach_trans)
qed (rule fine_reach.Here)

lemma on_pool_simps [simp]:
  "on_pool (\<lambda>_. p) (on_pool g w) = on_pool (\<lambda>_. p) w" "wk_builder (on_pool g w) = wk_builder w"
  "on_pool (\<lambda>_. dp_pool (wk_dispatcher w)) w = w"
  by (simp_all add: on_pool_def)

lemma build_block_now: "build_block t now (count, ht, p) = build_block t (\<lambda>_. now ht) (count, ht, p)"
  by (simp add: build_block_def)

lemma builder_while_steps:
  assumes "builder_while (bu_threshold (wk_builder w)) now s = Some s'"
  shows "build_steps D (BuWhile (fst s) (fst (snd s))) (on_pool (\<lambda>_. snd (snd s)) w)
    (BuWhile (fst s') (fst (snd s'))) (on_pool (\<lambda>_. snd (snd s')) w) \<and> fst s' = 0"
proof (rule builder_while.raw_induct [where P = "\<lambda>t n s s'. t = bu_threshold (wk_builder w) \<longrightarrow>
    build_steps D (BuWhile (fst s) (fst (snd s))) (on_pool (\<lambda>_. snd (snd s)) w)
    (BuWhile (fst s') (fst (snd s'))) (on_pool (\<lambda>_. snd (snd s')) w) \<and> fst s' = 0", OF _ assms, rule_format, OF _ refl])
  fix loop t n s y
  assume IH: "\<And>t n s y. loop t n s = Some y \<Longrightarrow> t = bu_threshold (wk_builder w) \<Longrightarrow>
      build_steps D (BuWhile (fst s) (fst (snd s))) (on_pool (\<lambda>_. snd (snd s)) w)
      (BuWhile (fst y) (fst (snd y))) (on_pool (\<lambda>_. snd (snd y)) w) \<and> fst y = 0"
    and run: "(if 0 < fst s then loop t n (build_block t n s) else Some s) = Some y" and t: "t = bu_threshold (wk_builder w)"
  obtain count ht p where s: "s = (count, ht, p)" by (cases s)
  show "build_steps D (BuWhile (fst s) (fst (snd s))) (on_pool (\<lambda>_. snd (snd s)) w)
      (BuWhile (fst y) (fst (snd y))) (on_pool (\<lambda>_. snd (snd y)) w) \<and> fst y = 0"
  proof (cases "count > 0")
    case True
    let ?s = "build_block t n s"
    have "build_step D (n ht) (BuWhile count ht) (on_pool (\<lambda>_. p) w) = Some (BuWhile (fst ?s) (fst (snd ?s)), on_pool (\<lambda>_. snd (snd ?s)) w)"
      using True build_block_now [of t n count ht p] by (simp add: build_step_def Let_def on_pool_frame s t split: prod.splits)
    with IH [of t n ?s y] run True t show ?thesis by (auto simp: s intro: build_steps.MoreBuild)
  qed (use run s in \<open>auto simp: build_steps.NoBuild\<close>)
qed

lemma builder_loop_steps:
  assumes "builder_loop (bu_threshold (wk_builder w)) now s = Some p"
  shows "build_steps D (BuWhile (fst s) (fst (snd s))) (on_pool (\<lambda>_. snd (snd s)) w)
    BuIdle ((on_pool (\<lambda>_. p) w)\<lparr>wk_building := False\<rparr>)"
proof (rule builder_loop.raw_induct [where P = "\<lambda>t n s p. t = bu_threshold (wk_builder w) \<longrightarrow>
    build_steps D (BuWhile (fst s) (fst (snd s))) (on_pool (\<lambda>_. snd (snd s)) w)
    BuIdle ((on_pool (\<lambda>_. p) w)\<lparr>wk_building := False\<rparr>)", OF _ assms, rule_format, OF _ refl])
  fix loop t n s y
  assume IH: "\<And>t n s y. loop t n s = Some y \<Longrightarrow> t = bu_threshold (wk_builder w) \<Longrightarrow>
      build_steps D (BuWhile (fst s) (fst (snd s))) (on_pool (\<lambda>_. snd (snd s)) w) BuIdle ((on_pool (\<lambda>_. y) w)\<lparr>wk_building := False\<rparr>)"
    and run: "Option.bind (builder_while t n s) (\<lambda>(_, height, pool).
      if qs_len (pl_unconfirmed pool) < t then Some pool
      else loop t n (qs_len (pl_unconfirmed pool), height, pool)) = Some y" and t: "t = bu_threshold (wk_builder w)"
  from run obtain c ht p where w: "builder_while t n s = Some (c, ht, p)"
    and y: "(if qs_len (pl_unconfirmed p) < t then Some p else loop t n (qs_len (pl_unconfirmed p), ht, p)) = Some y"
    by (auto simp: bind_eq_Some_conv)
  from builder_while_steps [OF w [unfolded t]] have
    1: "build_steps D (BuWhile (fst s) (fst (snd s))) (on_pool (\<lambda>_. snd (snd s)) w) (BuWhile 0 ht) (on_pool (\<lambda>_. p) w)" by auto
  have "build_steps D (BuWhile 0 ht) (on_pool (\<lambda>_. p) w) BuIdle ((on_pool (\<lambda>_. y) w)\<lparr>wk_building := False\<rparr>)"
  proof (cases "qs_len (pl_unconfirmed p) < t")
    case True
    with y t have "build_step D now (BuWhile 0 ht) (on_pool (\<lambda>_. p) w) = Some (BuIdle, (on_pool (\<lambda>_. y) w)\<lparr>wk_building := False\<rparr>)" for now
      by (simp add: build_step_def Let_def on_pool_frame)
    then show ?thesis by (rule build_steps.MoreBuild) (rule build_steps.NoBuild)
  next
    case False
    with t have "build_step D now (BuWhile 0 ht) (on_pool (\<lambda>_. p) w) = Some (BuWhile (qs_len (pl_unconfirmed p)) ht, on_pool (\<lambda>_. p) w)" for now
      by (simp add: build_step_def Let_def on_pool_frame)
    moreover from IH [of t n "(qs_len (pl_unconfirmed p), ht, p)" y] y False t have
      "build_steps D (BuWhile (qs_len (pl_unconfirmed p)) ht) (on_pool (\<lambda>_. p) w) BuIdle ((on_pool (\<lambda>_. y) w)\<lparr>wk_building := False\<rparr>)"
      by simp
    ultimately show ?thesis by (rule build_steps.MoreBuild)
  qed
  with 1 show "build_steps D (BuWhile (fst s) (fst (snd s))) (on_pool (\<lambda>_. snd (snd s)) w)
      BuIdle ((on_pool (\<lambda>_. y) w)\<lparr>wk_building := False\<rparr>)" by (rule build_steps_trans)
qed

lemma builder_run_steps:
  assumes "builder_run D (wk_builder w) now (dp_db (wk_dispatcher w)) (dp_pool (wk_dispatcher w)) = Some p"
  shows "build_steps D BuStart w BuIdle ((on_pool (\<lambda>_. p) w)\<lparr>wk_building := False\<rparr>)"
proof -
  let ?p = "dp_pool (wk_dispatcher w)" and ?ht = "builder_height D (dp_db (wk_dispatcher w)) (dp_pool (wk_dispatcher w))"
  have "build_step D n BuStart w = Some (BuCount ?ht, w)" and
    "build_step D n (BuCount ?ht) w = Some (BuWhile (qs_len (pl_unconfirmed ?p)) ?ht, w)" for n
    by (simp_all add: build_step_def Let_def)
  moreover from builder_loop_steps [OF assms [unfolded builder_run_def], of D]
  have "build_steps D (BuWhile (qs_len (pl_unconfirmed ?p)) ?ht) w BuIdle ((on_pool (\<lambda>_. p) w)\<lparr>wk_building := False\<rparr>)" by simp
  ultimately show ?thesis by (blast intro: build_steps.MoreBuild)
qed

section \<open>The handlers\<close>

lemma put_internal_split:
  "put_transaction_internal E D tx s =
     (case admit_transaction E D s tx of
        Inl e \<Rightarrow> (s, Inl e)
      | Inr h \<Rightarrow> (case put_in_pool h tx (dp_pool s) of (p, r) \<Rightarrow> (s\<lparr>dp_pool := p\<rparr>, r)))"
  by (simp add: put_transaction_internal_def put_in_pool_def Let_def split: sum.splits option.splits)

text \<open>What the two regions of a submission do when nothing comes between them.\<close>

definition put_atomic ::
    "env \<Rightarrow> ('d, 'f) db_ops \<Rightarrow> (nat \<Rightarrow> bool) \<Rightarrow> put_source \<Rightarrow> transaction \<Rightarrow> 'd dispatcher \<Rightarrow> 'd dispatcher" where
  "put_atomic E D closed src tx s =
     (case src of
        FromClient \<Rightarrow> fst (put_transaction_handler E D closed tx s)
      | FromPeer origin \<Rightarrow> get_transaction_res_handler E D tx origin s)"

lemma put_atomic_split:
  "put_atomic E D closed src tx s =
     (case put_transaction_internal E D tx s of (s1, r) \<Rightarrow> put_done E closed src tx r s1)"
  by (simp add: put_atomic_def put_transaction_handler_def get_transaction_res_handler_def put_done_def Let_def
      split: put_source.splits sum.splits prod.splits)

lemma put_atomic_reach:
  assumes "cn_puts c = []"
    and ok: "\<And>c'. cn_exec c' = cn_exec c \<Longrightarrow> pl_confirmed (cn_pool c') = pl_confirmed (cn_pool c) \<Longrightarrow> allowed Handler c'"
  shows "fine_reach E C D W is_val allowed c (on_disp (put_atomic E D closed src tx (cn_disp c)) c)"
proof -
  let ?c = "admit_step E D closed src tx c"
  have same: "cn_exec ?c = cn_exec c" "pl_confirmed (cn_pool ?c) = pl_confirmed (cn_pool c)"
    by (simp_all add: admit_step_def on_disp_def frame_simps split: sum.splits)
  have 1: "fine_reach E C D W is_val allowed c ?c" by (rule fine_reach_one [OF fine_step.Admit]) (rule ok [OF same])
  show ?thesis
  proof (cases "admit_transaction E D (cn_disp c) tx")
    case (Inl e)
    then have "?c = on_disp (put_atomic E D closed src tx (cn_disp c)) c"
      by (simp add: admit_step_def put_atomic_split put_internal_split)
    with 1 show ?thesis by simp
  next
    case (Inr h)
    then have "(src, tx, h) \<in> set (cn_puts ?c)" by (simp add: admit_step_def)
    from fine_step.Put [OF this, of E C D W is_val closed] have
      "fine_reach E C D W is_val allowed ?c (put_step E closed (src, tx, h) ?c)"
      by (rule fine_reach_one, intro ok)
         (simp_all add: put_step_pool put_in_pool_confirmed same, simp add: put_step_def on_disp_def same split: prod.splits)
    moreover from Inr have "put_step E closed (src, tx, h) ?c = on_disp (put_atomic E D closed src tx (cn_disp c)) c"
      using assms(1)
      by (simp add: admit_step_def put_step_def put_atomic_split put_internal_split on_disp_def split: prod.splits)
    ultimately show ?thesis using fine_reach_trans [OF _ 1] by simp
  qed
qed

section \<open>Properties\<close>

text \<open>C10. The atomic view is one of the interleavings. From a state in which the executor's or the builder's task has just
  been started, the regions of that task taken without interruption lead to exactly the state that \<open>executor_run\<close> or
  \<open>builder_run\<close> gives, with the task over and its flag cleared; and from any state with no submission pending, the
  two regions of a submission, from a client or a peer, lead to the state the handler gives. What is shown of all
  interleavings therefore holds of the atomic tasks, which the properties of the other theories are about.
\<close>

theorem atomic_tasks_are_interleavings:
  "(cn_exec c = ExStart iv \<and> executor_run E D W closed is_val iv (worker_executor (cn_worker c)) = Some x \<longrightarrow>
      fine_reach E C D W is_val (\<lambda>_ _. True) c (c\<lparr>cn_exec := ExIdle, cn_worker := worker_executed x (cn_worker c)\<rparr>)) \<and>
   (cn_build c = BuStart \<and> builder_run D (wk_builder (cn_worker c)) now (cn_db c) (cn_pool c) = Some p \<longrightarrow>
      fine_reach E C D W is_val (\<lambda>_ _. True) c
        (c\<lparr>cn_build := BuIdle, cn_worker := (on_pool (\<lambda>_. p) (cn_worker c))\<lparr>wk_building := False\<rparr>\<rparr>)) \<and>
   (cn_puts c = [] \<longrightarrow>
      fine_reach E C D W is_val (\<lambda>_ _. True) c (on_disp (fst (put_transaction_handler E D closed tx (cn_disp c))) c) \<and>
      fine_reach E C D W is_val (\<lambda>_ _. True) c (on_disp (get_transaction_res_handler E D tx origin (cn_disp c)) c))"
proof (intro conjI impI)
  assume "cn_exec c = ExStart iv \<and> executor_run E D W closed is_val iv (worker_executor (cn_worker c)) = Some x"
  with exec_steps_reach [OF executor_run_steps, of E D W closed is_val iv "cn_worker c" x "\<lambda>_ _. True" C c]
  show "fine_reach E C D W is_val (\<lambda>_ _. True) c (c\<lparr>cn_exec := ExIdle, cn_worker := worker_executed x (cn_worker c)\<rparr>)"
    by (simp add: cnode_same)
next
  assume "cn_build c = BuStart \<and> builder_run D (wk_builder (cn_worker c)) now (cn_db c) (cn_pool c) = Some p"
  with build_steps_reach [OF builder_run_steps, of D "cn_worker c" now p "\<lambda>_ _. True" E C W is_val c]
  show "fine_reach E C D W is_val (\<lambda>_ _. True) c
    (c\<lparr>cn_build := BuIdle, cn_worker := (on_pool (\<lambda>_. p) (cn_worker c))\<lparr>wk_building := False\<rparr>\<rparr>)" by (simp add: cnode_same)
next
  assume "cn_puts c = []"
  from put_atomic_reach [OF this, of "\<lambda>_ _. True" E C D W is_val closed FromClient tx]
  show "fine_reach E C D W is_val (\<lambda>_ _. True) c (on_disp (fst (put_transaction_handler E D closed tx (cn_disp c))) c)"
    by (simp add: put_atomic_def)
next
  assume "cn_puts c = []"
  from put_atomic_reach [OF this, of "\<lambda>_ _. True" E C D W is_val closed "FromPeer origin" tx]
  show "fine_reach E C D W is_val (\<lambda>_ _. True) c (on_disp (get_transaction_res_handler E D tx origin (cn_disp c)) c)"
    by (simp add: put_atomic_def)
qed

text \<open>The worker whose executor is that of theory \<open>Ledger\<close>.\<close>

definition demo_busy_worker :: "(store rocks_db, unit) worker" where
  "demo_busy_worker =
     \<lparr>wk_dispatcher = demo_dispatcher\<lparr>dp_pool := demo_confirmed\<rparr>, wk_builder = \<lparr>bu_threshold = 1\<rparr>, wk_wm = (),
      wk_burn_fuel_method = [], wk_building = True, wk_executing = True, wk_is_validator = True,
      wk_aligner = (Idle, aligner_new)\<rparr>"

lemma demo_busy_executor: "worker_executor demo_busy_worker = demo_executor"
  by (simp add: worker_executor_def demo_busy_worker_def demo_executor_def executor_new_def demo_dispatcher_def)

theorem atomic_tasks_are_interleavings_witness:
  "\<exists>x. executor_run demo_env demo_D (demo_wm demo_D) (\<lambda>_. False) (\<lambda>_ _. Inr True) True demo_executor = Some x \<and>
     fine_reach demo_env \<lparr>cd_multi = (\<lambda>_. None), cd_settings = (\<lambda>_. None), cd_ro = None\<rparr> demo_D (demo_wm demo_D) (\<lambda>_ _. Inr True) (\<lambda>_ _. True)
       ((cnode_start demo_busy_worker)\<lparr>cn_exec := ExStart True\<rparr>)
       (cnode_start (worker_executed x demo_busy_worker))"
proof -
  obtain x where "executor_run demo_env demo_D (demo_wm demo_D) (\<lambda>_. False) (\<lambda>_ _. Inr True) True demo_executor = Some x"
    using demo_run by blast
  then show ?thesis
    using atomic_tasks_are_interleavings [of "(cnode_start demo_busy_worker)\<lparr>cn_exec := ExStart True\<rparr>" True demo_env demo_D
        "demo_wm demo_D" "\<lambda>_. False" "\<lambda>_ _. Inr True" x]
    by (auto simp: cnode_start_def demo_busy_executor)
qed

end
