(* ===== verification/Interleaving.thy ===== *)
theory Interleaving
  imports Concurrent
begin

text \<open>
  What holds of the worker in every interleaving of its tasks, and what an interleaving can break.
\<close>

section \<open>The invariant\<close>

text \<open>The transactions the executor has taken out of the pool's blocks and not yet accounted for.\<close>

definition inflight :: "'f exec_phase \<Rightarrow> hash set" where
  "inflight ph =
     (case ph of
        ExStolen j \<Rightarrow> set (ej_txs_hashes j)
      | ExTxs j _ _ _ \<Rightarrow> set (ej_txs_hashes j)
      | ExFailed j _ \<Rightarrow> set (ej_txs_hashes j)
      | _ \<Rightarrow> {})"

text \<open>The invariant of the pool, for the transactions that are not in the database: one that is unconfirmed has
  its payload, and one that a block in the pool or in execution names is known and not unconfirmed.\<close>

definition fine_pool :: "(hash \<Rightarrow> bool) \<Rightarrow> hash set \<Rightarrow> pool \<Rightarrow> bool" where
  "fine_pool stored fl p \<longleftrightarrow>
     qs_inv (pl_unconfirmed p) \<and> bt_wf (pl_confirmed p) \<and>
     (\<forall>h. \<not> stored h \<longrightarrow>
        (h \<in> set (qs_fifo (pl_unconfirmed p)) \<longrightarrow> (\<exists>tx. pl_txs p h = Some (Some tx))) \<and>
        (h \<in> confirmed_hashes (pl_confirmed p) \<union> fl \<longrightarrow>
           h \<notin> set (qs_fifo (pl_unconfirmed p)) \<and> pl_txs p h \<noteq> None))"

definition job_ok :: "env \<Rightarrow> store \<Rightarrow> exec_job \<Rightarrow> bool" where
  "job_ok E s j \<longleftrightarrow>
     (ej_prev_hash j, ej_height j) = tip E (st_blocks s) \<and> bi_txs_hashes (ej_info j) = Some (ej_txs_hashes j)"

text \<open>The local variables of the executor fit the database.\<close>

definition phase_ok :: "env \<Rightarrow> ('f \<Rightarrow> fork_abs) \<Rightarrow> store \<Rightarrow> 'f exec_phase \<Rightarrow> bool" where
  "phase_ok E absf s ph \<longleftrightarrow>
     (case ph of
        ExSteal _ prev ht \<Rightarrow> (prev, ht) = tip E (st_blocks s)
      | ExCheck _ prev ht \<Rightarrow> (prev, ht) = tip E (st_blocks s)
      | ExStolen j \<Rightarrow> job_ok E s j
      | ExTxs j i f rxs \<Rightarrow>
          job_ok E s j \<and> i \<le> length (ej_txs_hashes j) \<and> length rxs = i \<and> fa_base (absf f) = s \<and>
          st_blocks (fa_view (absf f)) = st_blocks s \<and>
          stored_in (fa_view (absf f)) = (\<lambda>h. stored_in s h \<or> h \<in> set (take i (ej_txs_hashes j)))
      | ExMerged j h \<Rightarrow>
          (h, ej_height j + 1) = tip E (st_blocks s) \<and> (\<forall>h \<in> set (ej_txs_hashes j). stored_in s h)
      | ExFailed j _ \<Rightarrow> bi_txs_hashes (ej_info j) = Some (ej_txs_hashes j)
      | _ \<Rightarrow> True)"

definition fine_inv ::
    "env \<Rightarrow> ('d \<Rightarrow> store) \<Rightarrow> ('f \<Rightarrow> fork_abs) \<Rightarrow> ('d \<Rightarrow> bool) \<Rightarrow> 'f exec_phase \<Rightarrow> ('d, 'w) worker \<Rightarrow> bool" where
  "fine_inv E snap absf dinv ph w \<longleftrightarrow>
     (let s = snap (dp_db (wk_dispatcher w))
      in dinv (dp_db (wk_dispatcher w)) \<and> chain_ok E (st_blocks s) \<and>
         fine_pool (stored_in s) (inflight ph) (dp_pool (wk_dispatcher w)) \<and> phase_ok E absf s ph \<and>
         (ph \<noteq> ExIdle \<longrightarrow> wk_executing w))"

text \<open>The database has grown: the chain goes on, and stored transactions stay.\<close>

definition extends_db :: "('d \<Rightarrow> store) \<Rightarrow> ('d, 'w) worker \<Rightarrow> ('d, 'w) worker \<Rightarrow> bool" where
  "extends_db snap w w' \<longleftrightarrow>
     (\<exists>bs. st_blocks (snap (dp_db (wk_dispatcher w'))) = st_blocks (snap (dp_db (wk_dispatcher w))) @ bs) \<and>
     (\<forall>h. stored_in (snap (dp_db (wk_dispatcher w))) h \<longrightarrow> stored_in (snap (dp_db (wk_dispatcher w'))) h)"

lemma phase_start [simp]:
  "phase_ok E absf s (ExStart iv)" "inflight (ExStart iv) = {}" "phase_ok E absf s ExIdle" "inflight ExIdle = {}"
  by (simp_all add: phase_ok_def inflight_def)

section \<open>The pool, operation by operation\<close>

lemma fine_poolI [intro?]:
  assumes "qs_inv (pl_unconfirmed p)" and "bt_wf (pl_confirmed p)"
    and "\<And>h. \<not> stored h \<Longrightarrow> h \<in> set (qs_fifo (pl_unconfirmed p)) \<Longrightarrow> \<exists>tx. pl_txs p h = Some (Some tx)"
    and "\<And>h. \<not> stored h \<Longrightarrow> h \<in> confirmed_hashes (pl_confirmed p) \<union> fl \<Longrightarrow>
      h \<notin> set (qs_fifo (pl_unconfirmed p)) \<and> pl_txs p h \<noteq> None"
  shows "fine_pool stored fl p"
  using assms by (simp add: fine_pool_def)

lemma pool_inv_fine: "pool_inv stored p \<Longrightarrow> fine_pool stored {} p"
  by (auto simp: pool_inv_def fine_pool_def)

lemma fine_pool_mono:
  "fine_pool stored fl p \<Longrightarrow> (\<And>h. stored h \<Longrightarrow> stored' h) \<Longrightarrow> fl' \<subseteq> fl \<union> Collect stored' \<Longrightarrow> fine_pool stored' fl' p"
  unfolding fine_pool_def by blast

lemma fine_put:
  assumes "fine_pool stored fl p"
  shows "fine_pool stored fl (fst (put_in_pool h tx p))"
proof -
  obtain q b where q: "qs_push (pl_unconfirmed p) h = (q, b)" by force
  from assms have "qs_inv (pl_unconfirmed p)" by (simp add: fine_pool_def)
  note push = qs.push_spec [OF this q]
  show ?thesis
  proof (cases "pl_txs p h")
    case None
    with assms push show ?thesis by (auto simp: put_in_pool_def q fine_pool_def split: if_splits)
  next
    case (Some t)
    with assms show ?thesis by (auto simp: put_in_pool_def fine_pool_def split: option.splits)
  qed
qed

lemma fine_note:
  assumes "fine_pool stored fl p"
  shows "fine_pool stored fl (note_hash h p) \<and> h \<notin> set (qs_fifo (pl_unconfirmed (note_hash h p))) \<and>
    pl_txs (note_hash h p) h \<noteq> None \<and>
    set (qs_fifo (pl_unconfirmed (note_hash h p))) \<subseteq> set (qs_fifo (pl_unconfirmed p)) \<and>
    (\<forall>k. pl_txs p k \<noteq> None \<longrightarrow> pl_txs (note_hash h p) k \<noteq> None)"
proof -
  obtain q b where q: "qs_remove (pl_unconfirmed p) h = (q, b)" by force
  from assms have inv: "qs_inv (pl_unconfirmed p)" by (simp add: fine_pool_def)
  note rem = qs.remove_spec [OF inv q]
  have dist: "distinct (qs_fifo (pl_unconfirmed p))" using inv by (simp add: qs_inv_def)
  show ?thesis
    using assms rem dist qs.contains_spec [OF inv]
    by (auto simp: note_hash_def Let_def q fine_pool_def dest: notin_set_remove1)
qed

lemma fine_notes:
  "fine_pool stored fl p \<Longrightarrow> fine_pool stored fl (fold note_hash hs p) \<and>
   (\<forall>h \<in> set hs. h \<notin> set (qs_fifo (pl_unconfirmed (fold note_hash hs p))) \<and> pl_txs (fold note_hash hs p) h \<noteq> None) \<and>
   set (qs_fifo (pl_unconfirmed (fold note_hash hs p))) \<subseteq> set (qs_fifo (pl_unconfirmed p)) \<and>
   (\<forall>k. pl_txs p k \<noteq> None \<longrightarrow> pl_txs (fold note_hash hs p) k \<noteq> None)"
proof (induction hs arbitrary: p)
  case (Cons h hs)
  note n = fine_note [OF Cons.prems, of h]
  from Cons.IH [of "note_hash h p"] n show ?case by (simp add: subset_iff) blast
qed simp

lemma fine_insert_block:
  assumes "fine_pool stored fl p"
    and "\<And>h hs. bi_txs_hashes bi = Some hs \<Longrightarrow> h \<in> set hs \<Longrightarrow> \<not> stored h \<Longrightarrow>
      h \<notin> set (qs_fifo (pl_unconfirmed p)) \<and> pl_txs p h \<noteq> None"
  shows "fine_pool stored fl (p\<lparr>pl_confirmed := bt_insert ht bi (pl_confirmed p)\<rparr>)"
proof
  fix h assume "\<not> stored h" and "h \<in> confirmed_hashes (pl_confirmed (p\<lparr>pl_confirmed := bt_insert ht bi (pl_confirmed p)\<rparr>)) \<union> fl"
  with confirmed_hashes_insert [of ht bi "pl_confirmed p"] assms
  show "h \<notin> set (qs_fifo (pl_unconfirmed (p\<lparr>pl_confirmed := bt_insert ht bi (pl_confirmed p)\<rparr>))) \<and>
    pl_txs (p\<lparr>pl_confirmed := bt_insert ht bi (pl_confirmed p)\<rparr>) h \<noteq> None"
    by (fastforce simp: fine_pool_def split: option.splits)
qed (use assms(1) in \<open>auto simp: fine_pool_def\<close>)

lemma fine_received:
  assumes "fine_pool stored fl p"
  shows "fine_pool stored fl (add_received_block E block txs p)"
proof (cases txs)
  case None
  then show ?thesis
    unfolding add_received_block_def by (simp add: Let_def) (rule fine_insert_block [OF assms], simp add: received_block_info_def)
next
  case (Some hs)
  have "fine_pool stored fl (fold note_hash hs p\<lparr>pl_confirmed := bt_insert (bd_height (blk_data block))
      (received_block_info E block txs) (pl_confirmed (fold note_hash hs p))\<rparr>)"
    using fine_notes [OF assms, of hs] by (intro fine_insert_block) (simp_all add: received_block_info_def Some)
  then show ?thesis by (simp add: add_received_block_def Some Let_def)
qed

lemma fine_build:
  assumes "fine_pool stored fl p" and "build_block threshold now (count, ht, p) = (count', ht', p')"
  shows "fine_pool stored fl p'"
proof -
  obtain hs q where pop: "pop_upto threshold (pl_unconfirmed p) = (hs, q)" by force
  from assms(1) have inv: "qs_inv (pl_unconfirmed p)" by (simp add: fine_pool_def)
  from pop_upto_spec [OF inv pop] have hs: "hs = take threshold (qs_fifo (pl_unconfirmed p))"
    and q: "qs_inv q" "qs_fifo q = drop threshold (qs_fifo (pl_unconfirmed p))" by simp_all
  have "distinct (qs_fifo (pl_unconfirmed p))" using inv by (simp add: qs_inv_def)
  then have disj: "set hs \<inter> set (qs_fifo q) = {}" unfolding hs q by (rule set_take_disj_set_drop_if_distinct) simp
  have sub: "set hs \<subseteq> set (qs_fifo (pl_unconfirmed p))" "set (qs_fifo q) \<subseteq> set (qs_fifo (pl_unconfirmed p))"
    unfolding hs q by (rule set_take_subset, rule set_drop_subset)
  have "fine_pool stored fl (p\<lparr>pl_unconfirmed := q\<rparr>)" using assms(1) q sub by (auto simp: fine_pool_def)
  moreover have "\<And>h. h \<in> set hs \<Longrightarrow> \<not> stored h \<Longrightarrow> h \<notin> set (qs_fifo q) \<and> pl_txs p h \<noteq> None"
    using disj sub assms(1) by (fastforce simp: fine_pool_def)
  ultimately have "fine_pool stored fl (p\<lparr>pl_unconfirmed := q\<rparr>\<lparr>pl_confirmed :=
      bt_insert ht (new_block_info hs (if ht = 0 then 0 else now ht)) (pl_confirmed (p\<lparr>pl_unconfirmed := q\<rparr>))\<rparr>)"
    by (intro fine_insert_block) (simp_all add: new_block_info_def)
  then show ?thesis using assms(2) by (auto simp: build_block_def pop Let_def)
qed

lemma fine_steal:
  assumes "fine_pool stored {} p" and "map_of (pl_confirmed p) ht = Some bi" and "bi_txs_hashes bi = Some hs"
  shows "fine_pool stored (set hs) (steal_block ht bi p)"
proof -
  have "set hs \<subseteq> confirmed_hashes (pl_confirmed p)" by (rule confirmed_hashes_map_of [OF assms(2,3)])
  with assms(1) have "fine_pool stored (set hs) p" by (auto simp: fine_pool_def)
  then show ?thesis unfolding steal_block_def by (rule fine_insert_block) simp
qed

lemma fine_finish:
  assumes "fine_pool stored fl p" and "\<forall>h \<in> set hs. stored h"
  shows "fine_pool stored {} (finish_pool ht hs p)"
  using assms confirmed_hashes_remove [of ht "pl_confirmed p"]
  by (fastforce simp: fine_pool_def finish_pool_def fold_remove)

lemma fine_restore:
  assumes "fine_pool stored (set hs) p" and "bi_txs_hashes bi = Some hs"
  shows "fine_pool stored {} (restore_pool ht bi p)"
proof -
  have "fine_pool stored (set hs) (restore_pool ht bi p)"
    unfolding restore_pool_def using assms by (intro fine_insert_block) (auto simp: fine_pool_def)
  then show ?thesis by (rule fine_pool_mono) auto
qed

lemma fine_block_message: "fine_pool stored fl p \<Longrightarrow> fine_pool stored fl (add_block_message E msg p)"
  by (simp add: add_block_message_def add_txs_is_add_received fine_received split: message.split)

lemma fine_block_messages: "fine_pool stored fl p \<Longrightarrow> fine_pool stored fl (fold (add_block_message E) msgs p)"
  by (induction msgs arbitrary: p) (simp_all add: fine_block_message)

lemma fine_unexpected:
  assumes "add_unexpected E msgs h p = Some p'"
  shows "fine_pool stored fl p \<longrightarrow> fine_pool stored fl p'"
  by (rule add_unexpected.raw_induct [where P = "\<lambda>E msgs h p p'. fine_pool stored fl p \<longrightarrow> fine_pool stored fl p'", OF _ assms])
     (auto simp: fine_block_message split: option.splits)

lemma fine_update_pool: "update_pool E al p = Some p' \<Longrightarrow> fine_pool stored fl p \<Longrightarrow> fine_pool stored fl p'"
  using fine_unexpected by (fastforce simp: update_pool_def fine_block_messages split: list.splits)


section \<open>The tasks\<close>

text \<open>What a turn of the aligner does to the pool, and that the simple requests leave it alone.\<close>

lemma txs_step_pool:
  assumes "txs_step E closed t mx txs peer send a al s0 = Some st"
  shows "dp_pool (snd (snd st)) = dp_pool s0 \<or> update_pool E al (dp_pool s0) = Some (dp_pool (snd (snd st)))"
proof (cases txs)
  case Nil
  with assms show ?thesis by (auto simp: txs_step_def txs_collected_def split: option.splits)
next
  case (Cons requested rest)
  define s where "s = (if send then al_publish E closed EV_UNICAST_REQUEST (GetTransactionRequest requested (Some peer)) s0 else s0)"
  have s: "dp_pool s = dp_pool s0" by (simp add: s_def frame_simps)
  obtain m s1 where poll: "al_poll s = (m, s1)" by force
  note same = al_poll_same [OF poll] s
  show ?thesis
  proof (cases t)
    case (Elapsed r)
    with assms same show ?thesis
      by (auto simp: txs_step_def Cons s_def [symmetric] Let_def al_reset_def split: if_splits)
  next
    case (Polled r)
    with assms same show ?thesis
      by (auto simp: txs_step_def txs_collected_def Cons s_def [symmetric] Let_def poll
          split: option.splits message.splits if_splits)
  qed
qed

lemma al_step_pool:
  assumes "al_step E D iter closed t (ph, al, s) = Some st"
  shows "dp_pool (snd (snd st)) = dp_pool s \<or> update_pool E al (dp_pool s) = Some (dp_pool (snd (snd st)))"
proof (cases ph)
  case (FindPeers peers)
  obtain m s1 where poll: "al_poll s = (m, s1)" by force
  from FindPeers assms al_poll_same [OF poll] peers_found_same [of E D iter closed _ peers al s st] show ?thesis
    by (auto simp: al_step_def poll split: tick.splits option.splits)
next
  case (CollectBlocks mx lh peer a)
  with assms blocks_step_same [of E closed t mx lh peer a al s st] show ?thesis by (simp add: al_step_def)
next
  case (CollectTxs mx txs peer send a)
  with assms txs_step_pool show ?thesis by (simp add: al_step_def)
qed (use assms in \<open>auto simp: al_step_def al_start_def wait_step_def al_reset_def frame_simps split: option.splits list.splits\<close>)

lemma al_step_fine:
  assumes "al_step E D iter closed t (ph, al, s) = Some (ph', al', s')" and "fine_pool stored fl (dp_pool s)"
  shows "fine_pool stored fl (dp_pool s') \<and> dp_db s' = dp_db s"
  using al_step_pool [OF assms(1)] al_step_step [OF assms(1)] fine_update_pool assms(2)
  by (auto simp: disp_step_def)

lemma simple_request_frame:
  assumes "simple_request req" and "handle_message E C D closed chan req s = Some s'"
  shows "dp_pool s' = dp_pool s \<and> dp_db s' = dp_db s"
  using assms
  by (cases req) (auto simp: handle_message_def message_handler.simps split: option.splits if_splits)

context wm_contract
begin

lemma exec_seal_spec:
  assumes "exec_seal E D closed is_val j rxs f x = (x', r)" and "inv (ex_db x)" and "fa_base (absf f) = snap (ex_db x)"
  shows "case r of
      Inl e \<Rightarrow> ex_db x' = ex_db x
    | Inr h \<Rightarrow> inv (ex_db x') \<and> (\<exists>block. sealed E (is_val (ex_db x)) (ex_keypair x) (ej_height j) (ej_txs_hashes j) rxs
        (ej_prev_hash j) (block_values_of (ej_info j)) (fa_view (absf f)) block (snap (ex_db x')) \<and> h = block_hash E block)"
proof (cases "seal_block E D is_val (ex_keypair x) (ex_db x) (ej_height j) (ej_txs_hashes j) rxs (ej_prev_hash j)
    (block_values_of (ej_info j)) f")
  case (Inl e)
  with assms(1) show ?thesis by (auto simp: exec_seal_def)
next
  case (Inr c)
  obtain db' block where c: "c = (db', block)" by (cases c)
  from Inr assms(1) have "r = Inr (block_hash E block)" and "ex_db x' = db'"
    by (auto simp: exec_seal_def c Let_def frame_simps split: if_splits)
  with seal_block_sealed [OF assms(2,3) Inr [unfolded c]] show ?thesis by auto
qed

text \<open>One transaction of the block.\<close>

lemma exec_tx_fine:
  assumes "exec_transactions E D W closed ht ts i [h] x f = Some (x1, f1, rx)"
  shows "ex_pool x1 = ex_pool x \<and> ex_db x1 = ex_db x \<and> length rx = 1 \<and> fa_base (absf f1) = fa_base (absf f) \<and>
    st_blocks (fa_view (absf f1)) = st_blocks (fa_view (absf f)) \<and>
    stored_in (fa_view (absf f1)) = (\<lambda>k. stored_in (fa_view (absf f)) k \<or> k = h)"
  using exec_transactions_shared [OF assms] exec_transactions_ran [OF assms]
  by (auto simp: same_shared_def ran_transactions_def stored_in_def fun_eq_iff)


lemma exec_tx_step_inv:
  assumes "fine_inv E snap absf inv (ExTxs j i f rxs) w" and "i < length (ej_txs_hashes j)"
    and "exec_step E D W closed is_val (ExTxs j i f rxs) w = Some (ph', w')"
  shows "fine_inv E snap absf inv ph' w' \<and> extends_db snap w w'"
proof (cases "exec_transactions E D W closed (ej_height j) (bi_timestamp (ej_info j)) i [ej_txs_hashes j ! i]
    (worker_executor w) f")
  case None
  with assms fine_pool_mono show ?thesis
    by (fastforce simp: fine_inv_def exec_step_def inflight_def phase_ok_def Let_def extends_db_def)
next
  case (Some r)
  obtain x1 f1 rx where r: "r = (x1, f1, rx)" by (cases r)
  from exec_tx_fine [OF Some [unfolded r]] assms Some r show ?thesis
    by (auto simp: fine_inv_def exec_step_def inflight_def phase_ok_def frame_simps take_Suc_conv_app_nth Let_def
        extends_db_def)
qed

lemma exec_seal_step_inv:
  assumes "fine_inv E snap absf inv (ExTxs j i f rxs) w" and "\<not> i < length (ej_txs_hashes j)"
    and "exec_step E D W closed is_val (ExTxs j i f rxs) w = Some (ph', w')"
  shows "fine_inv E snap absf inv ph' w' \<and> extends_db snap w w'"
proof -
  let ?s = "snap (dp_db (wk_dispatcher w))"
  obtain x1 r where s: "exec_seal E D closed is_val j rxs f (worker_executor w) = (x1, r)" by force
  with exec_seal_pool [of E D closed is_val j rxs f "worker_executor w"] have pool: "ex_pool x1 = dp_pool (wk_dispatcher w)"
    by (simp add: frame_simps)
  from assms(1,2) have p: "job_ok E ?s j" "fa_base (absf f) = ?s" "st_blocks (fa_view (absf f)) = st_blocks ?s"
    "stored_in (fa_view (absf f)) = (\<lambda>h. stored_in ?s h \<or> h \<in> set (ej_txs_hashes j))"
    "inv (dp_db (wk_dispatcher w))" "chain_ok E (st_blocks ?s)" "wk_executing w"
    "fine_pool (stored_in ?s) (set (ej_txs_hashes j)) (dp_pool (wk_dispatcher w))"
    by (auto simp: fine_inv_def phase_ok_def inflight_def Let_def)
  note spec = exec_seal_spec [OF s, unfolded worker_executor_frame, OF p(5,2)]
  show ?thesis
  proof (cases r)
    case (Inl e)
    with spec s assms(2,3) pool p show ?thesis
      by (auto simp: exec_step_def fine_inv_def inflight_def phase_ok_def job_ok_def frame_simps Let_def extends_db_def)
  next
    case (Inr h)
    with spec obtain b where b: "inv (ex_db x1)" "h = block_hash E b" and
      sl: "sealed E (is_val (dp_db (wk_dispatcher w))) (ex_keypair (worker_executor w)) (ej_height j) (ej_txs_hashes j) rxs
        (ej_prev_hash j) (block_values_of (ej_info j)) (fa_view (absf f)) b (snap (ex_db x1))" by auto
    from Inr s assms(2,3) have w': "w' = exec_on x1 w" "ph' = ExMerged j h" by (auto simp: exec_step_def)
    have stored: "stored_in (snap (ex_db x1)) = (\<lambda>h. stored_in ?s h \<or> h \<in> set (ej_txs_hashes j))"
      using sealed_blocks [OF sl] p(4) by (simp add: stored_in_def fun_eq_iff)
    have blocks: "st_blocks (snap (ex_db x1)) = st_blocks ?s @ [b]" using sealed_blocks [OF sl] p(3) by simp
    have "fine_pool (stored_in (snap (ex_db x1))) {} (dp_pool (wk_dispatcher w))"
      using fine_pool_mono [OF p(8)] stored by simp
    with b blocks stored pool sealed_blocks [OF sl] p chain_ok_snoc [OF p(6), of b] show ?thesis
      by (auto simp: w' fine_inv_def Let_def frame_simps inflight_def phase_ok_def job_ok_def tip_def prod_eq_iff extends_db_def)
  qed
qed

lemma exec_step_inv:
  assumes "exec_step E D W closed is_val ph w = Some (ph', w')" and "fine_inv E snap absf inv ph w"
  shows "fine_inv E snap absf inv ph' w' \<and> extends_db snap w w'"
proof (cases ph)
  case (ExStart iv)
  with assms load_tip [of "dp_db (wk_dispatcher w)"] show ?thesis
    by (auto simp: fine_inv_def exec_step_def Let_def inflight_def phase_ok_def extends_db_def split: option.splits)
next
  case (ExSteal iv prev ht)
  with assms fine_steal [of _ "dp_pool (wk_dispatcher w)" ht] show ?thesis
    by (auto simp: fine_inv_def exec_step_def Let_def inflight_def phase_ok_def exec_over_def job_ok_def frame_simps extends_db_def
        split: option.splits)
next
  case (ExStolen j)
  with assms fork_create [of "dp_db (wk_dispatcher w)"] show ?thesis
    by (auto simp: fine_inv_def exec_step_def Let_def inflight_def phase_ok_def extends_db_def)
next
  case (ExTxs j i f rxs)
  with assms exec_tx_step_inv exec_seal_step_inv show ?thesis by metis
next
  case (ExMerged j h)
  with assms fine_finish [of _ "{}" "dp_pool (wk_dispatcher w)" "ej_txs_hashes j"] show ?thesis
    by (auto simp: fine_inv_def Let_def exec_step_def inflight_def phase_ok_def frame_simps extends_db_def)
next
  case (ExFailed j e)
  with assms fine_restore [of _ "ej_txs_hashes j" "dp_pool (wk_dispatcher w)" "ej_info j"] show ?thesis
    by (auto simp: fine_inv_def exec_step_def Let_def inflight_def phase_ok_def exec_over_def frame_simps extends_db_def
        split: option.splits)
next
  case (ExCheck iv prev ht)
  with assms show ?thesis
    by (auto simp: fine_inv_def exec_step_def Let_def inflight_def phase_ok_def exec_over_def extends_db_def split: if_splits)
qed (use assms in \<open>simp_all add: exec_step_def\<close>)

text \<open>A step that changes the shared state only in the pool.\<close>

lemma pool_step_inv:
  assumes "fine_inv E snap absf inv ph w" and "dp_db (wk_dispatcher w') = dp_db (wk_dispatcher w)"
    and "\<And>stored fl. fine_pool stored fl (dp_pool (wk_dispatcher w)) \<Longrightarrow> fine_pool stored fl (dp_pool (wk_dispatcher w'))"
    and "wk_executing w' = wk_executing w"
  shows "fine_inv E snap absf inv ph w' \<and> extends_db snap w w'"
  using assms by (simp add: fine_inv_def Let_def extends_db_def)

lemma build_step_inv:
  assumes "build_step D now ph w = Some (ph', w')" and "fine_inv E snap absf inv eph w"
  shows "fine_inv E snap absf inv eph w' \<and> extends_db snap w w'"
  using assms
  by (intro pool_step_inv)
     (auto simp: build_step_def Let_def frame_simps fine_build split: build_phase.splits if_splits prod.splits)

lemma fine_step_inv:
  assumes "fine_step E C D W is_val a c c'" and "fine_inv E snap absf inv (cn_exec c) (cn_worker c)"
  shows "fine_inv E snap absf inv (cn_exec c') (cn_worker c') \<and> extends_db snap (cn_worker c) (cn_worker c')"
  using assms(1)
proof (cases rule: fine_step.cases)
  case ProbeExec
  with assms(2) show ?thesis
    by (cases "cn_exec c = ExIdle") (auto simp: probe_step_def fine_inv_def Let_def extends_db_def split: probe.splits)
next
  case (ProbeBuild locked threshold)
  then have "cn_exec c' = cn_exec c" "cn_disp c' = cn_disp c" "wk_executing (cn_worker c') = wk_executing (cn_worker c)"
    by (simp_all add: build_probe_step_def)
  with assms(2) pool_step_inv [of "cn_exec c" "cn_worker c" "cn_worker c'"] show ?thesis by simp
next
  case (Admit closed src tx)
  then have "cn_exec c' = cn_exec c" by (simp add: admit_step_def on_disp_def split: sum.splits)
  with Admit assms(2) pool_step_inv [of "cn_exec c" "cn_worker c" "cn_worker c'"] show ?thesis
    by (simp add: admit_step_def on_disp_def frame_simps split: sum.splits)
next
  case (Put p closed)
  then have "cn_exec c' = cn_exec c" "cn_db c' = cn_db c" "wk_executing (cn_worker c') = wk_executing (cn_worker c)"
    by (simp_all add: put_step_def on_disp_def frame_simps split: prod.splits)
  with Put assms(2) pool_step_inv [of "cn_exec c" "cn_worker c" "cn_worker c'"] show ?thesis
    by (simp add: put_step_pool fine_put)
next
  case (Receive block txs origin)
  then have "cn_exec c' = cn_exec c" by (simp add: receive_step_def on_disp_def)
  moreover have "\<not> block_is_next D block (cn_disp c) \<Longrightarrow>
      dp_pool (get_block_res_handler E D block txs origin (cn_disp c)) = cn_pool c \<and>
      dp_db (get_block_res_handler E D block txs origin (cn_disp c)) = cn_db c"
    by (auto simp: block_is_next_def get_block_res_handler_def Let_def)
  ultimately show ?thesis using Receive assms(2) pool_step_inv [of "cn_exec c" "cn_worker c" "cn_worker c'"]
    by (simp add: receive_step_def on_disp_def split: if_splits)
next
  case (QueueBlock b)
  with assms(2) pool_step_inv [of "cn_exec c" "cn_worker c" "cn_worker c'"] show ?thesis
    by (simp add: queue_block_step_def frame_simps fine_received)
next
  case (Request req closed chan s)
  with assms(2) pool_step_inv [of "cn_exec c" "cn_worker c" "cn_worker c'"] simple_request_frame [OF Request(3,4)] show ?thesis
    by (simp add: on_disp_def)
next
  case (Build now ph w)
  with assms(2) build_step_inv [OF Build(3)] show ?thesis by simp
next
  case (Exec closed ph w)
  with assms(2) exec_step_inv [OF Exec(3)] show ?thesis by simp
next
  case (Align iter closed t ph al s)
  with assms(2) pool_step_inv [of "cn_exec c" "cn_worker c" "cn_worker c'"] al_step_fine [OF Align(3)] show ?thesis
    by (fastforce simp: fine_inv_def Let_def)
qed

lemma fine_reach_inv:
  assumes "fine_reach E C D W is_val allowed c c'" and "fine_inv E snap absf inv (cn_exec c) (cn_worker c)"
  shows "fine_inv E snap absf inv (cn_exec c') (cn_worker c') \<and> extends_db snap (cn_worker c) (cn_worker c')"
  using assms
proof (induction rule: fine_reach.induct)
  case (Then c c' a c'')
  from Then.IH [OF Then.prems] fine_step_inv [OF Then.hyps(2)] show ?case
    by (auto simp: extends_db_def)
qed (simp add: extends_db_def)

end

end
