(* ===== verification/Lossless.thy ===== *)
theory Lossless
  imports Interleaving
begin

text \<open>
  No transaction is lost between the tasks. The builder and the executor hand transactions over through the pool, in
  several regions with the pool unlocked in between; whatever runs in the gaps, a transaction stays in the queue, in a
  block of the pool, in the block under execution or in the database. Blocks of peers are excluded (one that arrives at
  an occupied height replaces the block there), and so is a panic of the executor.
\<close>

section \<open>Definitions\<close>

definition fine_tracked :: "('d \<Rightarrow> store) \<Rightarrow> 'f exec_phase \<Rightarrow> ('d, 'w) worker \<Rightarrow> hash \<Rightarrow> bool" where
  "fine_tracked snap ph w h \<longleftrightarrow>
     (let p = dp_pool (wk_dispatcher w)
      in h \<in> set (qs_fifo (pl_unconfirmed p)) \<or> h \<in> confirmed_hashes (pl_confirmed p) \<or>
         h \<in> inflight ph \<or> stored_in (snap (dp_db (wk_dispatcher w))) h)"

text \<open>The heights of the blocks in the pool.\<close>

definition heights :: "pool \<Rightarrow> u64 set" where
  "heights p = fst ` set (pl_confirmed p)"

text \<open>The slot of the block under execution is kept busy, with no hashes in it.\<close>

definition slot_ok :: "'f exec_phase \<Rightarrow> pool \<Rightarrow> bool" where
  "slot_ok ph p \<longleftrightarrow>
     (\<forall>j. (ph = ExStolen j \<or> (\<exists>i f rxs. ph = ExTxs j i f rxs) \<or> (\<exists>h. ph = ExMerged j h) \<or> (\<exists>e. ph = ExFailed j e)) \<longrightarrow>
        (\<exists>bi. map_of (pl_confirmed p) (ej_height j) = Some bi \<and> bi_txs_hashes bi = Some []))"

text \<open>The builder's next height is free.\<close>

definition height_ok :: "build_phase \<Rightarrow> pool \<Rightarrow> bool" where
  "height_ok ph p \<longleftrightarrow>
     (\<forall>ht. (ph = BuCount ht \<or> (\<exists>n. ph = BuWhile n ht)) \<longrightarrow> (\<forall>k \<in> heights p. k < ht))"

definition slots_inv :: "('d, 'w, 'f) cnode \<Rightarrow> bool" where
  "slots_inv c \<longleftrightarrow>
     slot_ok (cn_exec c) (cn_pool c) \<and> height_ok (cn_build c) (cn_pool c) \<and>
     u64_max \<notin> heights (cn_pool c)"

text \<open>No peer interferes, the executor does not panic, and the heights do not run out.\<close>

definition undisturbed :: "actor \<Rightarrow> ('d, 'w, 'f) cnode \<Rightarrow> bool" where
  "undisturbed a c \<longleftrightarrow>
     a \<noteq> PeerBlock \<and> a \<noteq> AlignerThread \<and> cn_exec c \<noteq> ExPanicked \<and> u64_max \<notin> heights (cn_pool c)"

section \<open>Blocks in the ordered map\<close>

lemma map_of_confirmed_hashes:
  assumes "bt_wf m"
  shows "h \<in> confirmed_hashes m \<longleftrightarrow> (\<exists>k bi hs. map_of m k = Some bi \<and> bi_txs_hashes bi = Some hs \<and> h \<in> set hs)"
  using bt_wf_map_of [OF assms] by (auto simp: confirmed_hashes_def dest!: map_of_SomeD)

lemma map_of_heights: "map_of (pl_confirmed p) k = Some v \<Longrightarrow> k \<in> heights p"
  by (auto simp: heights_def dest!: map_of_SomeD intro: rev_image_eqI)

lemma confirmed_insert_free:
  assumes "bt_wf m" and "h \<in> confirmed_hashes m" and "\<forall>v. map_of m k = Some v \<longrightarrow> bi_txs_hashes v = Some []"
  shows "h \<in> confirmed_hashes (bt_insert k bi m)"
  using assms by (fastforce simp: map_of_confirmed_hashes)

lemma confirmed_insert_new:
  assumes "bt_wf m" and "bi_txs_hashes bi = Some hs" and "h \<in> set hs"
  shows "h \<in> confirmed_hashes (bt_insert k bi m)"
  using assms by (fastforce simp: map_of_confirmed_hashes)

lemma confirmed_steal:
  assumes "bt_wf (pl_confirmed p)" and "h \<in> confirmed_hashes (pl_confirmed p)" and "map_of (pl_confirmed p) k = Some bi"
    and "bi_txs_hashes bi = Some hs"
  shows "h \<in> set hs \<or> h \<in> confirmed_hashes (pl_confirmed (steal_block k bi p))"
proof -
  have "h \<in> confirmed_hashes (pl_confirmed (steal_block k bi p))" if "h \<notin> set hs"
  proof -
    from assms(1,2) obtain k' b' hs' where "map_of (pl_confirmed p) k' = Some b'" "bi_txs_hashes b' = Some hs'" "h \<in> set hs'"
      by (auto simp: map_of_confirmed_hashes)
    moreover from this assms(3,4) that have "k' \<noteq> k" by auto
    ultimately show ?thesis using assms(1) by (auto simp: steal_block_def map_of_confirmed_hashes)
  qed
  then show ?thesis by blast
qed

lemma confirmed_finish:
  assumes "bt_wf (pl_confirmed p)" and "h \<in> confirmed_hashes (pl_confirmed p)"
    and "map_of (pl_confirmed p) k = Some bi" and "bi_txs_hashes bi = Some []"
  shows "h \<in> confirmed_hashes (pl_confirmed (finish_pool k hs p))"
proof -
  from assms(1,2) obtain k' b' hs' where "map_of (pl_confirmed p) k' = Some b'" "bi_txs_hashes b' = Some hs'" "h \<in> set hs'"
    by (auto simp: map_of_confirmed_hashes)
  moreover from this assms(3,4) have "k' \<noteq> k" by auto
  ultimately show ?thesis using assms(1) by (auto simp: finish_pool_def map_of_confirmed_hashes)
qed

lemma heights_below:
  assumes "bt_wf (pl_confirmed p)" and "u64_max \<notin> heights p"
  shows "\<forall>k \<in> heights p. k < builder_height D db p"
  unfolding heights_def by (rule ballI) (rule builder_height_above [OF assms(1) assms(2) [unfolded heights_def]])

lemma heights_insert [simp]: "heights (p\<lparr>pl_confirmed := bt_insert k bi (pl_confirmed p)\<rparr>) = insert k (heights p)"
  by (simp add: heights_def)

lemma heights_finish: "heights (finish_pool k hs p) \<subseteq> heights p"
  by (auto simp: heights_def finish_pool_def bt_remove_def)

lemma queue_frames [frame_simps]:
  "pl_unconfirmed (steal_block k bi p) = pl_unconfirmed p" "pl_unconfirmed (finish_pool k hs p) = pl_unconfirmed p"
  by (simp_all add: steal_block_def finish_pool_def)

lemma heights_steal: "map_of (pl_confirmed p) k = Some v \<Longrightarrow> heights (steal_block k bi p) = heights p"
  unfolding steal_block_def by (simp add: insert_absorb map_of_heights)

lemma heights_restore: "map_of (pl_confirmed p) k = Some v \<Longrightarrow> heights (restore_pool k bi p) = heights p"
  unfolding restore_pool_def by (simp add: insert_absorb map_of_heights)

section \<open>The tasks keep track\<close>

lemma pool_put_tracks:
  assumes "qs_inv (pl_unconfirmed p)" and "h \<in> set (qs_fifo (pl_unconfirmed p))"
  shows "h \<in> set (qs_fifo (pl_unconfirmed (fst (put_in_pool k tx p))))"
proof -
  obtain q b where q: "qs_push (pl_unconfirmed p) k = (q, b)" by force
  from qs.push_spec [OF assms(1) q] assms(2) show ?thesis
    by (auto simp: put_in_pool_def q split: option.splits if_splits)
qed

lemma build_tracks:
  assumes "build_block threshold now (count, ht, p) = (count', ht', p')" and "qs_inv (pl_unconfirmed p)"
    and "bt_wf (pl_confirmed p)" and "\<forall>k \<in> heights p. k < ht"
    and "h \<in> set (qs_fifo (pl_unconfirmed p)) \<or> h \<in> confirmed_hashes (pl_confirmed p)"
  shows "h \<in> set (qs_fifo (pl_unconfirmed p')) \<or> h \<in> confirmed_hashes (pl_confirmed p')"
proof -
  obtain hs q where pop: "pop_upto threshold (pl_unconfirmed p) = (hs, q)" by force
  from pop_upto_spec [OF assms(2) pop] have "qs_fifo (pl_unconfirmed p) = hs @ qs_fifo q" by simp
  moreover from assms(4) map_of_heights have "map_of (pl_confirmed p) ht = None" by (metis less_irrefl not_None_eq)
  ultimately show ?thesis
    using assms confirmed_insert_free [OF assms(3), of h ht]
      confirmed_insert_new [OF assms(3), of "new_block_info hs (if ht = 0 then 0 else now ht)" hs h ht]
    by (auto simp: build_block_def pop Let_def new_block_info_def)
qed

lemma build_slots:
  assumes "build_block threshold now (count, ht, p) = (count', ht', p')"
    and "\<forall>k \<in> heights p. k < ht"
  shows "heights p' = insert ht (heights p) \<and> ht' = ht + 1 \<and>
    (\<forall>k v. map_of (pl_confirmed p) k = Some v \<longrightarrow> map_of (pl_confirmed p') k = Some v)"
proof -
  obtain hs q where pop: "pop_upto threshold (pl_unconfirmed p) = (hs, q)" by force
  have "k \<noteq> ht" if "map_of (pl_confirmed p) k = Some v" for k v using assms(2) map_of_heights [OF that] by auto
  moreover from assms(1) have "ht' = ht + 1" "pl_confirmed p' = bt_insert ht (new_block_info hs (if ht = 0 then 0 else now ht)) (pl_confirmed p)"
    by (auto simp: build_block_def pop Let_def)
  ultimately show ?thesis by (simp add: heights_def)
qed

lemma u64_less_Suc: "(k :: u64) \<le> ht \<Longrightarrow> ht \<noteq> u64_max \<Longrightarrow> k < ht + 1"
  by (simp add: word_less_nat_alt word_le_nat_alt unat_Suc_u64)

lemma slot_okI:
  assumes "slot_ok ph p" and "\<And>k v. map_of (pl_confirmed p) k = Some v \<Longrightarrow> map_of (pl_confirmed p') k = Some v"
  shows "slot_ok ph p'"
  using assms unfolding slot_ok_def by blast

lemma slot_ok_simps [simp]:
  "slot_ok ExIdle p" "slot_ok (ExStart iv) p" "slot_ok (ExSteal iv prev ht) p" "slot_ok (ExCheck iv prev ht) p"
  "slot_ok (ExStolen j) p \<longleftrightarrow> (\<exists>bi. map_of (pl_confirmed p) (ej_height j) = Some bi \<and> bi_txs_hashes bi = Some [])"
  "slot_ok (ExTxs j i f rxs) p \<longleftrightarrow> (\<exists>bi. map_of (pl_confirmed p) (ej_height j) = Some bi \<and> bi_txs_hashes bi = Some [])"
  "slot_ok (ExMerged j h) p \<longleftrightarrow> (\<exists>bi. map_of (pl_confirmed p) (ej_height j) = Some bi \<and> bi_txs_hashes bi = Some [])"
  "slot_ok (ExFailed j e) p \<longleftrightarrow> (\<exists>bi. map_of (pl_confirmed p) (ej_height j) = Some bi \<and> bi_txs_hashes bi = Some [])"
  by (auto simp: slot_ok_def)

lemma inflight_simps [simp]:
  "inflight (ExSteal iv prev ht) = {}" "inflight (ExCheck iv prev ht) = {}"
  "inflight (ExStolen j) = set (ej_txs_hashes j)" "inflight (ExTxs j i f rxs) = set (ej_txs_hashes j)"
  "inflight (ExFailed j e) = set (ej_txs_hashes j)" "inflight (ExMerged j h) = {}"
  by (simp_all add: inflight_def)

lemma height_okI: "height_ok ph p \<Longrightarrow> heights p' \<subseteq> heights p \<Longrightarrow> height_ok ph p'"
  unfolding height_ok_def by blast

text \<open>The executor.\<close>

lemma exec_txs_step_cases:
  assumes "exec_step E D W closed is_val (ExTxs j i f rxs) w = Some (ph', w')" and "ph' \<noteq> ExPanicked"
  shows "dp_pool (wk_dispatcher w') = dp_pool (wk_dispatcher w) \<and>
    ((\<exists>f' rxs'. ph' = ExTxs j (Suc i) f' rxs') \<or> (\<exists>e. ph' = ExFailed j e) \<or> (\<exists>h. ph' = ExMerged j h))"
proof (cases "i < length (ej_txs_hashes j)")
  case True
  let ?t = "exec_transactions E D W closed (ej_height j) (bi_timestamp (ej_info j)) i [ej_txs_hashes j ! i] (worker_executor w) f"
  show ?thesis
  proof (cases ?t)
    case (Some r)
    obtain x1 f1 rx where r: "r = (x1, f1, rx)" by (cases r)
    from exec_transactions_shared [OF Some [unfolded r]] assms True Some r show ?thesis
      by (auto simp: exec_step_def Let_def same_shared_def frame_simps)
  qed (use assms True in \<open>simp add: exec_step_def Let_def\<close>)
next
  case False
  obtain x1 r where s: "exec_seal E D closed is_val j rxs f (worker_executor w) = (x1, r)" by force
  with exec_seal_pool [of E D closed is_val j rxs f "worker_executor w"] assms(1) False show ?thesis
    by (cases r) (auto simp: exec_step_def Let_def frame_simps)
qed

context wm_contract
begin

lemma exec_step_slots:
  assumes "exec_step E D W closed is_val ph w = Some (ph', w')" and "slot_ok ph (dp_pool (wk_dispatcher w))"
    and "ph' \<noteq> ExPanicked"
  shows "slot_ok ph' (dp_pool (wk_dispatcher w')) \<and>
    heights (dp_pool (wk_dispatcher w')) \<subseteq> heights (dp_pool (wk_dispatcher w))"
proof (cases ph)
  case (ExSteal iv prev ht)
  with assms show ?thesis
    by (auto simp: exec_step_def Let_def exec_over_def frame_simps heights_steal split: option.splits)
       (simp add: steal_block_def)
next
  case (ExTxs j i f rxs)
  with exec_txs_step_cases [OF assms(1) [unfolded ExTxs] assms(3)] assms(2) show ?thesis by auto
next
  case (ExMerged j h)
  with assms heights_finish show ?thesis by (auto simp: exec_step_def Let_def frame_simps subset_iff)
next
  case (ExFailed j e)
  with assms show ?thesis
    by (auto simp: exec_step_def Let_def exec_over_def frame_simps heights_restore split: option.splits)
qed (use assms in \<open>auto simp: exec_step_def Let_def exec_over_def split: option.splits if_splits\<close>)

lemma exec_step_tracks:
  assumes "exec_step E D W closed is_val ph w = Some (ph', w')" and "slot_ok ph (dp_pool (wk_dispatcher w))"
    and "ph' \<noteq> ExPanicked" and "fine_inv E snap absf inv ph w" and "fine_tracked snap ph w h"
  shows "fine_tracked snap ph' w' h"
proof -
  note after = exec_step_inv [OF assms(1,4)]
  from assms(4) have wf: "bt_wf (pl_confirmed (dp_pool (wk_dispatcher w)))" by (simp add: fine_inv_def fine_pool_def Let_def)
  show ?thesis
  proof (cases ph)
    case (ExSteal iv prev ht)
    with assms confirmed_steal [OF wf, of h ht] show ?thesis
      by (fastforce simp: exec_step_def Let_def exec_over_def frame_simps fine_tracked_def split: option.splits)
  next
    case (ExTxs j i f rxs)
    from exec_txs_step_cases [OF assms(1) [unfolded ExTxs] assms(3)] assms(5) after ExTxs show ?thesis
      by (auto simp: fine_tracked_def extends_db_def fine_inv_def phase_ok_def Let_def)
  next
    case (ExMerged j e)
    with assms confirmed_finish [OF wf, of h "ej_height j"] show ?thesis
      by (auto simp: exec_step_def frame_simps fine_tracked_def Let_def)
  next
    case (ExFailed j e)
    with assms(4) have "bi_txs_hashes (ej_info j) = Some (ej_txs_hashes j)" by (simp add: fine_inv_def phase_ok_def Let_def)
    with ExFailed assms confirmed_insert_free [OF wf, of h "ej_height j" "ej_info j"]
      confirmed_insert_new [OF wf, of "ej_info j" "ej_txs_hashes j" h "ej_height j"] show ?thesis
      by (auto simp: exec_step_def Let_def exec_over_def frame_simps fine_tracked_def restore_pool_def split: option.splits)
  qed (use assms in \<open>auto simp: exec_step_def Let_def exec_over_def fine_tracked_def split: option.splits if_splits\<close>)
qed

text \<open>The builder.\<close>

lemma build_step_tracks:
  assumes "build_step D now ph w = Some (ph', w')" and "slot_ok eph (dp_pool (wk_dispatcher w))"
    and "height_ok ph (dp_pool (wk_dispatcher w))" and "u64_max \<notin> heights (dp_pool (wk_dispatcher w))"
    and "u64_max \<notin> heights (dp_pool (wk_dispatcher w'))"
    and "fine_inv E snap absf inv eph w"
  shows "slot_ok eph (dp_pool (wk_dispatcher w')) \<and> height_ok ph' (dp_pool (wk_dispatcher w')) \<and>
    (fine_tracked snap eph w h \<longrightarrow> fine_tracked snap eph w' h)"
proof (cases ph)
  case (BuWhile count ht)
  let ?p = "dp_pool (wk_dispatcher w)"
  from assms(6) have wf: "qs_inv (pl_unconfirmed ?p)" "bt_wf (pl_confirmed ?p)" by (simp_all add: fine_inv_def fine_pool_def Let_def)
  from assms(3) BuWhile have free: "\<forall>k \<in> heights ?p. k < ht" by (simp add: height_ok_def)
  obtain c' ht' p' where b: "build_block (bu_threshold (wk_builder w)) (\<lambda>_. now) (count, ht, ?p) = (c', ht', p')"
    by (cases "build_block (bu_threshold (wk_builder w)) (\<lambda>_. now) (count, ht, ?p)") auto
  note slots = build_slots [OF b free]
  show ?thesis
  proof (cases "count > 0")
    case True
    then have w': "w' = on_pool (\<lambda>_. p') w" "ph' = BuWhile c' ht'" using assms(1) BuWhile b by (auto simp: build_step_def Let_def)
    with assms(5) slots have "ht \<noteq> u64_max" by (auto simp: frame_simps)
    then have "\<forall>k \<in> heights p'. k < ht'" using slots free u64_less_Suc by (auto simp: less_imp_le)
    then show ?thesis using slot_okI [OF assms(2)] slots build_tracks [OF b wf free]
      by (auto simp: w' frame_simps height_ok_def fine_tracked_def Let_def)
  next
    case False
    with assms BuWhile show ?thesis
      by (auto simp: build_step_def Let_def height_ok_def fine_tracked_def split: if_splits)
  qed
next
  case BuStart
  from assms(6) have "bt_wf (pl_confirmed (dp_pool (wk_dispatcher w)))" by (simp add: fine_inv_def fine_pool_def Let_def)
  from heights_below [OF this assms(4), of D "dp_db (wk_dispatcher w)"] BuStart assms show ?thesis
    by (auto simp: build_step_def Let_def height_ok_def)
qed (use assms in \<open>auto simp: build_step_def Let_def height_ok_def\<close>)

text \<open>A step that leaves the blocks of the pool alone and removes nothing from the queue.\<close>

lemma frame_tracks:
  assumes "slots_inv c" and "cn_exec c' = cn_exec c" and "cn_build c' = cn_build c" and "cn_db c' = cn_db c"
    and "pl_confirmed (cn_pool c') = pl_confirmed (cn_pool c)"
    and "set (qs_fifo (pl_unconfirmed (cn_pool c))) \<subseteq> set (qs_fifo (pl_unconfirmed (cn_pool c')))"
  shows "slots_inv c' \<and> (fine_tracked snap (cn_exec c) (cn_worker c) h \<longrightarrow> fine_tracked snap (cn_exec c') (cn_worker c') h)"
  using assms by (auto simp: slots_inv_def fine_tracked_def Let_def slot_ok_def height_ok_def heights_def)

lemma probe_tracks:
  assumes "slots_inv c" and "fine_inv E snap absf inv (cn_exec c) (cn_worker c)"
  shows "slots_inv (probe_step D c) \<and>
    (fine_tracked snap (cn_exec c) (cn_worker c) h \<longrightarrow> fine_tracked snap (cn_exec (probe_step D c)) (cn_worker (probe_step D c)) h)"
  using assms by (cases "cn_exec c = ExIdle")
    (auto simp: probe_step_def slots_inv_def fine_tracked_def fine_inv_def Let_def split: probe.splits)

lemma fine_step_tracks:
  assumes "fine_step E C D W is_val a c c'" and "undisturbed a c'" and "slots_inv c"
    and "fine_inv E snap absf inv (cn_exec c) (cn_worker c)"
  shows "slots_inv c' \<and> (fine_tracked snap (cn_exec c) (cn_worker c) h \<longrightarrow> fine_tracked snap (cn_exec c') (cn_worker c') h)"
  using assms(1)
proof (cases rule: fine_step.cases)
  case ProbeExec
  with probe_tracks [OF assms(3,4)] show ?thesis by simp
next
  case (ProbeBuild locked threshold)
  with assms(3) show ?thesis
    by (auto simp: build_probe_step_def slots_inv_def fine_tracked_def height_ok_def Let_def)
next
  case (Admit closed src tx)
  then show ?thesis
    by (intro frame_tracks [OF assms(3)])
       (simp_all add: admit_step_def on_disp_def frame_simps split: sum.splits)
next
  case (Put p closed)
  moreover have "qs_inv (pl_unconfirmed (cn_pool c))" using assms(4) by (simp add: fine_inv_def fine_pool_def Let_def)
  ultimately show ?thesis
    by (intro frame_tracks [OF assms(3)])
       (auto simp: put_step_pool put_in_pool_confirmed pool_put_tracks, auto simp: put_step_def on_disp_def frame_simps split: prod.splits)
next
  case (Request req closed chan s)
  with simple_request_frame [OF Request(3,4)] show ?thesis
    by (intro frame_tracks [OF assms(3)]) (simp_all add: on_disp_def)
next
  case (Build now ph w)
  with assms(2,3) build_step_tracks [OF Build(3) _ _ _ _ assms(4)] show ?thesis
    by (simp add: slots_inv_def undisturbed_def)
next
  case (Exec closed ph w)
  with assms(2) have "ph \<noteq> ExPanicked" by (simp add: undisturbed_def)
  with exec_step_slots [OF Exec(3)] exec_step_tracks [OF Exec(3) _ _ assms(4)] assms(2,3) height_okI Exec(2) show ?thesis
    by (auto simp: slots_inv_def undisturbed_def)
qed (use assms(2) in \<open>simp_all add: undisturbed_def\<close>)

lemma fine_reach_tracks:
  assumes "fine_reach E C D W is_val undisturbed c c'" and "slots_inv c"
    and "fine_inv E snap absf inv (cn_exec c) (cn_worker c)"
  shows "slots_inv c' \<and> (fine_tracked snap (cn_exec c) (cn_worker c) h \<longrightarrow> fine_tracked snap (cn_exec c') (cn_worker c') h)"
  using assms
proof (induction rule: fine_reach.induct)
  case (Then c c' a c'')
  from Then.IH Then.prems fine_step_tracks [OF Then.hyps(2,3)] fine_reach_inv [OF Then.hyps(1)] show ?case by blast
qed simp

end

end
