(* ===== verification/Races.thy ===== *)
theory Races
  imports Atomic Lossless Node
begin

text \<open>
  What holds in every interleaving of the worker's tasks, as properties of the node, and two interleavings that break
  what holds of the atomic tasks.
\<close>

section \<open>Runs of the whole\<close>

text \<open>A panicked executor never comes back: its flag stays set, and the database never changes again.\<close>

lemma dead_step:
  assumes "fine_step E C D W is_val a c c'" and "cn_exec c = ExPanicked" and "wk_executing (cn_worker c)"
  shows "cn_exec c' = ExPanicked \<and> wk_executing (cn_worker c') \<and> cn_db c' = cn_db c"
  using assms(1)
proof (cases rule: fine_step.cases)
  case ProbeExec
  with assms(2,3) show ?thesis by (auto simp: probe_step_def split: probe.splits)
next
  case (ProbeBuild locked threshold)
  with assms(2,3) show ?thesis by (auto simp: build_probe_step_def)
next
  case (Admit closed src tx)
  with assms(2,3) show ?thesis by (auto simp: admit_step_def on_disp_def frame_simps split: sum.splits)
next
  case (Put p closed)
  with assms(2,3) show ?thesis by (auto simp: put_step_def on_disp_def frame_simps split: prod.splits)
next
  case (Receive block txs origin)
  with assms(2,3) show ?thesis
    by (auto simp: receive_step_def on_disp_def get_block_res_handler_def Let_def)
next
  case (QueueBlock b)
  with assms(2,3) show ?thesis by (simp add: queue_block_step_def frame_simps)
next
  case (Request req closed chan s)
  with assms(2,3) simple_request_frame [OF Request(3,4)] show ?thesis by (simp add: on_disp_def)
next
  case (Build now ph w)
  with assms(2,3) show ?thesis
    by (auto simp: build_step_def Let_def frame_simps split: build_phase.splits if_splits prod.splits)
next
  case (Exec closed ph w)
  with assms(2) show ?thesis by (simp add: exec_step_def)
next
  case (Align iter closed t ph al s)
  with assms(2,3) al_step_step [OF Align(3)] show ?thesis by (simp add: disp_step_def)
qed

lemma dead_reach:
  assumes "fine_reach E C D W is_val allowed c c'" and "cn_exec c = ExPanicked" and "wk_executing (cn_worker c)"
  shows "cn_exec c' = ExPanicked \<and> wk_executing (cn_worker c') \<and> cn_db c' = cn_db c"
  using assms
proof (induction rule: fine_reach.induct)
  case (Then c c' a c'')
  with dead_step [OF Then.hyps(2)] show ?case by simp
qed simp

text \<open>Steps of the executor in the course of a run of the whole.\<close>

lemma reach_exec:
  assumes "fine_reach E C D W is_val (\<lambda>_ _. True) c0 c" and "exec_steps E D W closed is_val (cn_exec c) (cn_worker c) ph w"
  shows "fine_reach E C D W is_val (\<lambda>_ _. True) c0 (c\<lparr>cn_exec := ph, cn_worker := w\<rparr>)"
  using fine_reach_trans [OF exec_steps_reach [OF assms(2), of "\<lambda>_ _. True" C c] ] assms(1) by simp

lemma reach_step:
  assumes "fine_reach E C D W is_val (\<lambda>_ _. True) c0 c" and "fine_step E C D W is_val a c c'"
  shows "fine_reach E C D W is_val (\<lambda>_ _. True) c0 c'"
  using fine_reach.Then [OF assms] by simp

section \<open>A submission that is checked too early\<close>

lemma block_merges:
  assumes "cn_exec c = ExStolen j"
    and "exec_block E D W closed is_val (ej_is_validator j) (ej_height j) (ej_txs_hashes j) (ej_prev_hash j)
      (block_values_of (ej_info j)) (worker_executor (cn_worker c)) = Some (x', Inr h)"
  shows "exec_steps E D W closed is_val (cn_exec c) (cn_worker c) (ExCheck (ej_is_validator j) h (ej_height j + 1))
    (exec_on (after_block E D closed (ej_height j) (ej_txs_hashes j) x') (cn_worker c))"
proof -
  let ?w = "cn_worker c"
  from exec_block_steps [OF assms(2), of ?w] assms(1) have
    "exec_steps E D W closed is_val (cn_exec c) ?w (ExMerged j h) (exec_on x' ?w)" by simp
  moreover have "clone_of ?w x'" using exec_block_pool [OF assms(2)] by (simp add: clone_of_def worker_executor_def Let_def)
  then have "exec_step E D W closed is_val (ExMerged j h) (exec_on x' ?w) = Some (ExCheck (ej_is_validator j) h (ej_height j + 1),
      exec_on (after_block E D closed (ej_height j) (ej_txs_hashes j) x') ?w)"
    by (simp add: exec_step_def Let_def worker_executor_exec_on after_block_anon)
  ultimately show ?thesis by (rule exec_steps_snoc)
qed

lemma qs_push_member: "qs_inv q \<Longrightarrow> h \<in> set (qs_fifo (fst (qs_push q h)))"
  using qs.push_spec [of q h "fst (qs_push q h)" "snd (qs_push q h)"] by (auto split: if_splits)

section \<open>A check of the executor that comes too early\<close>

lemma probe_passes:
  assumes "map_of (pl_confirmed p) ht = Some bi" and "bi_txs_hashes bi = Some []" and "ht \<noteq> u64_max"
  shows "executor_can_run D ht db p"
  using assms by (simp add: executor_can_run_def Let_def)

lemma can_run_missing:
  assumes "map_of (pl_confirmed p) ht = Some bi" and "bi_txs_hashes bi = Some (k # ks)" and "\<nexists>tx. pl_txs p k = Some (Some tx)"
    and "ht \<noteq> u64_max"
  shows "\<not> executor_can_run D ht db p"
  using assms by (auto simp: executor_can_run_def Let_def split: option.splits)

text \<open>An executor that starts on a block whose first payload is missing.\<close>

lemma missing_payload_panics:
  assumes "cn_exec c = ExStart iv" and "next_height D (cn_db c) = ht" and "map_of (pl_confirmed (cn_pool c)) ht = Some bi"
    and "bi_txs_hashes bi = Some (k # ks)" and "\<nexists>tx. pl_txs (cn_pool c) k = Some (Some tx)"
  shows "exec_steps E D W closed is_val (cn_exec c) (cn_worker c) ExPanicked (on_pool (steal_block ht bi) (cn_worker c))"
proof -
  let ?w = "cn_worker c" and ?w1 = "on_pool (steal_block ht bi) (cn_worker c)"
  obtain prev where 1: "exec_step E D W closed is_val (ExStart iv) ?w = Some (ExSteal iv prev ht, ?w)"
    using assms(2) by (auto simp: exec_step_def Let_def next_height_def split: option.splits)
  define j where "j = \<lparr>ej_is_validator = iv, ej_prev_hash = prev, ej_height = ht, ej_info = bi, ej_txs_hashes = k # ks\<rparr>"
  have 2: "exec_step E D W closed is_val (ExSteal iv prev ht) ?w = Some (ExStolen j, ?w1)"
    using assms(3,4) by (simp add: exec_step_def Let_def j_def)
  obtain f where 3: "exec_step E D W closed is_val (ExStolen j) ?w1 = Some (ExTxs j 0 f [], ?w1)"
    by (simp add: exec_step_def Let_def)
  have "\<nexists>tx. pl_txs (ex_pool (worker_executor ?w1)) k = Some (Some tx)" using assms(5) by (simp add: frame_simps steal_txs)
  then have 4: "exec_step E D W closed is_val (ExTxs j 0 f []) ?w1 = Some (ExPanicked, ?w1)"
    by (auto simp: exec_step_def Let_def j_def split: option.splits)
  show ?thesis unfolding assms(1)
    by (rule exec_steps.MoreSteps [OF 1 exec_steps.MoreSteps [OF 2 exec_steps.MoreSteps [OF 3 exec_steps.MoreSteps [OF 4 exec_steps.NoStep]]]])
qed

text \<open>The run of the executor ends at a block that lacks a payload, and the event loop, which was told earlier that it may, starts another.\<close>

lemma late_start:
  assumes "cn_exec c = ExCheck iv h ht" and "cn_probe c = PrReady" and "next_height D (cn_db c) = ht"
    and "map_of (pl_confirmed (cn_pool c)) ht = Some bi" and "bi_txs_hashes bi = Some (k # ks)"
    and "\<nexists>tx. pl_txs (cn_pool c) k = Some (Some tx)" and "ht \<noteq> u64_max"
  shows "\<exists>c'. fine_reach E C D W is_val (\<lambda>_ _. True) c c' \<and> cn_exec c' = ExPanicked \<and> wk_executing (cn_worker c') \<and>
    cn_db c' = cn_db c \<and> cn_pool c' = steal_block ht bi (cn_pool c)"
proof -
  define c1 where "c1 = c\<lparr>cn_exec := ExIdle, cn_worker := (cn_worker c)\<lparr>wk_executing := False\<rparr>\<rparr>"
  define c2 where "c2 = probe_step D c1"
  define c3 where "c3 = c2\<lparr>cn_exec := ExPanicked, cn_worker := on_pool (steal_block ht bi) (cn_worker c2)\<rparr>"
  have "exec_step E D W (\<lambda>_. False) is_val (cn_exec c) (cn_worker c) = Some (ExIdle, (cn_worker c)\<lparr>wk_executing := False\<rparr>)"
    using can_run_missing [OF assms(4-7)] assms(1) by (simp add: exec_step_def Let_def exec_over_def)
  from reach_step [OF fine_reach.Here fine_step.Exec [OF this]] have "fine_reach E C D W is_val (\<lambda>_ _. True) c c1" by (simp add: c1_def)
  from reach_step [OF this fine_step.ProbeExec] have 2: "fine_reach E C D W is_val (\<lambda>_ _. True) c c2" by (simp add: c2_def)
  have c2: "cn_exec c2 = ExStart (wk_is_validator (cn_worker c))" "wk_executing (cn_worker c2)" "cn_disp c2 = cn_disp c"
    using assms(2) by (simp_all add: c2_def c1_def probe_step_def)
  have "fine_reach E C D W is_val (\<lambda>_ _. True) c c3"
    unfolding c3_def using missing_payload_panics [OF c2(1), of D ht bi k ks E W "\<lambda>_. False" is_val] assms(3-6) c2(3)
    by (intro reach_exec [OF 2]) simp
  moreover have "cn_exec c3 = ExPanicked \<and> wk_executing (cn_worker c3) \<and> cn_db c3 = cn_db c \<and> cn_pool c3 = steal_block ht bi (cn_pool c)"
    using c2 by (simp add: c3_def frame_simps)
  ultimately show ?thesis by blast
qed

context wm_contract
begin

lemma next_height_tip: "next_height D db = snd (tip E (st_blocks (snap db)))"
  by (simp add: next_height_def load_block st_load_block_def tip_def)

end

section \<open>States to evaluate on\<close>

text \<open>A worker whose executor has just taken the block of height 0, with one transaction, out of the pool.\<close>

definition demo_job :: "hash \<Rightarrow> exec_job" where
  "demo_job k = \<lparr>ej_is_validator = True, ej_prev_hash = hash_default, ej_height = 0,
     ej_info = demo_block_info\<lparr>bi_txs_hashes := Some [k]\<rparr>, ej_txs_hashes = [k]\<rparr>"

definition demo_stolen :: "(hash \<Rightarrow> transaction option option) \<Rightarrow> hash \<Rightarrow> (u64 \<times> block_info) list \<Rightarrow>
    (store rocks_db, unit, fork_abs) cnode" where
  "demo_stolen txs k later =
     (cnode_start (demo_busy_worker\<lparr>wk_dispatcher := demo_dispatcher\<lparr>dp_pool :=
        \<lparr>pl_txs = txs, pl_unconfirmed = qs_new, pl_confirmed = (0, demo_block_info\<lparr>bi_txs_hashes := Some []\<rparr>) # later\<rparr>\<rparr>\<rparr>))
     \<lparr>cn_exec := ExStolen (demo_job k)\<rparr>"

lemma demo_stolen_exec:
  assumes "txs k = Some (Some tx)" and "tx = demo_tx \<or> tx = demo_signed_tx"
  shows "\<exists>x' h. exec_block demo_env demo_D (demo_wm demo_D) (\<lambda>_. False) is_val True 0 [k] hash_default
    (block_values_of (ej_info (demo_job k))) (worker_executor (cn_worker (demo_stolen txs k later))) = Some (x', Inr h)"
proof -
  let ?p = "cn_pool (demo_stolen txs k later)"
  have x: "worker_executor (cn_worker (demo_stolen txs k later)) = demo_executor\<lparr>ex_pool := ?p\<rparr>" and p: "pl_txs ?p = txs"
    by (simp_all add: demo_stolen_def cnode_start_def worker_executor_def demo_busy_worker_def demo_executor_def executor_new_def
        demo_dispatcher_def)
  obtain x1 f1 rxs where 1: "exec_transactions demo_env demo_D (demo_wm demo_D) (\<lambda>_. False) 0 0 0 [k]
      (demo_executor\<lparr>ex_pool := ?p\<rparr>) (db_fork_create demo_D (ex_db demo_executor)) = Some (x1, f1, rxs)"
    using assms p by (fastforce simp: demo_eval demo_signed_tx_def Let_def error_to_string_full_def error_new_def)
  obtain db' block where 2: "seal_block demo_env demo_D is_val (ex_keypair x1) (ex_db x1) 0 [k]
      rxs hash_default demo_values f1 = Inr (db', block)" using demo_seal by blast
  have v: "block_values_of (ej_info (demo_job k)) = demo_values"
    by (simp add: demo_values_def block_values_of_def demo_job_def)
  have "bv_timestamp demo_values = 0" by (simp add: demo_values_def block_values_of_def demo_block_info_def)
  with 1 2 show ?thesis by (simp add: exec_block_def Let_def x v)
qed

lemma demo_stolen_inv:
  assumes "txs k \<noteq> None" and "bt_wf ((0, demo_block_info) # later)" and "\<forall>h \<in> confirmed_hashes later. txs h \<noteq> None"
  shows "fine_inv demo_env rd_snap (\<lambda>f. f) (rocks_inv mem_merkledb) (cn_exec (demo_stolen txs k later)) (cn_worker (demo_stolen txs k later))"
proof -
  have "confirmed_hashes ((0, demo_block_info\<lparr>bi_txs_hashes := Some []\<rparr>) # later) = confirmed_hashes later"
    by (auto simp: confirmed_hashes_def)
  with assms show ?thesis
    by (auto simp: fine_inv_def demo_stolen_def cnode_start_def demo_busy_worker_def demo_dispatcher_def Let_def rocks_inv_def
        rocks_new_def mem_merkledb_def store_empty_def chain_ok_def phase_ok_def job_ok_def demo_job_def tip_def fine_pool_def
        qs_new_def qs_inv_def bt_wf_def)
qed

section \<open>Properties\<close>

text \<open>C1. Safety under every interleaving. However the regions of the event loop, the handlers, the builder, the executor and
  the turns of the aligner are interleaved, from a new worker on a database whose chain is linked, whatever the contracts
  do: the chain stays linked and only grows; the block under execution is always meant for the height after the last block
  and on top of it; and for every transaction that is not in the chain, if it is unconfirmed the pool has its payload, and
  if a block of the pool or the block under execution names it, it is known to the pool and not unconfirmed, so the node's
  own builder cannot put it into another block.
\<close>

theorem fine_node_safe:
  assumes "merkledb_api M absf"
    and "fine_reach E C (rocks_ops E M) (wm_local_ops E H T (rocks_ops E M) n) is_val allowed
      (cnode_start (worker_new config (rocks_new M backend) wm seed p2p_id)) c"
    and "chain_ok E (st_blocks (md_snapshot M backend))"
  shows "chain_ok E (st_blocks (rd_snap (cn_db c))) \<and>
    (\<exists>bs. st_blocks (rd_snap (cn_db c)) = st_blocks (md_snapshot M backend) @ bs) \<and>
    (\<forall>j. cn_exec c = ExStolen j \<or> (\<exists>i f rxs. cn_exec c = ExTxs j i f rxs) \<longrightarrow>
       (ej_prev_hash j, ej_height j) = tip E (st_blocks (rd_snap (cn_db c)))) \<and>
    (\<forall>h. st_transactions (rd_snap (cn_db c)) h = None \<longrightarrow>
       (qs_contains (pl_unconfirmed (cn_pool c)) h \<longrightarrow> (\<exists>tx. pl_txs (cn_pool c) h = Some (Some tx))) \<and>
       (h \<in> confirmed_hashes (pl_confirmed (cn_pool c)) \<union> inflight (cn_exec c) \<longrightarrow>
          \<not> qs_contains (pl_unconfirmed (cn_pool c)) h \<and> pl_txs (cn_pool c) h \<noteq> None))"
proof -
  let ?w = "worker_new config (rocks_new M backend) wm seed p2p_id"
  have W: "wm_contract E (rocks_ops E M) rd_snap absf (rocks_inv M) (wm_local_ops E H T (rocks_ops E M) n)"
    by (rule db_contract.wm_local_contract [OF merkledb_api.rocks_contract [OF assms(1)]])
  have "fine_inv E rd_snap absf (rocks_inv M) (cn_exec (cnode_start ?w)) (cn_worker (cnode_start ?w))"
    using assms(3) pool_inv_fine [OF pool_inv_default]
    by (simp add: fine_inv_def cnode_start_def worker_new_def Let_def rocks_inv_def rocks_new_def)
  from wm_contract.fine_reach_inv [OF W assms(2) this]
  have i: "fine_inv E rd_snap absf (rocks_inv M) (cn_exec c) (cn_worker c)"
    and e: "\<exists>bs. st_blocks (rd_snap (cn_db c)) = st_blocks (md_snapshot M backend) @ bs"
    by (simp_all add: extends_db_def cnode_start_def worker_new_def rocks_new_def)
  from i have "qs_contains (pl_unconfirmed (cn_pool c)) h \<longleftrightarrow> h \<in> set (qs_fifo (pl_unconfirmed (cn_pool c)))" for h
    by (simp add: fine_inv_def fine_pool_def Let_def qs.contains_spec)
  with i e show ?thesis
    by (auto simp: fine_inv_def Let_def fine_pool_def stored_in_def phase_ok_def job_ok_def)
qed

text \<open>A submission handled by a new worker.\<close>

definition demo_submitted :: "(store rocks_db, bytes wm_local, fork_abs) cnode" where
  "demo_submitted =
     on_disp (put_atomic demo_env demo_ops (\<lambda>_. False) FromClient demo_signed_tx (wk_dispatcher demo_worker)) (cnode_start demo_worker)"

lemma demo_submitted_pool:
  "cn_pool demo_submitted = \<lparr>pl_txs = [tx_get_primary_hash demo_env demo_signed_tx \<mapsto> Some demo_signed_tx],
     pl_unconfirmed = fst (qs_push qs_new (tx_get_primary_hash demo_env demo_signed_tx)), pl_confirmed = []\<rparr>"
proof -
  have d: "wk_dispatcher demo_worker = demo_dispatcher"
    by (simp add: demo_worker_def worker_new_def demo_dispatcher_def demo_config_def)
  show ?thesis
    by (simp add: demo_submitted_def on_disp_def put_atomic_split put_internal_split d demo_admit put_in_pool_def frame_simps)
       (simp add: demo_dispatcher_def pool_default_def put_done_frame)
qed

lemma demo_submitted_reach:
  assumes "\<And>c. undisturbed Handler c \<Longrightarrow> allowed Handler c"
  shows "fine_reach demo_env demo_codec demo_ops demo_machine (\<lambda>_ _. Inr True) allowed (cnode_start demo_worker) demo_submitted"
proof -
  define c0 :: "(store rocks_db, bytes wm_local, fork_abs) cnode" where "c0 = cnode_start demo_worker"
  have start: "cn_puts c0 = []" "cn_disp c0 = wk_dispatcher demo_worker" "cn_exec c0 = ExIdle" "pl_confirmed (dp_pool (wk_dispatcher demo_worker)) = []"
    by (simp_all add: c0_def cnode_start_def demo_worker_def worker_new_def pool_default_def)
  have "fine_reach demo_env demo_codec demo_ops demo_machine (\<lambda>_ _. Inr True) allowed c0
      (on_disp (put_atomic demo_env demo_ops (\<lambda>_. False) FromClient demo_signed_tx (cn_disp c0)) c0)"
    by (rule put_atomic_reach [OF start(1)]) (simp add: assms start undisturbed_def heights_def)
  then show ?thesis by (simp add: demo_submitted_def start(2) c0_def [symmetric])
qed

lemma demo_chain: "chain_ok demo_env (st_blocks (md_snapshot mem_merkledb store_empty))"
  by (simp add: mem_merkledb_def store_empty_def chain_ok_def)

theorem fine_node_safe_witness:
  "fine_reach demo_env demo_codec demo_ops demo_machine (\<lambda>_ _. Inr True) (\<lambda>_ _. True) (cnode_start demo_worker) demo_submitted \<and>
   chain_ok demo_env (st_blocks (rd_snap (cn_db demo_submitted)))"
proof -
  have r: "fine_reach demo_env demo_codec demo_ops demo_machine (\<lambda>_ _. Inr True) (\<lambda>_ _. True) (cnode_start demo_worker) demo_submitted"
    by (rule demo_submitted_reach) simp
  with fine_node_safe [OF mem.merkledb_api_axioms r [unfolded demo_worker_def demo_ops_def] demo_chain] show ?thesis by blast
qed

text \<open>C8. No transaction is lost between the tasks. In every interleaving of the event loop, the handlers, the builder and the
  executor that starts from a new worker, without blocks of peers and as long as the executor does not panic and the
  heights do not run out, a transaction that is unconfirmed, named by a block of the pool, under execution, or in the chain
  is so at every later time; until it is in the chain the pool keeps its hash, and its payload while it is unconfirmed.
\<close>

theorem fine_loses_nothing:
  assumes "merkledb_api M absf"
    and "chain_ok E (st_blocks (md_snapshot M backend))"
    and "fine_reach E C (rocks_ops E M) (wm_local_ops E H T (rocks_ops E M) n) is_val undisturbed
      (cnode_start (worker_new config (rocks_new M backend) wm seed p2p_id)) c"
    and "fine_reach E C (rocks_ops E M) (wm_local_ops E H T (rocks_ops E M) n) is_val undisturbed c c'"
    and "fine_tracked rd_snap (cn_exec c) (cn_worker c) h"
  shows "st_transactions (rd_snap (cn_db c')) h \<noteq> None \<or>
    qs_contains (pl_unconfirmed (cn_pool c')) h \<and> (\<exists>tx. pl_txs (cn_pool c') h = Some (Some tx)) \<or>
    h \<in> confirmed_hashes (pl_confirmed (cn_pool c')) \<union> inflight (cn_exec c') \<and> pl_txs (cn_pool c') h \<noteq> None"
proof -
  let ?w = "worker_new config (rocks_new M backend) wm seed p2p_id" and ?I = "\<lambda>c. fine_inv E rd_snap absf (rocks_inv M) (cn_exec c) (cn_worker c)"
  have W: "wm_contract E (rocks_ops E M) rd_snap absf (rocks_inv M) (wm_local_ops E H T (rocks_ops E M) n)"
    by (rule db_contract.wm_local_contract [OF merkledb_api.rocks_contract [OF assms(1)]])
  have 0: "?I (cnode_start ?w)" "slots_inv (cnode_start ?w)"
    using assms(2) pool_inv_fine [OF pool_inv_default]
    by (simp_all add: fine_inv_def cnode_start_def worker_new_def Let_def rocks_inv_def rocks_new_def slots_inv_def
        height_ok_def heights_def pool_default_def)
  note i = wm_contract.fine_reach_inv [OF W assms(3) 0(1)]
  from wm_contract.fine_reach_tracks [OF W assms(3) 0(2,1)] have "slots_inv c" by blast
  from wm_contract.fine_reach_tracks [OF W assms(4) this] i assms(5) have tr: "fine_tracked rd_snap (cn_exec c') (cn_worker c') h" by blast
  from wm_contract.fine_reach_inv [OF W assms(4)] i have i': "?I c'" by blast
  then have "qs_contains (pl_unconfirmed (cn_pool c')) h \<longleftrightarrow> h \<in> set (qs_fifo (pl_unconfirmed (cn_pool c')))"
    by (simp add: fine_inv_def fine_pool_def Let_def qs.contains_spec)
  with tr i' show ?thesis by (auto simp: fine_tracked_def fine_inv_def fine_pool_def stored_in_def Let_def)
qed

theorem fine_loses_nothing_witness:
  "let h = tx_get_primary_hash demo_env demo_signed_tx; c = build_probe_step False 1 demo_submitted in
     st_transactions (rd_snap (cn_db c)) h \<noteq> None \<or>
     qs_contains (pl_unconfirmed (cn_pool c)) h \<and> (\<exists>tx. pl_txs (cn_pool c) h = Some (Some tx)) \<or>
     h \<in> confirmed_hashes (pl_confirmed (cn_pool c)) \<union> inflight (cn_exec c) \<and> pl_txs (cn_pool c) h \<noteq> None"
proof -
  let ?h = "tx_get_primary_hash demo_env demo_signed_tx" and ?c = "build_probe_step False 1 demo_submitted"
  have r: "fine_reach demo_env demo_codec demo_ops demo_machine (\<lambda>_ _. Inr True) undisturbed (cnode_start demo_worker) demo_submitted"
    by (rule demo_submitted_reach)
  have u: "undisturbed EventLoop ?c"
    by (simp add: undisturbed_def build_probe_step_def demo_submitted_pool heights_def)
       (simp add: demo_submitted_def on_disp_def cnode_start_def)
  have s: "fine_reach demo_env demo_codec demo_ops demo_machine (\<lambda>_ _. Inr True) undisturbed demo_submitted ?c"
    by (rule fine_reach_one [OF fine_step.ProbeBuild]) (rule u)
  have "fine_tracked rd_snap (cn_exec demo_submitted) (cn_worker demo_submitted) ?h"
    by (simp add: fine_tracked_def Let_def demo_submitted_pool qs_push_member qs_new_def qs_inv_def)
  from fine_loses_nothing [OF mem.merkledb_api_axioms demo_chain r [unfolded demo_worker_def demo_ops_def]
      s [unfolded demo_ops_def] this] show ?thesis by (simp add: Let_def)
qed

text \<open>C13. A transaction can be confirmed twice. \<open>put_transaction_internal\<close> looks for the transaction in the database and
  then, with the database unlocked, in the pool. If a copy of a transaction is submitted while the block that contains it is
  being executed, the first look can come before the block is merged and the second after the executor has cleaned the
  pool: then the transaction is in the chain, and at the same time queued again as unconfirmed, with its payload, ready
  for the next block; nothing looks for it in the database again.
\<close>

theorem stale_admission_requeues:
  assumes "wm_contract E D snap absf dinv W" and "fine_inv E snap absf dinv (cn_exec c) (cn_worker c)"
    and "cn_exec c = ExStolen j" and "k \<in> set (ej_txs_hashes j)"
    and "exec_block E D W closed is_val (ej_is_validator j) (ej_height j) (ej_txs_hashes j) (ej_prev_hash j)
      (block_values_of (ej_info j)) (worker_executor (cn_worker c)) = Some (x', Inr h)"
    and "admit_transaction E D (cn_disp c) tx = Inr k"
  shows "\<exists>c'. fine_reach E C D W is_val (\<lambda>_ _. True) c c' \<and> st_transactions (snap (cn_db c')) k \<noteq> None \<and>
    k \<in> set (qs_fifo (pl_unconfirmed (cn_pool c'))) \<and> pl_txs (cn_pool c') k = Some (Some tx)"
proof -
  let ?x = "after_block E D closed (ej_height j) (ej_txs_hashes j) x'" and ?p = "(FromClient, tx, k)"
  define c1 where "c1 = c\<lparr>cn_puts := cn_puts c @ [?p]\<rparr>"
  define c2 where "c2 = c1\<lparr>cn_exec := ExCheck (ej_is_validator j) h (ej_height j + 1), cn_worker := exec_on ?x (cn_worker c1)\<rparr>"
  have 1: "fine_step E C D W is_val Handler c c1"
    using fine_step.Admit [of E C D W is_val c closed FromClient tx] assms(6) by (simp add: admit_step_def c1_def)
  have "exec_steps E D W closed is_val (cn_exec c1) (cn_worker c1) (ExCheck (ej_is_validator j) h (ej_height j + 1)) (exec_on ?x (cn_worker c1))"
    using block_merges [OF assms(3,5)] by (simp add: c1_def)
  from reach_exec [OF reach_step [OF fine_reach.Here 1] this] have 2: "fine_reach E C D W is_val (\<lambda>_ _. True) c c2"
    by (simp add: c2_def)
  have "?p \<in> set (cn_puts c2)" by (simp add: c2_def c1_def)
  from reach_step [OF 2 fine_step.Put [OF this, of E C D W is_val closed]]
  have 3: "fine_reach E C D W is_val (\<lambda>_ _. True) c (put_step E closed ?p c2)" .
  from assms(2) have inv_ok: "dinv (cn_db c)" "qs_inv (pl_unconfirmed (cn_pool c))" by (simp_all add: fine_inv_def fine_pool_def Let_def)
  have pool: "cn_pool c2 = finish_pool (ej_height j) (ej_txs_hashes j) (cn_pool c)"
    using exec_block_pool [OF assms(5)] by (simp add: c2_def c1_def frame_simps)
  then have none: "pl_txs (cn_pool c2) k = None" and q: "pl_unconfirmed (cn_pool c2) = pl_unconfirmed (cn_pool c)"
    using assms(4) by (simp_all add: finish_pool_def fold_remove)
  have "stored_in (snap (ex_db x')) k"
    using wm_contract.exec_block_stored [OF assms(1,5)] inv_ok(1) assms(4) by (simp add: frame_simps)
  then have "st_transactions (snap (cn_db (put_step E closed ?p c2))) k \<noteq> None"
    by (simp add: put_step_def on_disp_def frame_simps c2_def c1_def stored_in_def split: prod.splits)
  moreover have "pl_txs (cn_pool (put_step E closed ?p c2)) k = Some (Some tx)"
    "k \<in> set (qs_fifo (pl_unconfirmed (cn_pool (put_step E closed ?p c2))))"
    using none qs_push_member [OF inv_ok(2), of k] by (simp_all add: put_step_pool put_in_pool_def q)
  ultimately show ?thesis using 3 by blast
qed

text \<open>C14. The executor can be killed by a check that comes too early. While a block is executed its slot in the pool has no
  hashes, so \<open>can_run\<close> holds of it trivially. If the event loop gets that answer, and takes the \<open>executing\<close> flag only after the
  executor has finished the block and stopped because the next block, received from a peer, lacks a payload, then a
  second run starts on that next block and panics at the missing payload. The flag stays set, so no run is ever started
  again and the chain never grows, although the hashes of that block are gone from its slot and the payload may still
  arrive.
\<close>

theorem stale_check_kills_executor:
  assumes "wm_contract E D snap absf dinv W" and "fine_inv E snap absf dinv (cn_exec c) (cn_worker c)"
    and "slot_ok (cn_exec c) (cn_pool c)" and "cn_probe c = PrIdle" and "cn_exec c = ExStolen j"
    and "exec_block E D W closed is_val (ej_is_validator j) (ej_height j) (ej_txs_hashes j) (ej_prev_hash j)
      (block_values_of (ej_info j)) (worker_executor (cn_worker c)) = Some (x', Inr h)"
    and "map_of (pl_confirmed (cn_pool c)) (ej_height j + 1) = Some bi" and "bi_txs_hashes bi = Some (k # ks)"
    and "pl_txs (cn_pool c) k = Some None" and "ej_height j \<noteq> u64_max" and "ej_height j + 1 \<noteq> u64_max"
  shows "\<exists>c'. fine_reach E C D W is_val (\<lambda>_ _. True) c c' \<and> cn_db c' = ex_db x' \<and>
    map_option bi_txs_hashes (map_of (pl_confirmed (cn_pool c')) (ej_height j + 1)) = Some (Some []) \<and>
    (\<forall>c''. fine_reach E C D W is_val (\<lambda>_ _. True) c' c'' \<longrightarrow>
       cn_exec c'' = ExPanicked \<and> wk_executing (cn_worker c'') \<and> cn_db c'' = ex_db x')"
proof -
  let ?ht = "ej_height j" and ?R = "fine_reach E C D W is_val (\<lambda>_ _. True) c"
  let ?x = "after_block E D closed ?ht (ej_txs_hashes j) x'"
  from assms(2,5) have ok: "dinv (cn_db c)" "chain_ok E (st_blocks (snap (cn_db c)))"
    "(ej_prev_hash j, ?ht) = tip E (st_blocks (snap (cn_db c)))" "wk_executing (cn_worker c)"
    by (simp_all add: fine_inv_def Let_def phase_ok_def job_ok_def)
  have pool: "ex_pool ?x = finish_pool ?ht (ej_txs_hashes j) (cn_pool c)"
    using exec_block_pool [OF assms(6)] by (simp add: frame_simps)
  note nh = wm_contract.next_height_tip [OF assms(1)]
  define c1 where "c1 = c\<lparr>cn_probe := PrReady\<rparr>"
  define c2 where "c2 = c1\<lparr>cn_exec := ExCheck (ej_is_validator j) h (?ht + 1), cn_worker := exec_on ?x (cn_worker c1)\<rparr>"
  have snd: "snd (tip E (st_blocks (snap (cn_db c)))) = ?ht" using ok(3) by (metis snd_conv)
  from assms(3,5) obtain b where "map_of (pl_confirmed (cn_pool c)) ?ht = Some b" "bi_txs_hashes b = Some []" by auto
  then have "probe_step D (probe_step D c) = c1"
    using assms(4) probe_passes [OF _ _ assms(10), of "cn_pool c" b D "cn_db c"] by (simp add: probe_step_def c1_def nh snd)
  then have 1: "?R c1" using reach_step [OF reach_step [OF fine_reach.Here fine_step.ProbeExec] fine_step.ProbeExec] by metis
  have "exec_steps E D W closed is_val (cn_exec c1) (cn_worker c1) (ExCheck (ej_is_validator j) h (?ht + 1)) (exec_on ?x (cn_worker c1))"
    using block_merges [OF assms(5,6)] by (simp add: c1_def)
  from reach_exec [OF 1 this] have 2: "?R c2" by (simp add: c2_def)
  from wm_contract.fine_reach_inv [OF assms(1) 2 assms(2)] have "(h, ?ht + 1) = tip E (st_blocks (snap (cn_db c2)))"
    by (simp add: fine_inv_def Let_def c2_def phase_ok_def)
  then have nh2: "next_height D (cn_db c2) = ?ht + 1" by (metis nh snd_conv)
  have p2: "cn_pool c2 = finish_pool ?ht (ej_txs_hashes j) (cn_pool c)" "cn_db c2 = ex_db x'"
    using pool by (simp_all add: c2_def frame_simps)
  have slot: "map_of (pl_confirmed (cn_pool c2)) (?ht + 1) = Some bi" "\<nexists>tx. pl_txs (cn_pool c2) k = Some (Some tx)"
    using assms(7,9) by (simp_all add: p2 finish_pool_def fold_remove)
  have ph2: "cn_exec c2 = ExCheck (ej_is_validator j) h (?ht + 1)" "cn_probe c2 = PrReady" by (simp_all add: c2_def c1_def)
  from late_start [OF ph2 nh2 slot(1) assms(8) slot(2) assms(11), unfolded p2(2)] obtain c' where
    c': "fine_reach E C D W is_val (\<lambda>_ _. True) c2 c'" "cn_exec c' = ExPanicked" "wk_executing (cn_worker c')" "cn_db c' = ex_db x'"
    "cn_pool c' = steal_block (?ht + 1) bi (cn_pool c2)" by blast
  from fine_reach_trans [OF c'(1) 2] c' dead_reach [OF _ c'(2,3)] show ?thesis
    by (intro exI [of _ c']) (simp add: steal_block_def)
qed

theorem stale_admission_requeues_witness:
  "\<exists>c'. fine_reach demo_env demo_codec demo_D (demo_wm demo_D) (\<lambda>_ _. Inr True) (\<lambda>_ _. True)
      (demo_stolen [tx_get_primary_hash demo_env demo_signed_tx \<mapsto> Some demo_signed_tx] (tx_get_primary_hash demo_env demo_signed_tx) []) c' \<and>
    st_transactions (rd_snap (cn_db c')) (tx_get_primary_hash demo_env demo_signed_tx) \<noteq> None \<and>
    tx_get_primary_hash demo_env demo_signed_tx \<in> set (qs_fifo (pl_unconfirmed (cn_pool c')))"
proof -
  let ?k = "tx_get_primary_hash demo_env demo_signed_tx"
  let ?c = "demo_stolen [?k \<mapsto> Some demo_signed_tx] ?k []"
  have j: "cn_exec ?c = ExStolen (demo_job ?k)" by (simp add: demo_stolen_def)
  have "admit_transaction demo_env demo_D (cn_disp ?c) demo_signed_tx = admit_transaction demo_env demo_ops demo_dispatcher demo_signed_tx"
    by (simp add: admit_transaction_def demo_stolen_def cnode_start_def demo_D_def demo_ops_def Let_def)
  then have a: "admit_transaction demo_env demo_D (cn_disp ?c) demo_signed_tx = Inr ?k" by (simp add: demo_admit)
  obtain x' h where b: "exec_block demo_env demo_D (demo_wm demo_D) (\<lambda>_. False) (\<lambda>_ _. Inr True) True 0 [?k] hash_default
    (block_values_of (ej_info (demo_job ?k))) (worker_executor (cn_worker ?c)) = Some (x', Inr h)"
    using demo_stolen_exec [of "[?k \<mapsto> Some demo_signed_tx]" ?k demo_signed_tx] by fastforce
  have i: "fine_inv demo_env rd_snap (\<lambda>f. f) (rocks_inv mem_merkledb) (cn_exec ?c) (cn_worker ?c)"
    by (rule demo_stolen_inv) (simp_all add: confirmed_hashes_def bt_wf_def)
  from stale_admission_requeues [OF demo_contract i j _ _ a, of "\<lambda>_. False" "\<lambda>_ _. Inr True" x' h demo_codec] b
  show ?thesis by (auto simp: demo_job_def)
qed

theorem stale_check_kills_executor_witness:
  "\<exists>c'. fine_reach demo_env demo_codec demo_D (demo_wm demo_D) (\<lambda>_ _. Inr True) (\<lambda>_ _. True)
      (demo_stolen [hash_default \<mapsto> Some demo_tx, Hash [1] \<mapsto> None] hash_default [(1, new_block_info [Hash [1]] 0)]) c' \<and>
    (\<forall>c''. fine_reach demo_env demo_codec demo_D (demo_wm demo_D) (\<lambda>_ _. Inr True) (\<lambda>_ _. True) c' c'' \<longrightarrow>
       wk_executing (cn_worker c'') \<and> cn_db c'' = cn_db c')"
proof -
  let ?txs = "[hash_default \<mapsto> Some demo_tx, Hash [1] \<mapsto> None]" and ?l = "[(1, new_block_info [Hash [1]] 0)]"
  let ?c = "demo_stolen ?txs hash_default ?l"
  have d: "hash_default \<noteq> Hash [1]" by (simp add: hash_default_def MULTIHASH_BYTES_LEN_MAX_def)
  have j: "cn_exec ?c = ExStolen (demo_job hash_default)" and pr: "cn_probe ?c = PrIdle" by (simp_all add: demo_stolen_def cnode_start_def)
  have p: "cn_pool ?c = \<lparr>pl_txs = ?txs, pl_unconfirmed = qs_new, pl_confirmed = (0, demo_block_info\<lparr>bi_txs_hashes := Some []\<rparr>) # ?l\<rparr>"
    by (simp add: demo_stolen_def cnode_start_def)
  obtain x' h where b: "exec_block demo_env demo_D (demo_wm demo_D) (\<lambda>_. False) (\<lambda>_ _. Inr True) True 0 [hash_default] hash_default
    (block_values_of (ej_info (demo_job hash_default))) (worker_executor (cn_worker ?c)) = Some (x', Inr h)"
    using demo_stolen_exec [of ?txs hash_default demo_tx] d by fastforce
  have i: "fine_inv demo_env rd_snap (\<lambda>f. f) (rocks_inv mem_merkledb) (cn_exec ?c) (cn_worker ?c)"
    by (rule demo_stolen_inv) (simp_all add: d confirmed_hashes_def bt_wf_def new_block_info_def)
  have s: "slot_ok (cn_exec ?c) (cn_pool ?c)" by (simp add: j p demo_job_def)
  have n: "map_of (pl_confirmed (cn_pool ?c)) (ej_height (demo_job hash_default) + 1) = Some (new_block_info [Hash [1]] 0)"
    "bi_txs_hashes (new_block_info [Hash [1]] 0) = Some [Hash [1]]" "pl_txs (cn_pool ?c) (Hash [1]) = Some None"
    "ej_height (demo_job hash_default) \<noteq> u64_max" "ej_height (demo_job hash_default) + 1 \<noteq> u64_max"
    unfolding p by (simp_all add: demo_job_def new_block_info_def u64_max_def)
  have b': "exec_block demo_env demo_D (demo_wm demo_D) (\<lambda>_. False) (\<lambda>_ _. Inr True) (ej_is_validator (demo_job hash_default))
      (ej_height (demo_job hash_default)) (ej_txs_hashes (demo_job hash_default)) (ej_prev_hash (demo_job hash_default))
      (block_values_of (ej_info (demo_job hash_default))) (worker_executor (cn_worker ?c)) = Some (x', Inr h)"
    using b by (simp add: demo_job_def)
  from stale_check_kills_executor [OF demo_contract i s pr j b' n, of demo_codec] show ?thesis by metis
qed

end
