(* ===== verification/Flooding.thy ===== *)
theory Flooding
  imports Races
begin

text \<open>
  The builder reads the length of the queue once and then cuts blocks until it has taken that many transactions. The lock is
  free between two blocks, so a block received from a peer can take the transactions that were counted. Then the count never
  reaches zero.
\<close>

section \<open>The queue is emptied under the builder\<close>

lemma note_hash_queue:
  assumes "qs_inv (pl_unconfirmed p)"
  shows "qs_inv (pl_unconfirmed (note_hash h p)) \<and>
    set (qs_fifo (pl_unconfirmed (note_hash h p))) = set (qs_fifo (pl_unconfirmed p)) - {h}"
proof -
  obtain q b where q: "qs_remove (pl_unconfirmed p) h = (q, b)" by force
  have "distinct (qs_fifo (pl_unconfirmed p))" using assms by (simp add: qs_inv_def)
  with qs.remove_spec [OF assms q] qs.contains_spec [OF assms] assms show ?thesis by (auto simp: note_hash_def Let_def q)
qed

lemma note_hashes_queue:
  "qs_inv (pl_unconfirmed p) \<Longrightarrow> qs_inv (pl_unconfirmed (fold note_hash hs p)) \<and>
   set (qs_fifo (pl_unconfirmed (fold note_hash hs p))) = set (qs_fifo (pl_unconfirmed p)) - set hs"
proof (induction hs arbitrary: p)
  case (Cons h hs)
  from Cons.IH [of "note_hash h p"] note_hash_queue [OF Cons.prems, of h] show ?case by auto
qed simp

lemma queue_block_empties:
  assumes "qs_inv (pl_unconfirmed (cn_pool c))" and "set (qs_fifo (pl_unconfirmed (cn_pool c))) \<subseteq> set hs"
  shows "qs_inv (pl_unconfirmed (cn_pool (queue_block_step E (block, Some hs) c))) \<and>
    qs_fifo (pl_unconfirmed (cn_pool (queue_block_step E (block, Some hs) c))) = []"
proof -
  note q = note_hashes_queue [OF assms(1), of hs]
  with assms(2) have "set (qs_fifo (pl_unconfirmed (fold note_hash hs (cn_pool c)))) = {}" by (simp add: Diff_eq_empty_iff)
  with q show ?thesis by (simp add: queue_block_step_def frame_simps add_received_block_def Let_def)
qed

text \<open>With an empty queue and a positive count the builder adds an empty block, and its count stays.\<close>

definition starved :: "nat \<Rightarrow> ('d, 'w, 'f) cnode \<Rightarrow> bool" where
  "starved count c \<longleftrightarrow> (\<exists>height. cn_build c = BuWhile count height) \<and> qs_inv (pl_unconfirmed (cn_pool c)) \<and>
     qs_fifo (pl_unconfirmed (cn_pool c)) = []"

lemma build_block_empty:
  assumes "qs_inv (pl_unconfirmed p)" and "qs_fifo (pl_unconfirmed p) = []"
  obtains q t where "build_block threshold now (count, ht, p) =
    (count, ht + 1, p\<lparr>pl_unconfirmed := q, pl_confirmed := bt_insert ht (new_block_info [] t) (pl_confirmed p)\<rparr>)"
    "qs_inv q" "qs_fifo q = []"
proof -
  obtain hs q where pop: "pop_upto threshold (pl_unconfirmed p) = (hs, q)" by force
  from pop_upto_spec [OF assms(1) pop] assms(2) have "hs = []" "qs_inv q" "qs_fifo q = []" by simp_all
  with pop that show ?thesis by (simp add: build_block_def Let_def)
qed

lemma starved_builds:
  assumes "starved count c" and "count > 0" and "cn_build c = BuWhile count ht"
  obtains c' t where "fine_step E C D W is_val BuilderTask c c'" "starved count c'" "cn_build c' = BuWhile count (ht + 1)"
    "pl_confirmed (cn_pool c') = bt_insert ht (new_block_info [] t) (pl_confirmed (cn_pool c))"
proof -
  from assms(1) have q: "qs_inv (pl_unconfirmed (cn_pool c))" "qs_fifo (pl_unconfirmed (cn_pool c)) = []" by (simp_all add: starved_def)
  obtain q' t where b: "build_block (bu_threshold (wk_builder (cn_worker c))) (\<lambda>_. 0) (count, ht, cn_pool c) =
      (count, ht + 1, (cn_pool c)\<lparr>pl_unconfirmed := q', pl_confirmed := bt_insert ht (new_block_info [] t) (pl_confirmed (cn_pool c))\<rparr>)"
    and "qs_inv q'" "qs_fifo q' = []" by (rule build_block_empty [OF q])
  define w where "w = on_pool (\<lambda>_. (cn_pool c)\<lparr>pl_unconfirmed := q', pl_confirmed := bt_insert ht (new_block_info [] t) (pl_confirmed (cn_pool c))\<rparr>) (cn_worker c)"
  have "build_step D 0 (cn_build c) (cn_worker c) = Some (BuWhile count (ht + 1), w)"
    using assms(2,3) b by (simp add: build_step_def Let_def w_def)
  from fine_step.Build [OF this] show ?thesis
    by (rule that) (simp_all add: starved_def w_def frame_simps \<open>qs_inv q'\<close> \<open>qs_fifo q' = []\<close>)
qed

lemma starved_flood:
  assumes "starved count c" and "count > 0" and "cn_build c = BuWhile count ht"
  shows "\<exists>c'. fine_reach E C D W is_val (\<lambda>a _. a = BuilderTask) c c' \<and> starved count c' \<and> cn_build c' = BuWhile count (ht + of_nat n) \<and>
    (\<forall>i < n. map_option bi_txs_hashes (map_of (pl_confirmed (cn_pool c')) (ht + of_nat i)) = Some (Some []))"
proof (induction n)
  case 0
  with assms show ?case by (intro exI [of _ c]) (simp add: fine_reach.Here)
next
  case (Suc n)
  then obtain c' where c': "fine_reach E C D W is_val (\<lambda>a _. a = BuilderTask) c c'" "starved count c'"
    "cn_build c' = BuWhile count (ht + of_nat n)"
    "\<forall>i < n. map_option bi_txs_hashes (map_of (pl_confirmed (cn_pool c')) (ht + of_nat i)) = Some (Some [])" by blast
  from starved_builds [OF c'(2) assms(2) c'(3)] obtain c'' t where
    c'': "fine_step E C D W is_val BuilderTask c' c''" "starved count c''" "cn_build c'' = BuWhile count (ht + of_nat n + 1)"
    "pl_confirmed (cn_pool c'') = bt_insert (ht + of_nat n) (new_block_info [] t) (pl_confirmed (cn_pool c'))" by blast
  have "map_option bi_txs_hashes (map_of (pl_confirmed (cn_pool c'')) (ht + of_nat i)) = Some (Some [])" if "i < Suc n" for i
    using that c'(4) unfolding c''(4) by (cases "i = n") (auto simp: new_block_info_def)
  moreover from fine_reach.Then [OF c'(1) c''(1)] have "fine_reach E C D W is_val (\<lambda>a _. a = BuilderTask) c c''" by simp
  moreover have "ht + of_nat n + 1 = ht + of_nat (Suc n)" by simp
  ultimately show ?case using c''(2,3) by metis
qed

text \<open>Neither the executor nor the builder itself ends that.\<close>

lemma exec_step_queue:
  assumes "exec_step E D W closed is_val ph w = Some (ph', w')"
  shows "pl_unconfirmed (dp_pool (wk_dispatcher w')) = pl_unconfirmed (dp_pool (wk_dispatcher w))"
proof (cases ph)
  case (ExTxs j i f rxs)
  then show ?thesis
  proof (cases "ph' = ExPanicked")
    case True
    with assms ExTxs show ?thesis by (auto simp: exec_step_def Let_def split: option.splits prod.splits if_splits sum.splits)
  next
    case False
    with exec_txs_step_cases [OF assms [unfolded ExTxs]] show ?thesis by simp
  qed
qed (use assms in \<open>auto simp: exec_step_def Let_def exec_over_def frame_simps steal_block_def restore_pool_def finish_pool_def
    split: option.splits if_splits\<close>)

lemma starved_step:
  assumes "fine_step E C D W is_val a c c'" and "a = BuilderTask \<or> a = ExecutorTask" and "starved count c" and "count > 0"
  shows "starved count c'"
  using assms(1)
proof (cases rule: fine_step.cases)
  case (Build now ph w)
  from assms(3) obtain ht where ht: "cn_build c = BuWhile count ht" and q: "qs_inv (pl_unconfirmed (cn_pool c))" "qs_fifo (pl_unconfirmed (cn_pool c)) = []"
    by (auto simp: starved_def)
  obtain q' t where "build_block (bu_threshold (wk_builder (cn_worker c))) (\<lambda>_. now) (count, ht, cn_pool c) =
      (count, ht + 1, (cn_pool c)\<lparr>pl_unconfirmed := q', pl_confirmed := bt_insert ht (new_block_info [] t) (pl_confirmed (cn_pool c))\<rparr>)"
    and "qs_inv q'" "qs_fifo q' = []" by (rule build_block_empty [OF q])
  with Build ht assms(4) show ?thesis by (auto simp: build_step_def Let_def starved_def frame_simps)
next
  case (Exec closed ph w)
  with exec_step_queue [OF Exec(3)] assms(3) show ?thesis by (simp add: starved_def)
qed (use assms(2) in simp_all)

lemma starved_reach:
  assumes "fine_reach E C D W is_val (\<lambda>a _. a = BuilderTask \<or> a = ExecutorTask) c c'" and "starved count c" and "count > 0"
  shows "starved count c'"
  using assms
proof (induction rule: fine_reach.induct)
  case (Then c c' a c'')
  with starved_step [OF Then.hyps(2,3)] show ?case by simp
qed

section \<open>The property\<close>

text \<open>C15. A builder that counted too early never ends. If a block that a peer sent is queued while the builder works, and it names
  every transaction the builder still counts on, the builder keeps adding blocks without transactions: as many of
  them as one likes, one after the other, and however the builder and the executor go on, the
  builder stays in its inner loop with the same count. The atomic run of the builder ends whenever the threshold is
  positive.
\<close>

theorem stale_count_floods_pool:
  assumes "qs_inv (pl_unconfirmed (cn_pool c))" and "cn_build c = BuWhile count ht" and "count > 0"
    and "(block, Some hs) \<in> set (cn_blocks c)" and "set (qs_fifo (pl_unconfirmed (cn_pool c))) \<subseteq> set hs"
  shows "\<exists>c1. fine_step E C D W is_val PeerBlock c c1 \<and>
    (\<forall>n. \<exists>c2. fine_reach E C D W is_val (\<lambda>a _. a = BuilderTask) c1 c2 \<and>
       (\<forall>i < n. map_option bi_txs_hashes (map_of (pl_confirmed (cn_pool c2)) (ht + of_nat i)) = Some (Some []))) \<and>
    (\<forall>c2. fine_reach E C D W is_val (\<lambda>a _. a = BuilderTask \<or> a = ExecutorTask) c1 c2 \<longrightarrow>
       (\<exists>ht'. cn_build c2 = BuWhile count ht'))"
proof -
  let ?c1 = "queue_block_step E (block, Some hs) c"
  have b: "cn_build ?c1 = BuWhile count ht" using assms(2) by (simp add: queue_block_step_def)
  with queue_block_empties [OF assms(1,5), of E block] have s: "starved count ?c1" by (simp add: starved_def)
  have "\<exists>ht'. cn_build c2 = BuWhile count ht'" if "fine_reach E C D W is_val (\<lambda>a _. a = BuilderTask \<or> a = ExecutorTask) ?c1 c2" for c2
    using starved_reach [OF that s assms(3)] by (simp add: starved_def)
  moreover have "\<exists>c2. fine_reach E C D W is_val (\<lambda>a _. a = BuilderTask) ?c1 c2 \<and>
       (\<forall>i < n. map_option bi_txs_hashes (map_of (pl_confirmed (cn_pool c2)) (ht + of_nat i)) = Some (Some []))" for n
    using starved_flood [OF s assms(3) b, of E C D W is_val n] by blast
  ultimately show ?thesis using fine_step.QueueBlock [OF assms(4), of E C D W is_val] by blast
qed

text \<open>A submission to a new worker, the builder started and counting it, and a block of height 1 with the same transaction
  received meanwhile.\<close>

definition demo_counted :: "(store rocks_db, bytes wm_local, fork_abs) cnode" where
  "demo_counted =
     demo_submitted\<lparr>cn_build_probe := False, cn_build := BuWhile 1 0, cn_worker := (cn_worker demo_submitted)\<lparr>wk_building := True\<rparr>,
       cn_blocks := [(demo_block\<lparr>blk_data := (blk_data demo_block)\<lparr>bd_height := 1\<rparr>\<rparr>, Some [tx_get_primary_hash demo_env demo_signed_tx])]\<rparr>"

lemma demo_submitted_frame:
  "cn_build_probe demo_submitted = False" "wk_building (cn_worker demo_submitted) = False" "cn_blocks demo_submitted = []"
  "dp_aligned (cn_disp demo_submitted)" "missing_start demo_ops (cn_db demo_submitted) = 0"
proof -
  have d: "wk_dispatcher demo_worker = demo_dispatcher"
    by (simp add: demo_worker_def worker_new_def demo_dispatcher_def demo_config_def)
  show "cn_build_probe demo_submitted = False" "wk_building (cn_worker demo_submitted) = False" "cn_blocks demo_submitted = []"
    by (simp_all add: demo_submitted_def on_disp_def cnode_start_def demo_worker_def worker_new_def)
  show "dp_aligned (cn_disp demo_submitted)"
    by (simp add: demo_submitted_def on_disp_def put_atomic_split put_internal_split d demo_admit put_in_pool_def put_done_def broadcast_attempt_def
        split: option.splits prod.splits) (simp add: demo_dispatcher_def pool_default_def)
  show "missing_start demo_ops (cn_db demo_submitted) = 0"
    by (simp add: demo_submitted_def on_disp_def put_atomic_split put_internal_split d demo_admit frame_simps split: prod.splits)
       (simp add: demo_dispatcher_def missing_start_def demo_ops_def rocks_load_block_def st_load_block_def rocks_new_def mem_merkledb_def store_empty_def)
qed

lemma demo_counted_reach:
  "fine_reach demo_env demo_codec demo_ops demo_machine (\<lambda>_ _. Inr True) (\<lambda>_ _. True) (cnode_start demo_worker) demo_counted"
proof -
  let ?R = "fine_reach demo_env demo_codec demo_ops demo_machine (\<lambda>_ _. Inr True) (\<lambda>_ _. True) (cnode_start demo_worker)"
  let ?h = "tx_get_primary_hash demo_env demo_signed_tx" and ?w = "(cn_worker demo_submitted)\<lparr>wk_building := True\<rparr>"
  let ?b = "demo_block\<lparr>blk_data := (blk_data demo_block)\<lparr>bd_height := 1\<rparr>\<rparr>"
  have updates: "c\<lparr>cn_worker := w, cn_build := b\<rparr> = c\<lparr>cn_build := b, cn_worker := w\<rparr>"
    for c :: "(store rocks_db, bytes wm_local, fork_abs) cnode" and w b by (cases c) simp
  define c1 where "c1 = demo_submitted\<lparr>cn_build_probe := True\<rparr>"
  define c3 where "c3 = demo_submitted\<lparr>cn_build_probe := False, cn_build := BuWhile 1 0, cn_worker := ?w\<rparr>"
  define c2 where "c2 = demo_submitted\<lparr>cn_build_probe := False, cn_build := BuStart, cn_worker := ?w\<rparr>"
  have p: "cn_build_probe demo_submitted = False" "wk_building (cn_worker demo_submitted) = False" "cn_blocks demo_submitted = []"
    "dp_aligned (cn_disp demo_submitted)" "missing_start demo_ops (cn_db demo_submitted) = 0"
    using demo_submitted_frame by simp_all
  have pool: "qs_len (pl_unconfirmed (cn_pool demo_submitted)) = 1" "pl_confirmed (cn_pool demo_submitted) = []"
    by (simp_all add: demo_submitted_pool qs_push_def qs_new_def qs_len_def)
  have "?R demo_submitted" by (rule demo_submitted_reach) simp
  from reach_step [OF this fine_step.ProbeBuild [of _ _ _ _ _ _ False 1]] p pool have "?R c1"
    by (simp add: build_probe_step_def builder_can_run_def c1_def)
  from reach_step [OF this fine_step.ProbeBuild [of _ _ _ _ _ _ False 1]] p have "?R c2"
    by (simp add: build_probe_step_def c1_def c2_def updates)
  have "build_steps demo_ops BuStart ?w (BuWhile 1 0) ?w"
    using p pool
    by (intro build_steps.MoreBuild [of demo_ops 0 BuStart ?w "BuCount 0" ?w] build_steps.MoreBuild [of demo_ops 0 "BuCount 0" ?w "BuWhile 1 0" ?w]
        build_steps.NoBuild) (simp_all add: build_step_def Let_def builder_height_def bt_last_def missing_start_def)
  from build_steps_reach [OF this, of "\<lambda>_ _. True" demo_env demo_codec demo_machine "\<lambda>_ _. Inr True" c2]
  have "fine_reach demo_env demo_codec demo_ops demo_machine (\<lambda>_ _. Inr True) (\<lambda>_ _. True) c2 c3" by (simp add: c2_def c3_def)
  from fine_reach_trans [OF this \<open>?R c2\<close>] have "?R c3" .
  from reach_step [OF this fine_step.Receive [of _ _ _ _ _ _ ?b "Some [?h]" None]] p show ?thesis
    by (simp add: receive_step_def block_is_next_def c3_def demo_counted_def demo_block_def)
qed

theorem stale_count_floods_pool_witness:
  "\<exists>c1. fine_reach demo_env demo_codec demo_ops demo_machine (\<lambda>_ _. Inr True) (\<lambda>_ _. True) (cnode_start demo_worker) c1 \<and>
    (\<forall>c2. fine_reach demo_env demo_codec demo_ops demo_machine (\<lambda>_ _. Inr True) (\<lambda>a _. a = BuilderTask \<or> a = ExecutorTask) c1 c2 \<longrightarrow>
       (\<exists>ht. cn_build c2 = BuWhile 1 ht))"
proof -
  let ?h = "tx_get_primary_hash demo_env demo_signed_tx"
  have pool: "cn_pool demo_counted = cn_pool demo_submitted" "cn_build demo_counted = BuWhile 1 0"
    by (simp_all add: demo_counted_def)
  have q: "qs_inv (pl_unconfirmed (cn_pool demo_counted))" "set (qs_fifo (pl_unconfirmed (cn_pool demo_counted))) \<subseteq> set [?h]"
    unfolding pool demo_submitted_pool by (simp_all add: qs_push_def qs_new_def qs_inv_def)
  have b: "(demo_block\<lparr>blk_data := (blk_data demo_block)\<lparr>bd_height := 1\<rparr>\<rparr>, Some [?h]) \<in> set (cn_blocks demo_counted)"
    by (simp add: demo_counted_def)
  have "(0::nat) < 1" by simp
  from stale_count_floods_pool [OF q(1) pool(2) this b q(2), of demo_env demo_codec demo_ops demo_machine "\<lambda>_ _. Inr True"]
  obtain c1 where 1: "fine_step demo_env demo_codec demo_ops demo_machine (\<lambda>_ _. Inr True) PeerBlock demo_counted c1"
    "\<forall>c2. fine_reach demo_env demo_codec demo_ops demo_machine (\<lambda>_ _. Inr True) (\<lambda>a _. a = BuilderTask \<or> a = ExecutorTask) c1 c2 \<longrightarrow>
       (\<exists>ht. cn_build c2 = BuWhile 1 ht)" by (elim exE conjE)
  from reach_step [OF demo_counted_reach 1(1)] 1(2) show ?thesis by (intro exI conjI)
qed

end
