(* ===== verification/Payloads.thy ===== *)
theory Payloads
  imports Races "HOL-Library.Multiset"
begin

text \<open>
  Where the payloads of the pool belong. Without blocks of peers, every payload in the pool belongs to exactly one place: the
  queue, one block of the pool, or the block under execution; and every hash in one of these places has its payload. This
  holds in every interleaving of the tasks, so a transaction is never in two blocks at once, the pool keeps no payload that
  nobody will ask for, and the executor always finds the payloads of its block.
\<close>

section \<open>The places\<close>

definition block_txs :: "block_info \<Rightarrow> hash multiset" where
  "block_txs bi = (case bi_txs_hashes bi of Some hs \<Rightarrow> mset hs | None \<Rightarrow> {#})"

definition in_blocks :: "(u64 \<times> block_info) list \<Rightarrow> hash multiset" where
  "in_blocks m = (\<Sum>e\<leftarrow>m. block_txs (snd e))"

text \<open>The block under execution, until the pool has been cleaned.\<close>

definition in_exec :: "'f exec_phase \<Rightarrow> hash multiset" where
  "in_exec ph =
     (case ph of
        ExStolen j \<Rightarrow> mset (ej_txs_hashes j)
      | ExTxs j _ _ _ \<Rightarrow> mset (ej_txs_hashes j)
      | ExFailed j _ \<Rightarrow> mset (ej_txs_hashes j)
      | ExMerged j _ \<Rightarrow> mset (ej_txs_hashes j)
      | _ \<Rightarrow> {#})"

definition pending :: "'f exec_phase \<Rightarrow> pool \<Rightarrow> hash multiset" where
  "pending ph p = mset (qs_fifo (pl_unconfirmed p)) + in_blocks (pl_confirmed p) + in_exec ph"

definition payload_of :: "hash multiset \<Rightarrow> (hash \<Rightarrow> transaction option option) \<Rightarrow> hash \<Rightarrow> bool" where
  "payload_of places txs h \<longleftrightarrow>
     (case txs h of None \<Rightarrow> count places h = 0 | Some v \<Rightarrow> v \<noteq> None \<and> count places h = 1)"

definition payloads_inv :: "('d, 'w, 'f) cnode \<Rightarrow> bool" where
  "payloads_inv c \<longleftrightarrow> (\<forall>h. payload_of (pending (cn_exec c) (cn_pool c)) (pl_txs (cn_pool c)) h)"

lemma in_exec_simps [simp]:
  "in_exec ExIdle = {#}" "in_exec (ExStart iv) = {#}" "in_exec (ExSteal iv prev ht) = {#}" "in_exec (ExCheck iv prev ht) = {#}"
  "in_exec (ExStolen j) = mset (ej_txs_hashes j)" "in_exec (ExTxs j i f rxs) = mset (ej_txs_hashes j)"
  "in_exec (ExFailed j e) = mset (ej_txs_hashes j)" "in_exec (ExMerged j h) = mset (ej_txs_hashes j)"
  by (simp_all add: in_exec_def)

section \<open>The blocks of the pool\<close>

definition slot_txs :: "u64 \<Rightarrow> (u64 \<times> block_info) list \<Rightarrow> hash multiset" where
  "slot_txs k m = (case map_of m k of Some bi \<Rightarrow> block_txs bi | None \<Rightarrow> {#})"

lemma in_blocks_insert:
  "bt_wf m \<Longrightarrow> in_blocks (bt_insert k bi m) + slot_txs k m = in_blocks m + block_txs bi"
proof (induction m)
  case (Cons e m)
  have "map_of m k = None" if "k < fst e" using that Cons.prems by (auto simp: bt_wf_Cons map_of_eq_None_iff)
  with Cons show ?case by (cases e) (auto simp: in_blocks_def slot_txs_def bt_wf_Cons ac_simps not_less_iff_gr_or_eq)
qed (simp add: in_blocks_def slot_txs_def)

lemma in_blocks_remove: "bt_wf m \<Longrightarrow> in_blocks (bt_remove k m) + slot_txs k m = in_blocks m"
proof (induction m)
  case (Cons e m)
  have "bt_remove k m = m" if "k = fst e"
    using that Cons.prems unfolding bt_remove_def by (intro filter_True) (auto simp: bt_wf_Cons)
  with Cons show ?case by (cases e) (auto simp: in_blocks_def slot_txs_def bt_wf_Cons bt_remove_def ac_simps)
qed (simp add: in_blocks_def slot_txs_def bt_remove_def)

section \<open>The operations on the pool\<close>

lemma pending_put:
  assumes "\<forall>h. payload_of (pending ph p) (pl_txs p) h" and "qs_inv (pl_unconfirmed p)"
  shows "payload_of (pending ph (fst (put_in_pool k tx p))) (pl_txs (fst (put_in_pool k tx p))) h"
proof (cases "pl_txs p k")
  case None
  obtain q b where q: "qs_push (pl_unconfirmed p) k = (q, b)" by force
  from assms(1) None have "count (pending ph p) k = 0" by (auto simp: payload_of_def dest: spec [of _ k])
  then have "k \<notin> set (qs_fifo (pl_unconfirmed p))" by (simp add: pending_def count_eq_zero_iff)
  with qs.push_spec [OF assms(2) q] have "pending ph (fst (put_in_pool k tx p)) = add_mset k (pending ph p)"
    by (simp add: pending_def put_in_pool_def None q)
  with \<open>count (pending ph p) k = 0\<close> spec [OF assms(1), of h] None show ?thesis
    by (auto simp: payload_of_def put_in_pool_def split: option.splits)
next
  case (Some v)
  with assms(1) have "v \<noteq> None" by (auto simp: payload_of_def dest: spec [of _ k])
  with Some assms(1) show ?thesis by (auto simp: put_in_pool_def)
qed

lemma pending_build:
  assumes "build_block threshold now (n, ht, p) = (n', ht', p')" and "qs_inv (pl_unconfirmed p)"
    and "bt_wf (pl_confirmed p)" and "\<forall>k \<in> heights p. k < ht"
  shows "pending ph p' = pending ph p \<and> pl_txs p' = pl_txs p"
proof -
  obtain hs q where pop: "pop_upto threshold (pl_unconfirmed p) = (hs, q)" by force
  from pop_upto_spec [OF assms(2) pop] have "qs_fifo (pl_unconfirmed p) = hs @ qs_fifo q" by simp
  moreover from assms(4) map_of_heights have "map_of (pl_confirmed p) ht = None" by (metis less_irrefl not_None_eq)
  then have "slot_txs ht (pl_confirmed p) = {#}" by (simp add: slot_txs_def)
  ultimately show ?thesis
    using assms(1) in_blocks_insert [OF assms(3), of ht "new_block_info hs (if ht = 0 then 0 else now ht)"]
    by (auto simp: build_block_def pop Let_def pending_def block_txs_def new_block_info_def)
qed

lemma pending_steal:
  assumes "map_of (pl_confirmed p) (ej_height j) = Some bi" and "bi_txs_hashes bi = Some (ej_txs_hashes j)" and "bt_wf (pl_confirmed p)"
  shows "pending (ExStolen j :: 'f exec_phase) (steal_block (ej_height j) bi p) = pending (ExSteal iv prev ht :: 'f exec_phase) p"
  using in_blocks_insert [OF assms(3), of "ej_height j" "bi\<lparr>bi_signature := None, bi_validator := None, bi_txs_hashes := Some [], bi_timestamp := 0\<rparr>"]
    assms(1,2)
  by (simp add: pending_def steal_block_def slot_txs_def block_txs_def)

lemma pending_restore:
  assumes "slot_ok (ExFailed j e) p" and "bi_txs_hashes (ej_info j) = Some (ej_txs_hashes j)" and "bt_wf (pl_confirmed p)"
  shows "pending (ExIdle :: 'f exec_phase) (restore_pool (ej_height j) (ej_info j) p) = pending (ExFailed j e :: 'f exec_phase) p"
  using in_blocks_insert [OF assms(3), of "ej_height j" "ej_info j"] assms(1,2)
  by (auto simp: pending_def restore_pool_def slot_txs_def block_txs_def)

lemma pending_finish:
  assumes "slot_ok (ExMerged j h) p" and "bt_wf (pl_confirmed p)"
  shows "pending (ExCheck iv h' ht :: 'f exec_phase) (finish_pool (ej_height j) (ej_txs_hashes j) p) + mset (ej_txs_hashes j) =
    pending (ExMerged j h :: 'f exec_phase) p"
  using in_blocks_remove [OF assms(2), of "ej_height j"] assms(1)
  by (auto simp: pending_def finish_pool_def slot_txs_def block_txs_def)

lemma payload_finish:
  assumes "\<forall>h. payload_of (P + mset hs) txs h"
  shows "payload_of P (\<lambda>h. if h \<in> set hs then None else txs h) h"
proof (cases "h \<in> set hs")
  case True
  then have "count (mset hs) h \<ge> 1" by (simp add: Suc_leI count_mset_gt_0)
  moreover have "count (P + mset hs) h \<le> 1" using True spec [OF assms, of h] by (auto simp: payload_of_def split: option.splits)
  ultimately have "count P h = 0" unfolding count_union by linarith
  with True show ?thesis by (simp add: payload_of_def)
next
  case False
  then have "count (mset hs) h = 0" by simp
  with False spec [OF assms, of h] show ?thesis by (cases "txs h") (simp_all add: payload_of_def)
qed

section \<open>The tasks\<close>

text \<open>A step that changes none of the places.\<close>

lemma payloads_frame:
  assumes "payloads_inv c" and "pending (cn_exec c') (cn_pool c') = pending (cn_exec c) (cn_pool c)"
    and "pl_txs (cn_pool c') = pl_txs (cn_pool c)"
  shows "payloads_inv c'"
  using assms by (simp add: payloads_inv_def)

lemma exec_step_payloads:
  assumes "exec_step E D W closed is_val ph w = Some (ph', w')" and "slot_ok ph (dp_pool (wk_dispatcher w))"
    and "ph' \<noteq> ExPanicked" and "bt_wf (pl_confirmed (dp_pool (wk_dispatcher w)))"
    and "\<And>j e. ph = ExFailed j e \<Longrightarrow> bi_txs_hashes (ej_info j) = Some (ej_txs_hashes j)"
    and "\<forall>h. payload_of (pending ph (dp_pool (wk_dispatcher w))) (pl_txs (dp_pool (wk_dispatcher w))) h"
  shows "payload_of (pending ph' (dp_pool (wk_dispatcher w'))) (pl_txs (dp_pool (wk_dispatcher w'))) h"
proof (cases ph)
  case (ExSteal iv prev ht)
  show ?thesis
  proof (cases "ph' = ExIdle")
    case True
    with ExSteal assms(1,6) show ?thesis
      by (auto simp: exec_step_def Let_def exec_over_def pending_def split: option.splits)
  next
    case False
    with ExSteal assms(1) obtain bi hs where b: "map_of (pl_confirmed (dp_pool (wk_dispatcher w))) ht = Some bi" "bi_txs_hashes bi = Some hs"
      by (auto simp: exec_step_def Let_def exec_over_def split: option.splits)
    define j where "j = \<lparr>ej_is_validator = iv, ej_prev_hash = prev, ej_height = ht, ej_info = bi, ej_txs_hashes = hs\<rparr>"
    with b have j: "map_of (pl_confirmed (dp_pool (wk_dispatcher w))) (ej_height j) = Some bi" "bi_txs_hashes bi = Some (ej_txs_hashes j)"
      "ph' = ExStolen j" "w' = on_pool (steal_block (ej_height j) bi) w" using ExSteal assms(1) by (simp_all add: exec_step_def Let_def)
    from assms(6) ExSteal show ?thesis
      by (simp add: j(3,4) frame_simps steal_txs pending_steal [OF j(1,2) assms(4), of iv prev ht])
  qed
next
  case (ExTxs j i f rxs)
  with exec_txs_step_cases [OF assms(1) [unfolded ExTxs] assms(3)] assms(6) show ?thesis by (auto simp: pending_def)
next
  case (ExMerged j h')
  with assms(1) have w': "dp_pool (wk_dispatcher w') = finish_pool (ej_height j) (ej_txs_hashes j) (dp_pool (wk_dispatcher w))"
    "ph' = ExCheck (ej_is_validator j) h' (ej_height j + 1)" by (auto simp: exec_step_def Let_def frame_simps)
  have "pl_txs (dp_pool (wk_dispatcher w')) = (\<lambda>k. if k \<in> set (ej_txs_hashes j) then None else pl_txs (dp_pool (wk_dispatcher w)) k)"
    unfolding w' by (simp add: finish_pool_def fold_remove)
  moreover from assms(6) have "\<forall>k. payload_of (pending ph' (dp_pool (wk_dispatcher w')) + mset (ej_txs_hashes j)) (pl_txs (dp_pool (wk_dispatcher w))) k"
    unfolding w' using ExMerged by (simp add: pending_finish [OF assms(2) [unfolded ExMerged] assms(4)])
  ultimately show ?thesis using payload_finish by simp
next
  case (ExFailed j e)
  with assms(1,3) have w': "dp_pool (wk_dispatcher w') = restore_pool (ej_height j) (ej_info j) (dp_pool (wk_dispatcher w))" "ph' = ExIdle"
    by (auto simp: exec_step_def Let_def exec_over_def frame_simps split: option.splits)
  moreover have "pl_txs (restore_pool (ej_height j) (ej_info j) p) = pl_txs p" for p by (simp add: restore_pool_def)
  ultimately show ?thesis
    using assms(6) ExFailed by (simp add: pending_restore [OF assms(2) [unfolded ExFailed] assms(5) [OF ExFailed] assms(4)])
qed (use assms in \<open>auto simp: exec_step_def Let_def exec_over_def pending_def split: option.splits if_splits\<close>)

lemma build_step_payloads:
  assumes "build_step D now ph w = Some (ph', w')" and "height_ok ph (dp_pool (wk_dispatcher w))"
    and "qs_inv (pl_unconfirmed (dp_pool (wk_dispatcher w)))" and "bt_wf (pl_confirmed (dp_pool (wk_dispatcher w)))"
  shows "pending eph (dp_pool (wk_dispatcher w')) = pending eph (dp_pool (wk_dispatcher w)) \<and>
    pl_txs (dp_pool (wk_dispatcher w')) = pl_txs (dp_pool (wk_dispatcher w))"
proof (cases ph)
  case (BuWhile n ht)
  let ?p = "dp_pool (wk_dispatcher w)"
  from assms(2) BuWhile have free: "\<forall>k \<in> heights ?p. k < ht" by (simp add: height_ok_def)
  obtain n' ht' p' where b: "build_block (bu_threshold (wk_builder w)) (\<lambda>_. now) (n, ht, ?p) = (n', ht', p')"
    by (cases "build_block (bu_threshold (wk_builder w)) (\<lambda>_. now) (n, ht, ?p)") auto
  from pending_build [OF b assms(3,4) free, of eph] assms(1) BuWhile show ?thesis
    by (auto simp: build_step_def Let_def b frame_simps split: if_splits)
qed (use assms in \<open>auto simp: build_step_def Let_def\<close>)

context wm_contract
begin

lemma fine_step_payloads:
  assumes "fine_step E C D W is_val a c c'" and "undisturbed a c'" and "slots_inv c"
    and "fine_inv E snap absf inv (cn_exec c) (cn_worker c)" and "payloads_inv c"
  shows "payloads_inv c'"
proof -
  from assms(4) have wf: "qs_inv (pl_unconfirmed (cn_pool c))" "bt_wf (pl_confirmed (cn_pool c))"
    by (simp_all add: fine_inv_def fine_pool_def Let_def)
  from assms(1) show ?thesis
  proof (cases rule: fine_step.cases)
    case ProbeExec
    with assms(4,5) show ?thesis
      by (cases "cn_exec c = ExIdle") (auto simp: probe_step_def payloads_inv_def pending_def fine_inv_def Let_def split: probe.splits)
  next
    case (ProbeBuild locked threshold)
    then show ?thesis by (intro payloads_frame [OF assms(5)]) (simp_all add: build_probe_step_def)
  next
    case (Admit closed src tx)
    then show ?thesis
      by (intro payloads_frame [OF assms(5)]) (simp_all add: admit_step_def on_disp_def frame_simps split: sum.splits)
  next
    case (Put p closed)
    moreover have "cn_exec (put_step E closed p c) = cn_exec c" by (simp add: put_step_def on_disp_def split: prod.splits)
    ultimately show ?thesis
      using pending_put [of "cn_exec c" "cn_pool c"] assms(5) wf(1) by (simp add: payloads_inv_def put_step_pool)
  next
    case (Request req closed chan s)
    with simple_request_frame [OF Request(3,4)] show ?thesis
      by (intro payloads_frame [OF assms(5)]) (simp_all add: on_disp_def)
  next
    case (Build now ph w)
    from assms(3) have "height_ok (cn_build c) (cn_pool c)" by (simp add: slots_inv_def)
    with build_step_payloads [OF Build(3) _ wf, of "cn_exec c"] Build show ?thesis by (intro payloads_frame [OF assms(5)]) simp_all
  next
    case (Exec closed ph w)
    from assms(4) have "bi_txs_hashes (ej_info j) = Some (ej_txs_hashes j)" if "cn_exec c = ExFailed j e" for j e
      using that by (simp add: fine_inv_def phase_ok_def Let_def)
    with exec_step_payloads [OF Exec(3) _ _ wf(2)] assms(2,3,5) Exec show ?thesis
      by (simp add: payloads_inv_def slots_inv_def undisturbed_def)
  qed (use assms(2) in \<open>simp_all add: undisturbed_def\<close>)
qed

lemma fine_reach_payloads:
  assumes "fine_reach E C D W is_val undisturbed c c'" and "slots_inv c"
    and "fine_inv E snap absf inv (cn_exec c) (cn_worker c)" and "payloads_inv c"
  shows "payloads_inv c'"
  using assms
proof (induction rule: fine_reach.induct)
  case (Then c c' a c'')
  from Then.IH Then.prems fine_step_payloads [OF Then.hyps(2,3)] fine_reach_inv [OF Then.hyps(1)] fine_reach_tracks [OF Then.hyps(1)]
  show ?case by blast
qed

end

section \<open>The property\<close>

text \<open>C9. Every pending transaction is in one place, with its payload. In every interleaving of the event loop, the handlers, the
  builder and the executor that starts from a new worker, without blocks of peers and as long as the executor does not
  panic and the heights do not run out: a transaction the pool knows has its payload and is, counted with multiplicity, exactly
  once in the queue, the blocks of the pool and the block under execution together; one it does not know is in none of
  them. So no transaction is in two blocks, no payload is left behind, and the executor finds the payload of each
  transaction of its block, where a missing one would be a panic.
\<close>

theorem pending_once_with_payload:
  assumes "merkledb_api M absf"
    and "chain_ok E (st_blocks (md_snapshot M backend))"
    and "fine_reach E C (rocks_ops E M) (wm_local_ops E H T (rocks_ops E M) n) is_val undisturbed
      (cnode_start (worker_new config (rocks_new M backend) wm seed p2p_id)) c"
  shows "(case pl_txs (cn_pool c) h of
       None \<Rightarrow> count (pending (cn_exec c) (cn_pool c)) h = 0
     | Some v \<Rightarrow> v \<noteq> None \<and> count (pending (cn_exec c) (cn_pool c)) h = 1) \<and>
   (\<forall>j i f rxs. cn_exec c = ExTxs j i f rxs \<and> i < length (ej_txs_hashes j) \<longrightarrow>
     (\<exists>tx. pl_txs (cn_pool c) (ej_txs_hashes j ! i) = Some (Some tx)))"
proof -
  let ?w = "worker_new config (rocks_new M backend) wm seed p2p_id"
  have W: "wm_contract E (rocks_ops E M) rd_snap absf (rocks_inv M) (wm_local_ops E H T (rocks_ops E M) n)"
    by (rule db_contract.wm_local_contract [OF merkledb_api.rocks_contract [OF assms(1)]])
  have 0: "fine_inv E rd_snap absf (rocks_inv M) (cn_exec (cnode_start ?w)) (cn_worker (cnode_start ?w))" "slots_inv (cnode_start ?w)"
    using assms(2) pool_inv_fine [OF pool_inv_default]
    by (simp_all add: fine_inv_def cnode_start_def worker_new_def Let_def rocks_inv_def rocks_new_def slots_inv_def
        height_ok_def heights_def pool_default_def)
  have "payloads_inv (cnode_start ?w)"
    by (simp add: payloads_inv_def payload_of_def cnode_start_def worker_new_def Let_def pool_default_def pending_def in_blocks_def qs_new_def)
  from wm_contract.fine_reach_payloads [OF W assms(3) 0(2,1) this]
  have inv: "payload_of (pending (cn_exec c) (cn_pool c)) (pl_txs (cn_pool c)) k" for k by (simp add: payloads_inv_def)
  have "\<exists>tx. pl_txs (cn_pool c) (ej_txs_hashes j ! i) = Some (Some tx)"
    if "cn_exec c = ExTxs j i f rxs" "i < length (ej_txs_hashes j)" for j i f rxs
  proof -
    from that have "count (pending (cn_exec c) (cn_pool c)) (ej_txs_hashes j ! i) \<noteq> 0" by (simp add: pending_def)
    with inv [of "ej_txs_hashes j ! i"] show ?thesis by (auto simp: payload_of_def count_eq_zero_iff split: option.splits)
  qed
  with inv [of h] show ?thesis by (auto simp: payload_of_def)
qed

theorem pending_once_with_payload_witness:
  "fine_reach demo_env demo_codec demo_ops demo_machine (\<lambda>_ _. Inr True) undisturbed (cnode_start demo_worker) demo_submitted \<and>
   count (pending (cn_exec demo_submitted) (cn_pool demo_submitted)) (tx_get_primary_hash demo_env demo_signed_tx) = 1"
proof -
  have r: "fine_reach demo_env demo_codec demo_ops demo_machine (\<lambda>_ _. Inr True) undisturbed (cnode_start demo_worker) demo_submitted"
    by (rule demo_submitted_reach)
  with pending_once_with_payload [OF mem.merkledb_api_axioms demo_chain r [unfolded demo_worker_def demo_ops_def],
      of "tx_get_primary_hash demo_env demo_signed_tx"] show ?thesis by (simp add: demo_submitted_pool)
qed

end
