(* ===== verification/Indexing.thy ===== *)
theory Indexing
  imports Ledger HostFunc Indexer
begin

text \<open>
  The blocks of \<^verbatim>\<open>src/wm/host_func.rs\<close> and \<^verbatim>\<open>src/blockchain/executor.rs\<close> that the feature \<open>indexer\<close> compiles in: each asset
  update is noted by the host function, stamped by the executor with its transaction and its block, and handed to the
  indexer when the block is merged. With the feature \<open>Wm::call\<close> takes one more argument, the vector it appends the
  updates to: \<open>P\<close> gives what a call appends, on the arguments of the call. The functions here compute what the
  feature adds, beside those of theory \<open>Executor\<close>, on the same runs.
\<close>

section \<open>The host function\<close>

text \<open>\<open>store_asset\<close> with the feature: the balance before is read first, the contract's hash at the end.\<close>

definition hf_store_asset_indexed ::
    "env \<Rightarrow> ('d, 'f) db_ops \<Rightarrow> string \<Rightarrow> bytes \<Rightarrow> ('w, 'f) call_context \<times> store_asset_db list \<Rightarrow>
     ('w, 'f) call_context \<times> store_asset_db list" where
  "hf_store_asset_indexed E D account_id val s =
     (case s of (c, db) \<Rightarrow>
        if account_id = [] then (c, db)
        else (let prev_amount = account_load_asset (account_or_new D (cc_fork c) account_id) (cc_owner c);
                  c1 = hf_store_asset E D account_id val c
              in (c1, db @ [\<lparr>sa_account = account_id, sa_origin = cc_origin c1, sa_asset = cc_owner c1,
                     sa_prev_amount = prev_amount, sa_amount = val, sa_method = cc_method c1, sa_tx_hash = hash_default,
                     sa_smartcontract_hash = get_smartcontract_hash D c1, sa_block_height = 0,
                     sa_block_hash = hash_default, sa_block_timestamp = cc_block_timestamp c1\<rparr>])))"

section \<open>The executor\<close>

type_synonym ('w, 'f) pushes = "call_args \<Rightarrow> smart_contract_event list \<Rightarrow> ('w, 'f) mach \<Rightarrow> store_asset_db list"

definition stamp_tx :: "hash \<Rightarrow> store_asset_db list \<Rightarrow> store_asset_db list" where
  "stamp_tx h = map (\<lambda>d. d\<lparr>sa_tx_hash := h\<rparr>)"

text \<open>\<open>store_asset_db\<close> of a unit transaction: what its call appended, whatever the result of the call.\<close>

definition ix_unit ::
    "env \<Rightarrow> ('w, 'f) wm_ops \<Rightarrow> ('w, 'f) pushes \<Rightarrow> signed_transaction \<Rightarrow> u64 \<Rightarrow> ('w, 'f) mach \<Rightarrow> store_asset_db list" where
  "ix_unit E W P tx ts m =
     (let d = st_data tx
      in case wm_app_hash_check W (get_contract d) (tx_ctx_args E d) ts m of
           Some (m1, Inr h) \<Rightarrow> stamp_tx (data_hash E d) (P (tx_call_args E d h ts) [] m1)
         | _ \<Rightarrow> [])"

text \<open>The call of the root or of a node of a bulk: if it succeeds its updates are added under the hash of the bulk, and the
  rest follows.\<close>

definition ix_called ::
    "env \<Rightarrow> ('w, 'f) wm_ops \<Rightarrow> ('w, 'f) pushes \<Rightarrow> hash \<Rightarrow> transaction_data \<Rightarrow> hash \<Rightarrow> u64 \<Rightarrow> ('w, 'f) mach \<Rightarrow>
     (('w, 'f) mach \<Rightarrow> store_asset_db list) \<Rightarrow> store_asset_db list" where
  "ix_called E W P bulk_hash d h ts m rest =
     (case wm_call W (tx_call_args E d h ts) [] m of
        None \<Rightarrow> []
      | Some (m1, _, _, result) \<Rightarrow>
          (case result of
             Inl _ \<Rightarrow> []
           | Inr _ \<Rightarrow> stamp_tx bulk_hash (P (tx_call_args E d h ts) [] m) @ rest m1))"

text \<open>The nodes of a bulk; the updates of those before one that fails are kept.\<close>

fun ix_nodes ::
    "env \<Rightarrow> ('w, 'f) wm_ops \<Rightarrow> ('w, 'f) pushes \<Rightarrow> hash \<Rightarrow> u64 \<Rightarrow> signed_transaction list \<Rightarrow> ('w, 'f) mach \<Rightarrow> store_asset_db list" where
  "ix_nodes E W P bulk_hash ts [] m = []"
| "ix_nodes E W P bulk_hash ts (node # nodes) m =
     (let d = st_data node
      in case wm_app_hash_check W (get_contract d) (tx_ctx_args E d) ts m of
           None \<Rightarrow> []
         | Some (m1, app_hash) \<Rightarrow>
             (case app_hash of
                Inl e \<Rightarrow> ix_nodes E W P bulk_hash ts nodes m1
              | Inr h \<Rightarrow> ix_called E W P bulk_hash d h ts m1 (ix_nodes E W P bulk_hash ts nodes)))"

definition ix_root ::
    "env \<Rightarrow> ('w, 'f) wm_ops \<Rightarrow> ('w, 'f) pushes \<Rightarrow> hash \<Rightarrow> transaction_data \<Rightarrow> u64 \<Rightarrow> ('w, 'f) mach \<Rightarrow>
     (('w, 'f) mach \<Rightarrow> store_asset_db list) \<Rightarrow> store_asset_db list" where
  "ix_root E W P bulk_hash root ts m rest =
     (case root of
        BulkRootV1 d \<Rightarrow>
          (case wm_app_hash_check W (td_contract d) (tx_ctx_args E root) ts m of
             None \<Rightarrow> []
           | Some (m1, app_hash) \<Rightarrow>
               (case app_hash of Inl _ \<Rightarrow> [] | Inr h \<Rightarrow> ix_called E W P bulk_hash root h ts m1 rest))
      | BulkEmpyRoot _ \<Rightarrow> rest m
      | _ \<Rightarrow> [])"

definition ix_bulk ::
    "env \<Rightarrow> ('w, 'f) wm_ops \<Rightarrow> ('w, 'f) pushes \<Rightarrow> bulk_transaction \<Rightarrow> u64 \<Rightarrow> ('w, 'f) mach \<Rightarrow> store_asset_db list" where
  "ix_bulk E W P tx ts m =
     (let bulk_hash = data_hash E (bt_data tx)
      in case bt_data tx of
           BulkV1 (BulkTransactions (UnsignedTransaction root) nodes) \<Rightarrow>
             ix_root E W P bulk_hash root ts m
               (\<lambda>m1. case nodes of None \<Rightarrow> [] | Some ns \<Rightarrow> ix_nodes E W P bulk_hash ts ns m1)
         | _ \<Rightarrow> [])"

definition ix_handle ::
    "env \<Rightarrow> ('w, 'f) wm_ops \<Rightarrow> ('w, 'f) pushes \<Rightarrow> transaction \<Rightarrow> u64 \<Rightarrow> ('w, 'f) mach \<Rightarrow> store_asset_db list" where
  "ix_handle E W P tx ts m =
     (case tx of UnitTransaction t \<Rightarrow> ix_unit E W P t ts m | BulkTransaction t \<Rightarrow> ix_bulk E W P t ts m)"

text \<open>\<open>exec_transaction\<close> appends them to the indexer's data if the fuel could be burned.\<close>

definition ix_transaction ::
    "env \<Rightarrow> ('d, 'f) db_ops \<Rightarrow> ('w, 'f) wm_ops \<Rightarrow> ('w, 'f) pushes \<Rightarrow> transaction \<Rightarrow> u64 \<Rightarrow> u32 \<Rightarrow> string \<Rightarrow> u64 \<Rightarrow>
     ('d, 'w) executor \<Rightarrow> 'f \<Rightarrow> store_asset_db list" where
  "ix_transaction E D W P tx height index mthd ts x f =
     (let m = get_mach x (fk_flush D f)
      in case (case tx of
                 UnitTransaction t \<Rightarrow> handle_unit_transaction E D W t height index [] ts m
               | BulkTransaction t \<Rightarrow> handle_bulk_transaction E D W t height index [] ts m) of
           None \<Rightarrow> []
         | Some (m1, res) \<Rightarrow>
             (case try_burn_fuel E D W mthd (hr_burn_fuel_args res) ts m1 of
                Some (_, True, _) \<Rightarrow> ix_handle E W P tx ts m
              | _ \<Rightarrow> []))"

fun ix_transactions ::
    "env \<Rightarrow> ('d, 'f) db_ops \<Rightarrow> ('w, 'f) wm_ops \<Rightarrow> ('w, 'f) pushes \<Rightarrow> (nat \<Rightarrow> bool) \<Rightarrow> u64 \<Rightarrow> u64 \<Rightarrow> nat \<Rightarrow> hash list \<Rightarrow>
     ('d, 'w) executor \<Rightarrow> 'f \<Rightarrow> store_asset_db list" where
  "ix_transactions E D W P closed height ts i [] x f = []"
| "ix_transactions E D W P closed height ts i (h # hs) x f =
     (case pl_txs (ex_pool x) h of
        Some (Some tx) \<Rightarrow>
          (case exec_transaction E D W closed tx height (of_nat i) (ex_burn_fuel_method x) ts x f of
             None \<Rightarrow> []
           | Some (x1, f1, rx) \<Rightarrow>
               ix_transaction E D W P tx height (of_nat i) (ex_burn_fuel_method x) ts x f @
               ix_transactions E D W P closed height ts (Suc i) hs x1
                 (fk_store_receipt D (fk_store_transaction D f1 h tx) h rx))
      | _ \<Rightarrow> [])"

definition stamp_block :: "u64 \<Rightarrow> hash \<Rightarrow> store_asset_db list \<Rightarrow> store_asset_db list" where
  "stamp_block height h = map (\<lambda>d. d\<lparr>sa_block_height := height, sa_block_hash := h\<rparr>)"

text \<open>\<open>exec_block\<close> with the feature: the data of the block before are dropped, and those of this one are written once it is
  merged. A block that fails leaves its data, unwritten, until the next one. The last result are the writes to the external
  database that are started.\<close>

definition exec_block_indexed ::
    "env \<Rightarrow> ('d, 'f) db_ops \<Rightarrow> ('w, 'f) wm_ops \<Rightarrow> ('w, 'f) pushes \<Rightarrow> indexer_env \<Rightarrow> (nat \<Rightarrow> bool) \<Rightarrow>
     ('d \<Rightarrow> string \<Rightarrow> bool result) \<Rightarrow> bool \<Rightarrow> u64 \<Rightarrow> hash list \<Rightarrow> hash \<Rightarrow> block_values \<Rightarrow> ('d, 'w) executor \<Rightarrow> indexer \<Rightarrow>
     indexer_statics \<Rightarrow> (('d, 'w) executor \<times> hash result \<times> indexer \<times> indexer_statics \<times> index_write list) option" where
  "exec_block_indexed E D W P X closed is_val is_validator height hs prev_hash bv x ix st =
     (case exec_block E D W closed is_val is_validator height hs prev_hash bv x of
        None \<Rightarrow> None
      | Some (x', r) \<Rightarrow>
          (let ix0 = clear_data ix;
               ix1 = ix0\<lparr>ix_data := ix_data ix0 @
                 ix_transactions E D W P closed height (bv_timestamp bv) 0 hs x (db_fork_create D (ex_db x))\<rparr>
           in Some (case r of
                      Inl e \<Rightarrow> (x', Inl e, ix1, st, [])
                    | Inr h \<Rightarrow>
                        (let ix2 = ix1\<lparr>ix_data := stamp_block height h (ix_data ix1)\<rparr>;
                             stored = store_data E X ix2 st
                         in (x', Inr h, ix2, fst stored, [snd stored])))))"

section \<open>Which transaction an update belongs to\<close>

lemma stamp_tx_hash: "d \<in> set (stamp_tx h ds) \<Longrightarrow> sa_tx_hash d = h"
  by (auto simp: stamp_tx_def)

lemma ix_called_hash:
  assumes "d \<in> set (ix_called E W P h dat ah ts m rest)" and "\<And>m1. d \<in> set (rest m1) \<Longrightarrow> sa_tx_hash d = h"
  shows "sa_tx_hash d = h"
proof (cases "wm_call W (tx_call_args E dat ah ts) [] m")
  case (Some r)
  obtain m1 evs fuel res where "r = (m1, evs, fuel, res)" by (cases r)
  with Some assms stamp_tx_hash show ?thesis by (cases res) (auto simp: ix_called_def)
qed (use assms in \<open>simp add: ix_called_def\<close>)

lemma ix_nodes_hash: "d \<in> set (ix_nodes E W P h ts nodes m) \<Longrightarrow> sa_tx_hash d = h"
proof (induction nodes arbitrary: m)
  case (Cons node nodes)
  show ?case
  proof (cases "wm_app_hash_check W (get_contract (st_data node)) (tx_ctx_args E (st_data node)) ts m")
    case (Some r)
    obtain m1 ah where "r = (m1, ah)" by (cases r)
    with Some Cons ix_called_hash show ?thesis by (cases ah) (fastforce simp: Let_def)+
  qed (use Cons.prems in \<open>simp add: Let_def\<close>)
qed simp

lemma ix_unit_hash:
  assumes "d \<in> set (ix_unit E W P tx ts m)"
  shows "sa_tx_hash d = data_hash E (st_data tx)"
proof (cases "wm_app_hash_check W (get_contract (st_data tx)) (tx_ctx_args E (st_data tx)) ts m")
  case (Some r)
  obtain m1 ah where "r = (m1, ah)" by (cases r)
  with Some assms stamp_tx_hash show ?thesis by (cases ah) (auto simp: ix_unit_def Let_def)
qed (use assms in \<open>simp add: ix_unit_def Let_def\<close>)

lemma ix_root_hash:
  assumes "d \<in> set (ix_root E W P h root ts m rest)" and "\<And>m1. d \<in> set (rest m1) \<Longrightarrow> sa_tx_hash d = h"
  shows "sa_tx_hash d = h"
proof (cases root)
  case (BulkRootV1 dat)
  show ?thesis
  proof (cases "wm_app_hash_check W (td_contract dat) (tx_ctx_args E root) ts m")
    case (Some r)
    obtain m1 ah where "r = (m1, ah)" by (cases r)
    with Some BulkRootV1 assms ix_called_hash show ?thesis by (cases ah) (fastforce simp: ix_root_def)+
  qed (use assms BulkRootV1 in \<open>simp add: ix_root_def\<close>)
qed (use assms in \<open>auto simp: ix_root_def\<close>)

lemma ix_bulk_hash:
  assumes "d \<in> set (ix_bulk E W P tx ts m)"
  shows "sa_tx_hash d = data_hash E (bt_data tx)"
proof (cases "bt_data tx")
  case (BulkV1 b)
  then obtain root nodes where "bt_data tx = BulkV1 (BulkTransactions (UnsignedTransaction root) nodes)"
    by (metis bulk_transactions.exhaust unsigned_transaction.exhaust)
  with assms have "d \<in> set (ix_root E W P (data_hash E (bt_data tx)) root ts m
      (\<lambda>m1. case nodes of None \<Rightarrow> [] | Some ns \<Rightarrow> ix_nodes E W P (data_hash E (bt_data tx)) ts ns m1))"
    by (simp add: ix_bulk_def Let_def cong: option.case_cong)
  then show ?thesis by (rule ix_root_hash) (auto simp: ix_nodes_hash split: option.split_asm)
qed (use assms in \<open>simp_all add: ix_bulk_def Let_def\<close>)

lemma ix_transaction_hash:
  assumes "d \<in> set (ix_transaction E D W P tx ht i mthd ts x f)"
  shows "sa_tx_hash d = tx_get_primary_hash E tx"
proof -
  from assms have "d \<in> set (ix_handle E W P tx ts (get_mach x (fk_flush D f)))"
    by (auto simp: ix_transaction_def Let_def split: option.splits prod.splits bool.splits)
  then show ?thesis
    by (cases tx) (auto simp: ix_handle_def tx_get_primary_hash_def tx_data_def ix_unit_hash ix_bulk_hash)
qed

text \<open>The hash of the payload that the pool has for a hash.\<close>

definition payload_hash :: "env \<Rightarrow> pool \<Rightarrow> hash \<Rightarrow> hash" where
  "payload_hash E p h = (case pl_txs p h of Some (Some tx) \<Rightarrow> tx_get_primary_hash E tx | _ \<Rightarrow> hash_default)"

lemma ix_transactions_hashes:
  assumes "exec_transactions E D W closed ht ts i hs x f = Some (x', f', rxs)"
  shows "\<exists>ns. length ns = length hs \<and>
    map sa_tx_hash (ix_transactions E D W P closed ht ts i hs x f) = concat (map2 replicate ns (map (payload_hash E (ex_pool x)) hs))"
  using assms
proof (induction hs arbitrary: i x f rxs)
  case (Cons h hs)
  from Cons.prems show ?case
  proof (cases rule: exec_transactions_Cons)
    case (1 tx x1 f1 rx rxs')
    let ?d = "ix_transaction E D W P tx ht (of_nat i) (ex_burn_fuel_method x) ts x f"
    let ?f = "fk_store_receipt D (fk_store_transaction D f1 h tx) h rx"
    from Cons.IH [OF 1(3)] obtain ns where ns: "length ns = length hs" "map sa_tx_hash (ix_transactions E D W P closed ht ts (Suc i) hs x1 ?f) =
      concat (map2 replicate ns (map (payload_hash E (ex_pool x1)) hs))" by blast
    have "map sa_tx_hash ?d = replicate (length ?d) (tx_get_primary_hash E tx)"
      using ix_transaction_hash by (intro replicate_eqI) auto
    moreover have "ex_pool x1 = ex_pool x" using exec_transaction_shared [OF 1(2)] by (simp add: same_shared_def)
    moreover have "payload_hash E (ex_pool x) h = tx_get_primary_hash E tx" using 1(1) by (simp add: payload_hash_def)
    ultimately show ?thesis using ns 1(1,2) by (intro exI [of _ "length ?d # ns"]) simp
  qed
qed simp

lemma remdups_adj_replicate_append:
  "k \<notin> set xs \<Longrightarrow> remdups_adj (replicate n k @ xs) = (if n = 0 then remdups_adj xs else k # remdups_adj xs)"
proof (induction n)
  case (Suc n)
  then show ?case by (cases n; cases xs) auto
qed simp

lemma distinct_runs:
  "distinct ks \<Longrightarrow> length ns = length ks \<Longrightarrow> distinct (remdups_adj (concat (map2 replicate ns ks)))"
proof (induction ks arbitrary: ns)
  case (Cons k ks)
  then obtain n ns' where ns: "ns = n # ns'" "length ns' = length ks" by (cases ns) auto
  have "k \<notin> set (concat (map2 replicate ns' ks))" using Cons.prems(1) by (auto dest: set_zip_rightD)
  with Cons.IH [OF _ ns(2)] Cons.prems(1) show ?case by (simp add: ns remdups_adj_replicate_append)
qed simp

section \<open>Properties\<close>

lemma exec_block_transactions:
  assumes "exec_block E D W closed is_val iv ht hs prev bv x = Some (x', r)"
  obtains x1 f1 rxs where
    "exec_transactions E D W closed ht (bv_timestamp bv) 0 hs x (db_fork_create D (ex_db x)) = Some (x1, f1, rxs)"
  using assms by (auto simp: exec_block_def bind_eq_Some_conv)

text \<open>C38. What the indexer writes of a block. A block that fails starts no write to the external database, and keeps the
  counters. A block that is merged starts one, to the configured database, of the JSON text with one document for each
  asset update of the block's transactions, in order; every update carries the height and the hash of that block and the hash of one
  of its transactions. If moreover the payloads of the block have distinct hashes and the sequence numbers do not wrap around,
  the documents of the block are told apart by the hash of their transaction and their sequence number.
\<close>

theorem indexed_block:
  assumes "exec_block_indexed E D W P X closed is_val iv ht hs prev bv x ix st = Some (x', r, ix', st', writes)"
  shows "case r of
      Inl e \<Rightarrow> st' = st \<and> writes = []
    | Inr h \<Rightarrow>
        ix_data ix' = stamp_block ht h
          (ix_transactions E D W P closed ht (bv_timestamp bv) 0 hs x (db_fork_create D (ex_db x))) \<and>
        writes = [(str_bytes ([CHR ''{'', CHR 0x22] @ ''docs'' @ [CHR 0x22] @ '': ['' @
          comma_separated (documents E X (ix_data ix') st) @ '']}''), ix_config ix)] \<and>
        length (documents E X (ix_data ix') st) = length (ix_data ix') \<and>
        (\<forall>d \<in> set (ix_data ix'). sa_block_height d = ht \<and> sa_block_hash d = h \<and>
           sa_tx_hash d \<in> payload_hash E (ex_pool x) ` set hs) \<and>
        (distinct (map (payload_hash E (ex_pool x)) hs) \<and> unat (is_sequence st) + length (ix_data ix') < 2 ^ 64 \<longrightarrow>
         distinct (zip (map sa_tx_hash (ix_data ix')) (snd (sequences (map sa_tx_hash (ix_data ix')) st))))"
proof -
  let ?data = "ix_transactions E D W P closed ht (bv_timestamp bv) 0 hs x (db_fork_create D (ex_db x))"
  let ?ks = "map (payload_hash E (ex_pool x)) hs"
  from assms have b: "exec_block E D W closed is_val iv ht hs prev bv x = Some (x', r)"
    by (auto simp: exec_block_indexed_def Let_def split: option.split_asm prod.split_asm sum.split_asm)
  from exec_block_transactions [OF b] obtain x1 f1 rxs where
    "exec_transactions E D W closed ht (bv_timestamp bv) 0 hs x (db_fork_create D (ex_db x)) = Some (x1, f1, rxs)" .
  from ix_transactions_hashes [OF this, of P] obtain ns where ns: "length ns = length hs"
    "map sa_tx_hash ?data = concat (map2 replicate ns ?ks)" by blast
  have sub: "set (map sa_tx_hash ?data) \<subseteq> set ?ks" unfolding ns(2) by (auto dest: set_zip_rightD)
  show ?thesis
  proof (cases r)
    case (Inl e)
    with assms b show ?thesis by (auto simp: exec_block_indexed_def Let_def)
  next
    case (Inr h)
    with assms b have ix': "ix_data ix' = stamp_block ht h ?data" "ix_config ix' = ix_config ix"
      "writes = [snd (store_data E X ix' st)]"
      by (auto simp: exec_block_indexed_def Let_def clear_data_def)
    then have tx: "map sa_tx_hash (ix_data ix') = map sa_tx_hash ?data" by (simp add: stamp_block_def comp_def)
    have "distinct (remdups_adj (map sa_tx_hash (ix_data ix')))" if "distinct ?ks"
      unfolding tx ns(2) using distinct_runs [OF that, of ns] ns(1) by simp
    then have "distinct (zip (map sa_tx_hash (ix_data ix')) (snd (sequences (map sa_tx_hash (ix_data ix')) st)))"
      if "distinct ?ks" "unat (is_sequence st) + length (ix_data ix') < 2 ^ 64"
      using sequences_distinct that by simp
    moreover have "snd (store_data E X ix' st) = (str_bytes (snd (prepare_json_for_db E X ix' st)), ix_config ix')"
      by (simp add: store_data_def split: prod.split)
    moreover have "\<forall>d \<in> set (ix_data ix'). sa_block_height d = ht \<and> sa_block_hash d = h \<and> sa_tx_hash d \<in> set ?ks"
      using sub ix'(1) by (auto simp: stamp_block_def)
    ultimately show ?thesis
      using Inr ix' by (simp add: prepare_json_spec documents_def length_sequences)
  qed
qed

text \<open>C39. Updates that were rolled back are indexed. When the call of a transaction fails, the executor rolls the fork back, so the
  transaction leaves no trace in the database; but the asset updates its contract had made before failing stay in
  \<open>store_asset_db\<close> and, since the fuel is burned (here: no burning method is set), they are appended to the indexer's data like those
  of a transaction that succeeded.
\<close>

theorem rolled_back_updates_are_indexed:
  assumes "wm_contract E D snap absf dinv W"
    and "wm_app_hash_check W (get_contract (st_data tx)) (tx_ctx_args E (st_data tx)) ts (get_mach x (fk_flush D f)) = Some (m1, Inr h)"
    and "wm_call W (tx_call_args E (st_data tx) h ts) [] m1 = Some (m2, evs, fuel, Inl err)"
    and "exec_transaction E D W closed (UnitTransaction tx) ht i [] ts x f = Some (x', f', rx)"
  shows "\<not> rx_success rx \<and> fa_view (absf f') = fa_view (absf f) \<and>
    ix_transaction E D W P (UnitTransaction tx) ht i [] ts x f =
      stamp_tx (data_hash E (st_data tx)) (P (tx_call_args E (st_data tx) h ts) [] m1)"
proof -
  let ?m = "get_mach x (fk_flush D f)"
  let ?h = "handle_unit_transaction E D W tx ht i [] ts ?m"
  from assms(4) obtain m3 res where h: "?h = Some (m3, res)" by (cases ?h) (auto simp: exec_transaction_def Let_def)
  with assms(2,3) have fail: "\<not> rx_success (hr_receipt res)"
    by (auto simp: handle_unit_transaction_def Let_def bind_eq_Some_conv)
  from h assms(4) have rx: "\<not> rx_success rx" using fail
    by (auto simp: exec_transaction_def Let_def try_burn_fuel_def)
  have "resolved E W (UnitTransaction tx) ts ?m" using assms(2) by (simp add: resolved_def)
  from wm_contract.exec_transaction_failed [OF assms(1,4) this rx] have "fa_view (absf f') = fa_view (absf f)" by blast
  moreover have "ix_transaction E D W P (UnitTransaction tx) ht i [] ts x f =
      stamp_tx (data_hash E (st_data tx)) (P (tx_call_args E (st_data tx) h ts) [] m1)"
    using h assms(2) by (simp add: ix_transaction_def ix_handle_def ix_unit_def Let_def try_burn_fuel_def)
  ultimately show ?thesis using rx by blast
qed

text \<open>A machine whose calls store one asset, and what they append.\<close>

definition demo_pushes :: "(unit, fork_abs) pushes" where
  "demo_pushes a evs m =
     [\<lparr>sa_account = ca_owner a, sa_origin = ca_origin a, sa_asset = ca_owner a, sa_prev_amount = [], sa_amount = ca_args a,
       sa_method = ca_method a, sa_tx_hash = hash_default, sa_smartcontract_hash = ca_contract a, sa_block_height = 0,
       sa_block_hash = hash_default, sa_block_timestamp = ca_block_timestamp a\<rparr>]"

definition demo_indexer_env :: indexer_env where
  "demo_indexer_env = \<lparr>ix_from_slice = (\<lambda>_. Inl []), ix_to_string = (\<lambda>_. []), ix_uuid = (\<lambda>_. []), ix_curl = (\<lambda>_ _ _. Inr ())\<rparr>"

theorem indexed_block_witness:
  "\<exists>x' h ix' st' body. exec_block_indexed demo_env demo_D (demo_wm demo_D) demo_pushes demo_indexer_env (\<lambda>_. False) (\<lambda>_ _. Inr True) True 0
     [hash_default] hash_default demo_values demo_executor (indexer_new indexer_config_default)
     \<lparr>is_prev_hash = None, is_sequence = 0, is_uuids = 0\<rparr> = Some (x', Inr h, ix', st', [(body, indexer_config_default)]) \<and>
   ix_data ix' \<noteq> [] \<and> (\<forall>d \<in> set (ix_data ix'). sa_block_hash d = h) \<and>
   distinct (zip (map sa_tx_hash (ix_data ix'))
     (snd (sequences (map sa_tx_hash (ix_data ix')) \<lparr>is_prev_hash = None, is_sequence = 0, is_uuids = 0\<rparr>)))"
proof -
  have x: "demo_executor\<lparr>ex_pool := demo_confirmed\<rparr> = demo_executor" by (simp add: demo_executor_def executor_new_def)
  obtain x' h where b: "exec_block demo_env demo_D (demo_wm demo_D) (\<lambda>_. False) (\<lambda>_ _. Inr True) True 0
      [hash_default] hash_default demo_values demo_executor = Some (x', Inr h)"
    using demo_exec_block [of demo_confirmed "\<lambda>_ _. Inr True" True] x by auto
  let ?st = "\<lparr>is_prev_hash = None, is_sequence = 0, is_uuids = 0\<rparr>"
  obtain ix' st' writes where i: "exec_block_indexed demo_env demo_D (demo_wm demo_D) demo_pushes demo_indexer_env (\<lambda>_. False) (\<lambda>_ _. Inr True) True 0
     [hash_default] hash_default demo_values demo_executor (indexer_new indexer_config_default) ?st = Some (x', Inr h, ix', st', writes)"
    by (simp add: exec_block_indexed_def b Let_def)
  have one: "length (ix_transactions demo_env demo_D (demo_wm demo_D) demo_pushes (\<lambda>_. False) 0 (bv_timestamp demo_values) 0 [hash_default]
      demo_executor (db_fork_create demo_D (ex_db demo_executor))) = 1"
    by (simp add: Let_def ix_transaction_def ix_handle_def ix_unit_def demo_pushes_def demo_eval stamp_tx_def)
  note block = indexed_block [OF i, simplified sum.case]
  with one have "length (ix_data ix') = 1" by (simp add: stamp_block_def del: ix_transactions.simps)
  with block i show ?thesis by (auto simp: indexer_new_def simp del: ix_transactions.simps)
qed

theorem rolled_back_updates_are_indexed_witness:
  "let tx = SignedTransaction (V1 (demo_v1\<lparr>td_contract := Some hash_default, td_method := ''fail''\<rparr>)) [];
       f = db_fork_create demo_D (ex_db demo_executor)
   in \<exists>x' f' rx. exec_transaction demo_env demo_D (demo_wm demo_D) (\<lambda>_. False) (UnitTransaction tx) 0 0 [] 0 demo_executor f = Some (x', f', rx) \<and>
      fa_view f' = fa_view f \<and>
      length (ix_transaction demo_env demo_D (demo_wm demo_D) demo_pushes (UnitTransaction tx) 0 0 [] 0 demo_executor f) = 1"
proof -
  let ?tx = "SignedTransaction (V1 (demo_v1\<lparr>td_contract := Some hash_default, td_method := ''fail''\<rparr>)) []"
  let ?f = "db_fork_create demo_D (ex_db demo_executor)" and ?m = "get_mach demo_executor (fk_flush demo_D (db_fork_create demo_D (ex_db demo_executor)))"
  have 1: "wm_app_hash_check (demo_wm demo_D) (get_contract (st_data ?tx)) (tx_ctx_args demo_env (st_data ?tx)) 0 ?m = Some (?m, Inr hash_default)"
    by (simp add: demo_wm_def)
  obtain m2 evs fuel where 2: "wm_call (demo_wm demo_D) (tx_call_args demo_env (st_data ?tx) hash_default 0) [] ?m =
      Some (m2, evs, fuel, Inl (error_new WasmMachineFault))"
    by (simp add: demo_wm_def tx_call_args_def)
  have "\<exists>x' f' rx. exec_transaction demo_env demo_D (demo_wm demo_D) (\<lambda>_. False) (UnitTransaction ?tx) 0 0 [] 0 demo_executor ?f = Some (x', f', rx)"
    using 1 2 by (simp add: exec_transaction_def handle_unit_transaction_def try_burn_fuel_def failure_message_def error_new_def Let_def)
  then obtain x' f' rx where 3: "exec_transaction demo_env demo_D (demo_wm demo_D) (\<lambda>_. False) (UnitTransaction ?tx) 0 0 [] 0 demo_executor ?f = Some (x', f', rx)"
    by blast
  from rolled_back_updates_are_indexed [OF demo_contract 1 2 3, of demo_pushes] 3 show ?thesis
    by (simp add: Let_def stamp_tx_def demo_pushes_def)
qed

end
