(* ===== verification/Spec2Isabelle.thy ===== *)
theory Spec2Isabelle
  imports Errors Channel Requests Ledger Node Assets ReadOnly Bridge Rest Routes P2p P2pWorker Replica Progress Services Kafka Monitor
    Indexer Wire Keys Tpm Flooding Payloads Indexing
begin

text \<open>
  This library models the core of a TRINCI node (the crate under \<open>src/src\<close>): the data that nodes
  exchange and store, the database, the pool of waiting transactions, the machine that runs smart
  contracts, the parts that work on them (dispatcher, builder, executor, aligner and worker), and the services around
  them: the network, the bridge, the REST server, Kafka, the monitor and the indexer.

  \<^bold>\<open>How the program works.\<close> Clients and peers send messages (\<open>blockchain/message.rs\<close>) to the worker
  (\<open>blockchain/worker.rs\<close>), which hands each to the dispatcher (\<open>blockchain/dispatcher.rs\<close>). A transaction
  is checked and put in the pool (\<open>blockchain/pool.rs\<close>); a block announced by a peer is put in the pool
  or starts an alignment. On a validator, the builder (\<open>blockchain/builder.rs\<close>) moves unconfirmed
  transactions from the queue (\<open>base/queue_set.rs\<close>) into confirmed blocks. The executor
  (\<open>blockchain/executor.rs\<close>) takes the next confirmed block, runs its transactions through the wasm
  machine (\<open>wm/mod.rs\<close>, \<open>wm/local.rs\<close>) on a fork of the database (\<open>db/mod.rs\<close>, \<open>db/rocks.rs\<close>), and merges the
  fork; contracts reach the node through the host functions (\<open>wm/host_func.rs\<close>). When the dispatcher finds the
  node behind its peers, the aligner (\<open>blockchain/aligner.rs\<close>) downloads the blocks that are missing.
  Events are published to subscribers (\<open>blockchain/pubsub.rs\<close>). The services talk to the worker through channels
  (\<open>channel.rs\<close>); each runs in a thread of its own (\<open>*/service.rs\<close>).

  \<^bold>\<open>Theories.\<close>
  \<^item> \<open>Prelude\<close>: the integers of the source as words, MessagePack values (\<open>mp_value\<close>), ordered maps
    (\<open>BTreeMap\<close>) as sorted association lists, results, and the collections of simplification rules.
  \<^item> \<open>Errors\<close> (\<open>error.rs\<close>): kinds and errors, their wire form, printing. A panic is \<open>None\<close>.
  \<^item> \<open>Crypto\<close> (\<open>crypto/hash.rs\<close>, \<open>sign.rs\<close>, \<open>ecdsa.rs\<close>, \<open>ed25519.rs\<close>): multihashes, keys, account
    identifiers. What the program takes from other crates (SHA-256, signing, verification, hex, base58, the
    MessagePack writer) is the record \<open>env\<close>, an argument named \<open>E\<close> of the definitions that use it.
  \<^item> \<open>QueueSet\<close> (\<open>base/queue_set.rs\<close>), \<open>Drand\<close> (\<open>crypto/drand.rs\<close>), \<open>Channel\<close> (\<open>channel.rs\<close>): the queue
    without repetitions, the seed and the random numbers, and receiving with a timeout. \<open>Requests\<close>: the senders and receivers
    of \<open>channel.rs\<close> over channels of async-std, whose documented behaviour is the locale \<open>async_channel\<close>.
  \<^item> \<open>Keys\<close> (\<open>ecdsa.rs\<close>, \<open>ed25519.rs\<close>), \<open>Tpm\<close> (\<open>crypto/tpm2.rs\<close>): loading keys, signing and verifying, over records and locales
    for the crates ring, ed25519-dalek and tss-esapi.
  \<^item> \<open>Schema\<close> (\<open>base/schema.rs\<close>): transactions, receipts, blocks, accounts, with what serde writes for each.
  \<^item> \<open>Db\<close>: the traits \<open>Db\<close> and \<open>DbFork\<close> as the record \<open>db_ops\<close>; \<open>RocksDb\<close> as \<open>rocks_ops\<close> over a
    record \<open>merkledb\<close> for the third-party crate. The locale \<open>merkledb_api\<close> states what the crate documents
    (views, put, flush, rollback, merge); \<open>db_contract\<close> states what the rest of the program relies on, and
    a sublocale proves it for \<open>rocks_ops\<close>. \<open>mem_merkledb\<close> is an instance that computes.
  \<^item> \<open>Wire\<close>: the readers of serde (\<open>hash.rs\<close>, \<open>pubsub.rs\<close>, \<open>macros.rs\<close>), the keys and values of \<open>rocks.rs\<close> as bytes, the conversions
    of \<open>error.rs\<close>.
  \<^item> \<open>Pool\<close>, \<open>Builder\<close>, \<open>Message\<close>, \<open>PubSub\<close>: the components of the same names.
  \<^item> \<open>Wm\<close> (\<open>wm/mod.rs\<close>): the trait \<open>Wm\<close> as a record of operations; \<open>wm_contract\<close> says that a contract
    changes only accounts, their data and the configuration of the fork it is given.
  \<^item> \<open>Utf8\<close>, \<open>HostFunc\<close> (\<open>wm/host_func.rs\<close>), \<open>WmLocal\<close> (\<open>wm/local.rs\<close>): the conversions of bytes and strings of the
    standard library, the host functions on a call context, and the machine: memory slices, the functions registered
    with the engine, the module cache, calls and the checks of a contract's hash. The wasmtime engine is a
    parameter: a run is a tree (\<open>run\<close>) that ends, traps, or makes a host request and goes on with its answer. A contract that
    calls another nests a machine in a machine; the argument \<open>n\<close> of \<open>wm_local_ops\<close> is the number of levels the
    native stack has room for, and a call below the last one is a stack overflow (\<open>None\<close>). The theorems hold for every \<open>n\<close>.
  \<^item> \<open>Contracts\<close>: the locale \<open>machine_frame\<close>, a relation between forks that the primitive writes of a contract respect, and that
    every call respects it then, whatever the engine does and however contracts call each other. With the relation of all writes to accounts
    this is \<open>wm_contract\<close> on every database that satisfies \<open>db_contract\<close> (a sublocale). \<open>Machine\<close>: the properties of the
    machine. \<open>Assets\<close>: the same locale with the executor on top (\<open>block_frame\<close>), and who can change an asset.
  \<^item> \<open>Executor\<close>: one definition per function of \<open>executor.rs\<close>, whole; \<open>Execution\<close>: what a block and
    a run do, proved in the locale \<open>wm_contract\<close>; \<open>Ledger\<close>: the properties of the executor; \<open>Replica\<close>: a second node that
    runs the block of the first; \<open>Progress\<close>: where a transaction can be between its admission and the chain.
  \<^item> \<open>Dispatcher\<close>: every handler of \<open>dispatcher.rs\<close>; \<open>Dispatching\<close>: its properties.
  \<^item> \<open>Aligner\<close>: every loop of \<open>aligner.rs\<close> as a phase, with a step per turn of the loop; its properties.
  \<^item> \<open>ReadOnly\<close>: \<open>read_only_executor.rs\<close> and the handler of the feature \<open>ro-exec\<close>. What the dispatcher does with a read-only
    request is a field of its parameter \<open>codec\<close>: nothing in a build without the feature, this handler in one with it (\<open>ro_build\<close>).
  \<^item> \<open>Bridge\<close> (\<open>bridge/worker.rs\<close>), \<open>Rest\<close> (\<open>rest/worker.rs\<close>), \<open>P2p\<close> (\<open>p2p/behaviour.rs\<close>, \<open>p2p/worker.rs\<close>): the three ways into the node,
    as clients of the dispatcher. The sockets, the HTTP server and libp2p are outside: a connection is the bytes that come and go,
    with those of the tasks that write events to a clone of it, which interleave with the answers;
    a handler of the REST interface maps a request to a response, a handler of the network maps an event to a list of actions.
    \<open>Routes\<close>: the table of routes. \<open>P2pWorker\<close>: the codec of unicast messages, making the behaviour, and the worker's loop.
  \<^item> \<open>Kafka\<close> (\<open>kafka/worker.rs\<close>), \<open>Monitor\<close> (\<open>network_monitor\<close> and the places that call it), \<open>Indexer\<close> (\<open>blockchain/indexer.rs\<close>,
    \<open>base/serialize.rs\<close>): what a node tells the outside. The optional features are definitions beside the handlers they add to.
  \<^item> \<open>Worker\<close>: the worker as a transition system whose steps are a message, a timer tick, the start
    and the run of the builder and the executor, a turn of the aligner, a change of configuration; \<open>Node\<close>: the safety of every
    reachable state of that transition system, whose tasks are not interleaved, over the database of \<open>rocks.rs\<close> and the machine of \<open>local.rs\<close>.
  \<^item> \<open>Concurrent\<close>: the worker's tasks at the granularity of their locks: a task is a phase with its local variables, a step is one
    region under a lock or one transaction of a block, and the regions of all tasks interleave (\<open>fine_step\<close>).
    \<open>Interleaving\<close>: the invariant of all interleavings; \<open>Lossless\<close>: where a transaction can be in them; \<open>Payloads\<close>: that it is in one place only; \<open>Atomic\<close>: the atomic tasks of
    the theories above are interleavings; \<open>Races\<close>, \<open>Flooding\<close>: the properties, and three interleavings that go wrong.
  \<^item> \<open>Indexing\<close>: the feature \<open>indexer\<close> inside the executor and the host function, which collect what \<open>Indexer\<close> writes. With the feature
    a call has one more output, the updates it appends, which is a parameter.
  \<^item> \<open>Services\<close>: the five services, the polling of the worker's loop, and the locale \<open>service\<close> with what their starts have
    in common. A thread is its status, and the references to the canary are counted; what a thread did meanwhile is an argument of \<open>stop\<close>.

  \<^bold>\<open>What is shown.\<close> The database: a fork refines named maps and lists with one checkpoint and commits
  atomically. The executor: a block is committed entirely or not at
  all, a failed transaction leaves no trace but burnt fuel, the chain only grows and stays linked, a block that
  fails stays in the pool. Two nodes: a follower with the same state that is given the block and whose rule accepts its
  validator reproduces the database, machine and seed. Builder and executor together lose no transaction, atomically and interleaved; a block that replaces another does. The builder: it empties the queue in arrival order into blocks of bounded
  size, and ends if the threshold is positive. The dispatcher: exactly which transactions are
  admitted, and that no message breaks the pool. The machine: contracts change nothing but accounts and
  their data, an asset changes only through code that runs for the account of its name, an account is bound to a contract only as the service contract
  allows, memory is read only within its bounds, the module cache gives what the database would as long as it is coherent. The aligner: it panics only while it formats a log line, gives up on silent peers, and which
  peers it trusts. Read-only calls change nothing, and how their receipt differs from that of the same transaction in a block. The
  interfaces: the bridge answers a client's datagrams in order and what subscriptions add to them, a transaction submitted over HTTP can be fetched, GET requests change nothing, two nodes exchange blocks, how long a message may be, Kafka gets exactly the events it subscribed to. Channels: every answer
  reaches the one who asked. The services: when they run, when their setters are refused, and that the settings stored are the ones served. The node: the invariants of chain and pool in
  every reachable state of whole tasks, and what is left of them in every interleaving of their regions. The indexer: what it writes of a block and when it writes. The data: what is read is well formed and round-trips, the
  identifier of a transaction binds its payload, the identifier of an account its key, signatures verify, integrity of bulks. A few theorems
  state behaviour that differs from what comments or tests say; their text says so.

  \<^bold>\<open>Loops.\<close> The loops of the builder may run forever, so they are partial functions with value \<open>None\<close>
  then, and termination is a theorem. The executor's loop ends because each turn removes a confirmed
  block; the receive loop ends because the time left decreases; nested packed messages are cut at 32 levels
  by the code itself; the aligner's search for the next block ends because fewer than \<open>2 ^ 64\<close> blocks are collected. No
  fuel is used but the stack levels of nested contract calls.

  \<^bold>\<open>Concurrency.\<close> The pool, the database and the other shared structures are behind locks. In \<open>Worker\<close>
  a message, a run of the builder, a run of the executor and a turn of the aligner are each one step; a run may start any
  time after it was triggered, and steps interleave in any order. \<open>Concurrent\<close> cuts them where the code releases a lock: the
  executor between its look at the chain, the taking of a block, the fork, each transaction, the merge, the cleaning of the
  pool and the next check; the builder before each block; a submission between the look into the database and the pool; a
  received block between the test of its height and the queue; the event loop between a check and the flag it sets. The chain, the
  executor's place on it and the tie between queue, blocks and payloads survive every interleaving, and without blocks of peers no
  transaction is lost as long as the executor does not panic, each is in one place at a time, and the executor finds its payloads. Three guarantees of the atomic tasks do not survive: that a
  transaction of the chain is not admitted again, that a run starts only on a block whose payloads are there, and
  that the builder ends. In both views a turn of the aligner is one step, although it takes the pool's lock once per block it
  adds, and an access that the code makes to the publisher's or the machine's lock belongs to the region around it.

  \<^bold>\<open>Not modelled.\<close> What the crates do inside: wasmtime, merkledb, libp2p and its transport, tide's matching of paths, the
  cryptography, async-std, kafka, curl, isahc and tss-esapi are parameters, with locales for what the program relies on.
  Logging, and the functions that format log lines (\<open>log_wm_fuel_consumed\<close>), but for the argument of a log statement that can panic
  (in \<open>Aligner\<close>; the field \<open>e_debug\<close> says whether it is evaluated). What other tasks do between a request of the network and its answer (\<open>ask_service\<close>). The aligner's turns at the granularity of locks. Which
  updates a contract makes inside a call when the feature \<open>indexer\<close> is on: the host function that notes one is modelled, the
  vector a whole call returns is a parameter. The tests, and the modules that only declare others.
\<close>

end
